(* ===== verification/I4B_Prelude.thy ===== *)
theory I4B_Prelude
  imports "HOL-Library.Word"
begin

unbundle bit_operations_syntax

text \<open>
  Shared vocabulary of the development: the fixed-width integer types of the C sources,
  the view of octets as bit lists in transmission order (least significant bit first),
  and the list and word lemmas the components rely on.
\<close>

section \<open>Machine integers of the sources\<close>

type_synonym u8 = "8 word"
type_synonym u16 = "16 word"
type_synonym u32 = "32 word"

named_theorems model_defs \<open>definitions unfolded when a component operation is evaluated\<close>
named_theorems wf_intros \<open>introduction rules of the well-formedness invariants\<close>
named_theorems frame_simps \<open>fields an operation leaves unchanged\<close>

text \<open>The cast \<open>LO8\<close> and the widening casts between the unsigned types.\<close>

abbreviation LO8 :: "u16 \<Rightarrow> u8" where
  "LO8 x \<equiv> ucast x"

abbreviation u16_of_u8 :: "u8 \<Rightarrow> u16" where
  "u16_of_u8 x \<equiv> ucast x"

abbreviation u32_of_u8 :: "u8 \<Rightarrow> u32" where
  "u32_of_u8 x \<equiv> ucast x"

abbreviation u32_of_u16 :: "u16 \<Rightarrow> u32" where
  "u32_of_u16 x \<equiv> ucast x"

abbreviation u8_of_u32 :: "u32 \<Rightarrow> u8" where
  "u8_of_u32 x \<equiv> ucast x"

section \<open>Bits in transmission order\<close>

text \<open>\<open>word_bits k x\<close>: the \<open>k\<close> low bits of \<open>x\<close>, least significant bit first.\<close>

definition word_bits :: "nat \<Rightarrow> 'a::len word \<Rightarrow> bool list" where
  "word_bits k x = map (bit x) [0..<k]"

lemma length_word_bits [simp]: "length (word_bits k x) = k"
  by (simp add: word_bits_def)

lemma nth_word_bits [simp]: "i < k \<Longrightarrow> word_bits k x ! i = bit x i"
  by (simp add: word_bits_def)

lemma word_bits_0 [simp]: "word_bits 0 x = []"
  by (simp add: word_bits_def)

lemma word_bits_eq_iff: "word_bits k x = word_bits k y \<longleftrightarrow> (\<forall>i<k. bit x i = bit y i)"
  by (auto simp: word_bits_def)

lemma word_bits_inject: "word_bits LENGTH('a) x = word_bits LENGTH('a) y \<longleftrightarrow> x = y"
  for x y :: "'a::len word"
  by (auto simp: word_bits_eq_iff intro: bit_word_eqI)

lemma word_bits_add: "word_bits (j + k) x = word_bits j x @ word_bits k (drop_bit j x)"
  by (rule nth_equalityI) (auto simp: nth_append bit_simps)

lemma word_bits_ucast: "k \<le> LENGTH('b) \<Longrightarrow> word_bits k (ucast x :: 'b::len word) = word_bits k x"
  for x :: "'a::len word"
  by (auto simp: word_bits_def bit_simps)

lemma word_bits_take: "k \<le> n \<Longrightarrow> take k (word_bits n x) = word_bits k x"
  by (rule nth_equalityI) auto

section \<open>Bounded arithmetic on words\<close>

lemma all_less_Suc_unfold: "(\<forall>i<Suc n. P i) \<longleftrightarrow> P 0 \<and> (\<forall>i<n. P (Suc i))"
  by (metis less_Suc_eq_0_disj)

lemma unat_u8_less [simp]: "unat (x :: u8) < 256"
proof -
  have "unat x < 2 ^ LENGTH(8)"
    by (rule unsigned_less)
  then show ?thesis
    by simp
qed

lemma unat_u16_less [simp]: "unat (x :: u16) < 65536"
proof -
  have "unat x < 2 ^ LENGTH(16)"
    by (rule unsigned_less)
  then show ?thesis
    by simp
qed

lemma bit_int_255 [simp]: "bit (255 :: int) n \<longleftrightarrow> n < 8"
proof -
  have "(255 :: int) = mask 8"
    by (simp add: mask_eq_exp_minus_1)
  then show ?thesis
    by (simp only: bit_mask_iff) simp
qed

lemma nth_map_word_of_nat [simp]: "map (\<lambda>n. f (word_of_nat n)) [0..<256] ! unat (x :: u8) = f x"
  by (subst nth_map) simp_all

lemma bit_u8_beyond [simp]: "8 \<le> i \<Longrightarrow> \<not> bit (h :: u8) i"
  using bit_imp_le_length [of h i] by auto

lemma u16_split: "c = push_bit 8 (u16_of_u8 (LO8 (drop_bit 8 c))) XOR u16_of_u8 (LO8 c)"
  by (rule bit_word_eqI) (auto simp: bit_simps)


lemma unat_word_of_nat16: "n < 65536 \<Longrightarrow> unat (word_of_nat n :: u16) = n"
  by (simp add: unat_of_nat)

lemma unat_drop_bit_div: "unat (drop_bit n x) = unat x div 2 ^ n"
  unfolding unat_drop_bit_eq by (rule drop_bit_eq_div)

lemma word_bits_or_push:
  fixes t x :: u32
  assumes "drop_bit h t = 0" "drop_bit n x = 0" "h + n \<le> 32"
  shows "word_bits (h + n) (t OR push_bit h x) = word_bits h t @ word_bits n x"
    and "drop_bit (h + n) (t OR push_bit h x) = 0"
proof -
  have t: "\<not> bit t i" if "h \<le> i" for i
    using arg_cong [OF assms(1), of "\<lambda>w. bit w (i - h)"] that by (simp add: bit_simps)
  have x: "\<not> bit x i" if "n \<le> i" for i
    using arg_cong [OF assms(2), of "\<lambda>w. bit w (i - n)"] that by (simp add: bit_simps)
  show "word_bits (h + n) (t OR push_bit h x) = word_bits h t @ word_bits n x"
    using assms(3) by (intro nth_equalityI) (auto simp: nth_append bit_simps t)
  show "drop_bit (h + n) (t OR push_bit h x) = 0"
    by (rule bit_word_eqI) (auto simp: bit_simps t x)
qed

lemma word_bits_split8: "word_bits (8 + n) t = word_bits 8 (u8_of_u32 t) @ word_bits n (drop_bit 8 t)"
  by (simp add: word_bits_add word_bits_ucast)


text \<open>The bits of a sequence of octets in the order they are sent.\<close>

abbreviation octet_bits :: "u8 list \<Rightarrow> bool list" where
  "octet_bits xs \<equiv> concat (map (word_bits 8) xs)"

end
