(* ===== verification/HDLC_Tables.thy ===== *)
theory HDLC_Tables
  imports I4B_Prelude
begin

unbundle bit_operations_syntax

text \<open>
  The lookup tables of \<^verbatim>\<open>src/src/sys/i4b/layer1/i4b_hdlc.c\<close> and what they mean: the frame
  check sequence table is the byte-wise form of the reflected CRC-16 polynomial of
  RFC 1662, and the bit table counts leading and trailing one bits of an octet.
\<close>

section \<open>The tables\<close>

definition HDLC_FCS_TAB :: "u16 list" where
  "HDLC_FCS_TAB = [
     0x0000, 0x1189, 0x2312, 0x329B, 0x4624, 0x57AD, 0x6536, 0x74BF,
     0x8C48, 0x9DC1, 0xAF5A, 0xBED3, 0xCA6C, 0xDBE5, 0xE97E, 0xF8F7,
     0x1081, 0x0108, 0x3393, 0x221A, 0x56A5, 0x472C, 0x75B7, 0x643E,
     0x9CC9, 0x8D40, 0xBFDB, 0xAE52, 0xDAED, 0xCB64, 0xF9FF, 0xE876,
     0x2102, 0x308B, 0x0210, 0x1399, 0x6726, 0x76AF, 0x4434, 0x55BD,
     0xAD4A, 0xBCC3, 0x8E58, 0x9FD1, 0xEB6E, 0xFAE7, 0xC87C, 0xD9F5,
     0x3183, 0x200A, 0x1291, 0x0318, 0x77A7, 0x662E, 0x54B5, 0x453C,
     0xBDCB, 0xAC42, 0x9ED9, 0x8F50, 0xFBEF, 0xEA66, 0xD8FD, 0xC974,
     0x4204, 0x538D, 0x6116, 0x709F, 0x0420, 0x15A9, 0x2732, 0x36BB,
     0xCE4C, 0xDFC5, 0xED5E, 0xFCD7, 0x8868, 0x99E1, 0xAB7A, 0xBAF3,
     0x5285, 0x430C, 0x7197, 0x601E, 0x14A1, 0x0528, 0x37B3, 0x263A,
     0xDECD, 0xCF44, 0xFDDF, 0xEC56, 0x98E9, 0x8960, 0xBBFB, 0xAA72,
     0x6306, 0x728F, 0x4014, 0x519D, 0x2522, 0x34AB, 0x0630, 0x17B9,
     0xEF4E, 0xFEC7, 0xCC5C, 0xDDD5, 0xA96A, 0xB8E3, 0x8A78, 0x9BF1,
     0x7387, 0x620E, 0x5095, 0x411C, 0x35A3, 0x242A, 0x16B1, 0x0738,
     0xFFCF, 0xEE46, 0xDCDD, 0xCD54, 0xB9EB, 0xA862, 0x9AF9, 0x8B70,
     0x8408, 0x9581, 0xA71A, 0xB693, 0xC22C, 0xD3A5, 0xE13E, 0xF0B7,
     0x0840, 0x19C9, 0x2B52, 0x3ADB, 0x4E64, 0x5FED, 0x6D76, 0x7CFF,
     0x9489, 0x8500, 0xB79B, 0xA612, 0xD2AD, 0xC324, 0xF1BF, 0xE036,
     0x18C1, 0x0948, 0x3BD3, 0x2A5A, 0x5EE5, 0x4F6C, 0x7DF7, 0x6C7E,
     0xA50A, 0xB483, 0x8618, 0x9791, 0xE32E, 0xF2A7, 0xC03C, 0xD1B5,
     0x2942, 0x38CB, 0x0A50, 0x1BD9, 0x6F66, 0x7EEF, 0x4C74, 0x5DFD,
     0xB58B, 0xA402, 0x9699, 0x8710, 0xF3AF, 0xE226, 0xD0BD, 0xC134,
     0x39C3, 0x284A, 0x1AD1, 0x0B58, 0x7FE7, 0x6E6E, 0x5CF5, 0x4D7C,
     0xC60C, 0xD785, 0xE51E, 0xF497, 0x8028, 0x91A1, 0xA33A, 0xB2B3,
     0x4A44, 0x5BCD, 0x6956, 0x78DF, 0x0C60, 0x1DE9, 0x2F72, 0x3EFB,
     0xD68D, 0xC704, 0xF59F, 0xE416, 0x90A9, 0x8120, 0xB3BB, 0xA232,
     0x5AC5, 0x4B4C, 0x79D7, 0x685E, 0x1CE1, 0x0D68, 0x3FF3, 0x2E7A,
     0xE70E, 0xF687, 0xC41C, 0xD595, 0xA12A, 0xB0A3, 0x8238, 0x93B1,
     0x6B46, 0x7ACF, 0x4854, 0x59DD, 0x2D62, 0x3CEB, 0x0E70, 0x1FF9,
     0xF78F, 0xE606, 0xD49D, 0xC514, 0xB1AB, 0xA022, 0x92B9, 0x8330,
     0x7BC7, 0x6A4E, 0x58D5, 0x495C, 0x3DE3, 0x2C6A, 0x1EF1, 0x0F78]"

definition HDLC_BIT_TAB :: "u16 list" where
  "HDLC_BIT_TAB = [
     0x0100, 0x0201, 0x0100, 0x0302, 0x0100, 0x0201, 0x0100, 0x0403,
     0x0100, 0x0201, 0x0100, 0x0302, 0x0100, 0x0201, 0x0100, 0x0504,
     0x0100, 0x0201, 0x0100, 0x0302, 0x0100, 0x0201, 0x0100, 0x0403,
     0x0100, 0x0201, 0x0100, 0x0302, 0x0100, 0x0201, 0x0100, 0x0605,
     0x0100, 0x0201, 0x0100, 0x0302, 0x0100, 0x0201, 0x0100, 0x0403,
     0x0100, 0x0201, 0x0100, 0x0302, 0x0100, 0x0201, 0x0100, 0x0504,
     0x0100, 0x0201, 0x0100, 0x0302, 0x0100, 0x0201, 0x0100, 0x0403,
     0x0100, 0x0201, 0x0100, 0x0302, 0x0100, 0x0201, 0x0160, 0x0706,
     0x0100, 0x0201, 0x0100, 0x0302, 0x0100, 0x0201, 0x0100, 0x0403,
     0x0100, 0x0201, 0x0100, 0x0302, 0x0100, 0x0201, 0x0100, 0x0504,
     0x0100, 0x0201, 0x0100, 0x0302, 0x0100, 0x0201, 0x0100, 0x0403,
     0x0100, 0x0201, 0x0100, 0x0302, 0x0100, 0x0201, 0x0100, 0x0605,
     0x0100, 0x0201, 0x0100, 0x0302, 0x0100, 0x0201, 0x0100, 0x0403,
     0x0100, 0x0201, 0x0100, 0x0302, 0x0100, 0x0201, 0x0100, 0x0504,
     0x0100, 0x0201, 0x0100, 0x0302, 0x0100, 0x0201, 0x0100, 0x0403,
     0x0100, 0x0201, 0x0100, 0x0302, 0x01A0, 0x02A1, 0x0860, 0x0807,
     0x1100, 0x1201, 0x1100, 0x1302, 0x1100, 0x1201, 0x1100, 0x1403,
     0x1100, 0x1201, 0x1100, 0x1302, 0x1100, 0x1201, 0x1100, 0x1504,
     0x1100, 0x1201, 0x1100, 0x1302, 0x1100, 0x1201, 0x1100, 0x1403,
     0x1100, 0x1201, 0x1100, 0x1302, 0x1100, 0x1201, 0x1100, 0x1605,
     0x1100, 0x1201, 0x1100, 0x1302, 0x1100, 0x1201, 0x1100, 0x1403,
     0x1100, 0x1201, 0x1100, 0x1302, 0x1100, 0x1201, 0x1100, 0x1504,
     0x1100, 0x1201, 0x1100, 0x1302, 0x1100, 0x1201, 0x1100, 0x1403,
     0x1100, 0x1201, 0x1100, 0x1302, 0x1100, 0x1201, 0x1160, 0x1706,
     0x2100, 0x2201, 0x2100, 0x2302, 0x2100, 0x2201, 0x2100, 0x2403,
     0x2100, 0x2201, 0x2100, 0x2302, 0x2100, 0x2201, 0x2100, 0x2504,
     0x2100, 0x2201, 0x2100, 0x2302, 0x2100, 0x2201, 0x2100, 0x2403,
     0x2100, 0x2201, 0x2100, 0x2302, 0x2100, 0x2201, 0x2100, 0x2605,
     0x3100, 0x3201, 0x3100, 0x3302, 0x3100, 0x3201, 0x3100, 0x3403,
     0x3100, 0x3201, 0x3100, 0x3302, 0x3100, 0x3201, 0x3100, 0x3504,
     0x4100, 0x4201, 0x4100, 0x4302, 0x4100, 0x4201, 0x4100, 0x4403,
     0x5100, 0x5201, 0x5100, 0x5302, 0x6180, 0x6281, 0x7150, 0x8908]"

definition fcs_tab :: "u8 \<Rightarrow> u16" where
  "fcs_tab x = HDLC_FCS_TAB ! unat x"

definition bit_tab :: "u8 \<Rightarrow> u16" where
  "bit_tab x = HDLC_BIT_TAB ! unat x"

lemma length_HDLC_FCS_TAB [simp]: "length HDLC_FCS_TAB = 256"
  by (simp add: HDLC_FCS_TAB_def)

lemma length_HDLC_BIT_TAB [simp]: "length HDLC_BIT_TAB = 256"
  by (simp add: HDLC_BIT_TAB_def)

text \<open>A property of every entry of a 256-entry table is a property of the enumerated list.\<close>

lemma tab_entry_all:
  assumes "length tab = 256" and "list_all (\<lambda>(i, v). P i v) (zip (map word_of_nat [0..<256]) tab)"
  shows "P (x :: u8) (tab ! unat x)"
proof -
  have "(word_of_nat (unat x), tab ! unat x) \<in> set (zip (map word_of_nat [0..<256]) tab)"
    using assms(1) by (force simp: set_zip intro!: exI [of _ "unat x"])
  with assms(2) show ?thesis
    by (fastforce simp: list_all_iff)
qed

section \<open>The frame check sequence\<close>

text \<open>The value \<open>HDLC_DECODE\<close> compares the final register with (\<open>crc ^= 0xf0b8\<close>).\<close>

definition fcs_residue :: u16 where
  "fcs_residue = 0xF0B8"

text \<open>One bit of the reflected CRC with polynomial \<open>0x8408\<close>, and eight of them.\<close>

definition crc_bit :: "u16 \<Rightarrow> u16" where
  "crc_bit c = (if bit c 0 then drop_bit 1 c XOR 0x8408 else drop_bit 1 c)"

definition crc_bits8 :: "u16 \<Rightarrow> u16" where
  "crc_bits8 c = (crc_bit ^^ 8) c"

definition fcs_update :: "u16 \<Rightarrow> u8 \<Rightarrow> u16" where
  "fcs_update crc b = fcs_tab (LO8 (crc XOR u16_of_u8 b)) XOR u16_of_u8 (LO8 (drop_bit 8 crc))"

lemma u8_enum_unfold: "map word_of_nat [0..<256] = ([0, 1, 2, 3, 4, 5, 6, 7, 8, 9, 10, 11, 12, 13, 14, 15, 16, 17, 18, 19, 20, 21, 22, 23, 24, 25, 26, 27, 28, 29, 30, 31, 32, 33, 34, 35, 36, 37, 38, 39, 40, 41, 42, 43, 44, 45, 46, 47, 48, 49, 50, 51, 52, 53, 54, 55, 56, 57, 58, 59, 60, 61, 62, 63, 64, 65, 66, 67, 68, 69, 70, 71, 72, 73, 74, 75, 76, 77, 78, 79, 80, 81, 82, 83, 84, 85, 86, 87, 88, 89, 90, 91, 92, 93, 94, 95, 96, 97, 98, 99, 100, 101, 102, 103, 104, 105, 106, 107, 108, 109, 110, 111, 112, 113, 114, 115, 116, 117, 118, 119, 120, 121, 122, 123, 124, 125, 126, 127, 128, 129, 130, 131, 132, 133, 134, 135, 136, 137, 138, 139, 140, 141, 142, 143, 144, 145, 146, 147, 148, 149, 150, 151, 152, 153, 154, 155, 156, 157, 158, 159, 160, 161, 162, 163, 164, 165, 166, 167, 168, 169, 170, 171, 172, 173, 174, 175, 176, 177, 178, 179, 180, 181, 182, 183, 184, 185, 186, 187, 188, 189, 190, 191, 192, 193, 194, 195, 196, 197, 198, 199, 200, 201, 202, 203, 204, 205, 206, 207, 208, 209, 210, 211, 212, 213, 214, 215, 216, 217, 218, 219, 220, 221, 222, 223, 224, 225, 226, 227, 228, 229, 230, 231, 232, 233, 234, 235, 236, 237, 238, 239, 240, 241, 242, 243, 244, 245, 246, 247, 248, 249, 250, 251, 252, 253, 254, 255] :: u8 list)"
  by (simp add: upt_rec)

lemma u8_rows: "map word_of_nat [0..<256] =
   concat (map (\<lambda>h. map (\<lambda>l. h XOR l) [0,1,2,3,4,5,6,7,8,9,10,11,12,13,14,15])
     [0,16,32,48,64,80,96,112,128,144,160,176,192,208,224,240 :: u8])"
  by (simp add: u8_enum_unfold)

lemma crc_bit_xor: "crc_bit (a XOR b) = crc_bit a XOR crc_bit b"
  by (auto simp: crc_bit_def bit_simps intro!: bit_word_eqI)

lemma crc_bit_pow_xor: "(crc_bit ^^ n) (a XOR b) = (crc_bit ^^ n) a XOR (crc_bit ^^ n) b"
  by (induction n) (simp_all add: crc_bit_xor)

lemma crc_bits8_xor: "crc_bits8 (a XOR b) = crc_bits8 a XOR crc_bits8 b"
  by (simp add: crc_bits8_def crc_bit_pow_xor)

lemma crc_bit_push:
  assumes "j < 8"
  shows "crc_bit (push_bit (Suc j) (u16_of_u8 h)) = push_bit j (u16_of_u8 h)"
proof (rule bit_word_eqI)
  fix i
  assume i: "i < LENGTH(16)"
  have "bit (crc_bit (push_bit (Suc j) (u16_of_u8 h))) i = (i < 15 \<and> j \<le> i \<and> bit h (i - j))"
    using i by (auto simp: crc_bit_def bit_simps simp del: push_bit_Suc)
  also have "\<dots> = (j \<le> i \<and> bit h (i - j))"
    using assms i by (cases "i = 15") auto
  finally show "bit (crc_bit (push_bit (Suc j) (u16_of_u8 h))) i = bit (push_bit j (u16_of_u8 h)) i"
    using i by (auto simp: bit_simps)
qed

lemma crc_bit_pow_high:
  "n \<le> 8 \<Longrightarrow> (crc_bit ^^ n) (push_bit 8 (u16_of_u8 h)) = push_bit (8 - n) (u16_of_u8 h)"
proof (induction n)
  case (Suc n)
  then have "8 - n = Suc (8 - Suc n)"
    by simp
  with Suc show ?case
    using crc_bit_push [of "8 - Suc n" h] by simp
qed simp

lemma crc_bits8_high: "crc_bits8 (push_bit 8 (u16_of_u8 h)) = u16_of_u8 h"
  by (simp add: crc_bits8_def crc_bit_pow_high)

lemma crc_bits8_unfold:
  "crc_bits8 c = crc_bit (crc_bit (crc_bit (crc_bit (crc_bit (crc_bit (crc_bit (crc_bit c)))))))"
  by (simp add: crc_bits8_def numeral_eq_Suc)

lemma crc_bits8_low: "map crc_bits8 [0,1,2,3,4,5,6,7,8,9,10,11,12,13,14,15] = take 16 HDLC_FCS_TAB"
  by (simp add: crc_bits8_unfold crc_bit_def HDLC_FCS_TAB_def)

lemma crc_bits8_hi: "map crc_bits8 [0,16,32,48,64,80,96,112,128,144,160,176,192,208,224,240]
  = map (\<lambda>i. HDLC_FCS_TAB ! (16 * i)) [0..<16]"
  by (simp add: crc_bits8_unfold crc_bit_def HDLC_FCS_TAB_def upt_rec)

lemma HDLC_FCS_TAB_rows:
  "HDLC_FCS_TAB = concat (map (\<lambda>h. map (\<lambda>l. crc_bits8 h XOR crc_bits8 l) [0,1,2,3,4,5,6,7,8,9,10,11,12,13,14,15])
     [0,16,32,48,64,80,96,112,128,144,160,176,192,208,224,240])"
  using crc_bits8_low crc_bits8_hi by (simp add: HDLC_FCS_TAB_def upt_rec)

lemma fcs_tab_bits8: "fcs_tab x = crc_bits8 (u16_of_u8 x)"
proof -
  have "HDLC_FCS_TAB = map (\<lambda>x. crc_bits8 (u16_of_u8 x)) (map word_of_nat [0..<256])"
    unfolding u8_rows HDLC_FCS_TAB_rows by (simp add: map_concat flip: crc_bits8_xor)
  then have eq: "HDLC_FCS_TAB = map (\<lambda>n. crc_bits8 (u16_of_u8 (word_of_nat n))) [0..<256]"
    by (simp add: comp_def)
  show ?thesis
    unfolding fcs_tab_def eq by (rule nth_map_word_of_nat)
qed

text \<open>
  C11: the table-driven update of the frame check sequence used by encoder and decoder equals
  eight steps of the bit-serial reflected CRC-16, for every register value and every octet.
\<close>

theorem fcs_update_bitwise: "fcs_update crc b = crc_bits8 (crc XOR u16_of_u8 b)"
proof -
  let ?x = "crc XOR u16_of_u8 b"
  have "LO8 (drop_bit 8 ?x) = LO8 (drop_bit 8 crc)"
    by (rule bit_word_eqI) (auto simp: bit_simps)
  then have "?x = push_bit 8 (u16_of_u8 (LO8 (drop_bit 8 crc))) XOR u16_of_u8 (LO8 ?x)"
    using u16_split [of ?x] by simp
  then have "crc_bits8 ?x = u16_of_u8 (LO8 (drop_bit 8 crc)) XOR crc_bits8 (u16_of_u8 (LO8 ?x))"
    by (metis crc_bits8_xor crc_bits8_high)
  then show ?thesis
    by (simp add: fcs_update_def fcs_tab_bits8 xor.commute)
qed

lemma fcs_two_octets:
  "fcs_update (fcs_update crc (LO8 (NOT crc))) (LO8 (drop_bit 8 (NOT crc))) = fcs_residue"
proof -
  have a: "LO8 (crc XOR u16_of_u8 (LO8 (NOT crc))) = 0xFF"
    by (rule bit_word_eqI) (auto simp: bit_simps)
  have b: "LO8 ((w XOR u16_of_u8 (LO8 (drop_bit 8 crc))) XOR u16_of_u8 (LO8 (drop_bit 8 (NOT crc))))
     = LO8 w XOR 0xFF" for w
    by (rule bit_word_eqI) (auto simp: bit_simps)
  have c: "LO8 (drop_bit 8 (w XOR u16_of_u8 (LO8 (drop_bit 8 crc)))) = LO8 (drop_bit 8 w)" for w
    by (rule bit_word_eqI) (auto simp: bit_simps)
  show ?thesis
    by (simp only: fcs_update_def a b c) (simp add: fcs_residue_def fcs_tab_def HDLC_FCS_TAB_def)
qed

text \<open>
  appending the two octets of the complemented register (as \<open>HDLC_ENCODE\<close> does) always
  drives the receiver's register to the constant \<open>0xf0b8\<close> that \<open>HDLC_DECODE\<close> tests for.
\<close>

theorem fcs_update_residue:
  "fcs_update (fcs_update crc (LO8 (NOT crc))) (LO8 (drop_bit 8 (NOT crc))) = fcs_residue"
  by (rule fcs_two_octets)

end
