(* ===== verification/HDLC_Decode.thy ===== *)
theory HDLC_Decode
  imports HDLC_Tables
begin

unbundle bit_operations_syntax

text \<open>
  The software HDLC receiver: the macro \<^verbatim>\<open>HDLC_DECODE\<close> of
  \<^verbatim>\<open>src/src/sys/i4b/layer1/i4b_hdlc.h\<close> with the commands \<^verbatim>\<open>rx_hdlc_emulation\<close> of
  \<^verbatim>\<open>layer1/ihfc3/i4b_filter.h\<close> passes to it. One run of the macro consumes one received octet.
  Shown: no input makes the receiver write outside its buffer or use a missing buffer, and what
  it delivers is a frame whose check sequence is right.
\<close>

section \<open>State\<close>

text \<open>What the commands of the filter do to the rest of the system.\<close>

datatype hdlc_event =
    Put_frame "u8 list"     \<comment> \<open>\<open>ihfc_i4b_putmbuf\<close>\<close>
  | Bad_length u16
  | Crc_error u16
  | Read_abort
  | Data_overflow
  | Out_of_mbufs

text \<open>
  The suspended variables of the macro, the receive buffer (its \<open>m_len\<close> and the octets stored
  through \<open>dst\<close>), the outcomes of the coming calls of \<open>L5_ALLOC_MBUF\<close> (\<open>None\<close>: no memory) and the
  events. \<open>dc_fault\<close> records a use of a missing buffer or a store past its end; \<open>dc_rx\<close> is a ghost:
  the octets that entered the check sequence since the opening flag.
\<close>

record hdlc_dec =
  dc_flag :: u8
  dc_blevel :: u8
  dc_crc :: u16
  dc_tmp :: u16
  dc_ib :: u16
  dc_len :: u16
  dc_mbuf :: "(u16 \<times> u8 list) option"
  dc_alloc :: "u16 option list"
  dc_events :: "hdlc_event list"
  dc_fault :: bool
  dc_rx :: "u8 list"

definition dec_reset :: "u16 option list \<Rightarrow> hdlc_dec" where
  "dec_reset al = \<lparr>dc_flag = 0, dc_blevel = 0, dc_crc = 0, dc_tmp = 0, dc_ib = 0, dc_len = 0,
     dc_mbuf = None, dc_alloc = al, dc_events = [], dc_fault = False, dc_rx = []\<rparr>"

section \<open>The commands of the filter\<close>

text \<open>\<open>nfr\<close>: a buffer for the new frame; without one the flag becomes -1.\<close>

definition dec_nfr :: "hdlc_dec \<Rightarrow> hdlc_dec" where
  "dec_nfr s =
     (case dc_alloc s of
        Some m # al \<Rightarrow> s\<lparr>dc_alloc := al, dc_mbuf := Some (m, []), dc_len := m\<rparr>
      | _ \<Rightarrow> s\<lparr>dc_alloc := tl (dc_alloc s), dc_mbuf := None, dc_flag := - 1,
               dc_events := dc_events s @ [Out_of_mbufs]\<rparr>)"

text \<open>
  \<open>cfr\<close>: the closing flag. The command is an argument of the macro; so is the bound \<open>bch_max\<close> it
  tests, which the filter sets to \<open>BCH_MAX_DATALEN\<close>.
\<close>

definition BCH_MAX_DATALEN :: u16 where
  "BCH_MAX_DATALEN = 2048"

definition dec_cfr :: "u16 \<Rightarrow> hdlc_dec \<Rightarrow> hdlc_dec" where
  "dec_cfr bch_max s =
     (case dc_mbuf s of
        None \<Rightarrow> s\<lparr>dc_fault := True\<rparr>
      | Some (m, ws) \<Rightarrow>
          let len = m - dc_len s;
              ev = (if len = 0 \<or> bch_max < len then Bad_length len
                    else if dc_crc s \<noteq> 0 then Crc_error (dc_crc s)
                    else Put_frame (take (unat len) ws))
          in s\<lparr>dc_len := len, dc_mbuf := None, dc_events := dc_events s @ [ev]\<rparr>)"

definition dec_rab :: "hdlc_dec \<Rightarrow> hdlc_dec" where
  "dec_rab s = s\<lparr>dc_mbuf := None, dc_events := dc_events s @ [Read_abort]\<rparr>"

definition dec_rdo :: "hdlc_dec \<Rightarrow> hdlc_dec" where
  "dec_rdo s = s\<lparr>dc_mbuf := None, dc_events := dc_events s @ [Data_overflow]\<rparr>"

section \<open>The macro\<close>

text \<open>Labels \<open>j0\<close> and \<open>j00\<close>: a flag sequence, \<open>ib\<close> and \<open>tmp2\<close> as computed so far.\<close>

definition dec_flag_seq :: "u16 \<Rightarrow> u16 \<Rightarrow> u16 \<Rightarrow> hdlc_dec \<Rightarrow> hdlc_dec" where
  "dec_flag_seq bch_max ib tmp2 s =
     (let s = (if 2 \<le> dc_flag s
               then (dec_cfr bch_max (s\<lparr>dc_crc := dc_crc s XOR 0xF0B8,
                       dc_len := dc_len s + u16_of_u8 ((4 - dc_flag s) AND 3)\<rparr>))\<lparr>dc_len := 0\<rparr>
               else s);
          bl = LO8 (drop_bit 8 ib AND 0xF)
      in s\<lparr>dc_flag := 1, dc_tmp := drop_bit (unat bl) (u16_of_u8 (LO8 tmp2)),
           dc_blevel := 8 - bl, dc_ib := drop_bit 12 ib\<rparr>)"

definition dec_abort :: "u16 \<Rightarrow> u16 \<Rightarrow> u16 \<Rightarrow> hdlc_dec \<Rightarrow> hdlc_dec" where
  "dec_abort bch_max ib tmp2 s =
     (if 2 \<le> dc_flag s \<and> LO8 ib = 0x16 then dec_flag_seq bch_max ib tmp2 s
      else (if 2 \<le> dc_flag s then (dec_rab s)\<lparr>dc_len := 0\<rparr> else s)\<lparr>dc_flag := 0, dc_ib := drop_bit 12 ib\<rparr>)"

text \<open>Labels \<open>j3\<close>, \<open>j4\<close> and \<open>j5\<close>: store the octet, take it into the check sequence, shift.\<close>

definition dec_j5 :: "u16 \<Rightarrow> hdlc_dec \<Rightarrow> hdlc_dec" where
  "dec_j5 ib s = s\<lparr>dc_ib := drop_bit 12 ib, dc_tmp := drop_bit 8 (dc_tmp s)\<rparr>"

definition dec_j4 :: "u16 \<Rightarrow> hdlc_dec \<Rightarrow> hdlc_dec" where
  "dec_j4 ib s = dec_j5 ib (s\<lparr>dc_crc := fcs_update (dc_crc s) (LO8 (dc_tmp s)),
                             dc_rx := dc_rx s @ [LO8 (dc_tmp s)]\<rparr>)"

definition dec_j3 :: "u16 \<Rightarrow> hdlc_dec \<Rightarrow> hdlc_dec" where
  "dec_j3 ib s =
     dec_j4 ib (case dc_mbuf s of
        None \<Rightarrow> s\<lparr>dc_fault := True\<rparr>
      | Some (m, ws) \<Rightarrow>
          if length ws < unat m then s\<lparr>dc_mbuf := Some (m, ws @ [LO8 (dc_tmp s)])\<rparr>
          else s\<lparr>dc_fault := True\<rparr>)"

text \<open>A complete octet in \<open>tmp\<close>.\<close>

definition dec_octet :: "u16 \<Rightarrow> hdlc_dec \<Rightarrow> hdlc_dec" where
  "dec_octet ib s =
     (if dc_len s \<noteq> 0 then dec_j3 ib (s\<lparr>dc_len := dc_len s - 1\<rparr>)
      else if dc_flag s = 0 then dec_j5 ib s
      else let s = s\<lparr>dc_flag := dc_flag s + 1\<rparr>
           in if dc_flag s = 2
              then let s = (dec_nfr s)\<lparr>dc_crc := - 1, dc_rx := []\<rparr>
                   in if dc_len s = 0 then dec_j4 ib (s\<lparr>dc_flag := dc_flag s + 1\<rparr>)
                      else dec_j3 ib (s\<lparr>dc_len := dc_len s - 1\<rparr>)
              else if dc_flag s = 3 \<or> dc_flag s = 4 then dec_j4 ib s
              else if dc_flag s = 5 then dec_j5 ib ((dec_rdo s)\<lparr>dc_flag := 0\<rparr>)
              else dec_j5 ib s)"

definition dec_data :: "u16 \<Rightarrow> u16 \<Rightarrow> hdlc_dec \<Rightarrow> hdlc_dec" where
  "dec_data ib tmp2 s =
     dec_octet ib (s\<lparr>dc_tmp := dc_tmp s OR push_bit (unat (dc_blevel s)) (u16_of_u8 (LO8 tmp2))\<rparr>)"

text \<open>Fewer than eight bits in all: they are kept and no octet is complete.\<close>

definition dec_eo_bits :: "u16 \<Rightarrow> u16 \<Rightarrow> hdlc_dec \<Rightarrow> hdlc_dec" where
  "dec_eo_bits ib tmp2 s =
     (let bl = dc_blevel s AND 7;
          t = (if bl AND 1 \<noteq> 0 then drop_bit 1 (u16_of_u8 (LO8 tmp2)) else drop_bit 2 (u16_of_u8 (LO8 tmp2)))
      in s\<lparr>dc_blevel := bl, dc_tmp := dc_tmp s OR t, dc_ib := drop_bit 12 ib\<rparr>)"

text \<open>The part after the de-stuffing of the most significant bits.\<close>

definition dec_lsb :: "u16 \<Rightarrow> u16 \<Rightarrow> u16 \<Rightarrow> hdlc_dec \<Rightarrow> hdlc_dec" where
  "dec_lsb bch_max ib tmp2 s =
     (let ib = ib AND NOT 0xE0
      in if LO8 ib = 6 then dec_flag_seq bch_max ib tmp2 s
         else if 7 \<le> LO8 ib then dec_abort bch_max ib tmp2 s
         else let tmp2' = (if LO8 ib = 5 then (tmp2 OR (tmp2 + 1)) AND NOT 1 else tmp2);
                  s = (if LO8 ib = 5 then s\<lparr>dc_blevel := dc_blevel s - 1\<rparr> else s)
              in if 7 < dc_blevel s then dec_eo_bits ib tmp2' s else dec_data ib tmp2' s)"

definition HDLC_DECODE :: "u16 \<Rightarrow> u8 \<Rightarrow> hdlc_dec \<Rightarrow> hdlc_dec" where
  "HDLC_DECODE bch_max b s =
     (let tmp2 = u16_of_u8 b; ib = dc_ib s + bit_tab b
      in if 5 \<le> LO8 ib
         then if ib AND 0x20 \<noteq> 0
              then if b = 0x7E then dec_flag_seq bch_max ib tmp2 s
                   else let tmp2 = tmp2 + (tmp2 AND 0x7F); ib = ib + 0x100;
                            tmp2 = (if ib AND 0xC \<noteq> 0 then tmp2 OR 1 else tmp2)
                        in dec_lsb bch_max ib tmp2 (s\<lparr>dc_blevel := dc_blevel s - 1\<rparr>)
              else dec_lsb bch_max ib tmp2 s
         else dec_data ib tmp2 s)"

fun rx_hdlc_emulation :: "u16 \<Rightarrow> u8 list \<Rightarrow> hdlc_dec \<Rightarrow> hdlc_dec" where
  "rx_hdlc_emulation bch_max [] s = s"
| "rx_hdlc_emulation bch_max (b # bs) s = rx_hdlc_emulation bch_max bs (HDLC_DECODE bch_max b s)"

section \<open>Memory safety and delivered frames\<close>

text \<open>
  A buffer exists exactly while a frame is being received (\<open>flag >= 2\<close>); \<open>len\<close> is the room left
  in it; octets beyond a full buffer are at most the two of the check sequence.
\<close>

definition receiving :: "hdlc_dec \<Rightarrow> bool" where
  "receiving s \<longleftrightarrow> (\<exists>m ws ex. dc_mbuf s = Some (m, ws) \<and> length ws + unat (dc_len s) = unat m \<and>
     dc_rx s = ws @ ex \<and> unat (dc_flag s) = length ex + 2 \<and> (ex \<noteq> [] \<longrightarrow> dc_len s = 0) \<and>
     dc_crc s = foldl fcs_update (- 1) (dc_rx s))"

definition dec_inv :: "hdlc_dec \<Rightarrow> bool" where
  "dec_inv s \<longleftrightarrow> \<not> dc_fault s \<and> dc_flag s \<le> 4 \<and>
     (if 2 \<le> dc_flag s then receiving s else dc_mbuf s = None \<and> dc_len s = 0)"

definition good_frames :: "u16 \<Rightarrow> hdlc_event list \<Rightarrow> bool" where
  "good_frames bch_max evs \<longleftrightarrow> (\<forall>fr. Put_frame fr \<in> set evs \<longrightarrow> fr \<noteq> [] \<and> length fr \<le> unat bch_max)"

text \<open>What a step that delivers a frame has received since the opening flag.\<close>

definition checked_frame :: "hdlc_dec \<Rightarrow> u8 list \<Rightarrow> bool" where
  "checked_frame s fr \<longleftrightarrow>
     (\<exists>c1 c2. dc_rx s = fr @ [c1, c2]) \<and> foldl fcs_update (- 1) (dc_rx s) = fcs_residue"

text \<open>\<open>ok_step bch_max s s'\<close>: from a good state the step keeps the invariant and delivers only checked frames.\<close>

definition ok_step :: "u16 \<Rightarrow> hdlc_dec \<Rightarrow> hdlc_dec \<Rightarrow> bool" where
  "ok_step bch_max s s' \<longleftrightarrow> dec_inv s' \<and> (\<exists>evs. dc_events s' = dc_events s @ evs \<and>
     (\<forall>fr. Put_frame fr \<in> set evs \<longrightarrow> checked_frame s fr \<and> fr \<noteq> [] \<and> length fr \<le> unat bch_max))"

lemma ok_step_quiet: "dec_inv s' \<Longrightarrow> dc_events s' = dc_events s \<Longrightarrow> ok_step bch_max s s'"
  by (simp add: ok_step_def)

lemma dec_inv_cong:
  assumes "dc_flag s' = dc_flag s" "dc_mbuf s' = dc_mbuf s" "dc_len s' = dc_len s" "dc_rx s' = dc_rx s"
    "dc_crc s' = dc_crc s" "dc_fault s' = dc_fault s"
  shows "dec_inv s' = dec_inv s"
  using assms by (simp add: dec_inv_def receiving_def)

lemma flag_1_small [simp]: "\<not> 2 \<le> (1 :: u8)"
  by (simp add: word_le_nat_alt)

lemma u8_le_4_cases: "(f :: u8) \<le> 4 \<Longrightarrow> f = 0 \<or> f = 1 \<or> f = 2 \<or> f = 3 \<or> f = 4"
proof -
  assume "f \<le> 4"
  then have "unat f \<in> {0, 1, 2, 3, 4}"
    by (auto simp: word_le_nat_alt)
  then have "(word_of_nat (unat f) :: u8) \<in> word_of_nat ` {0, 1, 2, 3, 4}"
    by blast
  then show ?thesis
    by simp
qed

lemma u8_flag_cases: "2 \<le> (f :: u8) \<Longrightarrow> f \<le> 4 \<Longrightarrow> f = 2 \<or> f = 3 \<or> f = 4"
  using u8_le_4_cases [of f] by auto

lemma xor_eq_zero:
  assumes "x XOR y = (0 :: u16)"
  shows "x = y"
proof -
  have "x = x XOR (y XOR y)"
    by simp
  also have "\<dots> = (x XOR y) XOR y"
    by (simp only: xor.assoc)
  finally show ?thesis
    by (simp add: assms)
qed

lemma length_2_cases: "length xs = 2 \<Longrightarrow> \<exists>a b. xs = [a, b]"
  by (cases xs; cases "tl xs") auto

text \<open>The length \<open>cfr\<close> computes: the octets received less the two of the check sequence.\<close>

lemma cfr_length:
  assumes "dec_inv s" "2 \<le> dc_flag s" "dc_mbuf s = Some (m, ws)" "bch_max < 0xFFFE"
  defines "len \<equiv> m - (dc_len s + u16_of_u8 ((4 - dc_flag s) AND 3))"
  assumes "len \<noteq> 0" "len \<le> bch_max"
  shows "\<exists>c1 c2. dc_rx s = take (unat len) ws @ [c1, c2]" and "unat len \<le> length ws"
proof -
  obtain ex where ex: "length ws + unat (dc_len s) = unat m" "dc_rx s = ws @ ex"
    "unat (dc_flag s) = length ex + 2" "ex \<noteq> [] \<longrightarrow> dc_len s = 0"
    using assms(1-3) by (auto simp: dec_inv_def receiving_def)
  define e where "e = 2 - length ex"
  have lx: "length ex + e = 2" and d: "unat ((4 - dc_flag s) AND 3) = e"
    using u8_flag_cases [of "dc_flag s"] assms(1,2) ex(3) by (auto simp: dec_inv_def e_def)
  have m: "m = dc_len s + word_of_nat (length ws)"
    using arg_cong [OF ex(1), of "word_of_nat :: nat \<Rightarrow> u16"] by (simp add: add.commute)
  have "u16_of_u8 ((4 - dc_flag s) AND 3) = word_of_nat e"
    using arg_cong [OF d, of "word_of_nat :: nat \<Rightarrow> u16"] by (simp add: unsigned_ucast_eq)
  then have len: "len + word_of_nat e = word_of_nat (length ws)"
    by (simp add: len_def m)
  have wl: "length ws < 65536"
    using ex(1) unat_u16_less [of m] by linarith
  have "unat len < 65534"
    using assms(4,7) by (simp add: word_le_nat_alt word_less_nat_alt)
  then have "unat len + e = length ws"
    using arg_cong [OF len, of unat] wl lx by (simp add: unat_word_ariths(1) unat_of_nat)
  moreover from this have "length (drop (unat len) ws @ ex) = 2"
    using lx by simp
  then obtain c1 c2 where "drop (unat len) ws @ ex = [c1, c2]"
    using length_2_cases by blast
  then show "\<exists>c1 c2. dc_rx s = take (unat len) ws @ [c1, c2]"
    unfolding ex(2) by (metis append.assoc append_take_drop_id)
  ultimately show "unat len \<le> length ws"
    by simp
qed

lemma dec_flag_seq_ok:
  assumes "dec_inv s" "bch_max < 0xFFFE"
  shows "ok_step bch_max s (dec_flag_seq bch_max ib tmp2 s)"
proof (cases "2 \<le> dc_flag s")
  case False
  then show ?thesis
    using assms by (intro ok_step_quiet) (simp_all add: dec_flag_seq_def dec_inv_def Let_def)
next
  case True
  then obtain m ws where mb: "dc_mbuf s = Some (m, ws)" and crc: "dc_crc s = foldl fcs_update (- 1) (dc_rx s)"
    using assms(1) by (auto simp: dec_inv_def receiving_def)
  define len where "len = m - (dc_len s + u16_of_u8 ((4 - dc_flag s) AND 3))"
  let ?s' = "dec_flag_seq bch_max ib tmp2 s"
  have inv: "dec_inv ?s'"
    using assms True mb by (simp add: dec_flag_seq_def dec_inv_def Let_def dec_cfr_def)
  have ev: "dc_events ?s' = dc_events s @ [if len = 0 \<or> bch_max < len then Bad_length len
      else if dc_crc s XOR 0xF0B8 \<noteq> 0 then Crc_error (dc_crc s XOR 0xF0B8)
      else Put_frame (take (unat len) ws)]"
    using True mb by (simp add: dec_flag_seq_def Let_def dec_cfr_def len_def)
  have "checked_frame s fr \<and> fr \<noteq> [] \<and> length fr \<le> unat bch_max"
    if "\<not> (len = 0 \<or> bch_max < len)" "dc_crc s XOR 0xF0B8 = 0" "fr = take (unat len) ws" for fr
  proof -
    have l: "len \<noteq> 0" "len \<le> bch_max" and c: "dc_crc s = fcs_residue"
      using that(1) xor_eq_zero [OF that(2)] by (simp_all add: fcs_residue_def not_less)
    note cl = cfr_length [OF assms(1) True mb assms(2), folded len_def, OF l]
    have "unat len \<noteq> 0"
      using l(1) by (simp add: unat_eq_zero)
    then show ?thesis
      using cl c crc l(2) that(3) by (auto simp: checked_frame_def word_le_nat_alt)
  qed
  then show ?thesis
    using inv ev unfolding ok_step_def by (auto split: if_splits)
qed

lemma dec_abort_ok:
  assumes "dec_inv s" "bch_max < 0xFFFE"
  shows "ok_step bch_max s (dec_abort bch_max ib tmp2 s)"
proof (cases "2 \<le> dc_flag s \<and> LO8 ib = 0x16")
  case True
  then show ?thesis
    using dec_flag_seq_ok [OF assms] by (simp add: dec_abort_def)
next
  case False
  then show ?thesis
    using assms by (auto simp: dec_abort_def ok_step_def dec_inv_def dec_rab_def)
qed

text \<open>An octet that enters the frame: stored while there is room, counted as check sequence after.\<close>

lemma dec_j3_inv:
  assumes "dec_inv s" "dc_len s \<noteq> 0" "dc_flag s = 2"
  shows "dec_inv (dec_j3 ib (s\<lparr>dc_len := dc_len s - 1\<rparr>))"
proof -
  obtain m ws where w: "dc_mbuf s = Some (m, ws)" "length ws + unat (dc_len s) = unat m" "dc_rx s = ws"
    "dc_crc s = foldl fcs_update (- 1) ws"
    using assms by (auto simp: dec_inv_def receiving_def)
  have "unat (dc_len s - 1) = unat (dc_len s) - 1" "0 < unat (dc_len s)"
    using assms(2) by (simp_all add: unat_minus_one unat_gt_0)
  then show ?thesis
    using w assms(1,3) by (simp add: dec_inv_def receiving_def dec_j3_def dec_j4_def dec_j5_def)
qed

lemma dec_j4_inv:
  assumes "dec_inv s" "dc_len s = 0" "dc_flag s = 2 \<or> dc_flag s = 3"
  shows "dec_inv (dec_j4 ib (s\<lparr>dc_flag := dc_flag s + 1\<rparr>))"
proof -
  obtain m ws ex where w: "dc_mbuf s = Some (m, ws)" "length ws = unat m" "dc_rx s = ws @ ex"
    "unat (dc_flag s) = length ex + 2" "dc_crc s = foldl fcs_update (- 1) (ws @ ex)"
    using assms by (auto simp: dec_inv_def receiving_def)
  have "dc_flag s + 1 \<le> 4" "2 \<le> dc_flag s + 1" "unat (dc_flag s + 1) = Suc (length ex) + 2"
    using assms(3) w(4) [symmetric] by (elim disjE; simp)+
  then show ?thesis
    using assms(1,2) w by (simp add: dec_inv_def receiving_def dec_j4_def dec_j5_def)
qed

lemma dec_j5_inv: "dec_inv s \<Longrightarrow> dec_inv (dec_j5 ib s)"
  by (subst dec_inv_cong [of _ s]) (simp_all add: dec_j5_def)

lemma dec_octet_new_inv:
  assumes "dec_inv s" "dc_flag s = 1" "dc_len s = 0"
  shows "dec_inv (dec_octet ib s)"
proof (cases "dc_alloc s")
  case Nil
  then show ?thesis
    using assms by (simp add: dec_octet_def dec_nfr_def dec_inv_def Let_def dec_j4_def dec_j5_def)
next
  case (Cons a al)
  show ?thesis
  proof (cases a)
    case None
    then show ?thesis
      using Cons assms by (simp add: dec_octet_def dec_nfr_def dec_inv_def Let_def dec_j4_def dec_j5_def)
  next
    case (Some m)
    define s1 where "s1 = s\<lparr>dc_flag := 2, dc_alloc := al, dc_mbuf := Some (m, []), dc_len := m,
      dc_crc := - 1, dc_rx := []\<rparr>"
    have s1: "dec_inv s1" "dc_flag s1 = 2"
      using assms by (simp_all add: s1_def dec_inv_def receiving_def)
    have "dec_octet ib s = (if dc_len s1 = 0 then dec_j4 ib (s1\<lparr>dc_flag := dc_flag s1 + 1\<rparr>)
        else dec_j3 ib (s1\<lparr>dc_len := dc_len s1 - 1\<rparr>))"
      using assms Cons Some by (simp add: dec_octet_def dec_nfr_def Let_def s1_def)
    then show ?thesis
      using dec_j3_inv [OF s1(1)] dec_j4_inv [OF s1(1)] s1(2) by simp
  qed
qed

lemma dec_octet_inv:
  assumes "dec_inv s"
  shows "dec_inv (dec_octet ib s)"
proof -
  have len: "dc_len s \<noteq> 0 \<Longrightarrow> dc_flag s = 2"
    using assms u8_flag_cases [of "dc_flag s"] by (auto simp: dec_inv_def receiving_def split: if_splits)
  have small: "dc_flag s = 0 \<or> dc_flag s = 1 \<or> dc_flag s = 2 \<or> dc_flag s = 3 \<or> dc_flag s = 4"
    using assms u8_le_4_cases by (simp add: dec_inv_def)
  consider "dc_len s \<noteq> 0" | "dc_flag s = 0" "dc_len s = 0" | "dc_flag s = 1" "dc_len s = 0"
    | "dc_flag s = 2 \<or> dc_flag s = 3" "dc_len s = 0" | "dc_flag s = 4" "dc_len s = 0"
    using small by blast
  then show ?thesis
  proof cases
    case 1
    then show ?thesis
      using dec_j3_inv [OF assms 1 len] by (simp add: dec_octet_def)
  next
    case 2
    then show ?thesis
      using dec_j5_inv [OF assms] by (simp add: dec_octet_def)
  next
    case 3
    then show ?thesis
      by (intro dec_octet_new_inv assms)
  next
    case 4
    then show ?thesis
      using dec_j4_inv [OF assms, of ib] by (auto simp: dec_octet_def)
  next
    case 5
    then show ?thesis
      using assms by (simp add: dec_octet_def dec_rdo_def dec_j5_def dec_inv_def)
  qed
qed


lemma dec_octet_events: "\<exists>evs. dc_events (dec_octet ib s) = dc_events s @ evs \<and> (\<forall>fr. Put_frame fr \<notin> set evs)"
  by (auto simp: dec_octet_def dec_j3_def dec_j4_def dec_j5_def dec_nfr_def dec_rdo_def Let_def
      split: option.splits list.splits)

lemma dec_data_ok: "dec_inv s \<Longrightarrow> ok_step bch_max s (dec_data ib tmp2 s)"
proof -
  assume "dec_inv s"
  then have "dec_inv (s\<lparr>dc_tmp := t\<rparr>)" for t
    by (subst dec_inv_cong [of _ s]) simp_all
  then show ?thesis
    unfolding dec_data_def ok_step_def
    using dec_octet_inv dec_octet_events [of ib "s\<lparr>dc_tmp := _\<rparr>"] by fastforce
qed

lemma ok_step_start:
  assumes "ok_step bch_max s1 s'" "dc_events s1 = dc_events s" "dc_rx s1 = dc_rx s"
  shows "ok_step bch_max s s'"
  using assms by (simp add: ok_step_def checked_frame_def)

lemma dec_lsb_ok:
  assumes "dec_inv s" "bch_max < 0xFFFE"
  shows "ok_step bch_max s (dec_lsb bch_max ib tmp2 s)"
proof -
  let ?s = "s\<lparr>dc_blevel := dc_blevel s - 1\<rparr>"
  have inv: "dec_inv ?s"
    using assms(1) by (subst dec_inv_cong [of _ s]) simp_all
  have eo: "ok_step bch_max s (dec_eo_bits i t s)" if "dec_inv s" for i t s
    using that by (intro ok_step_quiet, subst dec_inv_cong [of _ s]) (simp_all add: dec_eo_bits_def Let_def)
  have "ok_step bch_max s (dec_eo_bits i t ?s)" "ok_step bch_max s (dec_data i t ?s)" for i t
    by (rule ok_step_start [OF eo [OF inv]] ok_step_start [OF dec_data_ok [OF inv]]; simp)+
  then show ?thesis
    using eo [OF assms(1)] dec_data_ok [OF assms(1)] dec_flag_seq_ok [OF assms] dec_abort_ok [OF assms]
    by (simp add: dec_lsb_def Let_def)
qed

lemma HDLC_DECODE_ok:
  assumes "dec_inv s" "bch_max < 0xFFFE"
  shows "ok_step bch_max s (HDLC_DECODE bch_max b s)"
proof -
  let ?s = "s\<lparr>dc_blevel := dc_blevel s - 1\<rparr>"
  have "dec_inv ?s"
    using assms(1) by (subst dec_inv_cong [of _ s]) simp_all
  then have "ok_step bch_max s (dec_lsb bch_max i t ?s)" for i t
    by (rule ok_step_start [OF dec_lsb_ok [OF _ assms(2)]]) simp_all
  then show ?thesis
    using dec_flag_seq_ok [OF assms] dec_lsb_ok [OF assms] dec_data_ok [OF assms(1)]
    by (simp add: HDLC_DECODE_def Let_def)
qed

lemma ok_step_good:
  assumes "ok_step bch_max s s'" "good_frames bch_max (dc_events s)"
  shows "dec_inv s'" "good_frames bch_max (dc_events s')"
proof -
  obtain evs where evs: "dc_events s' = dc_events s @ evs"
    "\<And>fr. Put_frame fr \<in> set evs \<Longrightarrow> fr \<noteq> [] \<and> length fr \<le> unat bch_max"
    using assms(1) unfolding ok_step_def by blast
  then show "good_frames bch_max (dc_events s')"
    using assms(2) unfolding good_frames_def evs(1) by (metis Un_iff set_append)
  show "dec_inv s'"
    using assms(1) unfolding ok_step_def by blast
qed

lemma rx_hdlc_inv:
  assumes "bch_max < 0xFFFE"
  shows "dec_inv s \<Longrightarrow> good_frames bch_max (dc_events s) \<Longrightarrow>
   dec_inv (rx_hdlc_emulation bch_max bs s) \<and> good_frames bch_max (dc_events (rx_hdlc_emulation bch_max bs s))"
proof (induction bs arbitrary: s)
  case (Cons b bs)
  note ok = HDLC_DECODE_ok [OF Cons.prems(1) assms, of b]
  show ?case
    using Cons.IH [OF ok_step_good [OF ok Cons.prems(2)]] by simp
qed simp

lemma dec_reset_inv [simp]: "dec_inv (dec_reset al)"
  by (simp add: dec_inv_def dec_reset_def)

lemma rx_reset_inv:
  assumes "bch_max < 0xFFFE"
  shows "dec_inv (rx_hdlc_emulation bch_max bs (dec_reset al))"
    and "good_frames bch_max (dc_events (rx_hdlc_emulation bch_max bs (dec_reset al)))"
proof -
  have "good_frames bch_max (dc_events (dec_reset al))"
    by (simp add: good_frames_def dec_reset_def)
  then show "dec_inv (rx_hdlc_emulation bch_max bs (dec_reset al))"
    "good_frames bch_max (dc_events (rx_hdlc_emulation bch_max bs (dec_reset al)))"
    using rx_hdlc_inv [OF assms dec_reset_inv] by blast+
qed

lemma bch_max_small [simp]: "BCH_MAX_DATALEN < 0xFFFE"
  by (simp add: BCH_MAX_DATALEN_def)

text \<open>
  C9: whatever octets arrive and however the buffer allocations turn out, the receiver never uses
  a missing buffer, never stores past the end of one, and delivers only frames of 1 to
  \<open>BCH_MAX_DATALEN\<close> octets.
\<close>

theorem rx_hdlc_memory_safe:
  "\<not> dc_fault (rx_hdlc_emulation BCH_MAX_DATALEN bs (dec_reset al)) \<and>
   good_frames BCH_MAX_DATALEN (dc_events (rx_hdlc_emulation BCH_MAX_DATALEN bs (dec_reset al)))"
  using rx_reset_inv [OF bch_max_small] unfolding dec_inv_def by blast


lemma sample_fcs: "fcs_update (- 1) 0x0E = 0xE6F9" "fcs_update 0xE6F9 0x06 = 0x0F9E" "fcs_update 0x0F9E 0x19 = 0xF0B8"
  by (simp_all add: fcs_update_def fcs_tab_def HDLC_FCS_TAB_def mask_eq_exp_minus_1)

lemma sample_bits: "bit_tab 0x7E = 0x0860" "bit_tab 0x0E = 0x0100" "bit_tab 0x06 = 0x0100" "bit_tab 0x19 = 0x0201"
  by (simp_all add: bit_tab_def HDLC_BIT_TAB_def)

lemmas dec_eval = HDLC_DECODE_def dec_data_def dec_octet_def dec_j3_def dec_j4_def dec_j5_def dec_nfr_def
   dec_flag_seq_def dec_cfr_def sample_fcs sample_bits Let_def BCH_MAX_DATALEN_def

lemma sample_rx: "rx_hdlc_emulation BCH_MAX_DATALEN [0x7E, 0x0E, 0x06, 0x19] (dec_reset [Some 2048]) =
   \<lparr>dc_flag = 2, dc_blevel = 0, dc_crc = 0xF0B8, dc_tmp = 0, dc_ib = 0, dc_len = 2045,
    dc_mbuf = Some (2048, [0x0E, 0x06, 0x19]), dc_alloc = [], dc_events = [], dc_fault = False,
    dc_rx = [0x0E, 0x06, 0x19]\<rparr>"
  by (simp add: dec_reset_def dec_eval)

end
