(* ===== verification/HDLC_Serial.thy ===== *)
theory HDLC_Serial
  imports HDLC_Decode
begin

unbundle bit_operations_syntax

text \<open>
  The receiver of \<^verbatim>\<open>HDLC_Decode\<close> against a bit-serial one. The reference reads a bit at a time, counts
  ones, drops the zero after five of them and cuts the stream at flags. One run of the macro
  \<^verbatim>\<open>HDLC_DECODE\<close> on an octet is eight steps of the reference, for all seven counts of preceding ones and
  all 256 octets, so the table with its packed nibbles can be forgotten.
\<close>

section \<open>The bit-serial receiver\<close>

text \<open>
  After \<open>n\<close> ones, with the bits \<open>D\<close> since the last flag. The result is the count, the bits since the last
  flag, and the segments that flags closed, each with the seven bits of the flag that precede its last
  zero. Seven ones in a row, or two flags that share bits, are not part of a well-formed stream: \<open>None\<close>.
\<close>

type_synonym rx_segments = "nat \<times> bool list \<times> bool list list"

fun bits_rx :: "nat \<Rightarrow> bool list \<Rightarrow> bool list \<Rightarrow> rx_segments option" where
  "bits_rx n D [] = Some (n, D, [])"
| "bits_rx n D (True # bs) = (if n = 6 then None else bits_rx (Suc n) (D @ [True]) bs)"
| "bits_rx n D (False # bs) =
     (if n = 5 then bits_rx 0 D bs
      else if n = 6 then (if length D < 7 then None else map_option (\<lambda>(n', E, ds). (n', E, D # ds)) (bits_rx 0 [] bs))
      else bits_rx 0 (D @ [False]) bs)"

lemma bits_rx_append: "bits_rx n D (xs @ ys) =
   (case bits_rx n D xs of None \<Rightarrow> None
    | Some (n', E, ds) \<Rightarrow> map_option (\<lambda>(n'', F, es). (n'', F, ds @ es)) (bits_rx n' E ys))"
  by (induction n D xs rule: bits_rx.induct)
    (auto simp: option.map_comp comp_def option.map_id split: option.splits prod.splits intro!: option.map_cong)

text \<open>The same without the bits so far: the effect of the bits alone.\<close>

fun rx_join :: "bool list \<Rightarrow> rx_segments \<Rightarrow> rx_segments" where
  "rx_join D (n, E, []) = (n, D @ E, [])"
| "rx_join D (n, E, A # As) = (n, E, (D @ A) # As)"

fun bits_scan :: "nat \<Rightarrow> bool list \<Rightarrow> rx_segments option" where
  "bits_scan n [] = Some (n, [], [])"
| "bits_scan n (True # bs) = (if n = 6 then None else map_option (rx_join [True]) (bits_scan (Suc n) bs))"
| "bits_scan n (False # bs) =
     (if n = 5 then bits_scan 0 bs
      else if n = 6 then map_option (\<lambda>(n', E, As). (n', E, [] # As)) (bits_scan 0 bs)
      else map_option (rx_join [False]) (bits_scan 0 bs))"

lemma rx_join_join [simp]: "rx_join D (rx_join E r) = rx_join (D @ E) r"
  by (cases "(D, r)" rule: rx_join.cases) simp_all

lemma rx_join_Nil [simp]: "rx_join [] r = r"
  by (cases "([] :: bool list, r)" rule: rx_join.cases) simp_all

lemma bits_rx_long: "bits_rx n D bs = Some (n', E, ds) \<Longrightarrow> B \<in> set ds \<Longrightarrow> 7 \<le> length B"
  by (induction n D bs arbitrary: ds rule: bits_rx.induct) (auto split: if_splits)

lemma bits_rx_scan: "bits_rx n D bs = Some r \<Longrightarrow> \<exists>r0. bits_scan n bs = Some r0 \<and> r = rx_join D r0"
proof (induction n D bs arbitrary: r rule: bits_rx.induct)
  case (2 n D bs)
  then obtain r0 where "n \<noteq> 6" "bits_scan (Suc n) bs = Some r0" "r = rx_join (D @ [True]) r0"
    by (auto split: if_splits)
  then show ?case
    by (intro exI [of _ "rx_join [True] r0"]) simp
next
  case (3 n D bs)
  consider "n = 5" | "n = 6" | "n \<noteq> 5" "n \<noteq> 6"
    by blast
  then show ?case
  proof cases
    case 1
    then show ?thesis
      using 3 by simp
  next
    case 2
    then obtain r' where r': "bits_rx 0 [] bs = Some r'" "r = (case r' of (n', E, ds) \<Rightarrow> (n', E, D # ds))" "\<not> length D < 7"
      using "3.prems" by (auto split: if_splits)
    have "bits_scan 0 bs = Some r'"
      using "3.IH"(2) [OF _ 2 r'(3,1)] 2 by auto
    then show ?thesis
      using r'(2) 2 by (simp split: prod.splits)
  next
    case 3
    then obtain r0 where "bits_scan 0 bs = Some r0" "r = rx_join (D @ [False]) r0"
      using "3.IH"(3) "3.prems" by auto
    then show ?thesis
      using 3 by (intro exI [of _ "rx_join [False] r0"]) simp
  qed
qed simp

text \<open>The ones counted are the last bits received.\<close>

definition ends_ones :: "nat \<Rightarrow> bool list \<Rightarrow> bool" where
  "ends_ones n D \<longleftrightarrow> n \<le> length D \<and> (\<forall>i. length D - n \<le> i \<longrightarrow> i < length D \<longrightarrow> D ! i)"

lemma bits_rx_ones:
  assumes "bits_rx n D bs = Some (n', E, ds)" "ends_ones n D" "n \<le> 6"
  shows "ends_ones n' E \<and> n' \<le> 6"
  using assms
proof (induction n D bs arbitrary: ds rule: bits_rx.induct)
  case (2 n D bs)
  moreover have "ends_ones (Suc n) (D @ [True])"
    using 2 by (auto simp: ends_ones_def nth_append)
  ultimately show ?case
    by (auto split: if_splits)
qed (auto simp: ends_ones_def split: if_splits)

section \<open>What the macro makes of one octet\<close>

text \<open>
  The outcome depends on the count of ones and the octet only: data with \<open>k\<close> zeros removed, a flag, or an
  abort.
\<close>

datatype rx_class = Rx_data u16 u16 nat | Rx_flag u16 u16 | Rx_abort

definition rx_class_low :: "u16 \<Rightarrow> u16 \<Rightarrow> nat \<Rightarrow> rx_class" where
  "rx_class_low ib tmp2 k =
     (if LO8 ib = 6 then Rx_flag ib tmp2 else if 7 \<le> LO8 ib then Rx_abort
      else if LO8 ib = 5 then Rx_data ib ((tmp2 OR (tmp2 + 1)) AND NOT 1) (Suc k) else Rx_data ib tmp2 k)"

definition rx_class_msb :: "u16 \<Rightarrow> u16 \<Rightarrow> rx_class" where
  "rx_class_msb ib tmp2 = rx_class_low (ib AND NOT 0xE0) (if ib AND 0xC \<noteq> 0 then tmp2 OR 1 else tmp2) 1"

definition rx_class_sum :: "u16 \<Rightarrow> u8 \<Rightarrow> rx_class" where
  "rx_class_sum ib b =
     (if 5 \<le> LO8 ib
      then if ib AND 0x20 \<noteq> 0
           then if b = 0x7E then Rx_flag ib 0x7E else rx_class_msb (ib + 0x100) (u16_of_u8 b + (u16_of_u8 b AND 0x7F))
           else rx_class_low (ib AND NOT 0xE0) (u16_of_u8 b) 0
      else Rx_data ib (u16_of_u8 b) 0)"

text \<open>
  With zeros removed the data are aligned to the top of the octet; below them may be ones, which then
  repeat ones already received.
\<close>

definition low_ones :: "u16 \<Rightarrow> nat \<Rightarrow> u16 \<Rightarrow> bool" where
  "low_ones m k t \<longleftrightarrow> k = 0 \<or> k = 1 \<and> (bit t 0 \<longrightarrow> 1 \<le> m) \<or> k = 2 \<and> (bit t 0 \<longrightarrow> 2 \<le> m) \<and> (bit t 1 \<longrightarrow> 1 \<le> m)"

fun rx_data_ok :: "u16 \<Rightarrow> rx_class \<Rightarrow> nat \<Rightarrow> bool list \<Rightarrow> bool" where
  "rx_data_ok m (Rx_data ib t k) n A \<longleftrightarrow> drop_bit 12 ib = word_of_nat n \<and> low_ones m k t \<and>
     word_bits (8 - k) (drop_bit k t) = A"
| "rx_data_ok m _ n A \<longleftrightarrow> False"

fun rx_flag_ok :: "rx_class \<Rightarrow> nat \<Rightarrow> bool list \<Rightarrow> bool" where
  "rx_flag_ok (Rx_flag ib t) n E \<longleftrightarrow> drop_bit 12 ib = word_of_nat n \<and> drop_bit 8 ib AND 0xF \<noteq> 0 \<and> drop_bit 8 ib AND 0xF \<le> 8 \<and>
     word_bits (8 - unat (drop_bit 8 ib AND 0xF)) (drop_bit (unat (drop_bit 8 ib AND 0xF)) t) = E"
| "rx_flag_ok _ n E \<longleftrightarrow> False"

fun rx_octet_ok :: "u16 \<Rightarrow> rx_class \<Rightarrow> rx_segments option \<Rightarrow> bool" where
  "rx_octet_ok m c None \<longleftrightarrow> True"
| "rx_octet_ok m c (Some (n, A, [])) \<longleftrightarrow> rx_data_ok m c n A"
| "rx_octet_ok m c (Some (n, E, [A])) \<longleftrightarrow> rx_flag_ok c n E"
| "rx_octet_ok m c (Some (n, E, A # B # As)) \<longleftrightarrow> length B < 7"

definition rx_entry_ok :: "u16 \<Rightarrow> u8 \<Rightarrow> u16 \<Rightarrow> bool" where
  "rx_entry_ok m b v \<longleftrightarrow> rx_octet_ok m (rx_class_sum (m + v) b) (bits_scan (unat m) (word_bits 8 b))"

lemmas rx_eval = rx_entry_ok_def rx_class_sum_def rx_class_msb_def rx_class_low_def word_bits_def upt_rec low_ones_def

lemma rx_entry_ok_0: "list_all (\<lambda>(b, v). rx_entry_ok 0 b v) (zip (map word_of_nat [0..<256]) HDLC_BIT_TAB)"
  by (simp add: HDLC_BIT_TAB_def u8_enum_unfold) (simp add: rx_eval)

lemma rx_entry_ok_1: "list_all (\<lambda>(b, v). rx_entry_ok 1 b v) (zip (map word_of_nat [0..<256]) HDLC_BIT_TAB)"
  by (simp add: HDLC_BIT_TAB_def u8_enum_unfold) (simp add: rx_eval)

lemma rx_entry_ok_2: "list_all (\<lambda>(b, v). rx_entry_ok 2 b v) (zip (map word_of_nat [0..<256]) HDLC_BIT_TAB)"
  by (simp add: HDLC_BIT_TAB_def u8_enum_unfold) (simp add: rx_eval)

lemma rx_entry_ok_3: "list_all (\<lambda>(b, v). rx_entry_ok 3 b v) (zip (map word_of_nat [0..<256]) HDLC_BIT_TAB)"
  by (simp add: HDLC_BIT_TAB_def u8_enum_unfold) (simp add: rx_eval)

lemma rx_entry_ok_4: "list_all (\<lambda>(b, v). rx_entry_ok 4 b v) (zip (map word_of_nat [0..<256]) HDLC_BIT_TAB)"
  by (simp add: HDLC_BIT_TAB_def u8_enum_unfold) (simp add: rx_eval)

lemma rx_entry_ok_5: "list_all (\<lambda>(b, v). rx_entry_ok 5 b v) (zip (map word_of_nat [0..<256]) HDLC_BIT_TAB)"
  by (simp add: HDLC_BIT_TAB_def u8_enum_unfold) (simp add: rx_eval)

lemma rx_entry_ok_6: "list_all (\<lambda>(b, v). rx_entry_ok 6 b v) (zip (map word_of_nat [0..<256]) HDLC_BIT_TAB)"
  by (simp add: HDLC_BIT_TAB_def u8_enum_unfold) (simp add: rx_eval)
lemma rx_entry_ok_bit_tab:
  assumes "n \<le> 6"
  shows "rx_entry_ok (word_of_nat n) b (bit_tab b)"
proof -
  have "n \<in> {0, 1, 2, 3, 4, 5, 6}"
    using assms by auto
  then show ?thesis
    using tab_entry_all [OF length_HDLC_BIT_TAB rx_entry_ok_0, of b]
      tab_entry_all [OF length_HDLC_BIT_TAB rx_entry_ok_1, of b]
      tab_entry_all [OF length_HDLC_BIT_TAB rx_entry_ok_2, of b]
      tab_entry_all [OF length_HDLC_BIT_TAB rx_entry_ok_3, of b]
      tab_entry_all [OF length_HDLC_BIT_TAB rx_entry_ok_4, of b]
      tab_entry_all [OF length_HDLC_BIT_TAB rx_entry_ok_5, of b]
      tab_entry_all [OF length_HDLC_BIT_TAB rx_entry_ok_6, of b]
    unfolding bit_tab_def by auto
qed

lemma dec_flag_seq_blevel: "dec_flag_seq bch_max ib t (s\<lparr>dc_blevel := bl\<rparr>) = dec_flag_seq bch_max ib t s"
  by (simp add: dec_flag_seq_def Let_def dec_cfr_def split: option.splits)

definition dec_bits :: "u16 \<Rightarrow> u16 \<Rightarrow> nat \<Rightarrow> hdlc_dec \<Rightarrow> hdlc_dec" where
  "dec_bits ib t k s =
     (let bl = dc_blevel s - word_of_nat k
      in if 7 < bl then dec_eo_bits ib t (s\<lparr>dc_blevel := bl\<rparr>) else dec_data ib t (s\<lparr>dc_blevel := bl\<rparr>))"

fun dec_class :: "u16 \<Rightarrow> rx_class \<Rightarrow> hdlc_dec \<Rightarrow> hdlc_dec \<Rightarrow> bool" where
  "dec_class bch_max (Rx_flag ib t) s s' \<longleftrightarrow> s' = dec_flag_seq bch_max ib t s"
| "dec_class bch_max (Rx_data ib t k) s s' \<longleftrightarrow> s' = dec_bits ib t k s"
| "dec_class bch_max Rx_abort s s' \<longleftrightarrow> True"

lemma dec_lsb_class:
  assumes "s1 = s\<lparr>dc_blevel := dc_blevel s - word_of_nat k\<rparr>"
  shows "dec_class bch_max (rx_class_low (ib AND NOT 0xE0) t k) s (dec_lsb bch_max ib t s1)"
  unfolding dec_lsb_def rx_class_low_def Let_def assms
  by (simp add: dec_flag_seq_blevel dec_bits_def algebra_simps)

lemma HDLC_DECODE_class:
  assumes "dc_blevel s \<le> 7"
  shows "dec_class bch_max (rx_class_sum (dc_ib s + bit_tab b) b) s (HDLC_DECODE bch_max b s)"
proof -
  define ib where "ib = dc_ib s + bit_tab b"
  have a: "dec_class bch_max (rx_class_low (i AND NOT 0xE0) t 1) s (dec_lsb bch_max i t (s\<lparr>dc_blevel := dc_blevel s - 1\<rparr>))"
    "dec_class bch_max (rx_class_low (i AND NOT 0xE0) t 0) s (dec_lsb bch_max i t s)" for i t
    by (intro dec_lsb_class; simp)+
  have "dec_bits i t 0 s = dec_data i t s" for i t
    using assms by (simp add: dec_bits_def Let_def not_less)
  then show ?thesis
    using a unfolding HDLC_DECODE_def rx_class_sum_def rx_class_msb_def Let_def ib_def [symmetric] by simp
qed

end
