(* ===== verification/HDLC_Receive.thy ===== *)
theory HDLC_Receive
  imports HDLC_Serial
begin

unbundle bit_operations_syntax

text \<open>
  The receiver on well-formed streams: what \<open>rx_hdlc_emulation\<close> reports is what the bit-serial receiver of
  \<^verbatim>\<open>HDLC_Serial\<close> finds between flags, octet by octet, at any alignment of the stream to octets.
\<close>

section \<open>The octet under reception\<close>

lemma merge_bits:
  fixes tmp t :: u16
  assumes "drop_bit h tmp = 0" "h < 8" "k \<le> 2" "\<And>j. j < k \<Longrightarrow> bit t j \<Longrightarrow> k \<le> h + j \<Longrightarrow> bit tmp (h + j - k)"
  defines "w \<equiv> tmp OR (if h < k then drop_bit (k - h) (u16_of_u8 (LO8 t)) else push_bit (h - k) (u16_of_u8 (LO8 t)))"
  shows "word_bits (h + 8 - k) w = word_bits h tmp @ word_bits (8 - k) (drop_bit k t)"
    and "drop_bit (h + 8 - k) w = 0"
proof -
  have tmp: "\<not> bit tmp i" if "h \<le> i" for i
    using arg_cong [OF assms(1), of "\<lambda>x. bit x (i - h)"] that by (simp add: bit_simps)
  have w: "bit w i \<longleftrightarrow> bit tmp i \<or> (h \<le> i + k \<and> i + k - h < 8 \<and> bit t (i + k - h))" if "i < 16" for i
    using that assms(2,3) by (auto simp: w_def bit_simps algebra_simps)
  show "word_bits (h + 8 - k) w = word_bits h tmp @ word_bits (8 - k) (drop_bit k t)"
  proof (rule nth_equalityI)
    fix i
    assume i: "i < length (word_bits (h + 8 - k) w)"
    show "word_bits (h + 8 - k) w ! i = (word_bits h tmp @ word_bits (8 - k) (drop_bit k t)) ! i"
    proof (cases "i < h")
      case True
      then have "h \<le> i + k \<Longrightarrow> bit t (i + k - h) \<Longrightarrow> bit tmp i"
        using assms(4) [of "i + k - h"] by auto
      then show ?thesis
        using True i assms(2,3) by (auto simp: nth_append w)
    next
      case False
      then show ?thesis
        using i assms(2,3) tmp [of i] by (auto simp: nth_append w bit_simps algebra_simps)
    qed
  qed (use assms(2,3) in simp)
  show "drop_bit (h + 8 - k) w = 0"
  proof (rule bit_word_eqI)
    fix i
    assume "i < LENGTH(16)"
    have "\<not> bit w (h + 8 - k + i)" if "h + 8 - k + i < 16"
      using w [OF that] tmp [of "h + 8 - k + i"] assms(3) by auto
    then show "bit (drop_bit (h + 8 - k) w) i = bit (0 :: u16) i"
      using bit_imp_le_length [of w "h + 8 - k + i"] by (auto simp: bit_simps)
  qed
qed

definition rx_merge :: "u16 \<Rightarrow> nat \<Rightarrow> hdlc_dec \<Rightarrow> u16" where
  "rx_merge t k s =
     dc_tmp s OR (if unat (dc_blevel s) < k then drop_bit (k - unat (dc_blevel s)) (u16_of_u8 (LO8 t))
                  else push_bit (unat (dc_blevel s) - k) (u16_of_u8 (LO8 t)))"

lemma unat_word_of_nat8: "n < 256 \<Longrightarrow> unat (word_of_nat n :: u8) = n"
  by (simp add: unat_of_nat)

lemma u8_less_8_cases:
  assumes "unat (h :: u8) < 8"
  shows "h \<in> {0, 1, 2, 3, 4, 5, 6, 7}"
proof -
  have "unat h \<in> {0, 1, 2, 3, 4, 5, 6, 7}"
    using assms by auto
  then have "(word_of_nat (unat h) :: u8) \<in> word_of_nat ` {0, 1, 2, 3, 4, 5, 6, 7}"
    by blast
  then show ?thesis
    by simp
qed

lemma dec_bits_merge:
  assumes "unat (dc_blevel s) < 8" "k \<le> 2"
  shows "dec_bits ib t k s =
    (if unat (dc_blevel s) < k
     then s\<lparr>dc_blevel := word_of_nat (unat (dc_blevel s) + 8 - k), dc_tmp := rx_merge t k s, dc_ib := drop_bit 12 ib\<rparr>
     else dec_octet ib (s\<lparr>dc_blevel := word_of_nat (unat (dc_blevel s) - k), dc_tmp := rx_merge t k s\<rparr>))"
proof -
  have k: "k = 0 \<or> k = 1 \<or> k = 2"
    using assms(2) by auto
  show ?thesis
    using u8_less_8_cases [OF assms(1)] k
    by (elim insertE emptyE disjE) (simp_all add: dec_bits_def Let_def dec_eo_bits_def dec_data_def rx_merge_def)
qed

section \<open>A complete octet\<close>

fun buffer_size :: "hdlc_dec \<Rightarrow> u16 option" where
  "buffer_size s = map_option fst (dc_mbuf s)"

lemma dec_octet_frame:
  assumes "dec_inv s"
  shows "dc_blevel (dec_octet ib s) = dc_blevel s" "dc_tmp (dec_octet ib s) = drop_bit 8 (dc_tmp s)"
    "dc_ib (dec_octet ib s) = drop_bit 12 ib"
  by (auto simp: dec_octet_def dec_j3_def dec_j4_def dec_j5_def dec_nfr_def dec_rdo_def Let_def
      split: option.splits list.splits)

lemma dec_octet_hunt:
  assumes "dec_inv s" "dc_flag s = 0"
  shows "dec_octet ib s = s\<lparr>dc_ib := drop_bit 12 ib, dc_tmp := drop_bit 8 (dc_tmp s)\<rparr>"
  using assms by (simp add: dec_octet_def dec_j5_def dec_inv_def)

lemma dec_octet_first:
  fixes ib :: u16
  assumes "dec_inv s" "dc_flag s = 1" "dc_alloc s = Some M # al" "M \<noteq> 0"
  defines "s' \<equiv> dec_octet ib s"
  shows "dc_rx s' = [LO8 (dc_tmp s)]" "dc_events s' = dc_events s" "dc_alloc s' = al" "2 \<le> dc_flag s'"
    "buffer_size s' = Some M"
  using assms by (simp_all add: s'_def dec_octet_def dec_j3_def dec_j4_def dec_j5_def dec_nfr_def dec_inv_def Let_def)

lemma dec_octet_more:
  fixes ib :: u16
  assumes inv: "dec_inv s" and fl: "2 \<le> dc_flag s" and size: "buffer_size s = Some M" "length (dc_rx s) < unat M + 2"
  defines "s' \<equiv> dec_octet ib s"
  shows "dc_rx s' = dc_rx s @ [LO8 (dc_tmp s)] \<and> dc_events s' = dc_events s \<and> dc_alloc s' = dc_alloc s \<and> 2 \<le> dc_flag s' \<and>
    buffer_size s' = Some M"
proof -
  have "receiving s"
    using inv fl by (simp add: dec_inv_def)
  then obtain ws ex where r: "dc_mbuf s = Some (M, ws)" "length ws + unat (dc_len s) = unat M" "dc_rx s = ws @ ex"
    "unat (dc_flag s) = length ex + 2" "ex \<noteq> [] \<Longrightarrow> dc_len s = 0"
    using size(1) unfolding receiving_def by fastforce
  show ?thesis
  proof (cases "dc_len s = 0")
    case False
    then have "0 < unat (dc_len s)"
      by (simp add: unat_gt_0)
    then show ?thesis
      using False r fl size by (simp add: s'_def dec_octet_def dec_j3_def dec_j4_def dec_j5_def)
  next
    case True
    then have "length ex < 2"
      using r size(2) by simp
    then have "unat (dc_flag s) = 2 \<or> unat (dc_flag s) = 3"
      using r(4) by linarith
    then have "dc_flag s = 2 \<or> dc_flag s = 3"
      by (simp add: word_unat_eq_iff)
    then show ?thesis
      using True r(1,3) by (auto simp: s'_def dec_octet_def dec_j3_def dec_j4_def dec_j5_def)
  qed
qed

fun octets_of :: "bool list \<Rightarrow> u8 list" where
  "octets_of (a # b # c # d # e # f # g # h # bs) = horner_sum of_bool 2 [a, b, c, d, e, f, g, h] # octets_of bs"
| "octets_of _ = []"

lemma horner_word_bits: "horner_sum of_bool 2 (word_bits 8 (x :: u8)) = x"
  by (rule bit_word_eqI) (auto simp: bit_horner_sum_bit_iff)

lemma octets_of_cons [simp]: "octets_of (word_bits 8 x @ bs) = x # octets_of bs"
proof -
  obtain a b c d e f g h where w: "word_bits 8 x = [a, b, c, d, e, f, g, h]"
    by (simp add: word_bits_def upt_rec)
  show ?thesis
    using horner_word_bits [of x] unfolding w by simp
qed

lemma octets_of_short: "length bs < 8 \<Longrightarrow> octets_of bs = []"
  by (cases bs rule: octets_of.cases) simp_all

lemma octets_of_bits [simp]: "length bs < 8 \<Longrightarrow> octets_of (octet_bits xs @ bs) = xs"
  by (induction xs) (simp_all add: octets_of_short)


section \<open>What a closing flag reports\<close>

text \<open>The octets since the opening flag are a frame and its check sequence.\<close>

definition rx_event :: "u16 \<Rightarrow> u8 list \<Rightarrow> hdlc_event" where
  "rx_event bch_max os =
     (let len = word_of_nat (length os) - 2; crc = foldl fcs_update (- 1) os XOR fcs_residue
      in if len = 0 \<or> bch_max < len then Bad_length len
         else if crc \<noteq> 0 then Crc_error crc else Put_frame (take (length os - 2) os))"

lemma cfr_event:
  assumes inv: "dec_inv s" and fl: "2 \<le> dc_flag s" and bch: "bch_max < 0xFFFE"
  shows "dc_events (dec_flag_seq bch_max ib t s) = dc_events s @ [rx_event bch_max (dc_rx s)]"
proof -
  have "receiving s"
    using inv fl by (simp add: dec_inv_def)
  then obtain m ws ex where r: "dc_mbuf s = Some (m, ws)" "length ws + unat (dc_len s) = unat m" "dc_rx s = ws @ ex"
    "unat (dc_flag s) = length ex + 2" "dc_crc s = foldl fcs_update (- 1) (dc_rx s)"
    unfolding receiving_def by blast
  define len where "len = m - (dc_len s + u16_of_u8 ((4 - dc_flag s) AND 3))"
  define e where "e = 2 - length ex"
  have "length ex + e = 2" and d: "unat ((4 - dc_flag s) AND 3) = e"
    using u8_flag_cases [of "dc_flag s"] inv fl r(4) by (auto simp: dec_inv_def e_def)
  have "m = dc_len s + word_of_nat (length ws)"
    using arg_cong [OF r(2), of "word_of_nat :: nat \<Rightarrow> u16"] by (simp add: add.commute)
  moreover have "u16_of_u8 ((4 - dc_flag s) AND 3) = word_of_nat e"
    using arg_cong [OF d, of "word_of_nat :: nat \<Rightarrow> u16"] by (simp add: unsigned_ucast_eq)
  moreover have "(word_of_nat (length ex) :: u16) + word_of_nat e = 2"
    using arg_cong [OF \<open>length ex + e = 2\<close>, of "word_of_nat :: nat \<Rightarrow> u16"] by simp
  ultimately have len: "len = word_of_nat (length (dc_rx s)) - 2"
    by (simp add: len_def r(3) algebra_simps)
  have ev: "dc_events (dec_flag_seq bch_max ib t s) = dc_events s @ [if len = 0 \<or> bch_max < len then Bad_length len
      else if dc_crc s XOR 0xF0B8 \<noteq> 0 then Crc_error (dc_crc s XOR 0xF0B8) else Put_frame (take (unat len) ws)]"
    using fl r(1) by (simp add: dec_flag_seq_def Let_def dec_cfr_def len_def)
  have "take (length (dc_rx s) - 2) (dc_rx s) = take (unat len) ws" if l: "len \<noteq> 0" "\<not> bch_max < len"
  proof -
    obtain c1 c2 where "dc_rx s = take (unat len) ws @ [c1, c2]"
      using cfr_length(1) [OF inv fl r(1) bch, folded len_def, OF l(1)] l(2) by (auto simp: not_less)
    then show ?thesis
      by (simp add: min_def)
  qed
  then show ?thesis
    unfolding ev by (simp add: rx_event_def Let_def len [symmetric] r(5) fcs_residue_def)
qed

section \<open>Simulation\<close>

text \<open>
  The state after \<open>n\<close> ones and the bits \<open>D\<close> since the last flag: whole octets have been taken, the rest waits
  in \<open>tmp\<close>. While the receiver hunts for the first flag the octets are dropped.
\<close>

definition rx_rel :: "nat \<Rightarrow> bool list \<Rightarrow> hdlc_dec \<Rightarrow> bool" where
  "rx_rel n D s \<longleftrightarrow> n \<le> 6 \<and> dc_ib s = word_of_nat n \<and> ends_ones n D \<and> dec_inv s \<and> unat (dc_blevel s) < 8 \<and>
     drop_bit (unat (dc_blevel s)) (dc_tmp s) = 0 \<and>
     (\<exists>os. D = octet_bits os @ word_bits (unat (dc_blevel s)) (dc_tmp s) \<and> (dc_flag s = 1 \<longrightarrow> os = []) \<and>
        (2 \<le> dc_flag s \<longrightarrow> os = dc_rx s \<and> os \<noteq> []))"

text \<open>A buffer of \<open>M\<close> octets can be allocated for every segment that has an octet, and is large enough.\<close>

definition rx_supply :: "u16 \<Rightarrow> bool list list \<Rightarrow> hdlc_dec \<Rightarrow> bool" where
  "rx_supply M segs s \<longleftrightarrow> M \<noteq> 0 \<and> (2 \<le> dc_flag s \<longrightarrow> buffer_size s = Some M) \<and> (\<forall>D\<in>set segs. length D div 8 \<le> unat M + 2) \<and>
     (\<exists>j. dc_alloc s = replicate j (Some M) \<and>
        length (filter (\<lambda>D. 8 \<le> length D) segs) \<le> j + (if 2 \<le> dc_flag s then 1 else 0))"

lemma low_nibble:
  assumes "x \<le> (8 :: u16)" "x \<noteq> 0"
  shows "unat (LO8 x) = unat x" "unat (8 - LO8 x) = 8 - unat x" "0 < unat x" "unat x \<le> 8"
proof -
  show b: "0 < unat x" "unat x \<le> 8"
    using assms by (simp_all add: word_le_nat_alt unat_gt_0)
  show u: "unat (LO8 x) = unat x"
    using b by (simp add: unsigned_ucast_eq take_bit_eq_mod)
  then have "LO8 x \<le> 8"
    using b by (simp add: word_le_nat_alt)
  then show "unat (8 - LO8 x) = 8 - unat x"
    using u by (simp add: unat_sub)
qed

lemma dec_flag_seq_fields:
  fixes s :: hdlc_dec and t bch_max :: u16
  assumes "bl = drop_bit 8 ib AND 0xF" "bl \<le> 8" "bl \<noteq> 0"
  defines "s' \<equiv> dec_flag_seq bch_max ib t s"
  shows "dc_flag s' = 1" "dc_ib s' = drop_bit 12 ib" "dc_alloc s' = dc_alloc s" "unat (dc_blevel s') = 8 - unat bl"
    "word_bits (8 - unat bl) (dc_tmp s') = word_bits (8 - unat bl) (drop_bit (unat bl) t)"
    "drop_bit (8 - unat bl) (dc_tmp s') = 0"
proof -
  note bl = low_nibble [OF assms(2,3)]
  have tmp: "dc_tmp s' = drop_bit (unat bl) (u16_of_u8 (LO8 t))"
    using bl(1) by (simp add: s'_def dec_flag_seq_def Let_def assms(1))
  show "dc_flag s' = 1" "dc_ib s' = drop_bit 12 ib" "dc_alloc s' = dc_alloc s" "unat (dc_blevel s') = 8 - unat bl"
    using bl(2) by (simp_all add: s'_def dec_flag_seq_def Let_def assms(1) dec_cfr_def split: option.splits)
  show "word_bits (8 - unat bl) (dc_tmp s') = word_bits (8 - unat bl) (drop_bit (unat bl) t)"
    using bl(3,4) by (auto simp: tmp word_bits_def bit_simps)
  show "drop_bit (8 - unat bl) (dc_tmp s') = 0"
    using bl(3,4) by (intro bit_word_eqI) (auto simp: tmp bit_simps)
qed

lemma rx_flag_step:
  assumes rel: "rx_rel n D s" and scan: "rx_flag_ok (Rx_flag ib t) n' E" "ends_ones n' E" "n' \<le> 6"
    and al: "dc_flag s \<noteq> 0 \<Longrightarrow> length (D @ A) mod 8 = 7" "length A < 8" and bch: "bch_max < 0xFFFE"
    and sup: "rx_supply M ((D @ A) # segs) s"
  defines "s' \<equiv> dec_flag_seq bch_max ib t s"
  shows "rx_rel n' E s' \<and> rx_supply M segs s' \<and> dc_flag s' = 1 \<and>
    dc_events s' = dc_events s @ (if dc_flag s = 0 \<or> length (D @ A) < 8 then [] else [rx_event bch_max (octets_of (D @ A))])"
proof -
  define bl where "bl = drop_bit 8 ib AND 0xF"
  have ok: "drop_bit 12 ib = word_of_nat n'" "bl \<le> 8" "bl \<noteq> 0" "word_bits (8 - unat bl) (drop_bit (unat bl) t) = E"
    using scan(1) by (simp_all add: bl_def)
  note f = dec_flag_seq_fields [OF bl_def ok(2,3), of bch_max t s, folded s'_def]
  note r = rel [unfolded rx_rel_def]
  have inv: "dec_inv s'"
    using dec_flag_seq_ok [OF _ bch] r unfolding s'_def ok_step_def by blast
  have b: "0 < unat bl" "unat bl \<le> 8"
    using low_nibble [OF ok(2,3)] by simp_all
  have 1: "rx_rel n' E s'"
    using f ok scan(2,3) inv b unfolding rx_rel_def by simp
  obtain os where os: "D = octet_bits os @ word_bits (unat (dc_blevel s)) (dc_tmp s)" "dc_flag s = 1 \<Longrightarrow> os = []"
    "2 \<le> dc_flag s \<Longrightarrow> os = dc_rx s \<and> os \<noteq> []"
    using r by blast
  have len: "length (D @ A) = 8 * length os + (unat (dc_blevel s) + length A)" "unat (dc_blevel s) < 8"
    using os(1) r by (simp_all add: length_concat comp_def sum_list_triv)
  have seven: "unat (dc_blevel s) + length A = 7" if "dc_flag s \<noteq> 0"
    using al(1) [OF that] al(2) len by presburger
  have oct: "octets_of (D @ A) = os" if "dc_flag s \<noteq> 0"
    using seven [OF that] unfolding os(1) append.assoc by (intro octets_of_bits) simp
  consider "dc_flag s = 0" | "dc_flag s = 1" | "2 \<le> dc_flag s"
    using u8_le_4_cases [of "dc_flag s"] r by (auto simp: dec_inv_def)
  then have "rx_supply M segs s' \<and> 
    dc_events s' = dc_events s @ (if dc_flag s = 0 \<or> length (D @ A) < 8 then [] else [rx_event bch_max (octets_of (D @ A))])"
  proof cases
    case 1
    then show ?thesis
      using sup f(1,3) by (auto simp: rx_supply_def s'_def dec_flag_seq_def Let_def split: if_splits)
  next
    case 2
    then have "length (D @ A) = 7"
      using len seven os(2) by simp
    then show ?thesis
      using sup f(1,3) 2 by (auto simp: rx_supply_def s'_def dec_flag_seq_def Let_def)
  next
    case 3
    then have nz: "dc_flag s \<noteq> 0"
      by auto
    have "os \<noteq> []"
      using os(3) 3 by blast
    then have "8 \<le> length (D @ A)"
      using len by (cases os) auto
    then show ?thesis
      using sup f 3 nz oct [OF nz] os(3) cfr_event [OF _ 3 bch, of ib t] r by (auto simp: rx_supply_def s'_def)
  qed
  then show ?thesis
    using 1 f(1) by blast
qed

lemma low_ones_bits:
  assumes "low_ones (word_of_nat n) k t" "n \<le> 6"
  shows "k \<le> 2" "j < k \<Longrightarrow> bit t j \<Longrightarrow> k - j \<le> n"
proof -
  show "k \<le> 2"
    using assms(1) by (auto simp: low_ones_def)
  have "(1 :: u16) \<le> word_of_nat n \<longleftrightarrow> 1 \<le> n" "(2 :: u16) \<le> word_of_nat n \<longleftrightarrow> 2 \<le> n"
    using assms(2) by (simp_all add: word_le_nat_alt unat_of_nat)
  then show "j < k \<Longrightarrow> bit t j \<Longrightarrow> k - j \<le> n"
    using assms(1) unfolding low_ones_def by (auto simp: less_Suc_eq numeral_2_eq_2)
qed

text \<open>The bits of an octet are added to those that are waiting.\<close>

lemma rx_merge_bits:
  assumes rel: "rx_rel n D s" and ones: "low_ones (word_of_nat n) k t"
  defines "h \<equiv> unat (dc_blevel s)"
  shows "word_bits (h + 8 - k) (rx_merge t k s) = word_bits h (dc_tmp s) @ word_bits (8 - k) (drop_bit k t)"
    "drop_bit (h + 8 - k) (rx_merge t k s) = 0"
proof -
  note r = rel [unfolded rx_rel_def, folded h_def]
  obtain os where D: "D = octet_bits os @ word_bits h (dc_tmp s)"
    using r by blast
  have len: "length D = 8 * length os + h"
    by (simp add: D length_concat comp_def sum_list_triv)
  have "bit (dc_tmp s) (h + j - k)" if "j < k" "bit t j" "k \<le> h + j" for j
  proof -
    have "k - j \<le> n" "n \<le> length D"
      using low_ones_bits(2) [OF ones _ that(1,2)] r by (simp_all add: ends_ones_def)
    then have "D ! (length D - (k - j))"
      using r that(1) by (auto simp: ends_ones_def)
    moreover have "length D - (k - j) = length (octet_bits os) + (h + j - k)"
      using that by (simp add: len length_concat comp_def sum_list_triv)
    ultimately have "(octet_bits os @ word_bits h (dc_tmp s)) ! (length (octet_bits os) + (h + j - k))"
      by (simp only: D)
    then show ?thesis
      using that(1,3) by (simp only: nth_append_length_plus) simp
  qed
  then show "word_bits (h + 8 - k) (rx_merge t k s) = word_bits h (dc_tmp s) @ word_bits (8 - k) (drop_bit k t)"
    "drop_bit (h + 8 - k) (rx_merge t k s) = 0"
    using merge_bits [of h "dc_tmp s" k t] low_ones_bits(1) [OF ones] r unfolding rx_merge_def h_def by blast+
qed

lemma rx_octet_step:
  fixes ib :: u16
  assumes inv: "dec_inv s" and sup: "rx_supply M (F # segs) s" and len: "8 * length os + 8 \<le> length F"
    and fl: "dc_flag s = 1 \<Longrightarrow> os = []" "2 \<le> dc_flag s \<Longrightarrow> os = dc_rx s \<and> os \<noteq> []"
  defines "s' \<equiv> dec_octet ib s"
  shows "dec_inv s' \<and> rx_supply M (F # segs) s' \<and> dc_events s' = dc_events s \<and> (dc_flag s' = 0 \<longleftrightarrow> dc_flag s = 0) \<and>
    dc_flag s' \<noteq> 1 \<and> (2 \<le> dc_flag s' \<longrightarrow> dc_rx s' = os @ [LO8 (dc_tmp s)])"
proof -
  have inv': "dec_inv s'"
    unfolding s'_def by (rule dec_octet_inv [OF inv])
  obtain j where j: "dc_alloc s = replicate j (Some M)" "length (filter (\<lambda>D. 8 \<le> length D) (F # segs)) \<le> j + (if 2 \<le> dc_flag s then 1 else 0)"
    and M: "M \<noteq> 0" "2 \<le> dc_flag s \<longrightarrow> buffer_size s = Some M" "\<forall>D\<in>set (F # segs). length D div 8 \<le> unat M + 2"
    using sup unfolding rx_supply_def by blast
  consider "dc_flag s = 0" | "dc_flag s = 1" | "2 \<le> dc_flag s"
    using u8_le_4_cases [of "dc_flag s"] inv by (auto simp: dec_inv_def)
  then show ?thesis
  proof cases
    case 1
    then show ?thesis
      using inv' sup by (simp add: s'_def dec_octet_hunt [OF inv 1] rx_supply_def)
  next
    case 2
    obtain j' where j': "j = Suc j'"
      using j(2) len 2 by (cases j) simp_all
    note f = dec_octet_first [OF inv 2 _ M(1), of "replicate j' (Some M)" ib, folded s'_def]
    have "rx_supply M (F # segs) s'"
      using f j j' M 2 by (auto simp: rx_supply_def)
    moreover have "dc_flag s' \<noteq> 0" "dc_flag s' \<noteq> 1"
      using f(4) j(1) j' by auto
    ultimately show ?thesis
      using f inv' fl(1) 2 j(1) j' by simp
  next
    case 3
    have "length F div 8 \<le> unat M + 2"
      using M(3) by simp
    then have "length (dc_rx s) < unat M + 2"
      using len fl(2) [OF 3] by simp
    note f = dec_octet_more [OF inv 3 M(2) [rule_format, OF 3] this, of ib, folded s'_def]
    have "rx_supply M (F # segs) s'"
      using f j M 3 unfolding rx_supply_def by simp
    moreover have "dc_flag s' \<noteq> 0" "dc_flag s' \<noteq> 1" "dc_flag s \<noteq> 0"
      using f 3 by auto
    ultimately show ?thesis
      using f inv' fl(2) [OF 3] by simp
  qed
qed

lemma rx_data_step:
  assumes rel: "rx_rel n D s" and scan: "rx_data_ok (word_of_nat n) (Rx_data ib t k) n' A" "ends_ones n' (D @ A)" "n' \<le> 6"
    and sup: "rx_supply M ((D @ A @ X) # segs) s"
  defines "s' \<equiv> dec_bits ib t k s"
  shows "rx_rel n' (D @ A) s' \<and> rx_supply M ((D @ A @ X) # segs) s' \<and> (dc_flag s' = 0 \<longleftrightarrow> dc_flag s = 0) \<and> dc_events s' = dc_events s"
proof -
  define h where "h = unat (dc_blevel s)"
  define w where "w = rx_merge t k s"
  note r = rel [unfolded rx_rel_def, folded h_def]
  have ok: "drop_bit 12 ib = word_of_nat n'" "low_ones (word_of_nat n) k t" "word_bits (8 - k) (drop_bit k t) = A"
    using scan(1) by simp_all
  have k: "k \<le> 2"
    using low_ones_bits(1) [OF ok(2)] r by blast
  have w: "word_bits (h + 8 - k) w = word_bits h (dc_tmp s) @ A" "drop_bit (h + 8 - k) w = 0"
    using rx_merge_bits [OF rel ok(2)] by (simp_all add: h_def w_def ok(3))
  obtain os where D: "D = octet_bits os @ word_bits h (dc_tmp s)" and fl: "dc_flag s = 1 \<longrightarrow> os = []"
    "2 \<le> dc_flag s \<longrightarrow> os = dc_rx s \<and> os \<noteq> []"
    using r by blast
  show ?thesis
  proof (cases "h < k")
    case True
    have s': "s' = s\<lparr>dc_blevel := word_of_nat (h + 8 - k), dc_tmp := w, dc_ib := drop_bit 12 ib\<rparr>"
      using dec_bits_merge [of s k ib t] k r True by (simp add: s'_def h_def w_def)
    have "dec_inv s'"
      using r by (subst dec_inv_cong [of _ s]) (simp_all add: s')
    moreover have "unat (word_of_nat (h + 8 - k) :: u8) = h + 8 - k"
      by (rule unat_word_of_nat8) (use True k in linarith)
    ultimately have "rx_rel n' (D @ A) s'"
      using True k w scan(2,3) fl ok(1) unfolding rx_rel_def by (auto simp: s' D intro!: exI [of _ os])
    then show ?thesis
      using sup by (simp add: s' rx_supply_def)
  next
    case False
    define s1 where "s1 = s\<lparr>dc_blevel := word_of_nat (h - k), dc_tmp := w\<rparr>"
    have s': "s' = dec_octet ib s1"
      using dec_bits_merge [of s k ib t] k r False by (simp add: s'_def h_def w_def s1_def)
    have inv: "dec_inv s1"
      using r by (subst dec_inv_cong [of _ s]) (simp_all add: s1_def)
    have sup1: "rx_supply M ((D @ A @ X) # segs) s1"
      using sup by (simp add: s1_def rx_supply_def)
    have bits: "word_bits 8 (LO8 w) @ word_bits (h - k) (drop_bit 8 w) = word_bits h (dc_tmp s) @ A"
      using w(1) word_bits_add [of 8 "h - k" w] False by (simp add: word_bits_ucast add.commute)
    have DA: "D @ A = octet_bits (os @ [LO8 w]) @ word_bits (h - k) (drop_bit 8 w)"
      using bits by (simp add: D)
    have l: "8 * length os + 8 \<le> length (D @ A @ X)"
      using arg_cong [OF DA, of length] by (simp add: length_concat comp_def sum_list_triv)
    have f1: "dc_flag s1 = 1 \<Longrightarrow> os = []" "2 \<le> dc_flag s1 \<Longrightarrow> os = dc_rx s1 \<and> os \<noteq> []"
      using fl by (auto simp: s1_def)
    note 1 = rx_octet_step [OF inv sup1 l f1, of ib, folded s']
    have h: "h < 8"
      using r by blast
    have u: "unat (word_of_nat (h - k) :: u8) = h - k" "h - k < 8"
      by (rule unat_word_of_nat8, use h in linarith) (use h in linarith)
    have f: "unat (dc_blevel s') = h - k" "dc_tmp s' = drop_bit 8 w" "dc_ib s' = word_of_nat n'"
      using dec_octet_frame [OF inv, of ib] u ok(1) by (simp_all add: s' s1_def)
    have "drop_bit (h - k) (drop_bit 8 w) = 0"
      using w(2) False by simp
    then have "rx_rel n' (D @ A) s'"
      using 1 f u scan(2,3) DA unfolding rx_rel_def by (auto simp: s1_def intro!: exI [of _ "os @ [LO8 w]"])
    then show ?thesis
      using 1 by (simp add: s1_def)
  qed
qed

lemma fst_rx_join [simp]: "fst (rx_join D r) = fst r"
  by (cases "(D, r)" rule: rx_join.cases) simp_all

lemma bits_scan_length:
  "bits_scan n bs = Some (n', E, As) \<Longrightarrow> length E + sum_list (map length As) + length As \<le> length bs"
proof (induction n bs arbitrary: E As rule: bits_scan.induct)
  case (2 n bs)
  then obtain E0 As0 where "bits_scan (Suc n) bs = Some (n', E0, As0)" "n \<noteq> 6" "rx_join [True] (n', E0, As0) = (n', E, As)"
    by (cases "bits_scan (Suc n) bs") (auto split: if_splits elim!: rx_join.elims)
  then show ?case
    using "2.IH" by (cases As0) fastforce+
next
  case (3 n bs)
  then obtain E0 As0 where *: "bits_scan 0 bs = Some (n', E0, As0)" "(E, As) = (E0, As0) \<or> (E, As) = (E0, [] # As0) \<or> rx_join [False] (n', E0, As0) = (n', E, As)"
    by (cases "bits_scan 0 bs") (auto split: if_splits elim!: rx_join.elims)
  have "length E0 + sum_list (map length As0) + length As0 \<le> length bs"
    using "3.IH" *(1) by (metis)
  then show ?case
    using *(2) by (cases As0) auto
qed simp

text \<open>A segment shorter than an octet is no frame.\<close>

definition seg_events :: "u16 \<Rightarrow> bool list \<Rightarrow> hdlc_event list" where
  "seg_events bch_max D = (if length D < 8 then [] else [rx_event bch_max (octets_of D)])"

lemma rx_step:
  assumes rel: "rx_rel n D s" and rx: "bits_rx n D (word_bits 8 b) = Some (n', E, ds)" and bch: "bch_max < 0xFFFE"
    and al: "dc_flag s \<noteq> 0 \<Longrightarrow> \<forall>D\<in>set ds. length D mod 8 = 7"
    and sup: "rx_supply M (ds @ (E @ X) # segs) s"
  defines "s' \<equiv> HDLC_DECODE bch_max b s"
  shows "rx_rel n' E s' \<and> rx_supply M ((E @ X) # segs) s' \<and> (dc_flag s' = 0 \<longleftrightarrow> dc_flag s = 0 \<and> ds = []) \<and>
    dc_events s' = dc_events s @ (if dc_flag s = 0 then [] else concat (map (seg_events bch_max) ds)) \<and> length ds \<le> 1"
proof -
  have n: "n \<le> 6" "dc_ib s = word_of_nat n" "ends_ones n D" "unat (dc_blevel s) < 8"
    using rel unfolding rx_rel_def by blast+
  then have ones: "ends_ones n' E" "n' \<le> 6"
    using bits_rx_ones [OF rx] by blast+
  obtain E0 As where sc: "bits_scan n (word_bits 8 b) = Some (n', E0, As)" "(n', E, ds) = rx_join D (n', E0, As)"
  proof -
    obtain r0 where r0: "bits_scan n (word_bits 8 b) = Some r0" "(n', E, ds) = rx_join D r0"
      using bits_rx_scan [OF rx] by blast
    then have "fst r0 = n'"
      by (metis fst_conv fst_rx_join)
    then show ?thesis
      using r0 by (intro that [of "fst (snd r0)" "snd (snd r0)"]) auto
  qed
  define c where "c = rx_class_sum (dc_ib s + bit_tab b) b"
  have c: "dec_class bch_max c s s'"
    unfolding c_def s'_def using n(4) by (intro HDLC_DECODE_class) (simp add: word_le_nat_alt)
  have "unat (word_of_nat n :: u16) = n"
    using n(1) by (intro unat_word_of_nat16) simp
  then have ok: "rx_octet_ok (word_of_nat n) c (Some (n', E0, As))"
    using rx_entry_ok_bit_tab [OF n(1), of b] by (simp add: rx_entry_ok_def c_def n(2) sc(1))
  consider "As = []" | A where "As = [A]" | A B As' where "As = A # B # As'"
    by (metis list.exhaust)
  then show ?thesis
  proof cases
    case 1
    then have E: "E = D @ E0" "ds = []"
      using sc(2) by simp_all
    have "rx_data_ok (word_of_nat n) c n' E0"
      using ok 1 by simp
    then obtain ib t k where ct: "c = Rx_data ib t k"
      by (cases c) auto
    have "rx_data_ok (word_of_nat n) (Rx_data ib t k) n' E0"
      using ok 1 ct by simp
    note st = rx_data_step [OF rel this, of M X segs]
    show ?thesis
      using st ones sup c ct E by simp
  next
    case 2
    then have E: "E = E0" "ds = [D @ A]"
      using sc(2) by simp_all
    have "rx_flag_ok c n' E"
      using ok 2 E by simp
    then obtain ib t where ct: "c = Rx_flag ib t"
      by (cases c) auto
    have f: "rx_flag_ok (Rx_flag ib t) n' E"
      using ok 2 ct E by simp
    have "length A < 8"
      using bits_scan_length [OF sc(1)] 2 by simp
    note st = rx_flag_step [OF rel f ones _ this bch, of M "(E @ X) # segs"]
    show ?thesis
      using st al sup c ct E by (simp add: seg_events_def)
  next
    case 3
    then have "length B < 7" "B \<in> set ds"
      using ok sc(2) by simp_all
    then show ?thesis
      using bits_rx_long [OF rx] by fastforce
  qed
qed

lemma bits_rx_extends: "bits_rx n D bs = Some (n', E, ds) \<Longrightarrow> \<exists>X segs. ds @ [E] = (D @ X) # segs"
  by (induction n D bs arbitrary: ds rule: bits_rx.induct) (fastforce split: if_splits)+

lemma rx_run:
  assumes "rx_rel n D s" "bits_rx n D (octet_bits xs) = Some (n', E, ds)" "bch_max < 0xFFFE"
    "\<forall>D\<in>set (if dc_flag s = 0 then tl ds else ds). length D mod 8 = 7" "rx_supply M (ds @ [E]) s"
  shows "rx_rel n' E (rx_hdlc_emulation bch_max xs s) \<and> dc_events (rx_hdlc_emulation bch_max xs s) =
    dc_events s @ concat (map (seg_events bch_max) (if dc_flag s = 0 then tl ds else ds))"
  using assms
proof (induction xs arbitrary: n D s ds)
  case (Cons b xs)
  obtain n1 D1 ds1 ds2 where st: "bits_rx n D (word_bits 8 b) = Some (n1, D1, ds1)"
    "bits_rx n1 D1 (octet_bits xs) = Some (n', E, ds2)" "ds = ds1 @ ds2"
    using Cons.prems(2) by (auto simp: bits_rx_append split: option.splits)
  obtain X segs where X: "ds2 @ [E] = (D1 @ X) # segs"
    using bits_rx_extends [OF st(2)] by blast
  define s1 where "s1 = HDLC_DECODE bch_max b s"
  have sup: "rx_supply M (ds1 @ (D1 @ X) # segs) s"
    using Cons.prems(5) X by (simp add: st(3))
  have "dc_flag s \<noteq> 0 \<Longrightarrow> \<forall>D\<in>set ds1. length D mod 8 = 7"
    using Cons.prems(4) st(3) by simp
  note s1 = rx_step [OF Cons.prems(1) st(1) Cons.prems(3) this sup, folded s1_def]
  have ds1: "ds1 = [] \<or> (\<exists>F. ds1 = [F])"
    using s1 by (cases ds1) auto
  have "\<forall>D\<in>set (if dc_flag s1 = 0 then tl ds2 else ds2). length D mod 8 = 7"
    using Cons.prems(4) s1 ds1 st(3) by (auto split: if_splits)
  note IH = Cons.IH [OF _ st(2) Cons.prems(3) this]
  have "rx_rel n1 D1 s1" "rx_supply M (ds2 @ [E]) s1"
    using s1 X by simp_all
  note IH = IH [OF this]
  then show ?case
    using s1 ds1 st(3) by (auto simp: s1_def [symmetric])
qed simp

lemma dec_reset_rel: "rx_rel 0 [] (dec_reset al)"
  using dec_reset_inv [of al] by (auto simp: rx_rel_def ends_ones_def dec_reset_def intro!: exI [of _ "[]"])


lemma sample_stream: "bits_rx 0 [] (octet_bits [0x7E, 0x0E, 0x06, 0x19, 0x7E]) =
   Some (0, [], [[False, True, True, True, True, True, True],
     [False, True, True, True, False, False, False, False, False, True, True, False, False, False, False, False,
      True, False, False, True, True, False, False, False, False, True, True, True, True, True, True]])"
  by (simp add: word_bits_def upt_rec)


end
