(* ===== verification/HDLC_Encode.thy ===== *)
theory HDLC_Encode
  imports HDLC_Tables
begin

unbundle bit_operations_syntax

text \<open>
  The software HDLC transmitter: the macro \<^verbatim>\<open>HDLC_ENCODE\<close> of
  \<^verbatim>\<open>src/src/sys/i4b/layer1/i4b_hdlc.h\<close>, in its B-channel and D-channel forms, as it is
  instantiated by \<^verbatim>\<open>tx_hdlc_emulation\<close> and \<^verbatim>\<open>tx_hdlc_emulation_dchan\<close> of
  \<^verbatim>\<open>layer1/ihfc3/i4b_filter.h\<close>. One run of the macro writes one octet. The specification is the
  bit-serial one: insert a zero after five ones.
\<close>

section \<open>State\<close>

text \<open>
  The variables the macro suspends and resumes (\<open>flag\<close>, \<open>blevel\<close>, \<open>crc\<close>, \<open>ib\<close>, \<open>tmp\<close>, \<open>len\<close>),
  the unread octets behind \<open>src\<close>, the frames \<open>ihfc_i4b_getmbuf\<close> will deliver, and whether the
  last \<open>gfr\<close> found no frame, which ends the filter's output loop.
\<close>

record hdlc_enc =
  ec_flag :: u8
  ec_blevel :: u16
  ec_ib :: u16
  ec_crc :: u16
  ec_tmp :: u32
  ec_len :: u16
  ec_src :: "u8 list"
  ec_queue :: "u8 list list"
  ec_stop :: bool

section \<open>Bit stuffing of one octet\<close>

text \<open>
  The table-driven part between the labels \<open>j2\<close> and \<open>j3\<close>: new \<open>ib\<close>, the stuffed octet in \<open>tmp2\<close>
  (a \<open>uint32_t\<close> in the callers) and the number of inserted bits, if the stuffing branch is taken.
\<close>

definition hdlc_stuff_msb :: "u16 \<Rightarrow> u32 \<Rightarrow> u16 \<times> u32 \<times> u16" where
  "hdlc_stuff_msb ib tmp2 =
     (if ib AND 0xC0 \<noteq> 0
      then ((if 0x5000 \<le> ib then ib - 0x5000 else ib),
            (if ib AND 0x80 \<noteq> 0 then tmp2 + (tmp2 AND 0x7F80) else tmp2 + (tmp2 AND 0x3FC0)), 1)
      else (ib, tmp2, 0))"

definition hdlc_stuff_lsb :: "u16 \<Rightarrow> u32 \<Rightarrow> u16 \<Rightarrow> u16 \<times> u32 \<times> u16" where
  "hdlc_stuff_lsb ib tmp2 k =
     (if 5 \<le> LO8 ib
      then let t = unat ((ib - drop_bit 8 ib + 1) AND 7);
               tmp2 = tmp2 + (tmp2 AND NOT (drop_bit t 0x1F));
               tmp3 = (if 10 \<le> LO8 ib then tmp2 + (tmp2 AND NOT (drop_bit t 0x7FF)) else tmp2);
               k' = (if 10 \<le> LO8 ib then k + 2 else k + 1);
               ib' = (if ib AND 0x8000 \<noteq> 0
                      then push_bit 12 (u16_of_u8 (LO8 (ib - (if 10 \<le> LO8 ib then 10 else 5)))) else ib)
           in (ib', tmp3, k')
      else (ib, tmp2, k))"

definition hdlc_stuff :: "u16 \<Rightarrow> u16 \<Rightarrow> u8 \<Rightarrow> u16 \<times> u32 \<times> u16 option" where
  "hdlc_stuff ib0 tabv b =
     (let ib = drop_bit 12 ib0 + tabv; tmp2 = u32_of_u8 b
      in if 5 \<le> LO8 ib
         then case hdlc_stuff_msb ib tmp2 of (ib, tmp2, k) \<Rightarrow>
                case hdlc_stuff_lsb (ib AND NOT 0xF0) tmp2 k of (ib, tmp2, k) \<Rightarrow> (ib, tmp2, Some k)
         else (ib, tmp2, None))"

section \<open>One run of the macro\<close>

text \<open>Label \<open>j4\<close>: write the low octet of \<open>tmp\<close> and shift it out.\<close>

definition enc_write :: "hdlc_enc \<Rightarrow> hdlc_enc \<times> u8" where
  "enc_write s = (s\<lparr>ec_tmp := drop_bit 8 (ec_tmp s)\<rparr>, u8_of_u32 (ec_tmp s))"

text \<open>Label \<open>j3\<close>: an octet that is not stuffed (flags, idle and abort octets).\<close>

definition enc_raw :: "u32 \<Rightarrow> hdlc_enc \<Rightarrow> hdlc_enc \<times> u8" where
  "enc_raw tmp2 s =
     enc_write (s\<lparr>ec_tmp := ec_tmp s OR push_bit (unat (LO8 (drop_bit 8 (ec_blevel s)))) tmp2\<rparr>)"

text \<open>Label \<open>j2\<close>: a stuffed octet.\<close>

definition enc_stuffed :: "u8 \<Rightarrow> hdlc_enc \<Rightarrow> hdlc_enc \<times> u8" where
  "enc_stuffed b s =
     (case hdlc_stuff (ec_ib s) (bit_tab b) b of
        (ib, tmp2, None) \<Rightarrow> enc_raw tmp2 (s\<lparr>ec_ib := ib\<rparr>)
      | (ib, tmp2, Some k) \<Rightarrow>
          let blevel = (ec_blevel s AND NOT 0xFF) + k;
              tmp = ec_tmp s OR push_bit (unat (LO8 (drop_bit 8 blevel))) tmp2;
              blevel = blevel + push_bit 8 (u16_of_u8 (LO8 blevel))
          in enc_write (s\<lparr>ec_ib := ib, ec_tmp := tmp, ec_blevel := blevel\<rparr>))"

text \<open>Label \<open>j1\<close>: read an octet from \<open>src\<close>; \<open>len\<close> has been decremented.\<close>

definition enc_data :: "hdlc_enc \<Rightarrow> hdlc_enc \<times> u8" where
  "enc_data s =
     (let b = (case ec_src s of [] \<Rightarrow> 0 | x # _ \<Rightarrow> x)
      in enc_stuffed b (s\<lparr>ec_len := ec_len s - 1, ec_src := tl (ec_src s),
                          ec_crc := fcs_update (ec_crc s) b\<rparr>))"

text \<open>\<open>gfr\<close> of the callers: the next frame, or leave the output loop after this octet.\<close>

definition enc_gfr :: "hdlc_enc \<Rightarrow> hdlc_enc" where
  "enc_gfr s =
     (case ec_queue s of
        [] \<Rightarrow> s\<lparr>ec_stop := True\<rparr>
      | fr # q \<Rightarrow> s\<lparr>ec_queue := q, ec_src := fr, ec_len := word_of_nat (length fr)\<rparr>)"

text \<open>The pending zero of the special case \<open>xx011111\<close> before a flag.\<close>

definition enc_flag_stuff :: "hdlc_enc \<Rightarrow> hdlc_enc" where
  "enc_flag_stuff s =
     (let ib = drop_bit 12 (ec_ib s)
      in s\<lparr>ec_ib := ib, ec_blevel := (if ib = 5 then ec_blevel s + 0x100 else ec_blevel s)\<rparr>)"

definition enc_crc_lo :: "hdlc_enc \<Rightarrow> hdlc_enc \<times> u8" where
  "enc_crc_lo s = (let crc = ec_crc s XOR (- 1) in enc_stuffed (LO8 crc) (s\<lparr>ec_crc := crc\<rparr>))"

definition enc_next_b :: "hdlc_enc \<Rightarrow> hdlc_enc \<times> u8" where
  "enc_next_b s0 =
     (let s = s0\<lparr>ec_flag := ec_flag s0 + 1\<rparr>; fl = ec_flag s0 + 1
      in if fl = 1 \<or> fl = 2 then enc_raw 0x7E (enc_flag_stuff s)
         else if fl = 3
         then let s = enc_gfr s
              in if ec_len s = 0 then enc_raw 0x7E (s\<lparr>ec_flag := ec_flag s - 1\<rparr>)
                 else enc_data (s\<lparr>ec_crc := - 1, ec_ib := 0\<rparr>)
         else if fl = 4 then enc_crc_lo s
         else if fl = 5 then enc_stuffed (LO8 (drop_bit 8 (ec_crc s))) (s\<lparr>ec_flag := 1\<rparr>)
         else enc_raw 0xFF (s\<lparr>ec_tmp := 0, ec_blevel := 0, ec_ib := 0\<rparr>))"

definition enc_next_d :: "hdlc_enc \<Rightarrow> hdlc_enc \<times> u8" where
  "enc_next_d s0 =
     (let s = s0\<lparr>ec_flag := ec_flag s0 + 1\<rparr>; fl = ec_flag s0 + 1
      in if fl = 3
         then let s = enc_gfr s
              in if ec_len s = 0 then enc_raw 0xFF (s\<lparr>ec_flag := ec_flag s - 1\<rparr>)
                 else enc_write (s\<lparr>ec_crc := - 1, ec_ib := 0, ec_tmp := 0x7EFF, ec_blevel := 0x800\<rparr>)
         else if fl = 4 then enc_crc_lo s
         else if fl = 5 then enc_stuffed (LO8 (drop_bit 8 (ec_crc s))) s
         else if fl = 6 then enc_raw 0x7E (enc_flag_stuff (s\<lparr>ec_flag := 0\<rparr>))
         else enc_raw 0xFF s)"

definition HDLC_ENCODE :: "bool \<Rightarrow> hdlc_enc \<Rightarrow> hdlc_enc \<times> u8" where
  "HDLC_ENCODE dchan s =
     (if 0x800 \<le> ec_blevel s then enc_write (s\<lparr>ec_blevel := ec_blevel s - 0x800\<rparr>)
      else if ec_len s = 0 then (if dchan then enc_next_d s else enc_next_b s)
      else enc_data s)"

text \<open>The output loop of the filter over a buffer of \<open>n\<close> octets.\<close>

fun tx_hdlc_emulation :: "bool \<Rightarrow> nat \<Rightarrow> hdlc_enc \<Rightarrow> hdlc_enc \<times> u8 list" where
  "tx_hdlc_emulation dchan 0 s = (s, [])"
| "tx_hdlc_emulation dchan (Suc n) s =
     (case HDLC_ENCODE dchan (s\<lparr>ec_stop := False\<rparr>) of
        (s1, x) \<Rightarrow> if ec_stop s1 then (s1, [x])
                   else case tx_hdlc_emulation dchan n s1 of (s2, xs) \<Rightarrow> (s2, x # xs))"

section \<open>Specification: zero insertion on the bit stream\<close>

text \<open>\<open>stuff n bs\<close>: \<open>n < 5\<close> ones precede; a zero follows every fifth consecutive one.\<close>

fun stuff :: "nat \<Rightarrow> bool list \<Rightarrow> bool list" where
  "stuff n [] = []"
| "stuff n (False # bs) = False # stuff 0 bs"
| "stuff n (True # bs) = (if n = 4 then True # False # stuff 0 bs else True # stuff (Suc n) bs)"

fun stuff_count :: "nat \<Rightarrow> bool list \<Rightarrow> nat" where
  "stuff_count n [] = n"
| "stuff_count n (False # bs) = stuff_count 0 bs"
| "stuff_count n (True # bs) = (if n = 4 then stuff_count 0 bs else stuff_count (Suc n) bs)"

lemma stuff_append: "stuff n (xs @ ys) = stuff n xs @ stuff (stuff_count n xs) ys"
  by (induction n xs rule: stuff.induct) auto

lemma stuff_count_append: "stuff_count n (xs @ ys) = stuff_count (stuff_count n xs) ys"
  by (induction n xs rule: stuff_count.induct) auto

text \<open>The transmitter delays the zero after an octet that ends in five ones. With
  \<open>m = ib >> 12\<close>, the zero is owed when \<open>m = 5\<close>.\<close>

definition owed_zero :: "u16 \<Rightarrow> bool list" where
  "owed_zero m = (if m = 5 then [False] else [])"

definition ones_run :: "u16 \<Rightarrow> nat" where
  "ones_run m = (if m = 5 then 0 else unat m)"

section \<open>The stuffing of one octet meets the specification\<close>

text \<open>
  The proof evaluates all 6 times 256 cases. The functions below are \<open>hdlc_stuff\<close> and its
  specification written without local bindings, so that the simplifier computes arguments first.
\<close>

fun stuff_run :: "nat \<Rightarrow> bool list \<Rightarrow> bool list \<times> nat" where
  "stuff_run n [] = ([], n)"
| "stuff_run n (False # bs) = (case stuff_run 0 bs of (r, m) \<Rightarrow> (False # r, m))"
| "stuff_run n (True # bs) =
     (if n = 4 then case stuff_run 0 bs of (r, m) \<Rightarrow> (True # False # r, m)
      else case stuff_run (Suc n) bs of (r, m) \<Rightarrow> (True # r, m))"

lemma stuff_run_eq: "stuff_run n bs = (stuff n bs, stuff_count n bs)"
  by (induction n bs rule: stuff_run.induct) simp_all

definition lsb_ib :: "u16 \<Rightarrow> u32 \<Rightarrow> u16 \<Rightarrow> u16 \<times> u32 \<times> u16" where
  "lsb_ib ib tmp2 k =
     ((if ib AND 0x8000 \<noteq> 0
       then push_bit 12 (u16_of_u8 (LO8 (ib - (if 10 \<le> LO8 ib then 10 else 5)))) else ib), tmp2, k)"

definition lsb_second :: "u16 \<Rightarrow> nat \<Rightarrow> u32 \<Rightarrow> u16 \<Rightarrow> u16 \<times> u32 \<times> u16" where
  "lsb_second ib t tmp2 k =
     (if 10 \<le> LO8 ib then lsb_ib ib (tmp2 + (tmp2 AND NOT (drop_bit t 0x7FF))) (k + 2)
      else lsb_ib ib tmp2 (k + 1))"

definition lsb_first :: "u16 \<Rightarrow> nat \<Rightarrow> u32 \<Rightarrow> u16 \<Rightarrow> u16 \<times> u32 \<times> u16" where
  "lsb_first ib t tmp2 k = lsb_second ib t (tmp2 + (tmp2 AND NOT (drop_bit t 0x1F))) k"

lemma hdlc_stuff_lsb_eval: "hdlc_stuff_lsb ib tmp2 k =
    (if 5 \<le> LO8 ib then lsb_first ib (unat ((ib - drop_bit 8 ib + 1) AND 7)) tmp2 k else (ib, tmp2, k))"
  by (simp add: hdlc_stuff_lsb_def lsb_first_def lsb_second_def lsb_ib_def Let_def)

fun stuff_some :: "u16 \<times> u32 \<times> u16 \<Rightarrow> u16 \<times> u32 \<times> u16 option" where
  "stuff_some (ib, t, k) = (ib, t, Some k)"

fun stuff_then_lsb :: "u16 \<times> u32 \<times> u16 \<Rightarrow> u16 \<times> u32 \<times> u16 option" where
  "stuff_then_lsb (ib, t, k) = stuff_some (hdlc_stuff_lsb (ib AND NOT 0xF0) t k)"

definition stuff_sum :: "u16 \<Rightarrow> u32 \<Rightarrow> u16 \<times> u32 \<times> u16 option" where
  "stuff_sum ib t = (if 5 \<le> LO8 ib then stuff_then_lsb (hdlc_stuff_msb ib t) else (ib, t, None))"

lemma hdlc_stuff_eval: "hdlc_stuff ib0 v b = stuff_sum (drop_bit 12 ib0 + v) (u32_of_u8 b)"
  by (auto simp: hdlc_stuff_def stuff_sum_def Let_def split: prod.splits)

fun stuffed_as :: "bool list \<Rightarrow> u16 \<Rightarrow> bool list \<times> nat \<Rightarrow> bool" where
  "stuffed_as bs m (r, n) \<longleftrightarrow> m \<le> 5 \<and> bs @ owed_zero m = r \<and> ones_run m = n"

fun stuffed_ok :: "u16 \<times> u32 \<times> u16 option \<Rightarrow> bool list \<times> nat \<Rightarrow> bool" where
  "stuffed_ok (ib, t, None) r \<longleftrightarrow> drop_bit 8 t = 0 \<and> stuffed_as (word_bits 8 t) (drop_bit 12 ib) r"
| "stuffed_ok (ib, t, Some k) r \<longleftrightarrow> k \<le> 3 \<and> drop_bit (8 + unat k) t = 0 \<and>
     stuffed_as (word_bits (8 + unat k) t) (drop_bit 12 ib) r"

fun owed_before :: "u16 \<Rightarrow> bool list \<times> nat \<Rightarrow> bool list \<times> nat" where
  "owed_before m (r, n) = (owed_zero m @ r, n)"

definition entry_ok :: "u16 \<Rightarrow> u8 \<Rightarrow> u16 \<Rightarrow> bool" where
  "entry_ok m b v \<longleftrightarrow>
     stuffed_ok (stuff_sum (m + v) (u32_of_u8 b)) (owed_before m (stuff_run (ones_run m) (word_bits 8 b)))"

lemmas entry_eval = entry_ok_def stuff_sum_def hdlc_stuff_lsb_eval hdlc_stuff_msb_def lsb_first_def
  lsb_second_def lsb_ib_def word_bits_def upt_rec owed_zero_def ones_run_def

lemma entry_ok_0: "list_all (\<lambda>(b, v). entry_ok 0 b v) (zip (map word_of_nat [0..<256]) HDLC_BIT_TAB)"
  by (simp add: HDLC_BIT_TAB_def u8_enum_unfold) (simp add: entry_eval)

lemma entry_ok_1: "list_all (\<lambda>(b, v). entry_ok 1 b v) (zip (map word_of_nat [0..<256]) HDLC_BIT_TAB)"
  by (simp add: HDLC_BIT_TAB_def u8_enum_unfold) (simp add: entry_eval)

lemma entry_ok_2: "list_all (\<lambda>(b, v). entry_ok 2 b v) (zip (map word_of_nat [0..<256]) HDLC_BIT_TAB)"
  by (simp add: HDLC_BIT_TAB_def u8_enum_unfold) (simp add: entry_eval)

lemma entry_ok_3: "list_all (\<lambda>(b, v). entry_ok 3 b v) (zip (map word_of_nat [0..<256]) HDLC_BIT_TAB)"
  by (simp add: HDLC_BIT_TAB_def u8_enum_unfold) (simp add: entry_eval)

lemma entry_ok_4: "list_all (\<lambda>(b, v). entry_ok 4 b v) (zip (map word_of_nat [0..<256]) HDLC_BIT_TAB)"
  by (simp add: HDLC_BIT_TAB_def u8_enum_unfold) (simp add: entry_eval)

lemma entry_ok_5: "list_all (\<lambda>(b, v). entry_ok 5 b v) (zip (map word_of_nat [0..<256]) HDLC_BIT_TAB)"
  by (simp add: HDLC_BIT_TAB_def u8_enum_unfold) (simp add: entry_eval)

lemma u16_le_5_cases: "(m :: u16) \<le> 5 \<Longrightarrow> m = 0 \<or> m = 1 \<or> m = 2 \<or> m = 3 \<or> m = 4 \<or> m = 5"
proof -
  assume "m \<le> 5"
  then have "unat m \<le> 5"
    by (simp add: word_le_nat_alt)
  then have "unat m \<in> {0, 1, 2, 3, 4, 5}"
    by auto
  then have "(word_of_nat (unat m) :: u16) \<in> word_of_nat ` {0, 1, 2, 3, 4, 5}"
    by blast
  then show ?thesis
    by simp
qed

lemma entry_ok_bit_tab: "m \<le> 5 \<Longrightarrow> entry_ok m b (bit_tab b)"
  using u16_le_5_cases [of m]
    tab_entry_all [OF length_HDLC_BIT_TAB entry_ok_0, of b]
    tab_entry_all [OF length_HDLC_BIT_TAB entry_ok_1, of b]
    tab_entry_all [OF length_HDLC_BIT_TAB entry_ok_2, of b]
    tab_entry_all [OF length_HDLC_BIT_TAB entry_ok_3, of b]
    tab_entry_all [OF length_HDLC_BIT_TAB entry_ok_4, of b]
    tab_entry_all [OF length_HDLC_BIT_TAB entry_ok_5, of b]
  unfolding bit_tab_def by blast

lemma hdlc_stuff_correct:
  assumes "drop_bit 12 ib0 \<le> 5" and "hdlc_stuff ib0 (bit_tab b) b = (ib, t, r)"
  defines "k \<equiv> case r of None \<Rightarrow> 0 | Some k \<Rightarrow> unat k"
  shows "k \<le> 3 \<and> drop_bit 12 ib \<le> 5 \<and> drop_bit (8 + k) t = 0 \<and>
    word_bits (8 + k) t @ owed_zero (drop_bit 12 ib)
      = owed_zero (drop_bit 12 ib0) @ stuff (ones_run (drop_bit 12 ib0)) (word_bits 8 b) \<and>
    ones_run (drop_bit 12 ib) = stuff_count (ones_run (drop_bit 12 ib0)) (word_bits 8 b)"
  using entry_ok_bit_tab [OF assms(1), of b] assms(2)
  by (cases r) (auto simp: entry_ok_def hdlc_stuff_eval stuff_run_eq k_def word_le_nat_alt)

end
