(* ===== verification/HDLC_Transmit.thy ===== *)
theory HDLC_Transmit
  imports HDLC_Encode
begin

unbundle bit_operations_syntax

text \<open>
  The transmitter of \<^verbatim>\<open>HDLC_Encode\<close> seen as a bit stream: whatever the alignment left by
  the previous frame, a queued frame leaves as its octets and complemented frame check
  sequence, zero-stuffed, followed by a closing flag.
\<close>

section \<open>The octet under construction\<close>

text \<open>
  The high octet of \<open>blevel\<close> counts the bits waiting in \<open>tmp\<close>; an octet is due when it reaches 8.
\<close>

definition enc_fill :: "hdlc_enc \<Rightarrow> nat" where
  "enc_fill s = unat (drop_bit 8 (ec_blevel s))"

definition enc_pend :: "hdlc_enc \<Rightarrow> bool list" where
  "enc_pend s = word_bits (enc_fill s) (ec_tmp s)"

definition enc_inv :: "hdlc_enc \<Rightarrow> bool" where
  "enc_inv s \<longleftrightarrow> enc_fill s \<le> 10 \<and> drop_bit (enc_fill s) (ec_tmp s) = 0 \<and> drop_bit 12 (ec_ib s) \<le> 5"

lemma enc_fill_div: "enc_fill s = unat (ec_blevel s) div 256"
  by (simp add: enc_fill_def unat_drop_bit_div)

lemma fill_less: "enc_fill s < 8 \<longleftrightarrow> ec_blevel s < 0x800"
  by (auto simp add: enc_fill_div word_less_nat_alt)

lemma fill_drain: "0x800 \<le> ec_blevel s \<Longrightarrow> enc_fill (s\<lparr>ec_blevel := ec_blevel s - 0x800\<rparr>) = enc_fill s - 8"
  by (auto simp add: enc_fill_div word_le_nat_alt unat_sub)

lemma unat_fill: "unat (LO8 (drop_bit 8 (ec_blevel s))) = enc_fill s"
proof -
  have "enc_fill s < 256"
    by (simp add: enc_fill_div div_less_iff_less_mult)
  then show ?thesis
    by (simp add: enc_fill_def unsigned_ucast_eq take_bit_eq_mod)
qed

lemma level_mask: "ec_blevel s AND NOT 0xFF = word_of_nat (enc_fill s * 256)"
proof -
  have *: "push_bit 8 x = word_of_nat (unat x) * 256" for x :: u16
    by (simp add: push_bit_eq_mult)
  have "ec_blevel s AND NOT 0xFF = push_bit 8 (drop_bit 8 (ec_blevel s))"
    by (rule bit_word_eqI) (auto simp: bit_simps)
  also have "\<dots> = word_of_nat (enc_fill s) * 256"
    unfolding enc_fill_def by (rule *)
  finally show ?thesis
    by (simp only: of_nat_mult of_nat_numeral)
qed

lemma level_stuffed:
  assumes "enc_fill s < 8" "unat (k :: u16) \<le> 3"
  defines "bl \<equiv> (ec_blevel s AND NOT 0xFF) + k"
  shows "unat (LO8 (drop_bit 8 bl)) = enc_fill s"
    and "unat (drop_bit 8 (bl + push_bit 8 (u16_of_u8 (LO8 bl)))) = enc_fill s + unat k"
proof -
  obtain k' where k': "k = word_of_nat k'" "k' \<le> 3"
    using assms(2) by (intro that [of "unat k"]) simp_all
  have bl: "bl = word_of_nat (enc_fill s * 256 + k')"
    unfolding bl_def level_mask k' by simp
  have small: "unat (word_of_nat n :: u16) = n" if "n < 65536" for n
    using that by (simp add: unat_of_nat)
  have u: "unat bl = enc_fill s * 256 + k'"
    using assms(1) k'(2) unfolding bl by (intro small) simp
  have lo: "LO8 bl = word_of_nat k'"
    using k'(2) by (simp add: word_unat_eq_iff unsigned_ucast_eq u take_bit_eq_mod unat_of_nat)
  show "unat (LO8 (drop_bit 8 bl)) = enc_fill s"
    using assms(1) k'(2) by (simp add: unsigned_ucast_eq unat_drop_bit_div u take_bit_eq_mod)
  have "unat (push_bit 8 (u16_of_u8 (LO8 bl))) = k' * 256"
    using k'(2) by (simp add: lo push_bit_eq_mult unat_word_ariths(2) unsigned_ucast_eq unat_of_nat take_bit_eq_mod)
  then have "unat (bl + push_bit 8 (u16_of_u8 (LO8 bl))) = enc_fill s * 256 + k' + k' * 256"
    using assms(1) k'(2) u by (simp add: unat_word_ariths(1))
  moreover have "unat k = k'"
    using k' by (simp add: small)
  ultimately show "unat (drop_bit 8 (bl + push_bit 8 (u16_of_u8 (LO8 bl)))) = enc_fill s + unat k"
    using k'(2) by (simp add: unat_drop_bit_div)
qed

section \<open>The bits one octet adds to the stream\<close>

definition same_input :: "hdlc_enc \<Rightarrow> hdlc_enc \<Rightarrow> bool" where
  "same_input s s' \<longleftrightarrow> ec_flag s' = ec_flag s \<and> ec_crc s' = ec_crc s \<and> ec_len s' = ec_len s \<and>
     ec_src s' = ec_src s \<and> ec_queue s' = ec_queue s"

lemma enc_raw_bits:
  assumes "enc_fill s \<le> 8" "drop_bit (enc_fill s) (ec_tmp s) = 0" "drop_bit 8 x = 0"
    and "enc_raw x s = (s', y)"
  shows "word_bits 8 y @ enc_pend s' = enc_pend s @ word_bits 8 x"
    and "enc_fill s' = enc_fill s" "drop_bit (enc_fill s') (ec_tmp s') = 0"
    and "same_input s s'" "ec_stop s' = ec_stop s" "ec_ib s' = ec_ib s"
proof -
  have s': "s' = s\<lparr>ec_tmp := drop_bit 8 (ec_tmp s OR push_bit (enc_fill s) x)\<rparr>"
    "y = u8_of_u32 (ec_tmp s OR push_bit (enc_fill s) x)"
    using assms(4) by (simp_all add: enc_raw_def enc_write_def unat_fill)
  then show f: "enc_fill s' = enc_fill s" "same_input s s'" "ec_stop s' = ec_stop s" "ec_ib s' = ec_ib s"
    by (simp_all add: enc_fill_def same_input_def)
  note m = word_bits_or_push [OF assms(2,3)]
  show "word_bits 8 y @ enc_pend s' = enc_pend s @ word_bits 8 x"
    using m(1) assms(1) word_bits_split8 [of "enc_fill s" "ec_tmp s OR push_bit (enc_fill s) x"]
    unfolding enc_pend_def f(1) by (simp add: s' add.commute)
  show "drop_bit (enc_fill s') (ec_tmp s') = 0"
    using m(2) assms(1) unfolding f(1) by (simp add: s' add.commute)
qed

abbreviation enc_m :: "hdlc_enc \<Rightarrow> u16" where
  "enc_m s \<equiv> drop_bit 12 (ec_ib s)"

definition enc_stream :: "hdlc_enc \<Rightarrow> bool list" where
  "enc_stream s = enc_pend s @ owed_zero (enc_m s)"

lemma enc_stuffed_bits:
  assumes "enc_inv s" "ec_blevel s < 0x800" "enc_stuffed b s = (s', y)"
  shows "word_bits 8 y @ enc_stream s' = enc_stream s @ stuff (ones_run (enc_m s)) (word_bits 8 b)"
    and "ones_run (enc_m s') = stuff_count (ones_run (enc_m s)) (word_bits 8 b)"
    and "enc_inv s'" 
    and "same_input s s'" "ec_stop s' = ec_stop s"
proof -
  obtain ib t r where st: "hdlc_stuff (ec_ib s) (bit_tab b) b = (ib, t, r)"
    by (metis prod_cases3)
  define k where "k = (case r of None \<Rightarrow> 0 | Some k \<Rightarrow> unat k)"
  define T where "T = ec_tmp s OR push_bit (enc_fill s) t"
  have fill: "enc_fill s < 8" and z: "drop_bit (enc_fill s) (ec_tmp s) = 0" and m: "enc_m s \<le> 5"
    using assms(1,2) by (simp_all add: enc_inv_def fill_less)
  note ok = hdlc_stuff_correct [OF m st, folded k_def]
  have out: "ec_tmp s' = drop_bit 8 T" "y = u8_of_u32 T" "ec_ib s' = ib" "enc_fill s' = enc_fill s + k"
    "same_input s s'" "ec_stop s' = ec_stop s"
    using assms(3) ok level_stuffed [OF fill]
    by (auto simp: enc_stuffed_def st enc_raw_def enc_write_def k_def T_def Let_def unat_fill enc_fill_def same_input_def
        split: option.splits)
  note mm = word_bits_or_push [OF z, of "8 + k" t, folded T_def]
  have T: "word_bits 8 y @ enc_pend s' = enc_pend s @ word_bits (8 + k) t"
    using mm(1) fill ok word_bits_split8 [of "enc_fill s + k" T]
    by (simp add: enc_pend_def out(1,2,4) ac_simps)
  have "drop_bit (enc_fill s') (ec_tmp s') = 0"
    using mm(2) fill ok by (simp add: out(1,4) ac_simps)
  then show "enc_inv s'"
    using ok fill by (simp add: enc_inv_def out(3,4))
  show "word_bits 8 y @ enc_stream s' = enc_stream s @ stuff (ones_run (enc_m s)) (word_bits 8 b)"
    using ok T unfolding enc_stream_def out(3) by (metis append_assoc)
  show "ones_run (enc_m s') = stuff_count (ones_run (enc_m s)) (word_bits 8 b)"
    using ok by (simp add: out(3))
  show "same_input s s'" "ec_stop s' = ec_stop s"
    by (fact out(5,6))+
qed

section \<open>Runs of the transmitter\<close>

text \<open>
  \<open>emits\<close>: consecutive runs of the macro inside one output loop, none of which ends the loop.
  \<open>sends\<close>: the bits that such a run adds behind the ones already pending.
\<close>

inductive emits :: "bool \<Rightarrow> hdlc_enc \<Rightarrow> u8 list \<Rightarrow> hdlc_enc \<Rightarrow> bool" for dchan where
  emits_refl: "emits dchan s [] s"
| emits_step: "HDLC_ENCODE dchan (s\<lparr>ec_stop := False\<rparr>) = (s1, x) \<Longrightarrow> \<not> ec_stop s1 \<Longrightarrow>
    emits dchan s1 xs s2 \<Longrightarrow> emits dchan s (x # xs) s2"

lemma emits_trans: "emits d s xs s1 \<Longrightarrow> emits d s1 ys s2 \<Longrightarrow> emits d s (xs @ ys) s2"
  by (induction rule: emits.induct) (auto intro: emits.intros)

lemma emits_tx: "emits d s xs s' \<Longrightarrow> tx_hdlc_emulation d (length xs) s = (s', xs)"
  by (induction rule: emits.induct) auto

definition sends :: "bool \<Rightarrow> hdlc_enc \<Rightarrow> bool list \<Rightarrow> hdlc_enc \<Rightarrow> bool" where
  "sends d s bs s' \<longleftrightarrow> enc_inv s' \<and>
     (\<exists>xs. emits d s xs s' \<and> octet_bits xs @ enc_stream s' = enc_stream s @ bs)"

lemma sends_refl: "enc_inv s \<Longrightarrow> sends d s [] s"
  unfolding sends_def by (intro conjI exI [of _ "[]"]) (auto intro: emits_refl)

lemma sends_trans:
  assumes "sends d s bs s1" "sends d s1 cs s2"
  shows "sends d s (bs @ cs) s2"
proof -
  obtain xs ys where xs: "emits d s xs s1" "octet_bits xs @ enc_stream s1 = enc_stream s @ bs"
    and ys: "emits d s1 ys s2" "octet_bits ys @ enc_stream s2 = enc_stream s1 @ cs"
    using assms unfolding sends_def by blast
  have "octet_bits (xs @ ys) @ enc_stream s2 = (octet_bits xs @ enc_stream s1) @ cs"
    using ys(2) by simp
  then have "emits d s (xs @ ys) s2" "octet_bits (xs @ ys) @ enc_stream s2 = enc_stream s @ bs @ cs"
    using xs(2) emits_trans [OF xs(1) ys(1)] by simp_all
  then show ?thesis
    using assms(2) unfolding sends_def by blast
qed

lemma sends_one:
  assumes "HDLC_ENCODE d (s\<lparr>ec_stop := False\<rparr>) = (s', y)" "\<not> ec_stop s'" "enc_inv s'"
    and "word_bits 8 y @ enc_stream s' = enc_stream s @ bs"
  shows "sends d s bs s'"
  unfolding sends_def
  using assms emits_step [OF assms(1,2) emits_refl] by (intro conjI exI [of _ "[y]"]) simp_all

lemma enc_stop_irrelevant [simp]:
  "enc_fill (s\<lparr>ec_stop := b\<rparr>) = enc_fill s" "enc_pend (s\<lparr>ec_stop := b\<rparr>) = enc_pend s"
  "enc_inv (s\<lparr>ec_stop := b\<rparr>) = enc_inv s" "enc_stream (s\<lparr>ec_stop := b\<rparr>) = enc_stream s"
  by (simp_all add: enc_fill_def enc_pend_def enc_inv_def enc_stream_def)

lemma sends_flush:
  assumes "enc_inv s"
  obtains s' where "sends d s [] s'" "ec_blevel s' < 0x800" "same_input s s'" "ec_ib s' = ec_ib s"
proof (cases "ec_blevel s < 0x800")
  case True
  then show thesis
    using assms by (intro that [of s] sends_refl) (simp_all add: same_input_def)
next
  case False
  define n where "n = enc_fill s - 8"
  let ?s = "s\<lparr>ec_stop := False, ec_blevel := ec_blevel s - 0x800\<rparr>"
  let ?s' = "?s\<lparr>ec_tmp := drop_bit 8 (ec_tmp s)\<rparr>"
  have n: "enc_fill s = 8 + n" "n \<le> 2"
    using False assms fill_less [of s] by (auto simp: n_def enc_inv_def)
  have f: "enc_fill ?s' = n"
    using False fill_drain [of s] by (simp add: n_def enc_fill_def not_less)
  have inv: "enc_inv ?s'"
    using assms n by (simp add: enc_inv_def f add.commute)
  have "sends d s [] ?s'"
  proof (rule sends_one [OF _ _ inv])
    show "HDLC_ENCODE d (s\<lparr>ec_stop := False\<rparr>) = (?s', u8_of_u32 (ec_tmp s))"
      using False by (simp add: HDLC_ENCODE_def enc_write_def not_less)
    show "word_bits 8 (u8_of_u32 (ec_tmp s)) @ enc_stream ?s' = enc_stream s @ []"
      using word_bits_split8 [of n "ec_tmp s"] by (simp add: enc_stream_def enc_pend_def f n)
  qed simp
  moreover have "ec_blevel ?s' < 0x800"
    using n(2) f fill_less [of ?s'] by simp
  ultimately show thesis
    by (intro that [of ?s']) (simp_all add: same_input_def)
qed


lemma HDLC_ENCODE_low: "ec_blevel s < 0x800 \<Longrightarrow>
    HDLC_ENCODE d s = (if ec_len s = 0 then (if d then enc_next_d s else enc_next_b s) else enc_data s)"
  by (auto simp: HDLC_ENCODE_def dest: leD)

lemma sends_stuffed:
  assumes "enc_inv s" "ec_blevel s < 0x800" "HDLC_ENCODE d (s\<lparr>ec_stop := False\<rparr>) = enc_stuffed b s1"
    and "ec_tmp s1 = ec_tmp s" "ec_blevel s1 = ec_blevel s" "enc_m s1 = enc_m s" "\<not> ec_stop s1"
  obtains s' where "sends d s (stuff (ones_run (enc_m s)) (word_bits 8 b)) s'"
    "ones_run (enc_m s') = stuff_count (ones_run (enc_m s)) (word_bits 8 b)" "same_input s1 s'"
proof -
  obtain s' y where e: "enc_stuffed b s1 = (s', y)"
    by fastforce
  have inv: "enc_inv s1" "ec_blevel s1 < 0x800" and eq: "enc_stream s1 = enc_stream s"
    using assms by (simp_all add: enc_inv_def enc_fill_def enc_stream_def enc_pend_def)
  note st = enc_stuffed_bits [OF inv e]
  have "sends d s (stuff (ones_run (enc_m s)) (word_bits 8 b)) s'"
    using st eq assms e by (intro sends_one [of _ _ s' y]) simp_all
  with st show thesis
    using assms(6) by (intro that [of s']) simp_all
qed

lemma sends_data:
  assumes "enc_inv s" "ec_len s \<noteq> 0" "ec_src s = b # bs"
  obtains s' where "sends d s (stuff (ones_run (enc_m s)) (word_bits 8 b)) s'"
    "ones_run (enc_m s') = stuff_count (ones_run (enc_m s)) (word_bits 8 b)"
    "ec_len s' = ec_len s - 1" "ec_src s' = bs" "ec_crc s' = fcs_update (ec_crc s) b"
    "ec_flag s' = ec_flag s" "ec_queue s' = ec_queue s"
proof -
  obtain s0 where s0: "sends d s [] s0" "ec_blevel s0 < 0x800" "same_input s s0" "ec_ib s0 = ec_ib s"
    using sends_flush [OF assms(1)] by blast
  let ?s1 = "s0\<lparr>ec_stop := False, ec_len := ec_len s0 - 1, ec_src := bs, ec_crc := fcs_update (ec_crc s0) b\<rparr>"
  have "HDLC_ENCODE d (s0\<lparr>ec_stop := False\<rparr>) = enc_stuffed b ?s1"
    using s0 assms by (simp add: HDLC_ENCODE_low enc_data_def same_input_def)
  then obtain s' where "sends d s0 (stuff (ones_run (enc_m s0)) (word_bits 8 b)) s'"
    "ones_run (enc_m s') = stuff_count (ones_run (enc_m s0)) (word_bits 8 b)" "same_input ?s1 s'"
    using s0 by (elim sends_stuffed [rotated 2]) (simp_all add: sends_def)
  then show thesis
    using s0 sends_trans [OF s0(1)] by (intro that [of s']) (auto simp: same_input_def)
qed

lemma sends_src:
  assumes "enc_inv s" "ec_len s = word_of_nat (length (ec_src s))" "length (ec_src s) < 65536"
  shows "\<exists>s'. sends d s (stuff (ones_run (enc_m s)) (octet_bits (ec_src s))) s' \<and>
    ones_run (enc_m s') = stuff_count (ones_run (enc_m s)) (octet_bits (ec_src s)) \<and>
    ec_len s' = 0 \<and> ec_crc s' = foldl fcs_update (ec_crc s) (ec_src s) \<and>
    ec_flag s' = ec_flag s \<and> ec_queue s' = ec_queue s"
  using assms
proof (induction "ec_src s" arbitrary: s)
  case Nil
  then show ?case
    using sends_refl [of s d] by (intro exI [of _ s]) (simp flip: Nil(1))
next
  case (Cons b bs)
  have "unat (ec_len s) = Suc (length bs)"
    using Cons.prems(2,3) unat_word_of_nat16 [of "length (ec_src s)"] by (simp flip: Cons.hyps(2))
  then have "ec_len s \<noteq> 0"
    by auto
  then obtain s1 where s1: "sends d s (stuff (ones_run (enc_m s)) (word_bits 8 b)) s1"
    "ones_run (enc_m s1) = stuff_count (ones_run (enc_m s)) (word_bits 8 b)"
    "ec_len s1 = ec_len s - 1" "ec_src s1 = bs" "ec_crc s1 = fcs_update (ec_crc s) b"
    "ec_flag s1 = ec_flag s" "ec_queue s1 = ec_queue s"
    using sends_data [OF Cons.prems(1) _ Cons.hyps(2) [symmetric]] by metis
  have "\<exists>s'. sends d s1 (stuff (ones_run (enc_m s1)) (octet_bits (ec_src s1))) s' \<and>
    ones_run (enc_m s') = stuff_count (ones_run (enc_m s1)) (octet_bits (ec_src s1)) \<and>
    ec_len s' = 0 \<and> ec_crc s' = foldl fcs_update (ec_crc s1) (ec_src s1) \<and>
    ec_flag s' = ec_flag s1 \<and> ec_queue s' = ec_queue s1"
    using Cons.prems s1 by (intro Cons.hyps(1)) (simp_all add: sends_def flip: Cons.hyps(2))
  then show ?case
    using sends_trans [OF s1(1)] s1
    by (auto simp: stuff_append stuff_count_append simp flip: Cons.hyps(2))
qed

section \<open>Frames\<close>

definition fcs_octets :: "u16 \<Rightarrow> u8 list" where
  "fcs_octets crc = [LO8 (NOT crc), LO8 (drop_bit 8 (NOT crc))]"

lemma sends_crc:
  assumes "enc_inv s" "ec_len s = 0" "ec_flag s = 3"
  shows "\<exists>s'. sends d s (stuff (ones_run (enc_m s)) (octet_bits (fcs_octets (ec_crc s)))) s' \<and>
    ones_run (enc_m s') = stuff_count (ones_run (enc_m s)) (octet_bits (fcs_octets (ec_crc s))) \<and>
    ec_len s' = 0 \<and> ec_flag s' = (if d then 5 else 1) \<and> ec_queue s' = ec_queue s"
proof -
  obtain s0 where s0: "sends d s [] s0" "ec_blevel s0 < 0x800" "same_input s s0" "ec_ib s0 = ec_ib s"
    using sends_flush [OF assms(1)] by blast
  let ?c = "NOT (ec_crc s)"
  let ?s1 = "s0\<lparr>ec_stop := False, ec_flag := 4, ec_crc := ?c\<rparr>"
  have "HDLC_ENCODE d (s0\<lparr>ec_stop := False\<rparr>) = enc_stuffed (LO8 ?c) ?s1"
    using s0 assms by (simp add: HDLC_ENCODE_low enc_next_b_def enc_next_d_def enc_crc_lo_def same_input_def Let_def)
  then obtain s2 where s2: "sends d s0 (stuff (ones_run (enc_m s)) (word_bits 8 (LO8 ?c))) s2"
    "ones_run (enc_m s2) = stuff_count (ones_run (enc_m s)) (word_bits 8 (LO8 ?c))" "same_input ?s1 s2"
    using s0 by (elim sends_stuffed [rotated 2]) (simp_all add: sends_def)
  obtain s3 where s3: "sends d s2 [] s3" "ec_blevel s3 < 0x800" "same_input s2 s3" "ec_ib s3 = ec_ib s2"
    using sends_flush s2(1) unfolding sends_def by blast
  let ?s4 = "s3\<lparr>ec_stop := False, ec_flag := if d then 5 else 1\<rparr>"
  let ?h = "LO8 (drop_bit 8 ?c)"
  have "HDLC_ENCODE d (s3\<lparr>ec_stop := False\<rparr>) = enc_stuffed ?h ?s4"
    using s0 s2 s3 assms by (simp add: HDLC_ENCODE_low enc_next_b_def enc_next_d_def same_input_def)
  then obtain s' where s': "sends d s3 (stuff (ones_run (enc_m s2)) (word_bits 8 ?h)) s'"
    "ones_run (enc_m s') = stuff_count (ones_run (enc_m s2)) (word_bits 8 ?h)" "same_input ?s4 s'"
    using s3 by (elim sends_stuffed [rotated 2]) (simp_all add: sends_def)
  have "sends d s (([] @ stuff (ones_run (enc_m s)) (word_bits 8 (LO8 ?c))) @
      ([] @ stuff (ones_run (enc_m s2)) (word_bits 8 ?h))) s'"
    using s0(1) s2(1) s3(1) s'(1) by (blast intro: sends_trans)
  then show ?thesis
    using s0 s2 s3 s' assms
    by (intro exI [of _ s']) (simp add: fcs_octets_def stuff_append stuff_count_append same_input_def)
qed

lemma enc_flag_stuff_bits:
  assumes "enc_inv s" "ec_blevel s < 0x800"
  defines "s1 \<equiv> enc_flag_stuff s"
  shows "enc_fill s1 \<le> 8" "drop_bit (enc_fill s1) (ec_tmp s1) = 0" "enc_pend s1 = enc_stream s"
    "enc_m s1 = 0" "same_input s s1" "ec_stop s1 = ec_stop s"
proof -
  have m: "unat (enc_m s) \<le> 5" and z: "drop_bit (enc_fill s) (ec_tmp s) = 0" and f: "enc_fill s < 8"
    using assms by (simp_all add: enc_inv_def word_le_nat_alt fill_less)
  have "unat (drop_bit 12 (enc_m s)) = 0"
    using m by (simp only: unat_drop_bit_div [of 12 "enc_m s"]) simp
  then show "enc_m s1 = 0"
    by (simp add: s1_def enc_flag_stuff_def Let_def)
  have "unat (ec_blevel s + 0x100) = unat (ec_blevel s) + 0x100"
    using assms(2) by (simp add: unat_word_ariths(1) word_less_nat_alt)
  then have f1: "enc_fill s1 = enc_fill s + (if enc_m s = 5 then 1 else 0)"
    by (simp add: s1_def enc_flag_stuff_def Let_def enc_fill_div div_add_self2)
  have t1: "ec_tmp s1 = ec_tmp s"
    by (simp add: s1_def enc_flag_stuff_def Let_def)
  show "drop_bit (enc_fill s1) (ec_tmp s1) = 0"
    using z drop_bit_drop_bit [of 1 "enc_fill s" "ec_tmp s"] by (simp add: f1 t1)
  have "\<not> bit (ec_tmp s) (enc_fill s)"
    using arg_cong [OF z, of "\<lambda>w. bit w 0"] by (simp add: bit_simps)
  then show "enc_pend s1 = enc_stream s"
    by (simp add: enc_pend_def enc_stream_def owed_zero_def f1 t1 word_bits_def)
  show "enc_fill s1 \<le> 8"
    using f by (simp add: f1)
  show "same_input s s1" "ec_stop s1 = ec_stop s"
    by (simp_all add: s1_def enc_flag_stuff_def Let_def same_input_def)
qed

lemma sends_raw:
  assumes "enc_inv s" "HDLC_ENCODE d (s\<lparr>ec_stop := False\<rparr>) = enc_raw (u32_of_u8 b) s1"
    and "enc_fill s1 \<le> 8" "drop_bit (enc_fill s1) (ec_tmp s1) = 0" "enc_pend s1 = enc_stream s"
    and "enc_m s1 = 0" "\<not> ec_stop s1"
  obtains s' where "sends d s (word_bits 8 b) s'" "same_input s1 s'" "enc_m s' = 0"
    "enc_fill s' = enc_fill s1" "enc_pend s' = drop 8 (enc_stream s @ word_bits 8 b)"
proof -
  obtain s' y where e: "enc_raw (u32_of_u8 b) s1 = (s', y)"
    by fastforce
  have z: "drop_bit 8 (u32_of_u8 b) = 0"
    by (rule bit_word_eqI) (simp add: bit_simps)
  note r = enc_raw_bits [OF assms(3,4) z e]
  have "enc_inv s'"
    using r assms by (simp add: enc_inv_def)
  moreover have "word_bits 8 y @ enc_stream s' = enc_stream s @ word_bits 8 b"
    using r(1,6) assms(5,6) by (simp add: enc_stream_def owed_zero_def word_bits_ucast)
  ultimately have "sends d s (word_bits 8 b) s'"
    using assms(2,7) e r(5) by (intro sends_one [of _ _ s' y]) simp_all
  moreover have "enc_pend s' = drop 8 (word_bits 8 y @ enc_pend s')"
    by simp
  ultimately show thesis
    using r assms(5,6) by (intro that [of s']) (simp_all add: word_bits_ucast)
qed

lemma sends_closing_flag:
  assumes "enc_inv s" "ec_len s = 0" "ec_flag s = (if d then 5 else 1)"
  shows "\<exists>s'. sends d s (word_bits 8 (0x7E :: u8)) s' \<and> enc_m s' = 0 \<and>
    ec_len s' = 0 \<and> ec_flag s' = (if d then 0 else 2) \<and> ec_queue s' = ec_queue s"
proof -
  obtain s0 where s0: "sends d s [] s0" "ec_blevel s0 < 0x800" "same_input s s0" "ec_ib s0 = ec_ib s"
    using sends_flush [OF assms(1)] by blast
  let ?s1 = "s0\<lparr>ec_stop := False, ec_flag := if d then 0 else 2\<rparr>"
  have inv: "enc_inv s0" "enc_inv ?s1" "ec_blevel ?s1 < 0x800" "enc_stream ?s1 = enc_stream s0"
    using s0 by (simp_all add: sends_def enc_inv_def enc_fill_def enc_stream_def enc_pend_def)
  have "HDLC_ENCODE d (s0\<lparr>ec_stop := False\<rparr>) = enc_raw (u32_of_u8 0x7E) (enc_flag_stuff ?s1)"
    using s0 assms by (simp add: HDLC_ENCODE_low enc_next_b_def enc_next_d_def same_input_def)
  then obtain s' where s': "sends d s0 (word_bits 8 (0x7E :: u8)) s'" "same_input (enc_flag_stuff ?s1) s'"
    "enc_m s' = 0"
    using enc_flag_stuff_bits [OF inv(2,3)] inv(1,4) by (elim sends_raw [rotated]) simp_all
  then show ?thesis
    using sends_trans [OF s0(1) s'(1)] s0 assms enc_flag_stuff_bits(5) [OF inv(2,3)]
    by (intro exI [of _ s']) (simp add: same_input_def)
qed

definition frame_bits :: "u8 list \<Rightarrow> bool list" where
  "frame_bits fr = stuff 0 (octet_bits (fr @ fcs_octets (foldl fcs_update (- 1) fr)))"

abbreviation flag_bits :: "bool list" where
  "flag_bits \<equiv> word_bits 8 (0x7E :: u8)"

lemma sends_body:
  assumes "enc_inv s" "ec_flag s = 3" "ec_len s = word_of_nat (length (ec_src s))" "length (ec_src s) < 65536"
  shows "\<exists>s'. sends d s (stuff (ones_run (enc_m s)) (octet_bits (ec_src s @ fcs_octets (foldl fcs_update (ec_crc s) (ec_src s))))
        @ flag_bits) s' \<and>
     enc_m s' = 0 \<and> ec_len s' = 0 \<and> ec_flag s' = (if d then 0 else 2) \<and> ec_queue s' = ec_queue s"
proof -
  obtain s1 where s1: "sends d s (stuff (ones_run (enc_m s)) (octet_bits (ec_src s))) s1"
    "ones_run (enc_m s1) = stuff_count (ones_run (enc_m s)) (octet_bits (ec_src s))"
    "ec_len s1 = 0" "ec_crc s1 = foldl fcs_update (ec_crc s) (ec_src s)" "ec_flag s1 = 3" "ec_queue s1 = ec_queue s"
    using sends_src [OF assms(1,3,4)] assms(2) by metis
  obtain s2 where s2: "sends d s1 (stuff (ones_run (enc_m s1)) (octet_bits (fcs_octets (ec_crc s1)))) s2"
    "ec_len s2 = 0" "ec_flag s2 = (if d then 5 else 1)" "ec_queue s2 = ec_queue s1"
    using sends_crc s1 unfolding sends_def by blast
  obtain s3 where s3: "sends d s2 flag_bits s3" "enc_m s3 = 0" "ec_len s3 = 0" "ec_flag s3 = (if d then 0 else 2)"
     "ec_queue s3 = ec_queue s2"
    using sends_closing_flag s2 unfolding sends_def by blast
  have "sends d s ((stuff (ones_run (enc_m s)) (octet_bits (ec_src s)) @
      stuff (ones_run (enc_m s1)) (octet_bits (fcs_octets (ec_crc s1)))) @ flag_bits) s3"
    using s1(1) s2(1) s3(1) by (blast intro: sends_trans)
  then show ?thesis
    using s1 s2 s3 by (intro exI [of _ s3]) (simp add: stuff_append)
qed

definition enc_idle :: "hdlc_enc \<Rightarrow> bool" where
  "enc_idle s \<longleftrightarrow> enc_inv s \<and> ec_flag s = 2 \<and> ec_len s = 0 \<and> drop_bit 12 (ec_ib s) = 0"

lemma sends_frame_b:
  assumes "enc_idle s" "ec_queue s = fr # q" "fr \<noteq> []" "length fr < 65536"
  shows "\<exists>s'. sends False s (frame_bits fr @ flag_bits) s' \<and> enc_idle s' \<and> ec_queue s' = q"
proof -
  obtain s0 where s0: "sends False s [] s0" "ec_blevel s0 < 0x800" "same_input s s0" "ec_ib s0 = ec_ib s"
    using sends_flush assms(1) unfolding enc_idle_def by blast
  obtain b bs where fr: "fr = b # bs"
    using assms(3) by (cases fr) auto
  have len: "(word_of_nat (length fr) :: u16) \<noteq> 0"
    using unat_word_of_nat16 [OF assms(4)] assms(3) by (metis length_0_conv unat_0)
  let ?s1 = "s0\<lparr>ec_stop := False, ec_flag := 3, ec_queue := q, ec_ib := 0,
     ec_len := word_of_nat (length fr) - 1, ec_src := bs, ec_crc := fcs_update (- 1) b\<rparr>"
  have "HDLC_ENCODE False (s0\<lparr>ec_stop := False\<rparr>) = enc_stuffed b ?s1"
    using s0 assms(1,2) len
    by (simp add: HDLC_ENCODE_low enc_next_b_def enc_gfr_def enc_data_def same_input_def enc_idle_def fr Let_def)
  then obtain s1 where s1: "sends False s0 (stuff 0 (word_bits 8 b)) s1"
    "ones_run (enc_m s1) = stuff_count 0 (word_bits 8 b)" "same_input ?s1 s1"
    using s0 assms(1) sends_stuffed [of s0 False b ?s1] 
    by (auto simp: sends_def enc_idle_def ones_run_def)
  have "\<exists>s'. sends False s1 (stuff (ones_run (enc_m s1)) (octet_bits (bs @ fcs_octets (foldl fcs_update (fcs_update (- 1) b) bs)))
        @ flag_bits) s' \<and>
     enc_m s' = 0 \<and> ec_len s' = 0 \<and> ec_flag s' = 2 \<and> ec_queue s' = q"
    using sends_body [of s1 False] s1 assms(4) by (simp add: fr same_input_def sends_def)
  then obtain s' where s': "sends False s1 (stuff (ones_run (enc_m s1)) 
       (octet_bits (bs @ fcs_octets (foldl fcs_update (fcs_update (- 1) b) bs))) @ flag_bits) s'"
     "enc_m s' = 0" "ec_len s' = 0" "ec_flag s' = 2" "ec_queue s' = q"
    by blast
  have "sends False s ([] @ stuff 0 (word_bits 8 b) @ (stuff (ones_run (enc_m s1)) 
       (octet_bits (bs @ fcs_octets (foldl fcs_update (fcs_update (- 1) b) bs))) @ flag_bits)) s'"
    using s0(1) s1(1) s'(1) by (blast intro: sends_trans)
  then show ?thesis
    using s1(2) s' by (intro exI [of _ s']) (simp add: frame_bits_def fr stuff_append stuff_count_append enc_idle_def sends_def)
qed


definition enc_idle_d :: "hdlc_enc \<Rightarrow> bool" where
  "enc_idle_d s \<longleftrightarrow> enc_idle s \<and> ec_blevel s < 0x800 \<and> enc_pend s = replicate (enc_fill s) True"

lemma bits_ones: "word_bits 8 (0xFF :: u8) = replicate 8 True"
  by (simp add: word_bits_def upt_rec numeral_eq_Suc)

lemma sends_ones:
  assumes "enc_inv s" "enc_m s = 0" "ec_len s = 0" "ec_flag s = 0 \<or> ec_flag s = 1"
  shows "\<exists>s'. sends True s (replicate 8 True) s' \<and> ec_flag s' = ec_flag s + 1 \<and> ec_len s' = 0 \<and> enc_m s' = 0 \<and>
    ec_queue s' = ec_queue s \<and> ec_blevel s' < 0x800 \<and> enc_pend s' = replicate (enc_fill s') True"
proof -
  obtain s0 where s0: "sends True s [] s0" "ec_blevel s0 < 0x800" "same_input s s0" "ec_ib s0 = ec_ib s"
    using sends_flush assms(1) by blast
  let ?s1 = "s0\<lparr>ec_stop := False, ec_flag := ec_flag s + 1\<rparr>"
  have inv: "enc_inv s0" "enc_fill s0 < 8"
    using s0 by (simp_all add: sends_def fill_less)
  have p: "enc_fill ?s1 = enc_fill s0" "enc_pend ?s1 = enc_pend s0" "enc_stream s0 = enc_pend s0" "length (enc_pend s0) = enc_fill s0"
    using s0 assms(2) by (simp_all add: enc_fill_def enc_pend_def enc_stream_def owed_zero_def)
  have "HDLC_ENCODE True (s0\<lparr>ec_stop := False\<rparr>) = enc_raw (u32_of_u8 0xFF) ?s1"
    using s0 assms by (auto simp: HDLC_ENCODE_low enc_next_d_def same_input_def Let_def)
  then obtain s' where s': "sends True s0 (word_bits 8 (0xFF :: u8)) s'" "same_input ?s1 s'" "enc_m s' = 0"
    "enc_fill s' = enc_fill s0" "enc_pend s' = drop 8 (enc_stream s0 @ word_bits 8 (0xFF :: u8))"
    using inv s0(4) assms(2) p by (elim sends_raw [rotated]) (simp_all add: enc_inv_def)
  have "enc_pend s' = replicate (enc_fill s') True" "ec_blevel s' < 0x800"
    using s'(4,5) p(3,4) inv(2) by (simp_all add: bits_ones flip: fill_less)
  then show ?thesis
    using sends_trans [OF s0(1) s'(1)] s0(3) s' assms(3)
    by (intro exI [of _ s']) (simp add: bits_ones same_input_def)
qed

lemma emits_frame_d:
  assumes "enc_idle_d s" "ec_queue s = fr # q" "fr \<noteq> []" "length fr < 65536"
  shows "\<exists>xs s'. emits True s xs s' \<and> enc_idle_d s' \<and> ec_queue s' = q \<and>
    octet_bits xs @ enc_pend s' = replicate 8 True @ flag_bits @ frame_bits fr @ flag_bits @ replicate 16 True"
proof -
  have len: "(word_of_nat (length fr) :: u16) \<noteq> 0"
    using unat_word_of_nat16 [OF assms(4)] assms(3) by (metis length_0_conv unat_0)
  define s1 where "s1 = s\<lparr>ec_stop := False, ec_flag := 3, ec_queue := q, ec_src := fr,
     ec_len := word_of_nat (length fr), ec_crc := - 1, ec_ib := 0, ec_tmp := 0x7E, ec_blevel := 0x800\<rparr>"
  have "HDLC_ENCODE True (s\<lparr>ec_stop := False\<rparr>) = (s1, 0xFF)"
    using assms(1,2) len
    by (simp add: HDLC_ENCODE_low enc_next_d_def enc_gfr_def enc_write_def enc_idle_def enc_idle_d_def Let_def s1_def)
  then have e1: "emits True s [0xFF] s1"
    by (auto intro: emits.intros simp: s1_def)
  have st1: "enc_stream s1 = flag_bits" and inv1: "enc_inv s1" and f1: "ec_flag s1 = 3" 
    "ec_src s1 = fr" "ec_queue s1 = q" "ec_crc s1 = - 1" "enc_m s1 = 0" "ec_len s1 = word_of_nat (length fr)"
    by (simp_all add: s1_def enc_stream_def enc_pend_def enc_inv_def enc_fill_def owed_zero_def word_bits_def upt_rec)
  obtain s2 where s2: "sends True s1 (frame_bits fr @ flag_bits) s2" "enc_m s2 = 0" "ec_len s2 = 0" "ec_flag s2 = 0"
     "ec_queue s2 = q"
    using sends_body [OF inv1, of True] f1 assms(4) by (auto simp: frame_bits_def ones_run_def)
  obtain s3 where s3: "sends True s2 (replicate 8 True) s3" "ec_flag s3 = 1" "ec_len s3 = 0" "enc_m s3 = 0" "ec_queue s3 = q"
    using sends_ones [of s2] s2 by (auto simp: sends_def)
  obtain s4 where s4: "sends True s3 (replicate 8 True) s4" "ec_flag s4 = 2" "ec_len s4 = 0" "enc_m s4 = 0" "ec_queue s4 = q"
     "ec_blevel s4 < 0x800" "enc_pend s4 = replicate (enc_fill s4) True"
    using sends_ones [of s3] s3 by (auto simp: sends_def)
  have "sends True s1 ((frame_bits fr @ flag_bits) @ replicate 8 True @ replicate 8 True) s4"
    using s2(1) s3(1) s4(1) by (blast intro: sends_trans)
  then obtain xs where xs: "emits True s1 xs s4" "enc_inv s4"
    "octet_bits xs @ enc_stream s4 = flag_bits @ (frame_bits fr @ flag_bits) @ replicate 8 True @ replicate 8 True"
    unfolding sends_def st1 by blast
  have "enc_stream s4 = enc_pend s4"
    using s4(4) by (simp add: enc_stream_def owed_zero_def)
  then have "octet_bits (0xFF # xs) @ enc_pend s4 = replicate 8 True @ flag_bits @ frame_bits fr @ flag_bits @ replicate 16 True"
    using xs(3) by (simp add: bits_ones flip: replicate_add)
  moreover have "enc_idle_d s4"
    using s4 xs(2) by (simp add: enc_idle_d_def enc_idle_def)
  moreover have "emits True s (0xFF # xs) s4"
    using emits_trans [OF e1 xs(1)] by simp
  ultimately show ?thesis
    using s4(5) by blast
qed

section \<open>Transmission of a queued frame\<close>


definition enc_reset :: "u8 list list \<Rightarrow> hdlc_enc" where
  "enc_reset q = \<lparr>ec_flag = 2, ec_blevel = 0, ec_ib = 0, ec_crc = 0, ec_tmp = 0, ec_len = 0,
                  ec_src = [], ec_queue = q, ec_stop = False\<rparr>"

lemma enc_idle_reset [simp]: "enc_idle (enc_reset q)" "enc_idle_d (enc_reset q)"
  by (simp_all add: enc_reset_def enc_idle_def enc_idle_d_def enc_inv_def enc_fill_def enc_pend_def)


text \<open>
  D-channel encoding. The frame is preceded by an idle octet and an opening flag on an
  octet boundary and followed by a closing flag and at least two idle octets of ones, after
  which the transmitter is idle with only ones pending.
\<close>

theorem tx_frame_d_channel:
  assumes "enc_idle_d s" and "ec_queue s = fr # q" and "fr \<noteq> []" and "length fr < 65536"
  shows "\<exists>n s' xs. tx_hdlc_emulation True n s = (s', xs) \<and> length xs = n \<and>
    octet_bits xs @ enc_pend s'
      = replicate 8 True @ flag_bits @ frame_bits fr @ flag_bits @ replicate 16 True \<and>
    enc_idle_d s' \<and> ec_queue s' = q"
  using emits_frame_d [OF assms] by (metis emits_tx)

theorem tx_frame_d_channel_witness:
  "\<exists>n s' xs. tx_hdlc_emulation True n (enc_reset [[0xF8]]) = (s', xs) \<and> length xs = n \<and>
    octet_bits xs @ enc_pend s'
      = replicate 8 True @ flag_bits @ frame_bits [0xF8] @ flag_bits @ replicate 16 True \<and>
    enc_idle_d s' \<and> ec_queue s' = []"
  by (rule tx_frame_d_channel) (simp_all, simp add: enc_reset_def)

text \<open>
  Inside a frame there are never six consecutive ones, so flags and aborts are unambiguous.
\<close>

fun longest_ones :: "nat \<Rightarrow> bool list \<Rightarrow> nat" where
  "longest_ones n [] = n"
| "longest_ones n (False # bs) = max n (longest_ones 0 bs)"
| "longest_ones n (True # bs) = longest_ones (Suc n) bs"

lemma longest_ones_stuff: "n < 5 \<Longrightarrow> longest_ones n (stuff n bs) \<le> 5"
  by (induction n bs rule: stuff.induct) auto

lemma frame_bits_no_flag: "longest_ones 0 (frame_bits fr) \<le> 5"
  unfolding frame_bits_def by (rule longest_ones_stuff) simp

end
