(* ===== verification/HDLC_Roundtrip.thy ===== *)
theory HDLC_Roundtrip
  imports HDLC_Receive HDLC_Transmit
begin

unbundle bit_operations_syntax

text \<open>
  Transmitter and receiver back to back: the frames queued at the transmit filter are the frames the
  receive filter delivers, whatever bits they consist of.
\<close>

section \<open>The stream of frames\<close>

lemma flag_bits_list: "flag_bits = [False, True, True, True, True, True, True, False]"
  by (simp add: word_bits_def upt_rec)

abbreviation flag_head :: "bool list" where
  "flag_head \<equiv> [False, True, True, True, True, True, True]"

lemma bits_rx_flag: "n < 5 \<Longrightarrow> bits_rx n D (flag_bits @ bs) =
   map_option (\<lambda>(n', E, ds). (n', E, (D @ flag_head) # ds)) (bits_rx 0 [] bs)"
  by (simp add: flag_bits_list)

lemma bits_rx_stuff: "n < 5 \<Longrightarrow> bits_rx n D (stuff n bs @ cs) = bits_rx (stuff_count n bs) (D @ bs) cs"
  by (induction n bs arbitrary: D rule: stuff.induct) auto

lemma stuff_count_less: "n < 5 \<Longrightarrow> stuff_count n bs < 5"
  by (induction n bs rule: stuff_count.induct) auto

definition frame_octets :: "u8 list \<Rightarrow> u8 list" where
  "frame_octets fr = fr @ fcs_octets (foldl fcs_update (- 1) fr)"

lemma bits_rx_frame: "bits_rx 0 [] (frame_bits fr @ flag_bits @ bs) =
   map_option (\<lambda>(n', E, ds). (n', E, (octet_bits (frame_octets fr) @ flag_head) # ds)) (bits_rx 0 [] bs)"
  by (simp add: frame_bits_def bits_rx_stuff bits_rx_flag stuff_count_less frame_octets_def)

definition frames_bits :: "u8 list list \<Rightarrow> bool list" where
  "frames_bits frs = concat (map (\<lambda>fr. frame_bits fr @ flag_bits) frs)"

lemma bits_rx_frames: "bits_rx 0 [] (frames_bits frs @ bs) =
   map_option (\<lambda>(n', E, ds). (n', E, map (\<lambda>fr. octet_bits (frame_octets fr) @ flag_head) frs @ ds)) (bits_rx 0 [] bs)"
  by (induction frs) (auto simp: frames_bits_def bits_rx_frame option.map_comp comp_def option.map_ident split: prod.splits intro!: option.map_cong)

lemma rx_event_frame:
  assumes "fr \<noteq> []" "length fr \<le> unat bch_max" "bch_max < 0xFFFE"
  shows "rx_event bch_max (frame_octets fr) = Put_frame fr"
proof -
  have l: "length fr < 0xFFFE"
    using assms(2,3) by (simp add: word_less_nat_alt)
  have "unat (word_of_nat (length fr) :: u16) = length fr"
    using l by (intro unat_word_of_nat16) simp
  then have "(word_of_nat (length fr) :: u16) \<noteq> 0" "\<not> bch_max < word_of_nat (length fr)"
    using assms(1,2) by (auto simp: word_less_nat_alt)
  moreover have "foldl fcs_update (- 1) (frame_octets fr) = fcs_residue"
    using fcs_two_octets by (simp add: frame_octets_def fcs_octets_def)
  ultimately show ?thesis
    by (simp add: rx_event_def Let_def frame_octets_def fcs_octets_def)
qed


section \<open>The transmitter from its reset\<close>

text \<open>The FIFO setup clears the variables of the macro; two flags precede the first frame.\<close>

definition enc_zero :: "u8 list list \<Rightarrow> hdlc_enc" where
  "enc_zero q = \<lparr>ec_flag = 0, ec_blevel = 0, ec_ib = 0, ec_crc = 0, ec_tmp = 0, ec_len = 0,
                 ec_src = [], ec_queue = q, ec_stop = False\<rparr>"

lemma emits_flags: "emits False (enc_zero q) [0x7E, 0x7E] (enc_reset q)"
proof -
  have "HDLC_ENCODE False (enc_zero q\<lparr>ec_stop := False\<rparr>) = (enc_zero q\<lparr>ec_flag := 1\<rparr>, 0x7E)"
    "HDLC_ENCODE False (enc_zero q\<lparr>ec_flag := 1, ec_stop := False\<rparr>) = (enc_reset q, 0x7E)"
    "\<not> ec_stop (enc_zero q\<lparr>ec_flag := 1\<rparr>)" "\<not> ec_stop (enc_reset q)"
    by (simp_all add: enc_zero_def enc_reset_def HDLC_ENCODE_def enc_next_b_def enc_raw_def enc_write_def enc_flag_stuff_def Let_def)
  then show ?thesis
    by (auto intro!: emits.intros)
qed

lemma sends_frames:
  assumes "\<forall>fr\<in>set frs. fr \<noteq> [] \<and> length fr < 65536" "enc_idle s" "ec_queue s = frs"
  shows "\<exists>s'. sends False s (frames_bits frs) s' \<and> enc_idle s' \<and> ec_queue s' = []"
  using assms
proof (induction frs arbitrary: s)
  case Nil
  then show ?case
    using sends_refl by (auto simp: frames_bits_def enc_idle_def)
next
  case (Cons fr frs)
  obtain s1 where s1: "sends False s (frame_bits fr @ flag_bits) s1" "enc_idle s1" "ec_queue s1 = frs"
    using sends_frame_b [OF Cons.prems(2,3)] Cons.prems(1) by auto
  obtain s' where s': "sends False s1 (frames_bits frs) s'" "enc_idle s'" "ec_queue s' = []"
    using Cons.IH [OF _ s1(2,3)] Cons.prems(1) by auto
  then show ?case
    using sends_trans [OF s1(1) s'(1)] by (auto simp: frames_bits_def)
qed

lemma emits_tx_stop:
  assumes "emits d s xs s1" "HDLC_ENCODE d (s1\<lparr>ec_stop := False\<rparr>) = (s', y)" "ec_stop s'"
  shows "tx_hdlc_emulation d (length xs + Suc k) s = (s', xs @ [y])"
  using assms by (induction rule: emits.induct) auto

lemma enc_idle_stops:
  assumes "enc_idle s" "ec_queue s = []" "ec_blevel s < 0x800"
  obtains s' y where "HDLC_ENCODE False (s\<lparr>ec_stop := False\<rparr>) = (s', y)" "ec_stop s'"
    "word_bits 8 y @ enc_pend s' = enc_pend s @ flag_bits" "enc_fill s' < 8"
proof -
  define s1 where "s1 = s\<lparr>ec_stop := True, ec_flag := 2\<rparr>"
  have s1: "enc_fill s1 = enc_fill s" "enc_pend s1 = enc_pend s" "ec_tmp s1 = ec_tmp s"
    by (simp_all add: s1_def enc_fill_def enc_pend_def)
  obtain s' y where e: "enc_raw (u32_of_u8 0x7E) s1 = (s', y)"
    by fastforce
  have "HDLC_ENCODE False (s\<lparr>ec_stop := False\<rparr>) = (s', y)"
    using assms e by (simp add: HDLC_ENCODE_low enc_next_b_def enc_gfr_def enc_idle_def Let_def s1_def)
  moreover have "enc_fill s1 < 8" "drop_bit (enc_fill s1) (ec_tmp s1) = 0" "enc_pend s1 = enc_pend s"
    using assms by (simp_all add: s1 fill_less enc_idle_def enc_inv_def)
  moreover have "drop_bit 8 (u32_of_u8 0x7E) = 0" "word_bits 8 (126 :: u32) = flag_bits"
    by (simp_all add: word_bits_def upt_rec)
  ultimately show thesis
    using enc_raw_bits [of s1 "u32_of_u8 0x7E" s' y] e by (intro that [of s' y]) (simp_all add: s1_def word_bits_ucast)
qed

lemma tx_frames:
  assumes "\<forall>fr\<in>set frs. fr \<noteq> [] \<and> length fr < 65536"
  obtains n xs r where "\<And>N. n \<le> N \<Longrightarrow> snd (tx_hdlc_emulation False N (enc_zero frs)) = xs"
    "octet_bits xs @ r = flag_bits @ flag_bits @ frames_bits frs @ flag_bits" "length r < 8"
proof -
  obtain s1 where s1: "sends False (enc_reset frs) (frames_bits frs) s1" "enc_idle s1" "ec_queue s1 = []"
    using sends_frames [OF assms enc_idle_reset(1)] by (auto simp: enc_reset_def)
  obtain s2 where s2: "sends False s1 [] s2" "ec_blevel s2 < 0x800" "same_input s1 s2" "ec_ib s2 = ec_ib s1"
    using sends_flush s1(2) unfolding enc_idle_def by blast
  have idle: "enc_idle s2" "ec_queue s2 = []"
    using s1 s2 by (simp_all add: enc_idle_def same_input_def sends_def)
  obtain s' y where y: "HDLC_ENCODE False (s2\<lparr>ec_stop := False\<rparr>) = (s', y)" "ec_stop s'"
    "word_bits 8 y @ enc_pend s' = enc_pend s2 @ flag_bits" "enc_fill s' < 8"
    using enc_idle_stops [OF idle s2(2)] by blast
  obtain xs where xs: "emits False (enc_reset frs) xs s2" "octet_bits xs @ enc_stream s2 = enc_stream (enc_reset frs) @ frames_bits frs"
    using sends_trans [OF s1(1) s2(1)] unfolding sends_def by auto
  have "enc_stream s2 = enc_pend s2" "enc_stream (enc_reset frs) = []"
    using idle(1) by (simp_all add: enc_stream_def enc_idle_def owed_zero_def enc_reset_def enc_pend_def enc_fill_def)
  then have "octet_bits ([0x7E, 0x7E] @ xs @ [y]) @ enc_pend s' = flag_bits @ flag_bits @ (octet_bits xs @ enc_pend s2) @ flag_bits"
    "octet_bits xs @ enc_pend s2 = frames_bits frs"
    using y(3) xs(2) by simp_all
  moreover have "snd (tx_hdlc_emulation False N (enc_zero frs)) = [0x7E, 0x7E] @ xs @ [y]"
    if N: "Suc (length ([0x7E, 0x7E] @ xs)) \<le> N" for N
  proof -
    define zs where "zs = [0x7E, 0x7E] @ xs"
    obtain k where "N = length zs + Suc k"
      using N by (auto simp: zs_def le_iff_add)
    then have "tx_hdlc_emulation False N (enc_zero frs) = (s', zs @ [y])"
      using emits_tx_stop [OF emits_trans [OF emits_flags xs(1)] y(1,2), folded zs_def, of k] by (simp only:)
    then show ?thesis
      by (simp add: zs_def)
  qed
  moreover have "length (enc_pend s') < 8"
    using y(4) by (simp add: enc_pend_def)
  ultimately show thesis
    by (intro that [of "Suc (length ([0x7E, 0x7E] @ xs))" "[0x7E, 0x7E] @ xs @ [y]" "enc_pend s'"]) simp_all
qed


section \<open>Both together\<close>

lemma bits_rx_count:
  "bits_rx n D bs = Some (n', E, ds) \<Longrightarrow> 8 * length ds + length E \<le> length D + length bs"
  by (induction n D bs arbitrary: ds rule: bits_rx.induct) (fastforce split: if_splits)+

lemma bits_rx_count_tl: "bits_rx n D bs = Some (n', E, ds) \<Longrightarrow> 8 * length (tl ds) \<le> length bs"
  by (induction n D bs arbitrary: ds rule: bits_rx.induct) (fastforce split: if_splits dest: bits_rx_count)+

abbreviation frame_segment :: "u8 list \<Rightarrow> bool list" where
  "frame_segment fr \<equiv> octet_bits (frame_octets fr) @ flag_head"

lemma seg_events_flag [simp]: "seg_events bch_max flag_head = []"
  by (simp add: seg_events_def)

lemma length_frame_segment: "length (frame_segment fr) = 8 * (length fr + 2) + 7"
  by (simp add: frame_octets_def fcs_octets_def length_concat comp_def sum_list_triv)

lemma seg_events_frame:
  assumes "fr \<noteq> []" "length fr \<le> unat bch_max" "bch_max < 0xFFFE"
  shows "seg_events bch_max (frame_segment fr) = [Put_frame fr]"
  using rx_event_frame [OF assms] by (simp add: seg_events_def length_frame_segment del: length_append)

lemma rx_stream_frames:
  assumes frs: "\<forall>fr\<in>set frs. fr \<noteq> [] \<and> length fr \<le> unat M" and M: "M < 0xFFFE" "M \<noteq> 0"
    and bits: "octet_bits xs @ r = flag_bits @ flag_bits @ frames_bits frs @ flag_bits" "length r < 8"
  shows "dc_events (rx_hdlc_emulation M xs (dec_reset (replicate (length frs) (Some M)))) = map Put_frame frs"
proof -
  define T where "T = [flag_head, flag_head] @ map frame_segment frs @ [flag_head]"
  have "bits_rx 0 [] (octet_bits xs @ r) = Some (0, [], T)"
    unfolding bits(1) T_def by (simp add: bits_rx_flag bits_rx_frames bits_rx_flag [of 0 _ "[]", simplified])
  then obtain n E ds es where rx: "bits_rx 0 [] (octet_bits xs) = Some (n, E, ds)" "bits_rx n E r = Some (0, [], es)" "T = ds @ es"
    by (auto simp: bits_rx_append split: option.splits)
  have "8 * length (tl es) < 8"
    using bits_rx_count_tl [OF rx(2)] bits(2) by linarith
  then have "es = [] \<or> (\<exists>F. es = [F])"
    by (cases es) auto
  then obtain fs where ds: "ds = [flag_head, flag_head] @ map frame_segment frs @ fs" "fs @ es = [flag_head]"
    using rx(3) unfolding T_def by (auto simp: append_eq_append_conv2 append_eq_Cons_conv Cons_eq_append_conv)
  then have fs: "fs = [] \<or> fs = [flag_head]"
    by (auto simp: append_eq_Cons_conv)
  have E: "length E \<le> 7"
  proof -
    obtain X segs where "es @ [[]] = (E @ X) # segs"
      using bits_rx_extends [OF rx(2)] by blast
    then have "E @ X \<in> {flag_head, []}"
      using ds(2) by (cases es) (auto simp: append_eq_Cons_conv)
    then have "length (E @ X) \<in> {length flag_head, length ([] :: bool list)}"
      by (metis insert_iff singletonD)
    then show ?thesis
      by auto
  qed
  have "rx_supply M (ds @ [E]) (dec_reset (replicate (length frs) (Some M)))"
  proof -
    have "\<forall>D\<in>set (ds @ [E]). length D div 8 \<le> unat M + 2"
      using fs frs E by (auto simp: ds(1) length_frame_segment simp del: length_append)
    moreover have "filter (\<lambda>D. 8 \<le> length D) (ds @ [E]) = map frame_segment frs"
      using fs E by (auto simp: ds(1) length_frame_segment filter_map comp_def simp del: length_append)
    ultimately show ?thesis
      using M(2) by (auto simp: rx_supply_def dec_reset_def)
  qed
  moreover have "\<forall>D\<in>set (tl ds). length D mod 8 = 7"
    using fs by (auto simp: ds(1) length_frame_segment simp del: length_append)
  moreover have "concat (map (seg_events M) (tl ds)) = map Put_frame frs"
  proof -
    have "concat (map (seg_events M) (map frame_segment frs)) = map Put_frame frs"
      using frs by (induction frs) (simp_all add: seg_events_frame M)
    then show ?thesis
      using fs by (auto simp: ds(1))
  qed
  ultimately show ?thesis
    using rx_run [OF dec_reset_rel rx(1) M(1)] by (simp add: dec_reset_def)
qed



text \<open>
  C25: Whatever frames of 1 to \<open>BCH_MAX_DATALEN\<close> octets are queued, the octets the transmit filter
  writes from its reset until it runs out of frames make the receive filter deliver exactly these frames, in
  order, and report nothing else. The transmitter stops by itself: a larger output buffer changes nothing.
\<close>

theorem hdlc_frames_round_trip:
  assumes "\<forall>fr\<in>set frs. fr \<noteq> [] \<and> length fr \<le> 2048"
  shows "\<exists>n. \<forall>N\<ge>n. dc_events (rx_hdlc_emulation BCH_MAX_DATALEN (snd (tx_hdlc_emulation False N (enc_zero frs)))
      (dec_reset (replicate (length frs) (Some BCH_MAX_DATALEN)))) = map Put_frame frs"
proof -
  have "\<forall>fr\<in>set frs. fr \<noteq> [] \<and> length fr < 65536"
    using assms by auto
  then obtain n xs r where xs: "\<And>N. n \<le> N \<Longrightarrow> snd (tx_hdlc_emulation False N (enc_zero frs)) = xs"
    "octet_bits xs @ r = flag_bits @ flag_bits @ frames_bits frs @ flag_bits" "length r < 8"
    using tx_frames by blast
  have "dc_events (rx_hdlc_emulation BCH_MAX_DATALEN xs (dec_reset (replicate (length frs) (Some BCH_MAX_DATALEN)))) = map Put_frame frs"
    using assms by (intro rx_stream_frames [OF _ _ _ xs(2,3)]) (simp_all add: BCH_MAX_DATALEN_def)
  then show ?thesis
    using xs(1) by (intro exI [of _ n]) simp
qed

theorem hdlc_frames_round_trip_witness:
  "\<exists>n. \<forall>N\<ge>n. dc_events (rx_hdlc_emulation BCH_MAX_DATALEN (snd (tx_hdlc_emulation False N (enc_zero [[0xFF, 0x7E], [0x1F]])))
      (dec_reset (replicate 2 (Some BCH_MAX_DATALEN)))) = [Put_frame [0xFF, 0x7E], Put_frame [0x1F]]"
  using hdlc_frames_round_trip [of "[[0xFF, 0x7E], [0x1F]]"] by (simp add: numeral_2_eq_2)

end
