(* ===== verification/If_Queue.thy ===== *)
theory If_Queue
  imports I4B_Prelude
begin

text \<open>
  The packet queues of \<^verbatim>\<open>src/src/sys/i4b/include/i4b_queue.h\<close>: macros on a head pointer, a tail
  pointer, a counter and the \<open>m_nextpkt\<close> links of the packets themselves. They refine the list of
  packets the protocol layers work with.
\<close>

section \<open>Pointers and links\<close>

text \<open>An address of a packet is a natural number, \<open>None\<close> is \<open>NULL\<close>, the heap holds \<open>m_nextpkt\<close>.\<close>

type_synonym links = "nat \<Rightarrow> nat option"

record ifqueue =
  ifq_head :: "nat option"
  ifq_tail :: "nat option"
  ifq_len :: int
  ifq_maxlen :: int

definition IF_ENQUEUE :: "nat \<Rightarrow> links \<times> ifqueue \<Rightarrow> links \<times> ifqueue" where
  "IF_ENQUEUE m = (\<lambda>(h, q).
     let h = h(m := None)
     in (case ifq_tail q of None \<Rightarrow> h | Some t \<Rightarrow> h(t := Some m),
         q\<lparr>ifq_head := (case ifq_tail q of None \<Rightarrow> Some m | Some _ \<Rightarrow> ifq_head q),
           ifq_tail := Some m, ifq_len := ifq_len q + 1\<rparr>))"

definition IF_DEQUEUE :: "links \<times> ifqueue \<Rightarrow> (links \<times> ifqueue) \<times> nat option" where
  "IF_DEQUEUE = (\<lambda>(h, q).
     case ifq_head q of
       None \<Rightarrow> ((h, q), None)
     | Some m \<Rightarrow> ((h(m := None),
                   q\<lparr>ifq_head := h m, ifq_tail := (if h m = None then None else ifq_tail q),
                     ifq_len := ifq_len q - 1\<rparr>), Some m))"

definition IF_PREPEND :: "nat \<Rightarrow> links \<times> ifqueue \<Rightarrow> links \<times> ifqueue" where
  "IF_PREPEND m = (\<lambda>(h, q).
     (h(m := ifq_head q),
      q\<lparr>ifq_tail := (case ifq_tail q of None \<Rightarrow> Some m | Some t \<Rightarrow> Some t),
        ifq_head := Some m, ifq_len := ifq_len q + 1\<rparr>))"

definition IF_QFULL :: "ifqueue \<Rightarrow> bool" where
  "IF_QFULL q \<longleftrightarrow> ifq_maxlen q \<le> ifq_len q"

text \<open>\<open>_if_handoff\<close>: enqueue unless the queue is full; the second result says whether it was queued.\<close>

definition if_handoff :: "nat \<Rightarrow> links \<times> ifqueue \<Rightarrow> (links \<times> ifqueue) \<times> bool" where
  "if_handoff m hq = (if IF_QFULL (snd hq) then (hq, False) else (IF_ENQUEUE m hq, True))"

text \<open>\<open>_IF_DRAIN\<close> loops until the queue is empty; \<open>n\<close> bounds the number of iterations.\<close>

fun IF_DRAIN :: "nat \<Rightarrow> links \<times> ifqueue \<Rightarrow> (links \<times> ifqueue) option" where
  "IF_DRAIN 0 hq = None"
| "IF_DRAIN (Suc n) hq = (case IF_DEQUEUE hq of (hq, None) \<Rightarrow> Some hq | (hq, Some m) \<Rightarrow> IF_DRAIN n hq)"

section \<open>The list a queue holds\<close>

fun chain :: "links \<Rightarrow> nat option \<Rightarrow> nat list \<Rightarrow> bool" where
  "chain h p [] \<longleftrightarrow> p = None"
| "chain h p (x # xs) \<longleftrightarrow> p = Some x \<and> chain h (h x) xs"

definition queue_of :: "links \<times> ifqueue \<Rightarrow> nat list \<Rightarrow> bool" where
  "queue_of hq xs \<longleftrightarrow> chain (fst hq) (ifq_head (snd hq)) xs \<and> distinct xs \<and>
     ifq_tail (snd hq) = (if xs = [] then None else Some (last xs)) \<and> ifq_len (snd hq) = int (length xs)"

lemma chain_upd [simp]: "m \<notin> set xs \<Longrightarrow> chain (h(m := v)) p xs = chain h p xs"
  by (induction xs arbitrary: p) auto

lemma chain_snoc: "chain h p (xs @ [t]) \<Longrightarrow> m \<notin> set (xs @ [t]) \<Longrightarrow> distinct (xs @ [t]) \<Longrightarrow>
   chain (h(m := None, t := Some m)) p (xs @ [t, m])"
  by (induction xs arbitrary: p) auto

lemma IF_ENQUEUE_list:
  assumes "queue_of hq xs" "m \<notin> set xs"
  shows "queue_of (IF_ENQUEUE m hq) (xs @ [m])"
proof (cases xs rule: rev_cases)
  case Nil
  then show ?thesis
    using assms by (cases hq) (simp add: queue_of_def IF_ENQUEUE_def)
next
  case (snoc ys t)
  then show ?thesis
    using assms chain_snoc [of "fst hq" "ifq_head (snd hq)" ys t m]
    by (cases hq) (auto simp: queue_of_def IF_ENQUEUE_def Let_def)
qed

lemma IF_DEQUEUE_list:
  assumes "queue_of hq xs"
  shows "snd (IF_DEQUEUE hq) = (case xs of [] \<Rightarrow> None | x # _ \<Rightarrow> Some x) \<and> queue_of (fst (IF_DEQUEUE hq)) (tl xs)"
proof (cases xs)
  case Nil
  then show ?thesis
    using assms by (cases hq) (simp add: queue_of_def IF_DEQUEUE_def)
next
  case (Cons x ys)
  then show ?thesis
    using assms by (cases hq; cases ys) (auto simp: queue_of_def IF_DEQUEUE_def)
qed

lemma IF_PREPEND_list: "queue_of hq xs \<Longrightarrow> m \<notin> set xs \<Longrightarrow> queue_of (IF_PREPEND m hq) (m # xs)"
  by (cases hq; cases xs) (auto simp: queue_of_def IF_PREPEND_def)

lemma IF_QFULL_list: "queue_of hq xs \<Longrightarrow> IF_QFULL (snd hq) \<longleftrightarrow> ifq_maxlen (snd hq) \<le> int (length xs)"
  by (simp add: queue_of_def IF_QFULL_def)

lemma IF_ENQUEUE_maxlen: "ifq_maxlen (snd (IF_ENQUEUE m hq)) = ifq_maxlen (snd hq)"
  by (simp add: IF_ENQUEUE_def Let_def split: prod.splits)

text \<open>
  C12: the linked queue operations refine a list: enqueue appends, prepend adds in front, dequeue
  takes the first packet (or none from an empty queue), and the counter is the length.
\<close>

theorem ifqueue_refines_list:
  assumes "queue_of hq xs" and "m \<notin> set xs"
  shows "queue_of (IF_ENQUEUE m hq) (xs @ [m]) \<and> queue_of (IF_PREPEND m hq) (m # xs) \<and>
    snd (IF_DEQUEUE hq) = (case xs of [] \<Rightarrow> None | x # _ \<Rightarrow> Some x) \<and>
    queue_of (fst (IF_DEQUEUE hq)) (tl xs) \<and>
    (IF_QFULL (snd hq) \<longleftrightarrow> ifq_maxlen (snd hq) \<le> int (length xs))"
  using assms IF_ENQUEUE_list IF_PREPEND_list IF_DEQUEUE_list IF_QFULL_list by blast

definition empty_ifqueue :: "int \<Rightarrow> links \<times> ifqueue" where
  "empty_ifqueue n = (\<lambda>_. None, \<lparr>ifq_head = None, ifq_tail = None, ifq_len = 0, ifq_maxlen = n\<rparr>)"

theorem ifqueue_refines_list_witness:
  "queue_of (IF_ENQUEUE 7 (empty_ifqueue 3)) ([] @ [7]) \<and> queue_of (IF_PREPEND 7 (empty_ifqueue 3)) [7] \<and>
    snd (IF_DEQUEUE (empty_ifqueue 3)) = (case [] of [] \<Rightarrow> None | x # _ \<Rightarrow> Some x) \<and>
    queue_of (fst (IF_DEQUEUE (empty_ifqueue 3))) (tl []) \<and>
    (IF_QFULL (snd (empty_ifqueue 3)) \<longleftrightarrow> ifq_maxlen (snd (empty_ifqueue 3)) \<le> int (length ([] :: nat list)))"
  by (rule ifqueue_refines_list) (simp_all add: empty_ifqueue_def queue_of_def)

lemma IF_DRAIN_empty: "queue_of hq xs \<Longrightarrow> \<exists>hq'. IF_DRAIN (Suc (length xs)) hq = Some hq' \<and> queue_of hq' []"
proof (induction xs arbitrary: hq)
  case Nil
  then show ?case
    using IF_DEQUEUE_list [OF Nil] by (auto split: prod.splits option.splits)
next
  case (Cons x xs)
  have "queue_of (fst (IF_DEQUEUE hq)) xs" "snd (IF_DEQUEUE hq) = Some x"
    using IF_DEQUEUE_list [OF Cons.prems] by simp_all
  then show ?case
    using Cons.IH [of "fst (IF_DEQUEUE hq)"] by (auto split: prod.splits)
qed

text \<open>
  \<open>_IF_DRAIN\<close> ends: one iteration more than there are packets is enough, and it leaves the
  queue empty.
\<close>

theorem IF_DRAIN_ends:
  assumes "queue_of hq xs"
  shows "\<exists>hq'. IF_DRAIN (Suc (length xs)) hq = Some hq' \<and> queue_of hq' []"
  using assms by (rule IF_DRAIN_empty)

theorem IF_DRAIN_ends_witness:
  "\<exists>hq'. IF_DRAIN (Suc (length [4 :: nat, 9])) (IF_ENQUEUE 9 (IF_ENQUEUE 4 (empty_ifqueue 5))) = Some hq' \<and> queue_of hq' []"
  by (rule IF_DRAIN_ends) (simp add: empty_ifqueue_def queue_of_def IF_ENQUEUE_def)

section \<open>The queue as the protocol layers see it\<close>

text \<open>
  The contract between a queue and its clients, proved once for any implementation and
  discharged for the linked queue: a bounded FIFO that never drops or reorders what it accepted.
\<close>

locale packet_queue =
  fixes holds :: "'q \<Rightarrow> 'm list \<Rightarrow> bool"
    and enq :: "'m \<Rightarrow> 'q \<Rightarrow> 'q"
    and deq :: "'q \<Rightarrow> 'q \<times> 'm option"
  assumes enq_holds: "holds q xs \<Longrightarrow> m \<notin> set xs \<Longrightarrow> holds (enq m q) (xs @ [m])"
    and deq_holds: "holds q xs \<Longrightarrow> holds (fst (deq q)) (tl xs)"
    and deq_value: "holds q xs \<Longrightarrow> snd (deq q) = (case xs of [] \<Rightarrow> None | x # _ \<Rightarrow> Some x)"
begin

text \<open>Take \<open>n\<close> packets.\<close>

fun take_out :: "nat \<Rightarrow> 'q \<Rightarrow> 'q \<times> 'm list" where
  "take_out 0 q = (q, [])"
| "take_out (Suc n) q =
     (case deq q of (q, None) \<Rightarrow> (q, [])
      | (q, Some m) \<Rightarrow> (case take_out n q of (q, ms) \<Rightarrow> (q, m # ms)))"

lemma put_in: "holds q xs \<Longrightarrow> distinct (xs @ ms) \<Longrightarrow> holds (fold enq ms q) (xs @ ms)"
proof (induction ms arbitrary: q xs)
  case (Cons m ms)
  then show ?case
    using Cons.IH [of "enq m q" "xs @ [m]"] enq_holds [of q xs m] by simp
qed simp

lemma take_out_holds: "holds q xs \<Longrightarrow> snd (take_out (length xs) q) = xs"
proof (induction xs arbitrary: q)
  case (Cons x xs)
  then show ?case
    using Cons.IH [OF deq_holds [OF Cons.prems, simplified]] deq_value [OF Cons.prems]
    by (auto split: prod.splits)
qed simp

lemma fifo: "holds q [] \<Longrightarrow> distinct ms \<Longrightarrow> snd (take_out (length ms) (fold enq ms q)) = ms"
  using put_in [of q "[]" ms] take_out_holds by simp

end

interpretation ifq: packet_queue queue_of IF_ENQUEUE IF_DEQUEUE
  by unfold_locales (use IF_ENQUEUE_list IF_DEQUEUE_list in blast)+


text \<open>Packets leave the linked queue in the order they entered it.\<close>

lemma ifqueue_fifo:
  "queue_of hq [] \<Longrightarrow> distinct ms \<Longrightarrow> snd (ifq.take_out (length ms) (fold IF_ENQUEUE ms hq)) = ms"
  by (rule ifq.fifo)

end
