(* ===== verification/Line_Interconnect.thy ===== *)
theory Line_Interconnect
  imports I4B_Prelude
begin

unbundle bit_operations_syntax

text \<open>
  The line interconnect routines of \<^verbatim>\<open>src/src/sys/i4b/layer4/i4b_l4mgmt.c\<close>: two calls are joined by
  a pair of time slots on a PCM cable both controllers are plugged into; each end transmits in the
  slot the other receives in.
\<close>

section \<open>State\<close>

definition I4B_MAX_CONTROLLERS :: nat where
  "I4B_MAX_CONTROLLERS = 64"

definition I4B_PCM_CABLE_MAX :: nat where
  "I4B_PCM_CABLE_MAX = 8"

record i4b_pcm_cable =
  slot_end :: nat
  slot_bitmap :: "u32 list"

record i4b_line_interconnect =
  li_cdid :: u32
  pcm_cable :: nat
  pcm_slot_rx :: nat
  pcm_slot_tx :: nat

text \<open>
  The cables, and per controller the interconnect table and the cable map; a pointer to an
  interconnect is its controller and its index.
\<close>

record li_state =
  ls_cables :: "i4b_pcm_cable list"
  ls_tab :: "i4b_line_interconnect list list"
  ls_map :: "nat list list"

type_synonym li_ptr = "nat \<times> nat"

definition CNTL_FIND :: "u32 \<Rightarrow> nat" where
  "CNTL_FIND cdid = unat cdid mod I4B_MAX_CONTROLLERS"

definition li_at :: "li_state \<Rightarrow> li_ptr \<Rightarrow> i4b_line_interconnect" where
  "li_at s p = ls_tab s ! fst p ! snd p"

definition li_set :: "li_ptr \<Rightarrow> i4b_line_interconnect \<Rightarrow> li_state \<Rightarrow> li_state" where
  "li_set p l s = s\<lparr>ls_tab := (ls_tab s)[fst p := (ls_tab s ! fst p)[snd p := l]]\<rparr>"

section \<open>Bitmaps\<close>

definition GET_BIT :: "u32 list \<Rightarrow> nat \<Rightarrow> bool" where
  "GET_BIT bm off = bit (bm ! (off div 32)) (off mod 32)"

definition SET_BIT :: "u32 list \<Rightarrow> nat \<Rightarrow> bool \<Rightarrow> u32 list" where
  "SET_BIT bm off v = bm[off div 32 := (if v then set_bit (off mod 32) (bm ! (off div 32))
                                        else unset_bit (off mod 32) (bm ! (off div 32)))]"

text \<open>32 bits from any bit offset; \<open>None\<close> is a read past the bitmap.\<close>

definition get_dword :: "u32 list \<Rightarrow> nat \<Rightarrow> u32 option" where
  "get_dword bm off =
     (let d = off div 32; b = off mod 32
      in if length bm \<le> d \<or> (b \<noteq> 0 \<and> length bm \<le> d + 1) then None
         else Some (drop_bit b (bm ! d) OR (if b \<noteq> 0 then push_bit (32 - b) (bm ! (d + 1)) else 0)))"

section \<open>Interconnect table\<close>

fun find_index :: "('a \<Rightarrow> bool) \<Rightarrow> 'a list \<Rightarrow> nat option" where
  "find_index P [] = None"
| "find_index P (x # xs) = (if P x then Some 0 else map_option Suc (find_index P xs))"

definition i4b_li_alloc :: "u32 \<Rightarrow> li_state \<Rightarrow> li_state \<times> li_ptr option" where
  "i4b_li_alloc cdid s =
     (if cdid = 0 then (s, None)
      else case find_index (\<lambda>l. li_cdid l = 0) (ls_tab s ! CNTL_FIND cdid) of
             None \<Rightarrow> (s, None)
           | Some i \<Rightarrow> let p = (CNTL_FIND cdid, i) in (li_set p ((li_at s p)\<lparr>li_cdid := cdid\<rparr>) s, Some p))"

definition i4b_li_search :: "u32 \<Rightarrow> li_state \<Rightarrow> li_ptr option" where
  "i4b_li_search cdid s =
     (if cdid = 0 then None
      else map_option (Pair (CNTL_FIND cdid)) (find_index (\<lambda>l. li_cdid l = cdid) (ls_tab s ! CNTL_FIND cdid)))"

definition li_zero :: i4b_line_interconnect where
  "li_zero = \<lparr>li_cdid = 0, pcm_cable = 0, pcm_slot_rx = 0, pcm_slot_tx = 0\<rparr>"

definition i4b_li_free :: "li_ptr \<Rightarrow> li_state \<Rightarrow> li_state" where
  "i4b_li_free p s = li_set p li_zero s"

section \<open>Slots\<close>

definition peer_slot :: "nat \<Rightarrow> nat \<Rightarrow> nat" where
  "peer_slot pcm_end slot = (if slot < pcm_end then slot + pcm_end else slot - pcm_end)"

text \<open>\<open>__i4b_slot_li_alloc\<close>: the receive slot is the peer of the given slot.\<close>

definition slot_li_alloc :: "u32 \<Rightarrow> nat \<Rightarrow> nat \<Rightarrow> li_state \<Rightarrow> li_state \<times> li_ptr option" where
  "slot_li_alloc cdid c slot s =
     (let cable = ls_cables s ! c; rx = peer_slot (slot_end cable div 2) slot
      in if GET_BIT (slot_bitmap cable) rx then (s, None)
         else case i4b_li_alloc cdid s of
                (s, None) \<Rightarrow> (s, None)
              | (s, Some p) \<Rightarrow>
                  let s = s\<lparr>ls_cables := (ls_cables s)[c := cable\<lparr>slot_bitmap := SET_BIT (slot_bitmap cable) rx True\<rparr>]\<rparr>
                  in (li_set p ((li_at s p)\<lparr>pcm_cable := c, pcm_slot_rx := rx, pcm_slot_tx := slot\<rparr>) s, Some p))"

text \<open>
  The search for a slot: \<open>scan_bits\<close> is the inner loop over one 32-bit group \<open>t\<close> from slot \<open>y\<close>,
  \<open>scan_slots\<close> the loop over the groups. \<open>None\<close>: no free slot.
\<close>

function scan_bits :: "u32 \<Rightarrow> nat \<Rightarrow> nat \<Rightarrow> nat option" where
  "scan_bits t y pcm_end =
     (if y < pcm_end then (if bit t (y mod 32) then scan_bits t (y + 1) pcm_end else Some y) else None)"
  by auto
termination
  by (relation "measure (\<lambda>(t, y, pcm_end). pcm_end - y)") auto

declare scan_bits.simps [simp del]

definition slot_group :: "u32 list \<Rightarrow> nat \<Rightarrow> nat \<Rightarrow> u32 option" where
  "slot_group bm pcm_end y =
     (case (get_dword bm y, get_dword bm (y + pcm_end)) of
        (Some a, Some b) \<Rightarrow> Some (a OR b) | _ \<Rightarrow> None)"

function scan_slots :: "u32 list \<Rightarrow> nat \<Rightarrow> nat \<Rightarrow> nat option" where
  "scan_slots bm pcm_end y =
     (if y < pcm_end
      then case slot_group bm pcm_end y of
             None \<Rightarrow> None
           | Some t \<Rightarrow> if t = - 1 then scan_slots bm pcm_end (y + 32) else scan_bits t y pcm_end
      else None)"
  by auto
termination
  by (relation "measure (\<lambda>(bm, pcm_end, y). pcm_end - y)") auto

declare scan_slots.simps [simp del]

text \<open>The loop over the cables of the source controller that the destination shares.\<close>

fun scan_cables :: "li_state \<Rightarrow> u32 \<Rightarrow> nat list \<Rightarrow> nat list \<Rightarrow> li_state \<times> li_ptr option" where
  "scan_cables s cdid [] dst_map = (s, None)"
| "scan_cables s cdid (z # zs) dst_map =
     (if z < I4B_PCM_CABLE_MAX \<and> z \<in> set dst_map
      then case scan_slots (slot_bitmap (ls_cables s ! z)) (slot_end (ls_cables s ! z) div 2) 0 of
             Some y \<Rightarrow> slot_li_alloc cdid z y s
           | None \<Rightarrow> scan_cables s cdid zs dst_map
      else scan_cables s cdid zs dst_map)"

definition i4b_slot_li_alloc :: "u32 \<Rightarrow> u32 \<Rightarrow> li_state \<Rightarrow> li_state \<times> li_ptr option" where
  "i4b_slot_li_alloc cdid_src cdid_dst s =
     (case i4b_li_search cdid_dst s of
        Some p \<Rightarrow> slot_li_alloc cdid_src (pcm_cable (li_at s p)) (pcm_slot_rx (li_at s p)) s
      | None \<Rightarrow> scan_cables s cdid_src (ls_map s ! CNTL_FIND cdid_src) (ls_map s ! CNTL_FIND cdid_dst))"

definition i4b_slot_li_free :: "li_ptr \<Rightarrow> li_state \<Rightarrow> li_state" where
  "i4b_slot_li_free p s =
     (let l = li_at s p; c = ls_cables s ! pcm_cable l
      in i4b_li_free p
           (s\<lparr>ls_cables := (ls_cables s)[pcm_cable l := c\<lparr>slot_bitmap := SET_BIT (slot_bitmap c) (pcm_slot_rx l) False\<rparr>]\<rparr>))"

section \<open>Bitmap laws\<close>

lemma GET_SET_BIT:
  assumes "i < 32 * length bm"
  shows "GET_BIT (SET_BIT bm i v) j = (if i = j then v else GET_BIT bm j)"
proof (cases "i div 32 = j div 32")
  case True
  then have "i = j \<longleftrightarrow> i mod 32 = j mod 32"
    by (metis div_mult_mod_eq)
  then show ?thesis
    using assms True by (auto simp: GET_BIT_def SET_BIT_def bit_simps less_mult_imp_div_less mult.commute)
next
  case False
  then show ?thesis
    by (auto simp: GET_BIT_def SET_BIT_def)
qed

lemma length_SET_BIT [simp]: "length (SET_BIT bm i v) = length bm"
  by (simp add: SET_BIT_def)

text \<open>\<open>get_dword\<close> reads the 32 bits from the given offset, if they lie in the bitmap.\<close>

lemma get_dword_bits:
  assumes "get_dword bm off = Some w" "i < 32"
  shows "bit w i = GET_BIT bm (off + i)"
proof -
  define d b where "d = off div 32" and "b = off mod 32"
  have off: "off = d * 32 + b" "b < 32"
    by (simp_all add: d_def b_def)
  have w: "w = drop_bit b (bm ! d) OR (if b \<noteq> 0 then push_bit (32 - b) (bm ! (d + 1)) else 0)"
    using assms(1) by (auto simp: get_dword_def Let_def d_def b_def split: if_splits)
  show ?thesis
  proof (cases "b + i < 32")
    case True
    then have "(off + i) div 32 = d" "(off + i) mod 32 = b + i"
      using off by (simp_all add: add.assoc)
    then show ?thesis
      using True assms(2) by (auto simp: w GET_BIT_def bit_simps)
  next
    case False
    have "off + i = Suc d * 32 + (b + i - 32)"
      using off False by simp
    moreover have "b + i - 32 < 32"
      using off assms(2) by simp
    ultimately have "(off + i) div 32 = Suc d" "(off + i) mod 32 = b + i - 32"
      by (simp_all only: div_mult_self3 mod_mult_self3) simp_all
    moreover have "\<not> bit (bm ! d) (b + i)"
      using False bit_imp_le_length [of "bm ! d" "b + i"] by auto
    ultimately show ?thesis
      using False assms(2) off by (auto simp: w GET_BIT_def bit_simps add.commute [of i b])
  qed
qed

section \<open>Slot search\<close>

text \<open>Cables as the drivers set them up: 128 slots at most, a bitmap of four words.\<close>

definition wf_cable :: "i4b_pcm_cable \<Rightarrow> bool" where
  "wf_cable c \<longleftrightarrow> slot_end c \<le> 128 \<and> length (slot_bitmap c) = 4"

lemma half_le: "n \<le> 128 \<Longrightarrow> n div 2 \<le> (64 :: nat)"
  by (rule order_trans [OF div_le_mono [of n 128 2]]) simp_all

lemma below_twice_half: "r < 2 * (n div 2) \<Longrightarrow> n \<le> 128 \<Longrightarrow> r < (128 :: nat)"
  using times_div_less_eq_dividend [of 2 n] by linarith

lemma scan_bits_some:
  "scan_bits t y e = Some z \<Longrightarrow> y \<le> z \<and> z < e \<and> \<not> bit t (z mod 32) \<and> (\<forall>i. y \<le> i \<longrightarrow> i < z \<longrightarrow> bit t (i mod 32))"
proof (induction t y e rule: scan_bits.induct)
  case (1 t y e)
  show ?case
  proof (cases "y < e \<and> bit t (y mod 32)")
    case True
    then have IH: "y + 1 \<le> z \<and> z < e \<and> \<not> bit t (z mod 32) \<and> (\<forall>i. y + 1 \<le> i \<longrightarrow> i < z \<longrightarrow> bit t (i mod 32))"
      using 1 by (simp add: scan_bits.simps [of t y e])
    then show ?thesis
      using True by (metis Suc_eq_plus1 add_leD1 not_less_eq_eq le_antisym)
  next
    case False
    then have "z = y \<and> y < e \<and> \<not> bit t (y mod 32)"
      using 1(2) by (simp add: scan_bits.simps [of t y e] split: if_splits)
    then show ?thesis
      by auto
  qed
qed

lemma scan_bits_none: "scan_bits t y e = None \<Longrightarrow> y \<le> i \<Longrightarrow> i < e \<Longrightarrow> bit t (i mod 32)"
proof (induction t y e rule: scan_bits.induct)
  case (1 t y e)
  then have "y < e" "bit t (y mod 32)" "scan_bits t (y + 1) e = None"
    by (auto simp: scan_bits.simps [of t y e] split: if_splits)
  then show ?case
    using 1 by (cases "i = y") auto
qed

lemma slot_group_in_range:
  assumes "length bm = 4" "e \<le> 64" "y < e" "32 dvd y"
  shows "slot_group bm e y \<noteq> None"
proof -
  obtain k where "y = 32 * k" "k < 2"
    using assms(2-4) by (auto elim!: dvdE)
  then have "y = 0 \<or> y = 32"
    by auto
  moreover have "(y + e) div 32 \<le> 3"
    using assms(2) calculation by auto
  moreover have "(y + e) div 32 \<le> 2" if "(y + e) mod 32 \<noteq> 0"
  proof (rule ccontr)
    assume "\<not> (y + e) div 32 \<le> 2"
    then have "96 \<le> y + e"
      by (simp add: not_le less_eq_div_iff_mult_less_eq Suc_le_eq)
    then have "y + e = 96"
      using \<open>y = 0 \<or> y = 32\<close> assms(2) by auto
    then show False
      using that by simp
  qed
  ultimately show ?thesis
    using assms(1) by (auto simp: slot_group_def get_dword_def Let_def split: option.splits)
qed

lemma slot_group_bit:
  assumes "slot_group bm e y = Some t" "i < 32"
  shows "bit t i \<longleftrightarrow> GET_BIT bm (y + i) \<or> GET_BIT bm (y + e + i)"
  using assms by (auto simp: slot_group_def bit_simps get_dword_bits split: option.splits)

lemma word_all_ones: "(t :: u32) = - 1 \<longleftrightarrow> (\<forall>i<32. bit t i)"
  by (auto simp: bit_eq_iff)

lemma aligned_mod: "32 dvd y \<Longrightarrow> y \<le> i \<Longrightarrow> i < y + 32 \<Longrightarrow> i mod 32 = i - (y :: nat)"
proof -
  assume "32 dvd y" "y \<le> i" "i < y + 32"
  then have "(i - y + y) mod 32 = (i - y) mod 32"
    by (metis dvd_eq_mod_eq_0 mod_add_right_eq add.right_neutral)
  then show ?thesis
    using \<open>y \<le> i\<close> \<open>i < y + 32\<close> by simp
qed

lemma scan_slots_sound:
  assumes "scan_slots bm e y = Some z" "32 dvd y"
  shows "z < e \<and> \<not> GET_BIT bm z \<and> \<not> GET_BIT bm (z + e)"
  using assms
proof (induction bm e y rule: scan_slots.induct)
  case (1 bm e y)
  then obtain t where y: "y < e" and t: "slot_group bm e y = Some t"
    by (auto simp: scan_slots.simps [of bm e y] split: if_splits option.splits)
  show ?case
  proof (cases "t = - 1")
    case True
    then show ?thesis
      using 1 y t by (simp add: scan_slots.simps [of bm e y])
  next
    case False
    then have z: "scan_bits t y e = Some z"
      using 1(2) y t by (simp add: scan_slots.simps [of bm e y])
    obtain j where j: "j < 32" "\<not> bit t j"
      using False word_all_ones by blast
    have "z < y + 32"
    proof (rule ccontr)
      assume "\<not> z < y + 32"
      then have "bit t ((y + j) mod 32)"
        using scan_bits_some [OF z] j(1) by auto
      then show False
        using j aligned_mod [OF 1(3), of "y + j"] by simp
    qed
    then have m: "z mod 32 = z - y" "z - y < 32" "y \<le> z"
      using scan_bits_some [OF z] aligned_mod [OF 1(3)] by auto
    have eq: "y + (z - y) = z" "y + e + (z - y) = z + e"
      using m(3) by simp_all
    show ?thesis
      using scan_bits_some [OF z] slot_group_bit [OF t m(2)] unfolding eq m(1) by blast
  qed
qed

lemma scan_slots_complete:
  assumes "scan_slots bm e y = None" "32 dvd y" "length bm = 4" "e \<le> 64" "y \<le> i" "i < e"
  shows "GET_BIT bm i \<or> GET_BIT bm (i + e)"
  using assms
proof (induction bm e y rule: scan_slots.induct)
  case (1 bm e y)
  have y: "y < e"
    using 1 by simp
  then obtain t where t: "slot_group bm e y = Some t"
    using slot_group_in_range 1 by blast
  have busy: "bit t (i - y) \<Longrightarrow> i < y + 32 \<Longrightarrow> ?case"
  proof -
    assume "bit t (i - y)" "i < y + 32"
    moreover have "y + (i - y) = i" "y + e + (i - y) = i + e"
      using 1(6) by simp_all
    ultimately show ?thesis
      using slot_group_bit [OF t, of "i - y"] 1(6) by simp
  qed
  show ?case
  proof (cases "t = - 1")
    case True
    show ?thesis
    proof (cases "i < y + 32")
      case i: True
      then show ?thesis
        using True word_all_ones [of t] busy 1(6) by auto
    next
      case False
      then show ?thesis
        using 1 y t True by (simp add: scan_slots.simps [of bm e y])
    qed
  next
    case False
    then have n: "scan_bits t y e = None"
      using 1(2) y t by (simp add: scan_slots.simps [of bm e y])
    have free: "y + j < e \<Longrightarrow> bit t j" if "j < 32" for j
      using scan_bits_none [OF n, of "y + j"] aligned_mod [OF 1(3), of "y + j"] that by simp
    obtain j where "j < 32" "\<not> bit t j"
      using False word_all_ones by blast
    then have "e \<le> y + 31"
      using free [of j] by linarith
    then show ?thesis
      using free [of "i - y"] busy 1(6,7) by simp
  qed
qed



section \<open>Every allocated receive slot belongs to one interconnect\<close>

definition li_wf :: "li_state \<Rightarrow> bool" where
  "li_wf s \<longleftrightarrow> length (ls_cables s) = I4B_PCM_CABLE_MAX \<and> list_all wf_cable (ls_cables s) \<and>
     length (ls_tab s) = I4B_MAX_CONTROLLERS"

definition used_li :: "li_state \<Rightarrow> li_ptr \<Rightarrow> bool" where
  "used_li s p \<longleftrightarrow> fst p < length (ls_tab s) \<and> snd p < length (ls_tab s ! fst p) \<and> li_cdid (li_at s p) \<noteq> 0"

definition half :: "li_state \<Rightarrow> nat \<Rightarrow> nat" where
  "half s c = slot_end (ls_cables s ! c) div 2"

definition good_li :: "li_state \<Rightarrow> i4b_line_interconnect \<Rightarrow> bool" where
  "good_li s l \<longleftrightarrow> pcm_cable l < I4B_PCM_CABLE_MAX \<and> pcm_slot_rx l < 2 * half s (pcm_cable l) \<and>
     pcm_slot_tx l = peer_slot (half s (pcm_cable l)) (pcm_slot_rx l) \<and>
     GET_BIT (slot_bitmap (ls_cables s ! pcm_cable l)) (pcm_slot_rx l)"

definition li_inv :: "li_state \<Rightarrow> bool" where
  "li_inv s \<longleftrightarrow> li_wf s \<and> (\<forall>p. used_li s p \<longrightarrow> good_li s (li_at s p)) \<and>
     (\<forall>p q. used_li s p \<longrightarrow> used_li s q \<longrightarrow> pcm_cable (li_at s p) = pcm_cable (li_at s q) \<longrightarrow>
        pcm_slot_rx (li_at s p) = pcm_slot_rx (li_at s q) \<longrightarrow> p = q)"

lemma li_inv_wf: "li_inv s \<Longrightarrow> li_wf s"
  unfolding li_inv_def by blast

lemma li_inv_good: "li_inv s \<Longrightarrow> used_li s p \<Longrightarrow> good_li s (li_at s p)"
  unfolding li_inv_def by blast

lemma li_inv_unique:
  "li_inv s \<Longrightarrow> used_li s p \<Longrightarrow> used_li s q \<Longrightarrow> pcm_cable (li_at s p) = pcm_cable (li_at s q) \<Longrightarrow>
   pcm_slot_rx (li_at s p) = pcm_slot_rx (li_at s q) \<Longrightarrow> p = q"
  unfolding li_inv_def by blast

lemma li_invI:
  assumes "li_wf s" "\<And>p. used_li s p \<Longrightarrow> good_li s (li_at s p)"
    "\<And>p q. used_li s p \<Longrightarrow> used_li s q \<Longrightarrow> pcm_cable (li_at s p) = pcm_cable (li_at s q) \<Longrightarrow>
       pcm_slot_rx (li_at s p) = pcm_slot_rx (li_at s q) \<Longrightarrow> p = q"
  shows "li_inv s"
  using assms unfolding li_inv_def by blast

lemma peer_slot_involution: "slot < 2 * e \<Longrightarrow> peer_slot e (peer_slot e slot) = slot"
  by (auto simp: peer_slot_def)

lemma peer_slot_less: "slot < 2 * e \<Longrightarrow> peer_slot e slot < 2 * e"
  by (auto simp: peer_slot_def)

lemma find_index_Some: "find_index P xs = Some i \<Longrightarrow> i < length xs \<and> P (xs ! i)"
  by (induction xs arbitrary: i) (auto split: if_splits)

lemma li_at_li_set:
  "fst p < length (ls_tab s) \<Longrightarrow> snd p < length (ls_tab s ! fst p) \<Longrightarrow> li_at (li_set p l s) q = (if q = p then l else li_at s q)"
  by (auto simp: li_at_def li_set_def nth_list_update prod_eq_iff)

lemma li_set_simps [simp]:
  "ls_cables (li_set p l s) = ls_cables s" "length (ls_tab (li_set p l s)) = length (ls_tab s)"
  "length (ls_tab (li_set p l s) ! c) = length (ls_tab s ! c)"
  by (auto simp: li_set_def nth_list_update)
    (metis length_list_update list_update_beyond nth_list_update_eq nth_list_update_neq not_less)

lemma used_li_set:
  assumes "fst p < length (ls_tab s)" "snd p < length (ls_tab s ! fst p)"
  shows "used_li (li_set p l s) q \<longleftrightarrow> (if q = p then li_cdid l \<noteq> 0 else used_li s q)"
  using assms by (auto simp: used_li_def li_at_li_set)

lemma li_alloc_effect:
  assumes "i4b_li_alloc cdid s = (s', Some p)" "li_wf s"
  shows "s' = li_set p ((li_at s p)\<lparr>li_cdid := cdid\<rparr>) s" "fst p < length (ls_tab s)"
    "snd p < length (ls_tab s ! fst p)" "\<not> used_li s p" "cdid \<noteq> 0"
proof -
  obtain i where i: "find_index (\<lambda>l. li_cdid l = 0) (ls_tab s ! CNTL_FIND cdid) = Some i" "p = (CNTL_FIND cdid, i)"
    "s' = li_set p ((li_at s p)\<lparr>li_cdid := cdid\<rparr>) s" "cdid \<noteq> 0"
    using assms(1) by (auto simp: i4b_li_alloc_def Let_def split: if_splits option.splits)
  then show "s' = li_set p ((li_at s p)\<lparr>li_cdid := cdid\<rparr>) s" "cdid \<noteq> 0"
    by simp_all
  show "fst p < length (ls_tab s)"
    using i(2) assms(2) by (simp add: CNTL_FIND_def li_wf_def I4B_MAX_CONTROLLERS_def)
  show "snd p < length (ls_tab s ! fst p)" "\<not> used_li s p"
    using find_index_Some [OF i(1)] i(2) by (auto simp: used_li_def li_at_def)
qed

text \<open>Marking a slot on a cable changes that bit only.\<close>

definition mark_slot :: "nat \<Rightarrow> nat \<Rightarrow> bool \<Rightarrow> li_state \<Rightarrow> li_state" where
  "mark_slot c r v s =
     s\<lparr>ls_cables := (ls_cables s)[c := (ls_cables s ! c)\<lparr>slot_bitmap := SET_BIT (slot_bitmap (ls_cables s ! c)) r v\<rparr>]\<rparr>"

lemma mark_slot_simps [simp]:
  "ls_tab (mark_slot c r v s) = ls_tab s" "li_at (mark_slot c r v s) = li_at s"
  "used_li (mark_slot c r v s) = used_li s"
  by (simp_all add: mark_slot_def li_at_def used_li_def fun_eq_iff)

lemma half_mark_slot [simp]: "half (mark_slot c r v s) d = half s d"
  by (cases "c < length (ls_cables s)"; cases "d = c") (simp_all add: mark_slot_def half_def list_update_beyond)

lemma half_li_set [simp]: "half (li_set p l s) d = half s d"
  by (simp add: half_def)

lemma mark_slot_wf: "li_wf s \<Longrightarrow> li_wf (mark_slot c r v s)"
  by (cases "c < length (ls_cables s)")
    (auto simp: li_wf_def mark_slot_def list_all_length nth_list_update wf_cable_def)

lemma mark_slot_bit:
  assumes "li_wf s" "c < I4B_PCM_CABLE_MAX" "r < 2 * half s c"
  shows "GET_BIT (slot_bitmap (ls_cables (mark_slot c r v s) ! d)) j \<longleftrightarrow>
    (if d = c \<and> j = r then v else GET_BIT (slot_bitmap (ls_cables s ! d)) j)"
proof -
  have "wf_cable (ls_cables s ! c)"
    using assms(1,2) by (simp add: li_wf_def list_all_length)
  then have "r < 32 * length (slot_bitmap (ls_cables s ! c))"
    using assms(3) below_twice_half by (auto simp: wf_cable_def half_def)
  then show ?thesis
    using assms(1,2) GET_SET_BIT [of r "slot_bitmap (ls_cables s ! c)" v j]
    by (auto simp: mark_slot_def li_wf_def nth_list_update)
qed

lemma slot_li_alloc_effect:
  assumes "slot_li_alloc cdid c slot s = (s', Some p)" "li_wf s"
  shows "s' = li_set p \<lparr>li_cdid = cdid, pcm_cable = c, pcm_slot_rx = peer_slot (half s c) slot, pcm_slot_tx = slot\<rparr>
      (mark_slot c (peer_slot (half s c) slot) True s)"
    and "fst p < length (ls_tab s)" "snd p < length (ls_tab s ! fst p)" "\<not> used_li s p" "cdid \<noteq> 0"
    and "\<not> GET_BIT (slot_bitmap (ls_cables s ! c)) (peer_slot (half s c) slot)"
proof -
  obtain s1 where a: "i4b_li_alloc cdid s = (s1, Some p)"
    and b: "\<not> GET_BIT (slot_bitmap (ls_cables s ! c)) (peer_slot (half s c) slot)"
    and s': "s' = li_set p ((li_at s1 p)\<lparr>pcm_cable := c, pcm_slot_rx := peer_slot (half s c) slot, pcm_slot_tx := slot\<rparr>)
       (s1\<lparr>ls_cables := (ls_cables s1)[c := (ls_cables s ! c)\<lparr>slot_bitmap :=
          SET_BIT (slot_bitmap (ls_cables s ! c)) (peer_slot (half s c) slot) True\<rparr>]\<rparr>)"
    using assms(1) by (auto simp: slot_li_alloc_def half_def Let_def li_at_def split: if_splits prod.splits option.splits)
  note e = li_alloc_effect [OF a assms(2)]
  show "fst p < length (ls_tab s)" "snd p < length (ls_tab s ! fst p)" "\<not> used_li s p" "cdid \<noteq> 0"
    by (fact e)+
  show "\<not> GET_BIT (slot_bitmap (ls_cables s ! c)) (peer_slot (half s c) slot)"
    by (fact b)
  have "li_at s1 p = (li_at s p)\<lparr>li_cdid := cdid\<rparr>"
    using e by (simp add: li_at_li_set)
  then show "s' = li_set p \<lparr>li_cdid = cdid, pcm_cable = c, pcm_slot_rx = peer_slot (half s c) slot, pcm_slot_tx = slot\<rparr>
      (mark_slot c (peer_slot (half s c) slot) True s)"
    unfolding s' using e(1) by (cases "li_at s p") (simp add: li_set_def mark_slot_def nth_list_update e(2))
qed

lemma slot_li_alloc_none: "slot_li_alloc cdid c slot s = (s', None) \<Longrightarrow> s' = s"
  by (auto simp: slot_li_alloc_def i4b_li_alloc_def Let_def split: if_splits prod.splits option.splits)

lemma slot_li_alloc_inv:
  assumes "li_inv s" "c < I4B_PCM_CABLE_MAX" "slot < 2 * half s c" "slot_li_alloc cdid c slot s = (s', r)"
  shows "li_inv s'"
proof (cases r)
  case None
  then show ?thesis
    using slot_li_alloc_none assms by blast
next
  case (Some p)
  define rx where "rx = peer_slot (half s c) slot"
  let ?l = "\<lparr>li_cdid = cdid, pcm_cable = c, pcm_slot_rx = rx, pcm_slot_tx = slot\<rparr>"
  have wf: "li_wf s"
    using assms(1) by (simp add: li_inv_def)
  note e = slot_li_alloc_effect [OF assms(4) [unfolded Some] wf, folded rx_def]
  have rx: "rx < 2 * half s c" "peer_slot (half s c) rx = slot"
    using assms(3) by (simp_all add: rx_def peer_slot_less peer_slot_involution)
  let ?m = "mark_slot c rx True s"
  have pos: "fst p < length (ls_tab ?m)" "snd p < length (ls_tab ?m ! fst p)"
    using e by simp_all
  have at: "li_at s' q = (if q = p then ?l else li_at s q)" for q
    using li_at_li_set [OF pos, of ?l q] by (simp add: e(1))
  have used: "used_li s' q \<longleftrightarrow> q = p \<or> used_li s q" for q
    using used_li_set [OF pos, of ?l q] e(4,5) by (auto simp: e(1))
  have bit: "GET_BIT (slot_bitmap (ls_cables s' ! d)) j \<longleftrightarrow> (d = c \<and> j = rx) \<or> GET_BIT (slot_bitmap (ls_cables s ! d)) j" for d j
    using mark_slot_bit [OF wf assms(2) rx(1), of True d j] by (auto simp: e(1))
  have half: "half s' d = half s d" for d
    by (simp add: e(1))
  have "li_wf s'"
    using mark_slot_wf [OF wf, of c rx True] by (simp add: li_wf_def e(1))
  moreover have "good_li s' (li_at s' q)" if "used_li s' q" for q
    using that assms(2) rx li_inv_good [OF assms(1), of q] by (auto simp: good_li_def at used half bit)
  moreover have "q = q'" if "used_li s' q" "used_li s' q'" "pcm_cable (li_at s' q) = pcm_cable (li_at s' q')"
    "pcm_slot_rx (li_at s' q) = pcm_slot_rx (li_at s' q')" for q q'
    using that e(6) li_inv_good [OF assms(1), of q] li_inv_good [OF assms(1), of q'] li_inv_unique [OF assms(1), of q q']
    unfolding used at by (auto simp: good_li_def split: if_splits)
  ultimately show ?thesis
    by (rule li_invI)
qed

lemma scan_cables_inv: "li_inv s \<Longrightarrow> li_inv (fst (scan_cables s cdid zs dst))"
proof (induction s cdid zs dst rule: scan_cables.induct)
  case (2 s cdid z zs dst)
  have "y < 2 * half s z" if "scan_slots (slot_bitmap (ls_cables s ! z)) (slot_end (ls_cables s ! z) div 2) 0 = Some y" for y
    using scan_slots_sound [OF that] by (simp add: half_def)
  then show ?case
    using 2 slot_li_alloc_inv [OF 2(3), of z _ cdid] by (auto split: option.splits) (metis prod.collapse)
qed simp

lemma i4b_li_search_used: "i4b_li_search cdid s = Some p \<Longrightarrow> li_wf s \<Longrightarrow> used_li s p"
  by (auto simp: i4b_li_search_def used_li_def li_at_def li_wf_def CNTL_FIND_def I4B_MAX_CONTROLLERS_def
      split: if_splits dest!: find_index_Some)

definition li_sample :: li_state where
  "li_sample = \<lparr>ls_cables = replicate 8 \<lparr>slot_end = 64, slot_bitmap = [0, 0, 0, 0]\<rparr>,
     ls_tab = replicate 64 [li_zero, li_zero], ls_map = replicate 64 [0]\<rparr>"

lemma li_sample_inv: "li_inv li_sample"
proof (rule li_invI)
  show "li_wf li_sample"
    by (simp add: li_wf_def li_sample_def wf_cable_def I4B_PCM_CABLE_MAX_def I4B_MAX_CONTROLLERS_def list_all_length)
  have "\<not> used_li li_sample p" for p
    by (auto simp: used_li_def li_sample_def li_at_def li_zero_def nth_Cons split: nat.splits)
  then show "\<And>p. used_li li_sample p \<Longrightarrow> good_li li_sample (li_at li_sample p)"
    "\<And>p q. used_li li_sample p \<Longrightarrow> used_li li_sample q \<Longrightarrow> pcm_cable (li_at li_sample p) = pcm_cable (li_at li_sample q) \<Longrightarrow>
       pcm_slot_rx (li_at li_sample p) = pcm_slot_rx (li_at li_sample q) \<Longrightarrow> p = q"
    by blast+
qed

text \<open>The sample after one allocation on controller 1, slot 0 of cable 0.\<close>

definition li_sample1 :: li_state where
  "li_sample1 = fst (slot_li_alloc 65 0 0 li_sample)"

lemma li_sample1_alloc: "slot_li_alloc 65 0 0 li_sample = (li_sample1, Some (1, 0))"
proof -
  have "snd (slot_li_alloc 65 0 0 li_sample) = Some (1, 0)"
    by (simp add: slot_li_alloc_def li_sample_def GET_BIT_def peer_slot_def i4b_li_alloc_def CNTL_FIND_def
        I4B_MAX_CONTROLLERS_def li_zero_def Let_def nth_replicate)
  then show ?thesis
    by (simp add: li_sample1_def prod_eq_iff)
qed

lemma li_sample1_facts: "li_inv li_sample1" "used_li li_sample1 (1, 0)"
  "li_at li_sample1 (1, 0) = \<lparr>li_cdid = 65, pcm_cable = 0, pcm_slot_rx = 32, pcm_slot_tx = 0\<rparr>"
proof -
  show "li_inv li_sample1"
    by (rule slot_li_alloc_inv [OF li_sample_inv _ _ li_sample1_alloc])
      (simp_all add: I4B_PCM_CABLE_MAX_def half_def li_sample_def)
  note e = slot_li_alloc_effect [OF li_sample1_alloc li_inv_wf [OF li_sample_inv]]
  have h: "half li_sample 0 = 32"
    by (simp add: half_def li_sample_def)
  show "used_li li_sample1 (1, 0)"
    using e(2,3) by (simp add: e(1) h peer_slot_def used_li_set)
  show "li_at li_sample1 (1, 0) = \<lparr>li_cdid = 65, pcm_cable = 0, pcm_slot_rx = 32, pcm_slot_tx = 0\<rparr>"
    using e(2,3) by (simp add: e(1) h peer_slot_def li_at_li_set)
qed

text \<open>
  C14: allocation keeps the invariant: every interconnect in use owns the receive slot it names
  (the bit is set), transmits in the peer slot, and no two share a cable and receive slot.
\<close>

theorem slot_li_alloc_keeps_inv:
  assumes "li_inv s"
  shows "li_inv (fst (i4b_slot_li_alloc cdid_src cdid_dst s))"
proof (cases "i4b_li_search cdid_dst s")
  case None
  then show ?thesis
    using scan_cables_inv [OF assms] by (simp add: i4b_slot_li_alloc_def)
next
  case (Some p)
  then have "good_li s (li_at s p)"
    using li_inv_good [OF assms] i4b_li_search_used [OF _ li_inv_wf [OF assms]] by blast
  then show ?thesis
    using Some slot_li_alloc_inv [OF assms, of "pcm_cable (li_at s p)" "pcm_slot_rx (li_at s p)" cdid_src]
    by (auto simp: i4b_slot_li_alloc_def good_li_def) (metis prod.collapse)
qed

theorem slot_li_alloc_keeps_inv_witness:
  "li_inv (fst (i4b_slot_li_alloc 66 65 li_sample1))"
  by (rule slot_li_alloc_keeps_inv) (rule li_sample1_facts)

text \<open>
  freeing an interconnect in use keeps the invariant, releases exactly its slot and its table
  entry, and leaves every other interconnect as it was.
\<close>

theorem slot_li_free_keeps_inv:
  assumes "li_inv s" and "used_li s p"
  shows "li_inv (i4b_slot_li_free p s) \<and>
    (\<forall>q. used_li (i4b_slot_li_free p s) q \<longleftrightarrow> q \<noteq> p \<and> used_li s q) \<and>
    (\<forall>q. q \<noteq> p \<longrightarrow> li_at (i4b_slot_li_free p s) q = li_at s q)"
proof -
  define l where "l = li_at s p"
  let ?m = "mark_slot (pcm_cable l) (pcm_slot_rx l) False s"
  have s': "i4b_slot_li_free p s = li_set p li_zero ?m"
    by (simp add: i4b_slot_li_free_def i4b_li_free_def mark_slot_def Let_def l_def)
  have g: "good_li s l" and wf: "li_wf s"
    using assms by (simp_all add: li_inv_good li_inv_wf l_def)
  have pos: "fst p < length (ls_tab ?m)" "snd p < length (ls_tab ?m ! fst p)"
    using assms(2) by (simp_all add: used_li_def)
  have at: "li_at (li_set p li_zero ?m) q = (if q = p then li_zero else li_at s q)" for q
    using li_at_li_set [OF pos, of li_zero q] by simp
  have used: "used_li (li_set p li_zero ?m) q \<longleftrightarrow> q \<noteq> p \<and> used_li s q" for q
    using used_li_set [OF pos, of li_zero q] by (auto simp: li_zero_def)
  have bit: "GET_BIT (slot_bitmap (ls_cables ?m ! d)) j \<longleftrightarrow>
      (if d = pcm_cable l \<and> j = pcm_slot_rx l then False else GET_BIT (slot_bitmap (ls_cables s ! d)) j)" for d j
    using mark_slot_bit [OF wf, of "pcm_cable l" "pcm_slot_rx l" False d j] g by (simp add: good_li_def)
  have "good_li (li_set p li_zero ?m) (li_at (li_set p li_zero ?m) q)" if "q \<noteq> p" "used_li s q" for q
  proof -
    have "\<not> (pcm_cable (li_at s q) = pcm_cable l \<and> pcm_slot_rx (li_at s q) = pcm_slot_rx l)"
      using li_inv_unique [OF assms(1) that(2) assms(2)] that(1) by (auto simp: l_def)
    then show ?thesis
      using that li_inv_good [OF assms(1) that(2)] by (auto simp: good_li_def at bit)
  qed
  moreover have "li_wf (li_set p li_zero ?m)"
    using mark_slot_wf [OF wf] by (simp add: li_wf_def)
  moreover have "q = q'" if "q \<noteq> p" "used_li s q" "q' \<noteq> p" "used_li s q'"
    "pcm_cable (li_at (li_set p li_zero ?m) q) = pcm_cable (li_at (li_set p li_zero ?m) q')"
    "pcm_slot_rx (li_at (li_set p li_zero ?m) q) = pcm_slot_rx (li_at (li_set p li_zero ?m) q')" for q q'
    using that li_inv_unique [OF assms(1), of q q'] by (simp add: at)
  ultimately have "li_inv (li_set p li_zero ?m)"
    by (intro li_invI) (simp_all add: used)
  then show ?thesis
    unfolding s' by (simp add: used at del: split_paired_All)
qed

theorem slot_li_free_keeps_inv_witness:
  "li_inv (i4b_slot_li_free (1, 0) li_sample1) \<and> \<not> used_li (i4b_slot_li_free (1, 0) li_sample1) (1, 0) \<and>
    li_at (i4b_slot_li_free (1, 0) li_sample1) (2, 0) = li_at li_sample1 (2, 0)"
  using slot_li_free_keeps_inv [OF li_sample1_facts(1,2)] by (simp del: split_paired_All)

text \<open>
  when the destination already owns an interconnect and the source gets one, the two are
  crossed: same cable, and each transmits in the slot the other receives in.
\<close>

theorem slot_li_alloc_crosses:
  assumes "li_inv s" and "i4b_li_search cdid_dst s = Some d"
    and "i4b_slot_li_alloc cdid_src cdid_dst s = (s', Some p)"
  shows "pcm_cable (li_at s' p) = pcm_cable (li_at s' d) \<and>
    pcm_slot_tx (li_at s' p) = pcm_slot_rx (li_at s' d) \<and> pcm_slot_rx (li_at s' p) = pcm_slot_tx (li_at s' d)"
proof -
  have wf: "li_wf s"
    using assms(1) by (rule li_inv_wf)
  have used: "used_li s d"
    using assms(2) wf by (rule i4b_li_search_used)
  have "slot_li_alloc cdid_src (pcm_cable (li_at s d)) (pcm_slot_rx (li_at s d)) s = (s', Some p)"
    using assms(2,3) by (simp add: i4b_slot_li_alloc_def)
  note e = slot_li_alloc_effect [OF this wf]
  have "d \<noteq> p"
    using used e(4) by blast
  then show ?thesis
    using e(2,3) li_at_li_set [of p "mark_slot (pcm_cable (li_at s d)) (peer_slot (half s (pcm_cable (li_at s d)))
        (pcm_slot_rx (li_at s d))) True s"] li_inv_good [OF assms(1) used]
    by (simp add: e(1) good_li_def)
qed

theorem slot_li_alloc_crosses_witness:
  "let s' = fst (i4b_slot_li_alloc 66 65 li_sample1)
   in pcm_cable (li_at s' (2, 0)) = pcm_cable (li_at s' (1, 0)) \<and>
      pcm_slot_tx (li_at s' (2, 0)) = pcm_slot_rx (li_at s' (1, 0)) \<and>
      pcm_slot_rx (li_at s' (2, 0)) = pcm_slot_tx (li_at s' (1, 0))"
proof -
  let ?r = "i4b_slot_li_alloc 66 65 li_sample1"
  have tab: "li_sample1 = li_set (1, 0) \<lparr>li_cdid = 65, pcm_cable = 0, pcm_slot_rx = 32, pcm_slot_tx = 0\<rparr>
      (mark_slot 0 32 True li_sample)"
    using slot_li_alloc_effect(1) [OF li_sample1_alloc li_inv_wf [OF li_sample_inv]]
    by (simp add: half_def li_sample_def peer_slot_def)
  have s: "i4b_li_search 65 li_sample1 = Some (1, 0)"
    by (simp add: tab i4b_li_search_def CNTL_FIND_def I4B_MAX_CONTROLLERS_def li_set_def li_sample_def mark_slot_def)
  have "snd ?r = Some (2, 0)"
    by (simp add: i4b_slot_li_alloc_def s li_sample1_facts)
      (simp add: slot_li_alloc_def tab i4b_li_alloc_def CNTL_FIND_def I4B_MAX_CONTROLLERS_def li_set_def li_sample_def
        mark_slot_def GET_BIT_def SET_BIT_def peer_slot_def li_zero_def Let_def li_at_def)
  then have "?r = (fst ?r, Some (2, 0))"
    by (simp add: prod_eq_iff)
  then show ?thesis
    unfolding Let_def by (rule slot_li_alloc_crosses [OF li_sample1_facts(1) s])
qed

end
