(* ===== verification/Call_Desc.thy ===== *)
theory Call_Desc
  imports Line_Interconnect
begin

unbundle bit_operations_syntax

text \<open>
  Call descriptors and controllers: \<^verbatim>\<open>struct call_desc\<close> of \<^verbatim>\<open>src/src/sys/i4b/include/i4b_global.h\<close>,
  the network part of \<^verbatim>\<open>struct i4b_controller\<close> of \<^verbatim>\<open>include/i4b_controller.h\<close>, and the management
  routines of \<^verbatim>\<open>layer4/i4b_l4mgmt.c\<close>: call descriptor ids, allocation of descriptors and of
  B-channels, lookup, and the translation of causes.
\<close>

section \<open>Data\<close>

type_synonym cstring = "u8 list"  \<comment> \<open>a C string without its terminating zero\<close>

record i4b_src_telno =
  src_ton :: u8
  src_scr_ind :: u8
  src_prs_ind :: u8
  src_telno :: cstring
  src_subaddr :: cstring

text \<open>
  The call descriptor. A pipe is its index in the softc, timers (\<open>callout\<close>) are the pending delay
  in seconds, \<open>cd_dst_telno_ptr\<close> is an offset into \<open>cd_dst_telno\<close>; a date is the list of its valid
  octets. Not represented: the fields that only the CAPI interface, the tone generator's wave
  position, and the decoding of charging information use.
\<close>

datatype bprot = BPROT_DISABLE | BPROT_NONE_VOD | BPROT_RHDLC | BPROT_RHDLC_DOV | BPROT_NONE | BPROT_NONE_3_1_KHZ

record msg_shorthold =
  shorthold_algorithm :: int
  unitlen_time :: int
  idle_time :: int
  earlyhup_time :: int

record call_desc =
  cd_cdid :: u32
  cd_pipe :: "nat option"
  cd_cr :: u32
  cd_channel_id :: int
  cd_channel_bprot :: bprot
  cd_channel_bsubprot :: nat
  cd_driver_type :: nat
  cd_driver_unit :: nat
  cd_driver_type_copy :: nat
  cd_driver_unit_copy :: nat
  cd_cause_in :: u32
  cd_cause_out :: u32
  cd_call_state :: u8
  cd_dst_telno :: cstring
  cd_dst_telno_ptr :: nat
  cd_dst_telno_part :: cstring
  cd_dst_telno_early :: cstring
  cd_dst_subaddr :: cstring
  cd_src :: "i4b_src_telno \<times> i4b_src_telno"
  cd_dst_ton :: u8
  cd_state :: nat
  cd_status_enquiry_timeout :: u8
  cd_ai_type :: nat
  cd_ai_ptr :: nat
  cd_not_end_to_end_digital :: bool
  cd_is_sms :: bool
  cd_channel_allocated :: bool
  cd_dir_incoming :: bool
  cd_need_release :: bool
  cd_peer_responded :: bool
  cd_want_late_inband :: bool
  cd_sending_complete :: bool
  cd_b_link_want_active :: bool
  cd_call_is_on_hold :: bool
  cd_call_is_retrieving :: bool
  cd_received_src_telno_1 :: bool
  cd_received_src_telno_2 :: bool
  cd_setup_interleave :: u8
  cd_li_cdid :: u32
  cd_li_data_ptr :: "li_ptr option"
  cd_tone_gen_state :: u8
  cd_connect_ind_count :: u16
  cd_set_state_callout :: "nat option"
  cd_idle_callout :: "int option"
  cd_idle_state :: nat
  cd_connect_time :: int
  cd_last_active_time :: int
  cd_shorthold_data :: msg_shorthold
  cd_aocd_flag :: bool
  cd_units :: int
  cd_units_type :: int
  cd_cunits :: int
  cd_display :: cstring
  cd_idate_time :: "u8 list"
  cd_odate_time :: "u8 list"
  cd_keypad :: cstring
  cd_user_user :: cstring

definition src_zero :: i4b_src_telno where
  "src_zero = \<lparr>src_ton = 0, src_scr_ind = 0, src_prs_ind = 0, src_telno = [], src_subaddr = []\<rparr>"

text \<open>\<open>bzero(cd, sizeof( *cd ))\<close>.\<close>

definition cd_zero :: call_desc where
  "cd_zero = \<lparr>cd_cdid = 0, cd_pipe = None, cd_cr = 0, cd_channel_id = 0, cd_channel_bprot = BPROT_DISABLE,
     cd_channel_bsubprot = 0, cd_driver_type = 0, cd_driver_unit = 0, cd_driver_type_copy = 0,
     cd_driver_unit_copy = 0, cd_cause_in = 0, cd_cause_out = 0, cd_call_state = 0,
     cd_dst_telno = [], cd_dst_telno_ptr = 0, cd_dst_telno_part = [], cd_dst_telno_early = [],
     cd_dst_subaddr = [], cd_src = (src_zero, src_zero), cd_dst_ton = 0, cd_state = 0,
     cd_status_enquiry_timeout = 0, cd_ai_type = 0, cd_ai_ptr = 0, cd_not_end_to_end_digital = False,
     cd_is_sms = False, cd_channel_allocated = False, cd_dir_incoming = False, cd_need_release = False,
     cd_peer_responded = False, cd_want_late_inband = False, cd_sending_complete = False,
     cd_b_link_want_active = False, cd_call_is_on_hold = False, cd_call_is_retrieving = False,
     cd_received_src_telno_1 = False, cd_received_src_telno_2 = False, cd_setup_interleave = 0,
     cd_li_cdid = 0, cd_li_data_ptr = None, cd_tone_gen_state = 0, cd_connect_ind_count = 0,
     cd_set_state_callout = None, cd_idle_callout = None, cd_idle_state = 0,
     cd_connect_time = 0, cd_last_active_time = 0,
     cd_shorthold_data = \<lparr>shorthold_algorithm = 0, unitlen_time = 0, idle_time = 0, earlyhup_time = 0\<rparr>,
     cd_aocd_flag = False, cd_units = 0, cd_units_type = 0, cd_cunits = 0, cd_display = [], cd_idate_time = [],
     cd_odate_time = [], cd_keypad = [], cd_user_user = []\<rparr>"

text \<open>
  The controller: its unit, the counters of \<open>get_cdid\<close>, the descriptor array, the channel
  utilization bits (one per channel), and the line interconnect state all controllers share.
\<close>

record cntl =
  cn_unit :: u8
  N_cdid_count :: u32
  N_cdid_end :: u32
  N_call_desc :: "call_desc list"
  N_channel_utilization :: "bool list"
  L1_channel_end :: nat
  cn_li :: li_state

definition cd_at :: "'a cntl_scheme \<Rightarrow> nat \<Rightarrow> call_desc" where
  "cd_at s i = N_call_desc s ! i"

definition cd_upd :: "nat \<Rightarrow> (call_desc \<Rightarrow> call_desc) \<Rightarrow> 'a cntl_scheme \<Rightarrow> 'a cntl_scheme" where
  "cd_upd i f s = s\<lparr>N_call_desc := (N_call_desc s)[i := f (N_call_desc s ! i)]\<rparr>"

definition CDID_UNUSED :: u32 where
  "CDID_UNUSED = 0"

definition CDID_REF_MAX :: u32 where
  "CDID_REF_MAX = 0x100"

definition CHAN_ANY :: int where
  "CHAN_ANY = - 1"

definition CHAN_NOT_ANY :: int where
  "CHAN_NOT_ANY = - 2"

definition MAKE_CDID :: "u8 \<Rightarrow> u32 \<Rightarrow> u32" where
  "MAKE_CDID unit ref = (ucast unit mod 64) OR (ref * 64)"

definition CDID2CALLREFERENCE :: "u32 \<Rightarrow> u32" where
  "CDID2CALLREFERENCE cdid = cdid div 64"

section \<open>Call descriptor ids\<close>

text \<open>The loop of \<open>get_cdid\<close> from the label \<open>again\<close>; \<open>t\<close> is \<open>timeout\<close>. Returns the counter and the id.\<close>

function get_cdid_loop :: "u8 \<Rightarrow> u32 \<Rightarrow> u32 list \<Rightarrow> nat \<Rightarrow> u32 \<Rightarrow> u32 \<times> u32" where
  "get_cdid_loop unit ende used t count =
     (let count1 = count + 1; wrap = (count1 = 0 \<or> ende \<le> count1)
      in if wrap \<and> t = 0 then (count1, CDID_UNUSED)
         else let t2 = (if wrap then t - 1 else t); count2 = (if wrap then 1 else count1);
                  new_cdid = MAKE_CDID unit count2
              in if new_cdid \<in> set used then get_cdid_loop unit ende used t2 count2
                 else (count2, new_cdid))"
  by pat_completeness auto
termination
proof (relation "(\<lambda>(unit, ende, used, t, count). t) <*mlex*> measure (\<lambda>(unit, ende, used, t, count). unat ende - unat count)")
  show "wf ((\<lambda>(unit :: u8, ende :: u32, used :: u32 list, t, count :: u32). t) <*mlex*>
      measure (\<lambda>(unit, ende, used, t, count). unat ende - unat count))"
    by (simp add: wf_mlex)
next
  fix unit :: u8 and ende count count1 count2 new_cdid :: u32 and used :: "u32 list" and t t2 :: nat and wrap
  assume a: "count1 = count + 1" "wrap = (count1 = 0 \<or> ende \<le> count1)" "\<not> (wrap \<and> t = 0)"
    "t2 = (if wrap then t - 1 else t)" "count2 = (if wrap then 1 else count1)"
  show "((unit, ende, used, t2, count2), (unit, ende, used, t, count))
    \<in> (\<lambda>(unit, ende, used, t, count). t) <*mlex*> measure (\<lambda>(unit, ende, used, t, count). unat ende - unat count)"
  proof (cases wrap)
    case True
    then show ?thesis
      using a by (simp add: mlex_iff)
  next
    case False
    then have "unat count1 = Suc (unat count)" "unat count1 < unat ende"
      using a unatSuc [of count] by (auto simp: word_less_nat_alt not_le add.commute)
    then show ?thesis
      using a False by (simp add: mlex_iff)
  qed
qed

declare get_cdid_loop.simps [simp del]

definition get_cdid :: "'a cntl_scheme \<Rightarrow> 'a cntl_scheme \<times> u32" where
  "get_cdid s =
     (let ende = (if CDID_REF_MAX < N_cdid_end s then CDID_REF_MAX else N_cdid_end s)
      in case get_cdid_loop (cn_unit s) ende (map cd_cdid (N_call_desc s)) 1 (N_cdid_count s) of
           (count, new_cdid) \<Rightarrow> (s\<lparr>N_cdid_end := ende, N_cdid_count := count\<rparr>, new_cdid))"

section \<open>Descriptors\<close>

definition i4b_allocate_cd :: "'a cntl_scheme \<Rightarrow> 'a cntl_scheme \<times> nat option" where
  "i4b_allocate_cd s =
     (case find_index (\<lambda>cd. cd_cdid cd = CDID_UNUSED) (N_call_desc s) of
        None \<Rightarrow> (s, None)
      | Some i \<Rightarrow>
          case get_cdid (cd_upd i (\<lambda>_. cd_zero) s) of
            (s, new_cdid) \<Rightarrow> let s = cd_upd i (\<lambda>cd. cd\<lparr>cd_cdid := new_cdid\<rparr>) s
                       in if new_cdid = CDID_UNUSED then (s, None) else (s, Some i))"

definition i4b_free_cd :: "nat \<Rightarrow> 'a cntl_scheme \<Rightarrow> 'a cntl_scheme" where
  "i4b_free_cd i = cd_upd i (\<lambda>cd. cd\<lparr>cd_cdid := CDID_UNUSED, cd_idle_callout := None, cd_set_state_callout := None\<rparr>)"

definition cd_set_appl_interface :: "nat \<Rightarrow> nat \<Rightarrow> nat \<Rightarrow> 'a cntl_scheme \<Rightarrow> 'a cntl_scheme" where
  "cd_set_appl_interface i ty p = cd_upd i (\<lambda>cd. cd\<lparr>cd_ai_type := ty, cd_ai_ptr := p\<rparr>)"

definition cd_by_cdid :: "'a cntl_scheme \<Rightarrow> u32 \<Rightarrow> nat option" where
  "cd_by_cdid s cdid =
     (if cdid = CDID_UNUSED then None else find_index (\<lambda>cd. cd_cdid cd = cdid) (N_call_desc s))"

definition cd_by_unitcr :: "'a cntl_scheme \<Rightarrow> nat \<Rightarrow> nat \<Rightarrow> u32 \<Rightarrow> nat option" where
  "cd_by_unitcr s pipe pipe_adapter cr =
     find_index (\<lambda>cd. cd_cdid cd \<noteq> CDID_UNUSED \<and> cd_cr cd = cr \<and>
                      (cd_pipe cd = Some pipe_adapter \<or> cd_pipe cd = Some pipe)) (N_call_desc s)"

section \<open>Channels\<close>

definition cd_allocate_li :: "nat \<Rightarrow> 'a cntl_scheme \<Rightarrow> 'a cntl_scheme" where
  "cd_allocate_li i s =
     (if cd_li_cdid (cd_at s i) \<noteq> 0 \<and> cd_li_data_ptr (cd_at s i) = None
      then case i4b_slot_li_alloc (cd_cdid (cd_at s i)) (cd_li_cdid (cd_at s i)) (cn_li s) of
             (li, p) \<Rightarrow> cd_upd i (\<lambda>cd. cd\<lparr>cd_li_data_ptr := p\<rparr>) (s\<lparr>cn_li := li\<rparr>)
      else s)"

definition channel_in_range :: "'a cntl_scheme \<Rightarrow> int \<Rightarrow> bool" where
  "channel_in_range s c \<longleftrightarrow> 0 \<le> c \<and> c < int (L1_channel_end s)"

text \<open>The first channel whose utilization bit is clear.\<close>

definition free_channel :: "'a cntl_scheme \<Rightarrow> nat option" where
  "free_channel s = find_index Not (take (L1_channel_end s) (N_channel_utilization s))"

definition take_channel :: "nat \<Rightarrow> nat \<Rightarrow> 'a cntl_scheme \<Rightarrow> 'a cntl_scheme" where
  "take_channel i c s =
     cd_upd i (\<lambda>cd. cd\<lparr>cd_channel_id := int c, cd_channel_allocated := True\<rparr>)
       (s\<lparr>N_channel_utilization := (N_channel_utilization s)[c := True]\<rparr>)"

definition cd_allocate_channel :: "nat \<Rightarrow> 'a cntl_scheme \<Rightarrow> 'a cntl_scheme" where
  "cd_allocate_channel i s0 =
     (let s = cd_allocate_li i s0; ch = cd_channel_id (cd_at s i);
          not_found = cd_upd i (\<lambda>cd. cd\<lparr>cd_channel_id := CHAN_ANY\<rparr>) s
      in if cd_channel_allocated (cd_at s i) then s
         else if channel_in_range s ch
         then (if N_channel_utilization s ! nat ch then not_found else take_channel i (nat ch) s)
         else if ch = CHAN_NOT_ANY then cd_upd i (\<lambda>cd. cd\<lparr>cd_channel_allocated := True\<rparr>) s
         else case free_channel s of Some c \<Rightarrow> take_channel i c s | None \<Rightarrow> not_found)"

definition cd_free_li :: "nat \<Rightarrow> 'a cntl_scheme \<Rightarrow> 'a cntl_scheme" where
  "cd_free_li i s =
     (case cd_li_data_ptr (cd_at s i) of
        None \<Rightarrow> s
      | Some p \<Rightarrow> cd_upd i (\<lambda>cd. cd\<lparr>cd_li_data_ptr := None\<rparr>) (s\<lparr>cn_li := i4b_slot_li_free p (cn_li s)\<rparr>))"

definition cd_free_channel :: "nat \<Rightarrow> 'a cntl_scheme \<Rightarrow> 'a cntl_scheme" where
  "cd_free_channel i s0 =
     (let s = cd_free_li i s0; ch = cd_channel_id (cd_at s i)
      in if cd_channel_allocated (cd_at s i)
         then cd_upd i (\<lambda>cd. cd\<lparr>cd_channel_id := CHAN_ANY, cd_channel_allocated := False\<rparr>)
                (if channel_in_range s ch
                 then s\<lparr>N_channel_utilization := (N_channel_utilization s)[nat ch := False]\<rparr> else s)
         else s)"

section \<open>Causes\<close>

text \<open>\<open>I4B_CAUSES_Q850_CONV\<close>: the Q.850 cause of each protocol-independent cause.\<close>

definition I4B_CAUSES_Q850_CONV :: "u8 list" where
  "I4B_CAUSES_Q850_CONV = [0x10, 0x11, 0x22, 0x58, 0x15, 0x1B, 0x29, 0x11, 0x11, 0x11]"

text \<open>\<open>None\<close> is the \<open>panic\<close> on an unknown cause type.\<close>

definition i4b_make_q850_cause :: "u32 \<Rightarrow> u8 option" where
  "i4b_make_q850_cause cause =
     (let ret = u8_of_u32 (cause AND 0xFF); ty = drop_bit 8 cause AND 0xFF
      in if ty = 0 then Some (ret AND 0x7F)
         else if ty = 1 then Some (I4B_CAUSES_Q850_CONV ! (if 10 \<le> ret then 0 else unat ret))
         else None)"

section \<open>Identifier allocation\<close>

text \<open>
  The contract of a routine that picks an unused identifier: what it returns is valid and not
  taken, and it gives up only when all identifiers are taken. Its clients then know that
  allocation succeeds as long as fewer identifiers are taken than exist.
\<close>

locale id_allocator =
  fixes ids :: "'s \<Rightarrow> 'i set" and taken :: "'s \<Rightarrow> 'i set" and alloc :: "'s \<Rightarrow> 'i option"
  assumes finite_ids: "finite (ids s)"
    and alloc_fresh: "alloc s = Some i \<Longrightarrow> i \<in> ids s \<and> i \<notin> taken s"
    and alloc_full: "alloc s = None \<Longrightarrow> ids s \<subseteq> taken s"
begin

lemma alloc_succeeds:
  assumes "finite (taken s)" "card (taken s) < card (ids s)"
  shows "\<exists>i. alloc s = Some i"
proof (cases "alloc s")
  case None
  then have "card (ids s) \<le> card (taken s)"
    using alloc_full assms(1) card_mono by blast
  then show ?thesis
    using assms(2) by simp
qed simp

end

lemma u32_ge_1: "x \<noteq> 0 \<Longrightarrow> 1 \<le> (x :: u32)"
  by (simp add: word_le_nat_alt unat_gt_0 Suc_le_eq)

lemma get_cdid_loop_sound:
  assumes "get_cdid_loop unit ende used t count = (c, new_cdid)" "new_cdid \<noteq> 0" "1 < ende"
  shows "new_cdid \<notin> set used \<and> new_cdid = MAKE_CDID unit c \<and> 1 \<le> c \<and> c < ende"
  using assms
proof (induction unit ende used t count rule: get_cdid_loop.induct)
  case (1 unit ende used t count)
  define c2 where "c2 = (if count + 1 = 0 \<or> ende \<le> count + 1 then 1 else count + 1)"
  have r: "\<not> ((count + 1 = 0 \<or> ende \<le> count + 1) \<and> t = 0)"
    using 1(2,3) by (auto simp: get_cdid_loop.simps [of unit ende used t count] CDID_UNUSED_def)
  have c2: "1 \<le> c2 \<and> c2 < ende"
    using 1(4) by (auto simp: c2_def not_le u32_ge_1)
  show ?case
  proof (cases "MAKE_CDID unit c2 \<in> set used")
    case True
    then have "get_cdid_loop unit ende used (if count + 1 = 0 \<or> ende \<le> count + 1 then t - 1 else t) c2 = (c, new_cdid)"
      using 1(2) r by (simp add: get_cdid_loop.simps [of unit ende used t count] Let_def c2_def split: if_splits)
    then show ?thesis
      by (rule 1(1) [OF refl refl r refl refl refl True [unfolded c2_def] _ 1(3,4), folded c2_def])
  next
    case False
    then show ?thesis
      using 1(2) r c2 by (auto simp: get_cdid_loop.simps [of unit ende used t count] Let_def c2_def split: if_splits)
  qed
qed

text \<open>When the search gives up, every id after the counter was taken, and with a wrap left every id.\<close>

lemma get_cdid_loop_full:
  assumes "get_cdid_loop unit ende used t count = (c, 0)" "\<And>k. 1 \<le> k \<Longrightarrow> k < ende \<Longrightarrow> MAKE_CDID unit k \<noteq> 0"
    and "1 < ende" "1 \<le> k" "k < ende" "t = 0 \<longrightarrow> count < k"
  shows "MAKE_CDID unit k \<in> set used"
  using assms
proof (induction unit ende used t count rule: get_cdid_loop.induct)
  case (1 unit ende used t count)
  define wrap where "wrap \<longleftrightarrow> count + 1 = 0 \<or> ende \<le> count + 1"
  define c2 where "c2 = (if wrap then 1 else count + 1)"
  define t2 where "t2 = (if wrap then t - 1 else t)"
  have c2: "1 \<le> c2 \<and> c2 < ende"
    using 1(4) by (auto simp: c2_def wrap_def not_le u32_ge_1)
  have suc: "count < k' \<Longrightarrow> k' = count + 1 \<or> count + 1 < k'" for k'
    by (metis inc_le order_le_less)
  show ?case
  proof (cases "wrap \<and> t = 0")
    case True
    then have k: "count < k" "k < ende" and w: "count + 1 = 0 \<or> ende \<le> count + 1"
      using 1(6,7) by (auto simp: wrap_def)
    have "\<not> ende \<le> count + 1"
      using k inc_le [of count k] by (meson leD order_le_less_trans)
    moreover have "count + 1 \<noteq> 0"
      using k(1) by (auto simp: add_eq_0_iff2)
    ultimately show ?thesis
      using w by blast
  next
    case False
    then have u: "MAKE_CDID unit c2 \<in> set used" "get_cdid_loop unit ende used t2 c2 = (c, 0)"
      using 1(2) 1(3) [of c2] c2 by (auto simp: get_cdid_loop.simps [of unit ende used t count] Let_def c2_def t2_def wrap_def split: if_splits)
    note IH = 1(1) [OF refl refl False [unfolded wrap_def] refl refl refl, folded wrap_def, folded c2_def t2_def, OF u 1(3) 1(4-6)]
    show ?thesis
    proof (cases "t2 = 0 \<and> \<not> c2 < k")
      case True
      then have "k = c2"
        using 1(5,7) suc [of k] by (auto simp: t2_def c2_def not_less split: if_splits)
      then show ?thesis
        using u(1) by simp
    next
      case False
      then show ?thesis
        using IH by blast
    qed
  qed
qed


lemma MAKE_CDID_unat:
  assumes "k < 0x100"
  shows "unat (MAKE_CDID unit k) = unat unit mod 64 + 64 * unat k"
proof -
  have k: "unat k < 256"
    using assms by (simp add: word_less_nat_alt)
  have u: "unat (ucast unit mod 64 :: u32) = unat unit mod 64"
    by (simp add: unat_mod unsigned_ucast_eq take_bit_eq_mod mod_mod_cancel)
  have m: "unat (k * 64) = 64 * unat k"
    using k by (simp add: unat_word_ariths(2))
  have "(ucast unit mod 64 :: u32) AND (k * 64) = 0"
  proof (rule bit_word_eqI)
    fix n assume "n < LENGTH(32)"
    have "bit (ucast unit mod 64 :: u32) n \<longleftrightarrow> n < 6 \<and> bit (ucast unit :: u32) n"
      by (simp add: bit_take_bit_iff flip: take_bit_eq_mod [of 6, simplified])
    moreover have "bit (k * 64) n \<longrightarrow> 6 \<le> n"
      by (simp add: bit_push_bit_iff flip: push_bit_eq_mult [of 6, simplified])
    ultimately show "bit ((ucast unit mod 64 :: u32) AND (k * 64)) n = bit (0 :: u32) n"
      by (auto simp: bit_simps)
  qed
  then have "MAKE_CDID unit k = ucast unit mod 64 + k * 64"
    unfolding MAKE_CDID_def by (rule disjunctive_add_eq_or [symmetric])
  then show ?thesis
    using k by (simp add: unat_word_ariths(1) u m)
qed


definition cdid_space :: "u8 \<Rightarrow> u32 \<Rightarrow> u32 set" where
  "cdid_space unit ende = MAKE_CDID unit ` {1..<ende}"

lemma MAKE_CDID_inj: "inj_on (MAKE_CDID unit) {k. k < 0x100}"
proof (rule inj_onI)
  fix j k
  assume "j \<in> {k. k < 0x100}" "k \<in> {k. k < 0x100}" "MAKE_CDID unit j = MAKE_CDID unit k"
  then have "unat j = unat k"
    using MAKE_CDID_unat [of j unit] MAKE_CDID_unat [of k unit] by simp
  then show "j = k"
    by (simp add: word_unat_eq_iff)
qed

lemma MAKE_CDID_nonzero: "1 \<le> k \<Longrightarrow> k < 0x100 \<Longrightarrow> MAKE_CDID unit k \<noteq> 0"
  using MAKE_CDID_unat [of k unit] by (auto simp: word_le_nat_alt)

lemma card_cdid_space:
  assumes "1 < ende" "ende \<le> 0x100"
  shows "card (cdid_space unit ende) = unat ende - 1"
proof -
  have "inj_on (MAKE_CDID unit) {1..<ende}"
    by (rule inj_on_subset [OF MAKE_CDID_inj]) (use assms(2) in auto)
  then have "card (cdid_space unit ende) = card {1..<ende}"
    by (simp add: cdid_space_def card_image)
  also have "\<dots> = card (unat ` {1..<ende})"
    by (rule card_image [symmetric]) (auto intro: inj_onI simp: word_unat_eq_iff)
  also have "unat ` {1..<ende} = {1..<unat ende}"
  proof (intro set_eqI iffI)
    fix n assume "n \<in> {1..<unat ende}"
    moreover from this have "unat (word_of_nat n :: u32) = n"
      using unsigned_less [of ende, where ?'a = nat] by (simp add: unat_of_nat)
    ultimately show "n \<in> unat ` {1..<ende}"
      by (intro image_eqI [of _ _ "word_of_nat n"]) (auto simp: word_le_nat_alt word_less_nat_alt)
  qed (auto simp: word_le_nat_alt word_less_nat_alt)
  finally show ?thesis
    by simp
qed

text \<open>The id search of \<open>get_cdid\<close> as a function of the unit, the end of the range, the ids in use and the counter.\<close>

definition pick_cdid :: "u8 \<times> u32 \<times> u32 list \<times> u32 \<Rightarrow> u32 option" where
  "pick_cdid = (\<lambda>(unit, ende, used, count).
     if 1 < ende \<and> ende \<le> CDID_REF_MAX
     then (let r = snd (get_cdid_loop unit ende used 1 count) in if r = CDID_UNUSED then None else Some r)
     else None)"

interpretation cdids: id_allocator
  "\<lambda>(unit, ende, used, count). if 1 < ende \<and> ende \<le> CDID_REF_MAX then cdid_space unit ende else {}"
  "\<lambda>(unit, ende, used, count). set used" pick_cdid
proof (unfold_locales, goal_cases)
  case (1 s)
  then show ?case
    by (auto simp: cdid_space_def split: prod.splits)
next
  case (2 s i)
  then obtain unit ende used count c where s: "s = (unit, ende, used, count)" "1 < ende" "ende \<le> 0x100"
    "get_cdid_loop unit ende used 1 count = (c, i)" "i \<noteq> 0"
    by (auto simp: pick_cdid_def Let_def CDID_UNUSED_def CDID_REF_MAX_def split: prod.splits if_splits)
      (metis prod.collapse)
  then show ?case
    using get_cdid_loop_sound [of unit ende used 1 count c i] by (auto simp: cdid_space_def CDID_REF_MAX_def)
next
  case (3 s)
  obtain unit ende used count where s: "s = (unit, ende, used, count)"
    by (metis prod_cases4)
  show ?case
  proof (cases "1 < ende \<and> ende \<le> 0x100")
    case True
    then obtain c where "get_cdid_loop unit ende used 1 count = (c, 0)"
      using 3 by (auto simp: s pick_cdid_def Let_def CDID_UNUSED_def CDID_REF_MAX_def split: if_splits) (metis prod.collapse)
    moreover have "k < 0x100" if "k < ende" for k
      using that True by (meson order_less_le_trans)
    ultimately show ?thesis
      using True get_cdid_loop_full [of unit ende used 1 count c] MAKE_CDID_nonzero
      by (auto simp: s cdid_space_def CDID_REF_MAX_def)
  qed (auto simp: s CDID_REF_MAX_def)
qed


section \<open>Updates of one descriptor\<close>

lemma cd_upd_simps [simp]:
  "length (N_call_desc (cd_upd i f s)) = length (N_call_desc s)"
  "N_channel_utilization (cd_upd i f s) = N_channel_utilization s" "L1_channel_end (cd_upd i f s) = L1_channel_end s"
  "cn_li (cd_upd i f s) = cn_li s" "cn_unit (cd_upd i f s) = cn_unit s" "N_cdid_end (cd_upd i f s) = N_cdid_end s"
  "N_cdid_count (cd_upd i f s) = N_cdid_count s"
  by (simp_all add: cd_upd_def)

lemma cd_at_upd: "i < length (N_call_desc s) \<Longrightarrow> cd_at (cd_upd i f s) j = (if j = i then f (cd_at s i) else cd_at s j)"
  by (simp add: cd_at_def cd_upd_def nth_list_update)

lemma cd_at_upd_same [simp]: "i < length (N_call_desc s) \<Longrightarrow> cd_at (cd_upd i f s) i = f (cd_at s i)"
  by (simp add: cd_at_upd)

lemma cd_at_upd_other [simp]: "j \<noteq> i \<Longrightarrow> cd_at (cd_upd i f s) j = cd_at s j"
  by (simp add: cd_at_def cd_upd_def)

lemma cd_at_cntl_update [simp]:
  "cd_at (s\<lparr>N_channel_utilization := u\<rparr>) = cd_at s" "cd_at (s\<lparr>cn_li := l\<rparr>) = cd_at s"
  "cd_at (s\<lparr>N_cdid_end := e, N_cdid_count := c\<rparr>) = cd_at s"
  by (auto simp: cd_at_def)

section \<open>Allocation of descriptors\<close>

definition unique_cdids :: "'a cntl_scheme \<Rightarrow> bool" where
  "unique_cdids s \<longleftrightarrow> (\<forall>i<length (N_call_desc s). \<forall>j<length (N_call_desc s).
     cd_cdid (cd_at s i) = cd_cdid (cd_at s j) \<longrightarrow> cd_cdid (cd_at s i) \<noteq> CDID_UNUSED \<longrightarrow> i = j)"

definition wf_cdid_range :: "'a cntl_scheme \<Rightarrow> bool" where
  "wf_cdid_range s \<longleftrightarrow> 1 < N_cdid_end s \<and> N_cdid_end s \<le> CDID_REF_MAX"

lemma find_index_None: "find_index P xs = None \<longleftrightarrow> (\<forall>x\<in>set xs. \<not> P x)"
  by (induction xs) auto

lemma get_cdid_pick:
  assumes "wf_cdid_range s" "get_cdid s = (s', new_cdid)"
  shows "pick_cdid (cn_unit s, N_cdid_end s, map cd_cdid (N_call_desc s), N_cdid_count s)
      = (if new_cdid = CDID_UNUSED then None else Some new_cdid)"
    and "s' = s\<lparr>N_cdid_end := N_cdid_end s', N_cdid_count := N_cdid_count s'\<rparr>" "N_cdid_end s' = N_cdid_end s"
proof -
  have e: "(if CDID_REF_MAX < N_cdid_end s then CDID_REF_MAX else N_cdid_end s) = N_cdid_end s"
    using assms(1) by (simp add: wf_cdid_range_def leD)
  obtain c where c: "get_cdid_loop (cn_unit s) (N_cdid_end s) (map cd_cdid (N_call_desc s)) 1 (N_cdid_count s) = (c, new_cdid)"
    and s': "s' = s\<lparr>N_cdid_end := N_cdid_end s, N_cdid_count := c\<rparr>"
    using assms(2) by (auto simp: get_cdid_def e Let_def split: prod.splits)
  show "pick_cdid (cn_unit s, N_cdid_end s, map cd_cdid (N_call_desc s), N_cdid_count s)
      = (if new_cdid = CDID_UNUSED then None else Some new_cdid)"
    using assms(1) c by (simp add: pick_cdid_def wf_cdid_range_def)
  show "s' = s\<lparr>N_cdid_end := N_cdid_end s', N_cdid_count := N_cdid_count s'\<rparr>" "N_cdid_end s' = N_cdid_end s"
    by (simp_all add: s')
qed

lemma allocate_cd_effect:
  assumes "i4b_allocate_cd s = (s', Some i)" "wf_cdid_range s"
  shows "i < length (N_call_desc s)" "cd_cdid (cd_at s i) = CDID_UNUSED"
    "\<exists>new_cdid. new_cdid \<noteq> CDID_UNUSED \<and> cd_at s' i = cd_zero\<lparr>cd_cdid := new_cdid\<rparr> \<and>
       (\<forall>j<length (N_call_desc s). j \<noteq> i \<longrightarrow> cd_cdid (cd_at s j) \<noteq> new_cdid)"
    "\<And>j. j \<noteq> i \<Longrightarrow> cd_at s' j = cd_at s j" "length (N_call_desc s') = length (N_call_desc s)"
    "N_channel_utilization s' = N_channel_utilization s" "L1_channel_end s' = L1_channel_end s"
    "cn_li s' = cn_li s" "wf_cdid_range s'"
proof -
  obtain s1 new_cdid where f: "find_index (\<lambda>cd. cd_cdid cd = CDID_UNUSED) (N_call_desc s) = Some i"
    and g: "get_cdid (cd_upd i (\<lambda>_. cd_zero) s) = (s1, new_cdid)" and s': "s' = cd_upd i (\<lambda>cd. cd\<lparr>cd_cdid := new_cdid\<rparr>) s1"
    and nz: "new_cdid \<noteq> CDID_UNUSED"
    using assms(1) by (auto simp: i4b_allocate_cd_def Let_def split: option.splits prod.splits if_splits)
  have wf: "wf_cdid_range (cd_upd i (\<lambda>_. cd_zero) s)"
    using assms(2) by (simp add: wf_cdid_range_def)
  note p = get_cdid_pick [OF wf g]
  show i: "i < length (N_call_desc s)" "cd_cdid (cd_at s i) = CDID_UNUSED"
    using find_index_Some [OF f] by (auto simp: cd_at_def)
  have at1: "cd_at s1 = cd_at (cd_upd i (\<lambda>_. cd_zero) s)" and len1: "length (N_call_desc s1) = length (N_call_desc s)"
    by (subst p(2), simp)+
  have "new_cdid \<notin> set (map cd_cdid (N_call_desc (cd_upd i (\<lambda>_. cd_zero) s)))"
    using cdids.alloc_fresh [OF p(1) [unfolded if_not_P [OF nz]]] by simp
  then have fresh: "cd_cdid (cd_at s1 j) \<noteq> new_cdid" if "j < length (N_call_desc s)" for j
    using that nth_mem [of j "N_call_desc (cd_upd i (\<lambda>_. cd_zero) s)"] by (auto simp: at1 cd_at_def)
  show "\<exists>new_cdid. new_cdid \<noteq> CDID_UNUSED \<and> cd_at s' i = cd_zero\<lparr>cd_cdid := new_cdid\<rparr> \<and>
       (\<forall>j<length (N_call_desc s). j \<noteq> i \<longrightarrow> cd_cdid (cd_at s j) \<noteq> new_cdid)"
  proof (intro exI conjI allI impI)
    show "cd_at s' i = cd_zero\<lparr>cd_cdid := new_cdid\<rparr>"
      using i(1) len1 by (simp add: s' at1)
    show "cd_cdid (cd_at s j) \<noteq> new_cdid" if "j < length (N_call_desc s)" "j \<noteq> i" for j
      using fresh [OF that(1)] that(2) by (simp add: at1)
  qed (fact nz)
  show "\<And>j. j \<noteq> i \<Longrightarrow> cd_at s' j = cd_at s j"
    by (simp add: s' at1)
  show "length (N_call_desc s') = length (N_call_desc s)"
    by (simp add: s' len1)
  show "N_channel_utilization s' = N_channel_utilization s" "L1_channel_end s' = L1_channel_end s" "cn_li s' = cn_li s"
    unfolding s' by (simp_all, (subst p(2), simp)+)
  show "wf_cdid_range s'"
    using assms(2) p(3) by (simp add: s' wf_cdid_range_def)
qed


definition sample_cntl :: "nat \<Rightarrow> cntl" where
  "sample_cntl n = \<lparr>cn_unit = 3, N_cdid_count = 0, N_cdid_end = 0x7F, N_call_desc = replicate n cd_zero,
     N_channel_utilization = True # replicate 63 False, L1_channel_end = 3, cn_li = li_sample\<rparr>"

lemma cd_zero_cdid [simp]: "cd_cdid cd_zero = CDID_UNUSED" "cd_channel_allocated cd_zero = False" "cd_pipe cd_zero = None"
  "cd_li_data_ptr cd_zero = None" "cd_li_cdid cd_zero = 0" "cd_channel_id cd_zero = 0"
  by (simp_all add: cd_zero_def CDID_UNUSED_def)

lemma sample_cntl_simps [simp]: "length (N_call_desc (sample_cntl n)) = n" "i < n \<Longrightarrow> cd_at (sample_cntl n) i = cd_zero"
  "wf_cdid_range (sample_cntl n)"
  by (simp_all add: sample_cntl_def cd_at_def wf_cdid_range_def CDID_REF_MAX_def)


lemma sample_alloc: "snd (i4b_allocate_cd (sample_cntl (Suc 0))) = Some 0"
  by (simp add: i4b_allocate_cd_def sample_cntl_def get_cdid_def cd_upd_def get_cdid_loop.simps [of "3" "0x7F" "[0]" "Suc 0" "0"]
      MAKE_CDID_def CDID_UNUSED_def CDID_REF_MAX_def cd_zero_def Let_def)


text \<open>
  allocation cannot fail for want of an id: if some descriptor is unused and fewer descriptors
  exist than ids, a descriptor is returned. With DSS1's 126 ids that covers every configuration
  with at most 125 descriptors.
\<close>

theorem allocate_cd_succeeds:
  assumes "wf_cdid_range s" and "length (N_call_desc s) < unat (N_cdid_end s) - 1"
    and "\<exists>i<length (N_call_desc s). cd_cdid (cd_at s i) = CDID_UNUSED"
  shows "\<exists>s' i. i4b_allocate_cd s = (s', Some i)"
proof -
  obtain i where i: "find_index (\<lambda>cd. cd_cdid cd = CDID_UNUSED) (N_call_desc s) = Some i"
    using assms(3) find_index_None [of "\<lambda>cd. cd_cdid cd = CDID_UNUSED" "N_call_desc s"]
    by (cases "find_index (\<lambda>cd. cd_cdid cd = CDID_UNUSED) (N_call_desc s)") (auto simp: cd_at_def)
  let ?s = "cd_upd i (\<lambda>_. cd_zero) s"
  let ?a = "(cn_unit ?s, N_cdid_end ?s, map cd_cdid (N_call_desc ?s), N_cdid_count ?s)"
  have wf: "wf_cdid_range ?s"
    using assms(1) by (simp add: wf_cdid_range_def)
  have "card (set (map cd_cdid (N_call_desc ?s))) \<le> length (N_call_desc s)"
    by (metis card_length cd_upd_simps(1) length_map)
  also have "\<dots> < card (cdid_space (cn_unit ?s) (N_cdid_end ?s))"
    using assms(1,2) by (simp add: wf_cdid_range_def card_cdid_space CDID_REF_MAX_def)
  finally obtain x where "pick_cdid ?a = Some x"
    using cdids.alloc_succeeds [of ?a] assms(1) by (auto simp: wf_cdid_range_def)
  moreover obtain s1 y where g: "get_cdid ?s = (s1, y)"
    by fastforce
  ultimately have "y \<noteq> CDID_UNUSED"
    using get_cdid_pick(1) [OF wf g] by auto
  then show ?thesis
    by (simp add: i4b_allocate_cd_def i g Let_def)
qed

theorem allocate_cd_succeeds_witness: "\<exists>s' i. i4b_allocate_cd (sample_cntl 2) = (s', Some i)"
  by (rule allocate_cd_succeeds) (auto intro: exI [of _ "0 :: nat"], simp add: sample_cntl_def)


section \<open>Channels are exclusive\<close>

text \<open>Descriptor \<open>i\<close> owns the hardware channel \<open>c\<close>.\<close>

definition owns_channel :: "'a cntl_scheme \<Rightarrow> nat \<Rightarrow> nat \<Rightarrow> bool" where
  "owns_channel s i c \<longleftrightarrow> i < length (N_call_desc s) \<and> cd_channel_allocated (cd_at s i) \<and>
     cd_channel_id (cd_at s i) = int c \<and> c < L1_channel_end s"

text \<open>
  A channel in use has its utilization bit set and at most one owner; a set bit other than the
  D-channel's belongs to a descriptor.
\<close>

definition chan_inv :: "'a cntl_scheme \<Rightarrow> bool" where
  "chan_inv s \<longleftrightarrow> L1_channel_end s \<le> length (N_channel_utilization s) \<and>
     (\<forall>i c. owns_channel s i c \<longrightarrow> N_channel_utilization s ! c) \<and>
     (\<forall>i j c. owns_channel s i c \<longrightarrow> owns_channel s j c \<longrightarrow> i = j) \<and>
     (\<forall>c < L1_channel_end s. N_channel_utilization s ! c \<longrightarrow> c = 0 \<or> (\<exists>i. owns_channel s i c))"

lemma chan_invD:
  assumes "chan_inv s"
  shows "L1_channel_end s \<le> length (N_channel_utilization s)"
    "owns_channel s i c \<Longrightarrow> N_channel_utilization s ! c" "owns_channel s i c \<Longrightarrow> owns_channel s j c \<Longrightarrow> i = j"
    "c < L1_channel_end s \<Longrightarrow> N_channel_utilization s ! c \<Longrightarrow> c \<noteq> 0 \<Longrightarrow> \<exists>i. owns_channel s i c"
  using assms unfolding chan_inv_def by blast+

text \<open>Steps that keep the channel fields of every descriptor and the bits.\<close>

definition same_channels :: "'a cntl_scheme \<Rightarrow> 'a cntl_scheme \<Rightarrow> bool" where
  "same_channels s s' \<longleftrightarrow> length (N_call_desc s') = length (N_call_desc s) \<and> L1_channel_end s' = L1_channel_end s \<and>
     N_channel_utilization s' = N_channel_utilization s \<and>
     (\<forall>i<length (N_call_desc s). cd_channel_allocated (cd_at s' i) = cd_channel_allocated (cd_at s i) \<and>
        (cd_channel_allocated (cd_at s i) \<longrightarrow> cd_channel_id (cd_at s' i) = cd_channel_id (cd_at s i)))"

lemma same_channels_owns: "same_channels s s' \<Longrightarrow> owns_channel s' i c = owns_channel s i c"
  by (auto simp: same_channels_def owns_channel_def)

lemma same_channels_inv: "same_channels s s' \<Longrightarrow> chan_inv s \<Longrightarrow> chan_inv s'"
  unfolding chan_inv_def using same_channels_owns [of s s'] by (auto simp: same_channels_def)

lemma same_channels_refl [simp]: "same_channels s s"
  by (simp add: same_channels_def)

lemma same_channels_trans: "same_channels s s1 \<Longrightarrow> same_channels s1 s2 \<Longrightarrow> same_channels s s2"
  by (simp add: same_channels_def)

lemma same_channels_upd:
  assumes "\<And>cd. cd_channel_allocated (f cd) = cd_channel_allocated cd"
    "\<And>cd. cd_channel_allocated cd \<Longrightarrow> cd_channel_id (f cd) = cd_channel_id cd"
  shows "same_channels s (cd_upd i f s)"
  using assms by (cases "i < length (N_call_desc s)") (simp_all add: same_channels_def cd_at_def cd_upd_def nth_list_update)

lemma same_channels_li [simp]: "same_channels s (s\<lparr>cn_li := l\<rparr>)"
  by (simp add: same_channels_def)

lemma same_channels_li_upd:
  "(\<And>cd. cd_channel_allocated (f cd) = cd_channel_allocated cd) \<Longrightarrow>
   (\<And>cd. cd_channel_allocated cd \<Longrightarrow> cd_channel_id (f cd) = cd_channel_id cd) \<Longrightarrow>
   same_channels s (cd_upd i f (s\<lparr>cn_li := l\<rparr>))"
  by (rule same_channels_trans [OF same_channels_li same_channels_upd])

lemma cd_allocate_li_same: "same_channels s (cd_allocate_li i s)"
  by (simp add: cd_allocate_li_def same_channels_li_upd split: prod.splits)

lemma cd_free_li_same: "same_channels s (cd_free_li i s)"
  by (simp add: cd_free_li_def same_channels_li_upd split: option.splits)

lemma take_channel_length [simp]: "length (N_call_desc (take_channel i c s)) = length (N_call_desc s)"
  by (simp add: take_channel_def)

lemma cd_allocate_li_length [simp]: "length (N_call_desc (cd_allocate_li i s)) = length (N_call_desc s)"
  by (simp add: cd_allocate_li_def split: prod.splits)

lemma cd_free_li_length [simp]: "length (N_call_desc (cd_free_li i s)) = length (N_call_desc s)"
  by (simp add: cd_free_li_def split: option.splits)

lemma cd_allocate_channel_length [simp]: "length (N_call_desc (cd_allocate_channel i s)) = length (N_call_desc s)"
  by (simp add: cd_allocate_channel_def Let_def split: option.splits)

lemma cd_free_channel_length [simp]: "length (N_call_desc (cd_free_channel i s)) = length (N_call_desc s)"
  by (simp add: cd_free_channel_def Let_def)

lemma take_channel_owns:
  assumes "i < length (N_call_desc s)" "c < L1_channel_end s" "\<not> cd_channel_allocated (cd_at s i)"
  shows "owns_channel (take_channel i c s) j d \<longleftrightarrow> (j = i \<and> d = c) \<or> owns_channel s j d"
  using assms by (cases "j = i") (auto simp: owns_channel_def take_channel_def)

lemma take_channel_inv:
  assumes "chan_inv s" "i < length (N_call_desc s)" "c < L1_channel_end s" "\<not> cd_channel_allocated (cd_at s i)"
    "\<not> N_channel_utilization s ! c"
  shows "chan_inv (take_channel i c s)"
  unfolding chan_inv_def take_channel_owns [OF assms(2,3,4)]
proof (intro conjI allI impI)
  show "L1_channel_end (take_channel i c s) \<le> length (N_channel_utilization (take_channel i c s))"
    using chan_invD(1) [OF assms(1)] by (simp add: take_channel_def)
  have bits: "N_channel_utilization (take_channel i c s) ! d = (d = c \<or> N_channel_utilization s ! d)" for d
    using chan_invD(1) [OF assms(1)] assms(3) by (simp add: take_channel_def nth_list_update)
  show "N_channel_utilization (take_channel i c s) ! d" if "j = i \<and> d = c \<or> owns_channel s j d" for j d
    using that chan_invD(2) [OF assms(1), of j d] by (auto simp: bits)
  show "j = k" if "j = i \<and> d = c \<or> owns_channel s j d" "k = i \<and> d = c \<or> owns_channel s k d" for j k d
    using that chan_invD(2,3) [OF assms(1)] assms(5) by metis
  show "d = 0 \<or> (\<exists>j. j = i \<and> d = c \<or> owns_channel s j d)"
    if "d < L1_channel_end (take_channel i c s)" "N_channel_utilization (take_channel i c s) ! d" for d
  proof -
    have "d < L1_channel_end s"
      using that(1) by (simp add: take_channel_def)
    then show ?thesis
      using that(2) chan_invD(4) [OF assms(1), of d] unfolding bits by blast
  qed
qed

lemma free_channel_Some:
  assumes "free_channel s = Some c" "L1_channel_end s \<le> length (N_channel_utilization s)"
  shows "c < L1_channel_end s" "\<not> N_channel_utilization s ! c"
  using find_index_Some [OF assms(1) [unfolded free_channel_def]] assms(2) by auto

lemma cd_allocate_channel_inv:
  assumes "chan_inv s" and "i < length (N_call_desc s)"
  shows "chan_inv (cd_allocate_channel i s)"
proof -
  define s1 where "s1 = cd_allocate_li i s"
  have same: "same_channels s s1"
    unfolding s1_def by (rule cd_allocate_li_same)
  have inv: "chan_inv s1" and i: "i < length (N_call_desc s1)"
    using same same_channels_inv assms by (auto simp: same_channels_def)
  show ?thesis
  proof (cases "cd_channel_allocated (cd_at s1 i)")
    case True
    then show ?thesis
      using inv by (simp add: cd_allocate_channel_def s1_def [symmetric])
  next
    case False
    let ?ch = "cd_channel_id (cd_at s1 i)"
    have nf: "chan_inv (cd_upd i (\<lambda>cd. cd\<lparr>cd_channel_id := CHAN_ANY\<rparr>) s1)"
    proof (rule same_channels_inv [OF _ inv])
      show "same_channels s1 (cd_upd i (\<lambda>cd. cd\<lparr>cd_channel_id := CHAN_ANY\<rparr>) s1)"
        using False i by (auto simp: same_channels_def cd_at_upd)
    qed
    have na: "chan_inv (cd_upd i (\<lambda>cd. cd\<lparr>cd_channel_allocated := True\<rparr>) s1)" if "?ch = CHAN_NOT_ANY"
    proof -
      have o: "owns_channel (cd_upd i (\<lambda>cd. cd\<lparr>cd_channel_allocated := True\<rparr>) s1) j c = owns_channel s1 j c" for j c
        using that i False by (cases "j = i") (auto simp: owns_channel_def CHAN_NOT_ANY_def)
      show ?thesis
        using inv unfolding chan_inv_def o by simp
    qed
    have tk: "chan_inv (take_channel i c s1)" if "c < L1_channel_end s1" "\<not> N_channel_utilization s1 ! c" for c
      using take_channel_inv [OF inv i _ False] that by blast
    show ?thesis
      using False nf na tk free_channel_Some [of s1] chan_invD(1) [OF inv]
      by (auto simp: cd_allocate_channel_def s1_def [symmetric] Let_def channel_in_range_def nat_less_iff split: option.splits)
  qed
qed

text \<open>
  allocating a channel for a descriptor never gives it a channel another descriptor owns and
  keeps the utilization bits exact, on every path of the routine.
\<close>

theorem allocate_channel_exclusive:
  assumes "chan_inv s" and "i < length (N_call_desc s)"
  shows "chan_inv (cd_allocate_channel i s)"
  using assms by (rule cd_allocate_channel_inv)

lemma sample_cntl_chan: "chan_inv (sample_cntl n)"
  by (auto simp: chan_inv_def owns_channel_def) (auto simp: sample_cntl_def nth_Cons split: nat.splits)

theorem allocate_channel_exclusive_witness: "chan_inv (cd_allocate_channel 1 (sample_cntl 2))"
  by (rule allocate_channel_exclusive [OF sample_cntl_chan]) simp

lemma free_channel_owns:
  assumes "chan_inv s" "i < length (N_call_desc s)" "cd_channel_allocated (cd_at s i)"
  shows "owns_channel (cd_free_channel i s) j c \<longleftrightarrow> j \<noteq> i \<and> owns_channel s j c"
proof -
  define s1 where "s1 = cd_free_li i s"
  have same: "same_channels s s1"
    unfolding s1_def by (rule cd_free_li_same)
  have "owns_channel (cd_free_channel i s) j c \<longleftrightarrow> j \<noteq> i \<and> owns_channel s1 j c"
    using same assms(2,3) by (cases "j = i")
      (auto simp: owns_channel_def cd_free_channel_def s1_def [symmetric] Let_def same_channels_def)
  then show ?thesis
    by (simp add: same_channels_owns [OF same])
qed

lemma cd_free_channel_exact:
  assumes "chan_inv s" and "i < length (N_call_desc s)"
  shows "chan_inv (cd_free_channel i s) \<and> \<not> cd_channel_allocated (cd_at (cd_free_channel i s) i) \<and>
    (\<forall>j c. owns_channel (cd_free_channel i s) j c \<longleftrightarrow> j \<noteq> i \<and> owns_channel s j c)"
proof -
  define s1 where "s1 = cd_free_li i s"
  have same: "same_channels s s1"
    unfolding s1_def by (rule cd_free_li_same)
  have inv: "chan_inv s1" and i: "i < length (N_call_desc s1)"
    using same same_channels_inv assms by (auto simp: same_channels_def)
  show ?thesis
  proof (cases "cd_channel_allocated (cd_at s i)")
    case False
    then have "\<not> cd_channel_allocated (cd_at s1 i)"
      using same assms(2) by (simp add: same_channels_def)
    then show ?thesis
      using inv False same_channels_owns [OF same]
      by (simp add: cd_free_channel_def s1_def [symmetric] Let_def) (auto simp: owns_channel_def)
  next
    case True
    note own = free_channel_owns [OF assms True]
    have al: "cd_channel_allocated (cd_at s1 i)"
      using same True assms(2) by (simp add: same_channels_def)
    let ?ch = "cd_channel_id (cd_at s1 i)"
    have bits: "N_channel_utilization (cd_free_channel i s) =
        (if channel_in_range s1 ?ch then (N_channel_utilization s1)[nat ?ch := False] else N_channel_utilization s1)"
      and e: "L1_channel_end (cd_free_channel i s) = L1_channel_end s1"
      using al by (simp_all add: cd_free_channel_def s1_def [symmetric] Let_def)
    have mine: "owns_channel s i c \<longleftrightarrow> channel_in_range s1 ?ch \<and> c = nat ?ch" for c
      using al i same_channels_owns [OF same, of i c, symmetric] by (auto simp: owns_channel_def channel_in_range_def)
    have bit: "N_channel_utilization (cd_free_channel i s) ! c \<longleftrightarrow> N_channel_utilization s1 ! c \<and> \<not> owns_channel s i c"
      if "c < L1_channel_end s1" for c
      using that chan_invD(1) [OF inv] by (auto simp: bits mine nth_list_update channel_in_range_def nat_less_iff)
    have "chan_inv (cd_free_channel i s)"
      unfolding chan_inv_def own e
    proof (intro conjI allI impI)
      show "L1_channel_end s1 \<le> length (N_channel_utilization (cd_free_channel i s))"
        using chan_invD(1) [OF inv] by (simp add: bits)
      show "N_channel_utilization (cd_free_channel i s) ! c" if "j \<noteq> i \<and> owns_channel s j c" for j c
        using that bit [of c] chan_invD(2) [OF inv, of j c] chan_invD(3) [OF assms(1), of j c i]
          same_channels_owns [OF same, of j c] same
        by (auto simp: owns_channel_def same_channels_def)
      show "j = k" if "j \<noteq> i \<and> owns_channel s j c" "k \<noteq> i \<and> owns_channel s k c" for j k c
        using that chan_invD(3) [OF assms(1)] by blast
      show "c = 0 \<or> (\<exists>j. j \<noteq> i \<and> owns_channel s j c)"
        if "c < L1_channel_end s1" "N_channel_utilization (cd_free_channel i s) ! c" for c
      proof (cases "c = 0")
        case False
        have "\<exists>j. owns_channel s1 j c" "\<not> owns_channel s i c"
          using that(2) bit [OF that(1)] chan_invD(4) [OF inv that(1)] False by simp_all
        then obtain j where "owns_channel s1 j c"
          by blast
        then have "owns_channel s j c"
          by (simp add: same_channels_owns [OF same])
        then show ?thesis
          using \<open>\<not> owns_channel s i c\<close> by (intro disjI2 exI [of _ j]) auto
      qed simp
    qed
    then show ?thesis
      using own al i by (simp add: cd_free_channel_def s1_def [symmetric] Let_def)
  qed
qed

text \<open>
  freeing the channel of a descriptor releases exactly that channel: the invariant is kept,
  the descriptor owns nothing, all other ownerships are as before, and the freed bit is clear
  (unless it is the D-channel's).
\<close>

theorem free_channel_exact:
  assumes "chan_inv s" and "i < length (N_call_desc s)"
  shows "chan_inv (cd_free_channel i s) \<and> \<not> cd_channel_allocated (cd_at (cd_free_channel i s) i) \<and>
    (\<forall>j c. owns_channel (cd_free_channel i s) j c \<longleftrightarrow> j \<noteq> i \<and> owns_channel s j c)"
  using assms by (rule cd_free_channel_exact)

theorem free_channel_exact_witness:
  "let s = cd_allocate_channel 0 (sample_cntl 1)
   in chan_inv (cd_free_channel 0 s) \<and> \<not> cd_channel_allocated (cd_at (cd_free_channel 0 s) 0) \<and>
      (\<forall>j c. owns_channel (cd_free_channel 0 s) j c \<longleftrightarrow> j \<noteq> 0 \<and> owns_channel s j c)"
  unfolding Let_def
proof (rule free_channel_exact)
  show "chan_inv (cd_allocate_channel 0 (sample_cntl 1))"
    by (rule cd_allocate_channel_inv [OF sample_cntl_chan]) simp
  show "0 < length (N_call_desc (cd_allocate_channel 0 (sample_cntl 1)))"
    by (simp del: length_greater_0_conv)
qed

end
