(* ===== verification/DSS1_Buffer.thy ===== *)
theory DSS1_Buffer
  imports I4B_Prelude
begin

unbundle bit_operations_syntax

text \<open>
  Reading of received D-channel frames: \<^verbatim>\<open>struct dss1_buffer\<close> of
  \<^verbatim>\<open>src/src/sys/i4b/dss1/dss1_l2.h\<close>, its accessors in \<^verbatim>\<open>dss1_l2fsm.c\<close>, and the generic string and
  information element decoders of \<^verbatim>\<open>dss1_l3decoder.h\<close>. All of them see a buffer only through the
  octets between its offset and its length.
\<close>

section \<open>Buffers\<close>

record dss1_buffer =
  db_start :: "u8 list"
  db_offset :: u16
  db_len :: u16

text \<open>An access outside the memory behind \<open>start\<close> would be a read of the octet after its end.\<close>

definition mem_read :: "u8 list \<Rightarrow> nat \<Rightarrow> u8" where
  "mem_read xs i = (if i < length xs then xs ! i else 0)"

definition dss1_get_1 :: "dss1_buffer \<Rightarrow> u16 \<Rightarrow> u8" where
  "dss1_get_1 src off =
     (let o' = off + db_offset src
      in if o' < db_offset src \<or> db_len src \<le> o' then 0 else mem_read (db_start src) (unat o'))"

definition dss1_get_valid :: "dss1_buffer \<Rightarrow> u16 \<Rightarrow> bool" where
  "dss1_get_valid src off = (let o' = off + db_offset src in db_offset src \<le> o' \<and> o' < db_len src)"

definition dss1_set_length :: "dss1_buffer \<Rightarrow> u16 \<Rightarrow> dss1_buffer \<times> u16" where
  "dss1_set_length src new_len =
     (if new_len < db_len src then src\<lparr>db_len := new_len\<rparr> else src, db_len src)"

definition dss1_buf_init :: "u8 list \<Rightarrow> u16 \<Rightarrow> dss1_buffer" where
  "dss1_buf_init start len = \<lparr>db_start = start, db_offset = 0, db_len = len\<rparr>"

section \<open>The octets a buffer stands for\<close>

definition wf_buffer :: "dss1_buffer \<Rightarrow> bool" where
  "wf_buffer b \<longleftrightarrow> unat (db_len b) \<le> length (db_start b)"

definition view :: "dss1_buffer \<Rightarrow> u8 list" where
  "view b = drop (unat (db_offset b)) (take (unat (db_len b)) (db_start b))"

definition nth0 :: "u8 list \<Rightarrow> nat \<Rightarrow> u8" where
  "nth0 xs i = (if i < length xs then xs ! i else 0)"

lemma length_view: "wf_buffer b \<Longrightarrow> length (view b) = unat (db_len b) - unat (db_offset b)"
  by (simp add: view_def wf_buffer_def min_def)

lemma u16_add_cases:
  fixes a b :: u16
  shows "unat a + unat b < 65536 \<and> unat (a + b) = unat a + unat b \<or>
    65536 \<le> unat a + unat b \<and> a + b < b \<and> unat (a + b) = unat a + unat b - 65536"
proof (cases "unat a + unat b < 65536")
  case True
  then show ?thesis
    by (simp add: unat_word_ariths(1))
next
  case False
  then have "unat a + unat b - 65536 < 65536"
    using unat_u16_less [of a] unat_u16_less [of b] by linarith
  then have "unat (a + b) = unat a + unat b - 65536"
    using False by (simp add: unat_word_ariths(1) mod_if)
  moreover from this have "unat (a + b) < unat b"
    using False unat_u16_less [of a] by linarith
  ultimately show ?thesis
    using False by (simp add: word_less_nat_alt)
qed

lemma get_valid_view:
  assumes "wf_buffer b"
  shows "dss1_get_valid b off \<longleftrightarrow> unat off < length (view b)"
proof -
  have len: "unat (db_len b) < 65536"
    by (rule unat_u16_less)
  have iff: "dss1_get_valid b off \<longleftrightarrow>
      unat (db_offset b) \<le> unat (off + db_offset b) \<and> unat (off + db_offset b) < unat (db_len b)"
    by (simp add: dss1_get_valid_def Let_def word_le_nat_alt word_less_nat_alt)
  from u16_add_cases [of off "db_offset b"] show ?thesis
  proof (elim disjE conjE)
    assume "unat (off + db_offset b) = unat off + unat (db_offset b)"
    then show ?thesis
      unfolding iff length_view [OF assms] by arith
  next
    assume big: "65536 \<le> unat off + unat (db_offset b)" and "off + db_offset b < db_offset b"
    then have "\<not> dss1_get_valid b off"
      unfolding iff by (simp add: word_less_nat_alt)
    moreover have "\<not> unat off < length (view b)"
      unfolding length_view [OF assms] using big len by arith
    ultimately show ?thesis
      by blast
  qed
qed

lemma get_1_view: "wf_buffer b \<Longrightarrow> dss1_get_1 b off = nth0 (view b) (unat off)"
proof -
  assume wf: "wf_buffer b"
  show ?thesis
  proof (cases "dss1_get_valid b off")
    case True
    then have l: "unat off < length (view b)"
      using get_valid_view [OF wf] by simp
    then have "unat (off + db_offset b) = unat off + unat (db_offset b)"
      using u16_add_cases [of off "db_offset b"] True
      by (auto simp: dss1_get_valid_def Let_def)
    then show ?thesis
      using True l wf by (auto simp: dss1_get_1_def dss1_get_valid_def Let_def nth0_def view_def mem_read_def
          wf_buffer_def add.commute word_le_nat_alt word_less_nat_alt)
  next
    case False
    then show ?thesis
      using get_valid_view [OF wf, of off] by (auto simp: dss1_get_1_def dss1_get_valid_def Let_def nth0_def)
  qed
qed

text \<open>
  \<open>dss1_get_1\<close> is a safe read whatever the 16-bit offset: it returns the octet of the frame at
  that distance, or zero past the end, and never touches memory outside the frame.
\<close>

theorem get_1_safe:
  assumes "wf_buffer b"
  shows "dss1_get_1 b off = nth0 (view b) (unat off) \<and>
    (dss1_get_valid b off \<longleftrightarrow> unat off < length (view b)) \<and>
    (dss1_get_valid b off \<longrightarrow> unat (off + db_offset b) < length (db_start b))"
  using get_1_view [OF assms, of off] get_valid_view [OF assms, of off] assms
  by (auto simp: dss1_get_valid_def Let_def word_less_nat_alt wf_buffer_def)

definition sample_buffer :: dss1_buffer where
  "sample_buffer = \<lparr>db_start = [0x70, 2, 0x81, 49, 10], db_offset = 1, db_len = 5\<rparr>"

theorem get_1_safe_witness:
  "dss1_get_1 sample_buffer 0xFFFF = nth0 (view sample_buffer) (unat (0xFFFF :: u16)) \<and>
    (dss1_get_valid sample_buffer 0xFFFF \<longleftrightarrow> unat (0xFFFF :: u16) < length (view sample_buffer))"
proof -
  have "wf_buffer sample_buffer"
    by (simp add: wf_buffer_def sample_buffer_def)
  from get_1_safe [OF this] show ?thesis
    by blast
qed

section \<open>Strings\<close>

text \<open>The copy loop of \<open>get_multi_1\<close>: at most \<open>n\<close> octets from the given offset.\<close>

fun copy_valid :: "dss1_buffer \<Rightarrow> u16 \<Rightarrow> nat \<Rightarrow> u8 list" where
  "copy_valid buf off 0 = []"
| "copy_valid buf off (Suc n) =
     (if dss1_get_valid buf off then dss1_get_1 buf off # copy_valid buf (off + 1) n else [])"

definition is_allowed :: "u8 \<Rightarrow> bool" where
  "is_allowed c \<longleftrightarrow> (97 \<le> c \<and> c \<le> 122) \<or> (65 \<le> c \<and> c \<le> 90) \<or> (48 \<le> c \<and> c \<le> 57) \<or> c = 42 \<or> c = 35"

definition filter_char :: "u8 \<Rightarrow> u8" where
  "filter_char c = (if is_allowed c then c else 95)"

text \<open>
  \<open>get_multi_1\<close> for a destination of \<open>len\<close> octets: what it stores (without the terminating zero;
  \<open>None\<close> if it stores nothing at all) and what it returns. The filter stops at a zero octet.
\<close>

definition get_multi_1 :: "dss1_buffer \<Rightarrow> u16 \<Rightarrow> nat \<Rightarrow> bool \<Rightarrow> u8 list option \<times> nat" where
  "get_multi_1 buf off len flt =
     (if len = 0 then (None, 0)
      else let raw = copy_valid buf off (len - 1); str = takeWhile (\<lambda>c. c \<noteq> 0) raw
           in if flt then (Some (map filter_char str @ drop (length str) raw), length str)
              else (Some raw, length raw))"

text \<open>The C string now in the destination, given the old contents.\<close>

definition multi_string :: "u8 list \<Rightarrow> dss1_buffer \<Rightarrow> u16 \<Rightarrow> nat \<Rightarrow> bool \<Rightarrow> u8 list" where
  "multi_string old buf off len flt =
     (case fst (get_multi_1 buf off len flt) of None \<Rightarrow> old | Some xs \<Rightarrow> takeWhile (\<lambda>c. c \<noteq> 0) xs)"

lemma copy_valid_view:
  assumes "wf_buffer b" "unat off + n < 65536"
  shows "copy_valid b off n = take n (drop (unat off) (view b))"
  using assms(2)
proof (induction n arbitrary: off)
  case (Suc n)
  have off: "unat (off + 1) = unat off + 1"
    using Suc.prems by (simp add: unat_word_ariths(1))
  show ?case
  proof (cases "unat off < length (view b)")
    case True
    then show ?thesis
      using Suc.IH [of "off + 1"] Suc.prems off assms(1)
      by (simp add: get_valid_view get_1_view nth0_def Cons_nth_drop_Suc [symmetric])
  next
    case False
    then show ?thesis
      using assms(1) by (simp add: get_valid_view)
  qed
qed simp

lemma length_copy_valid: "length (copy_valid b off n) \<le> n"
  by (induction b off n rule: copy_valid.induct) auto

lemma filter_char_nonzero: "filter_char c \<noteq> 0"
  by (auto simp: filter_char_def is_allowed_def)

lemma filter_char_allowed: "is_allowed (filter_char c) \<or> filter_char c = 95"
  by (auto simp: filter_char_def)

lemma multi_string_bounds:
  assumes "0 < len"
  shows "length (multi_string old buf off len flt) < len \<and>
    (\<exists>xs. fst (get_multi_1 buf off len flt) = Some xs \<and> length xs < len) \<and>
    (flt \<longrightarrow> snd (get_multi_1 buf off len flt) = length (multi_string old buf off len flt) \<and>
       (\<forall>c\<in>set (multi_string old buf off len flt). is_allowed c \<or> c = 95))"
proof -
  let ?raw = "copy_valid buf off (len - 1)"
  let ?str = "takeWhile (\<lambda>c. c \<noteq> 0) ?raw"
  have raw: "length ?raw < len" "length ?str \<le> length ?raw"
    using length_copy_valid [of buf off "len - 1"] assms length_takeWhile_le by (simp, blast)
  have z: "takeWhile (\<lambda>c. c \<noteq> 0) (map filter_char ?str @ drop (length ?str) ?raw) = map filter_char ?str"
  proof -
    have d: "drop (length ?str) ?raw = dropWhile (\<lambda>c. c \<noteq> 0) ?raw"
      by (metis append_eq_conv_conj takeWhile_dropWhile_id)
    have "takeWhile (\<lambda>c. c \<noteq> 0) (dropWhile (\<lambda>c. c \<noteq> (0 :: u8)) xs) = []" for xs
      by (induction xs) auto
    then show ?thesis
      unfolding d by (subst takeWhile_append2) (auto simp: filter_char_nonzero)
  qed
  show ?thesis
    using assms raw z filter_char_allowed length_takeWhile_le [of "\<lambda>c. c \<noteq> 0" ?raw]
    by (auto simp: multi_string_def get_multi_1_def Let_def)
qed

text \<open>
  \<open>get_multi_1\<close> never overruns its destination: with a destination of \<open>len\<close> octets it stores
  fewer than \<open>len\<close> octets before the terminating zero, and with the filter on the resulting string
  holds only letters, digits, star, hash and underscores and has the returned length.
\<close>

theorem get_multi_1_bounds:
  assumes "0 < len"
  shows "length (multi_string old buf off len flt) < len \<and>
    (\<exists>xs. fst (get_multi_1 buf off len flt) = Some xs \<and> length xs < len) \<and>
    (flt \<longrightarrow> snd (get_multi_1 buf off len flt) = length (multi_string old buf off len flt) \<and>
       (\<forall>c\<in>set (multi_string old buf off len flt). is_allowed c \<or> c = 95))"
  using assms by (rule multi_string_bounds)

theorem get_multi_1_bounds_witness:
  "length (multi_string [] sample_buffer 2 41 True) < 41 \<and>
    snd (get_multi_1 sample_buffer 2 41 True) = length (multi_string [] sample_buffer 2 41 True)"
  using get_multi_1_bounds [of 41 "[]" sample_buffer 2 True] by simp

end
