(* ===== verification/DSS1_State.thy ===== *)
theory DSS1_State
  imports Call_Desc DSS1_Buffer
begin

unbundle bit_operations_syntax

text \<open>
  The state of the DSS1 protocol stack of one controller: mbufs, the links to the terminals
  (\<^verbatim>\<open>DSS1_TCP_pipe_t\<close>) and the layer 2 softc (\<^verbatim>\<open>l2softc_t\<close>) of \<^verbatim>\<open>src/src/sys/i4b/dss1/dss1_l2.h\<close>.
  The softc extends the controller of the theory on call descriptors. What the stack asks of other
  parts of the kernel is appended to a trace; what they answer is part of the state as a list of
  answers still to come, so that every operation is a function.
\<close>

section \<open>Frames\<close>

text \<open>
  An mbuf has an identity (its address), the octets of its storage, the offset of \<open>m_data\<close> in it,
  the length and the flag \<open>M_PROTO1\<close>.
\<close>

record mbuf =
  m_id :: nat
  m_mem :: "u8 list"
  m_off :: nat
  m_len :: nat
  m_proto1 :: bool

definition m_bytes :: "mbuf \<Rightarrow> u8 list" where
  "m_bytes m = take (m_len m) (drop (m_off m) (m_mem m))"

section \<open>Messages to the layers above and below\<close>

record connect_ind =
  ci_channel :: int
  ci_bprot :: bprot
  ci_sending_complete :: bool
  ci_dst_telno :: cstring
  ci_dst_subaddr :: cstring
  ci_src_telno :: cstring
  ci_src_subaddr :: cstring
  ci_src_ton :: u8
  ci_dst_ton :: u8
  ci_display :: cstring
  ci_user_user :: cstring
  ci_scr_ind :: u8
  ci_prs_ind :: u8

datatype i4b_msg =
    MSG_CONNECT_IND u32 connect_ind
  | MSG_INFORMATION_IND u32 cstring
  | MSG_ALERT_IND u32
  | MSG_PROCEEDING_IND u32 bool
  | MSG_RETRIEVE_IND u32
  | MSG_HOLD_IND u32
  | MSG_CONNECT_ACTIVE_IND u32 int cstring
  | MSG_PRE_DISCONNECT_IND u32 u32
  | MSG_DISCONNECT_IND u32 u32
  | MSG_CHARGING_IND u32 int int
  | MSG_IDLE_TIMEOUT_IND u32
  | MSG_TEIASG_IND u8 u8

datatype event =
    L1_FIFO_START
  | CMR_PH_ACTIVATE
  | CMR_PH_DEACTIVATE
  | I4B_SETUP_DRIVER int nat nat nat nat  \<comment> \<open>channel, protocol, sub-protocol, driver type and unit\<close>
  | AI_PUTQUEUE nat i4b_msg
  | CAPI_CONNECT_IND u32
  | CAPI_CONNECT_ACTIVE_IND u32
  | CAPI_DISCONNECT_IND u32
  | CAPI_INFO_IND u32 u16 "u8 list"
  | AI_PUTQUEUE_OTHERS nat i4b_msg  \<comment> \<open>with the flag \<open>complement\<close>: to all other interfaces\<close>
  | CAPI_INFO_IND_OTHERS u32 u16
  | CAPI_DISCONNECT_IND_OTHERS u32

section \<open>Links and the softc\<close>

record tcp_pipe =
  refcount :: u32
  p_state :: nat
  get_mbuf_callout :: "nat option"
  set_state_callout :: "nat option"
  tei :: u8
  serial_number :: u16
  ifq :: "mbuf list"
  ifq_maxlen :: nat
  tx_window_size :: u8
  tx_window_length :: u8
  rx_nr :: u8
  tx_nr :: u8

definition pipe_zero :: tcp_pipe where
  "pipe_zero = \<lparr>refcount = 0, p_state = 0, get_mbuf_callout = None, set_state_callout = None, tei = 0,
     serial_number = 0, ifq = [], ifq_maxlen = 0, tx_window_size = 0, tx_window_length = 0, rx_nr = 0, tx_nr = 0\<rparr>"

text \<open>
  \<open>sc_fifo\<close>: a FIFO translator is attached. \<open>sc_current_mbuf\<close> is the identity of an mbuf. The
  options of the controller (\<open>no_power_save\<close> and so on) and the current time are inputs; the last
  group is the environment: outcomes of memory requests, numbers of listeners that took a connect
  indication, the channel coding of layer 1, the next mbuf address, the trace, and whether the
  code has dereferenced a null pointer, left an array or called \<open>panic\<close>.
\<close>

record l2softc = cntl +
  sc_tei_last :: u8
  sc_received_frame :: bool
  L1_deactivate_count :: u8
  L1_activity :: bool
  L1_auto_activate :: u32
  nt_mode :: bool
  primary_rate :: bool
  point_to_point :: bool
  no_power_save :: bool
  no_status_enquiry :: bool
  no_layer1_dialtone :: bool
  N_serial_number :: u16
  sc_ifq :: "mbuf list"
  sc_ifq_maxlen :: nat
  ID_REQUEST_callout :: "nat option"
  L1_activity_callout :: "nat option"
  sc_pipe :: "tcp_pipe list"
  sc_current_pipe :: nat
  sc_current_mbuf :: "nat option"
  sc_current_length :: u8
  sc_current_tx_nr :: u8
  sc_fifo :: bool
  env_second :: int
  env_mbuf :: "bool list"
  env_listeners :: "u16 list"
  env_encode_channel :: "int \<Rightarrow> int"
  env_decode_channel :: "int \<Rightarrow> int"
  env_next_id :: nat
  sc_trace :: "event list"
  sc_fault :: bool

definition PIPE_MAX :: nat where
  "PIPE_MAX = 16"

definition emit :: "event \<Rightarrow> l2softc \<Rightarrow> l2softc" where
  "emit e s = s\<lparr>sc_trace := sc_trace s @ [e]\<rparr>"

definition fault :: "l2softc \<Rightarrow> l2softc" where
  "fault s = s\<lparr>sc_fault := True\<rparr>"

definition pipe_at :: "l2softc \<Rightarrow> nat \<Rightarrow> tcp_pipe" where
  "pipe_at s p = sc_pipe s ! p"

definition pipe_upd :: "nat \<Rightarrow> (tcp_pipe \<Rightarrow> tcp_pipe) \<Rightarrow> l2softc \<Rightarrow> l2softc" where
  "pipe_upd p f s = s\<lparr>sc_pipe := (sc_pipe s)[p := f (sc_pipe s ! p)]\<rparr>"

text \<open>
  \<open>i4b_getmbuf\<close> for lengths within an mbuf cluster. The contents of a new mbuf are unspecified in
  C; zeros stand for them, every octet that is sent is written first.
\<close>

definition i4b_getmbuf :: "nat \<Rightarrow> l2softc \<Rightarrow> l2softc \<times> mbuf option" where
  "i4b_getmbuf len s =
     (case env_mbuf s of
        False # rest \<Rightarrow> (s\<lparr>env_mbuf := rest\<rparr>, None)
      | rest \<Rightarrow> (s\<lparr>env_mbuf := tl rest, env_next_id := env_next_id s + 1\<rparr>,
                 Some \<lparr>m_id = env_next_id s, m_mem = replicate len 0, m_off = 0, m_len = len, m_proto1 = False\<rparr>))"

lemma pipe_at_upd: "p < length (sc_pipe s) \<Longrightarrow> pipe_at (pipe_upd p f s) q = (if q = p then f (pipe_at s p) else pipe_at s q)"
  by (simp add: pipe_at_def pipe_upd_def nth_list_update)

lemma pipe_at_upd_same [simp]: "p < length (sc_pipe s) \<Longrightarrow> pipe_at (pipe_upd p f s) p = f (pipe_at s p)"
  by (simp add: pipe_at_upd)

lemma pipe_at_upd_other [simp]: "q \<noteq> p \<Longrightarrow> pipe_at (pipe_upd p f s) q = pipe_at s q"
  by (simp add: pipe_at_def pipe_upd_def)


section \<open>What an operation must not disturb\<close>

text \<open>The strings of a descriptor fit the arrays they are stored in.\<close>

definition src_ok :: "i4b_src_telno \<Rightarrow> bool" where
  "src_ok p_src \<longleftrightarrow> length (src_telno p_src) \<le> 40 \<and> length (src_subaddr p_src) \<le> 20"

definition strings_ok :: "call_desc \<Rightarrow> bool" where
  "strings_ok cd \<longleftrightarrow> length (cd_keypad cd) \<le> 34 \<and> src_ok (fst (cd_src cd)) \<and> src_ok (snd (cd_src cd)) \<and>
     length (cd_dst_telno cd) \<le> 40 \<and> cd_dst_telno_ptr cd \<le> length (cd_dst_telno cd) \<and> length (cd_dst_telno_part cd) \<le> 40 \<and>
     length (cd_dst_telno_early cd) \<le> 40 \<and> length (cd_dst_subaddr cd) \<le> 20 \<and> length (cd_user_user cd) \<le> 128 \<and>
     length (cd_display cd) \<le> 90"

text \<open>The cause to send is of a type \<open>i4b_make_q850_cause\<close> accepts.\<close>

definition cause_ok :: "call_desc \<Rightarrow> bool" where
  "cause_ok cd \<longleftrightarrow> i4b_make_q850_cause (cd_cause_out cd) \<noteq> None"

text \<open>
  The part of a descriptor and of a link the resource invariants speak about: identity, link,
  state, whether its timer runs, its channel, and the two conditions above.
\<close>

definition cd_core :: "call_desc \<Rightarrow> u32 \<times> nat option \<times> nat \<times> bool \<times> int option \<times> bool \<times> bool" where
  "cd_core cd = (cd_cdid cd, cd_pipe cd, cd_state cd, cd_set_state_callout cd \<noteq> None,
     if cd_channel_allocated cd then Some (cd_channel_id cd) else None, cause_ok cd, strings_ok cd)"

definition windows_ok :: "tcp_pipe \<Rightarrow> bool" where
  "windows_ok pi \<longleftrightarrow> tx_window_length pi \<le> tx_window_size pi \<and> unat (tx_window_size pi) \<le> length (ifq pi)"

definition pipe_core :: "tcp_pipe \<Rightarrow> u32 \<times> nat" where
  "pipe_core pi = (refcount pi, p_state pi)"

text \<open>
  What the transmitter relies on in a queued frame: its identity, where its data starts, the size of
  its storage and whether its header was shortened. A frame of no more than a header is a zero
  length I-frame; up to two of them at the head come on top of the bound of a queue.
\<close>

definition frame_key :: "mbuf \<Rightarrow> nat \<times> nat \<times> nat \<times> bool" where
  "frame_key m = (m_id m, m_off m, length (m_mem m), m_proto1 m)"

definition new_key :: "nat \<times> nat \<times> nat \<times> bool \<Rightarrow> bool" where
  "new_key k = (case k of (_, off, n, proto1) \<Rightarrow> off = 0 \<and> 4 \<le> n \<and> \<not> proto1)"

definition is_zif :: "mbuf \<Rightarrow> bool" where
  "is_zif m \<longleftrightarrow> m_len m \<le> 4"

definition backlog_ok :: "tcp_pipe \<Rightarrow> bool" where
  "backlog_ok pi \<longleftrightarrow> length (ifq pi) \<le> ifq_maxlen pi + length (takeWhile is_zif (take 2 (ifq pi)))"

text \<open>The queue may grow at its tail; the transmit window does not move.\<close>

definition pipe_kept :: "tcp_pipe \<Rightarrow> tcp_pipe \<Rightarrow> bool" where
  "pipe_kept pi pi' \<longleftrightarrow> tx_window_size pi' = tx_window_size pi \<and> tx_window_length pi' = tx_window_length pi \<and>
     (\<exists>ys. map frame_key (ifq pi') = map frame_key (ifq pi) @ ys \<and> (\<forall>y\<in>set ys. new_key y)) \<and>
     (backlog_ok pi \<longrightarrow> backlog_ok pi')"

lemma pipe_kept_refl [simp]: "pipe_kept pi pi"
  by (simp add: pipe_kept_def)

lemma pipe_kept_trans:
  assumes "pipe_kept a b" "pipe_kept b c"
  shows "pipe_kept a c"
proof -
  obtain ys zs where "map frame_key (ifq b) = map frame_key (ifq a) @ ys" "map frame_key (ifq c) = map frame_key (ifq b) @ zs"
    "\<forall>y\<in>set ys. new_key y" "\<forall>y\<in>set zs. new_key y"
    using assms by (auto simp: pipe_kept_def)
  then have "map frame_key (ifq c) = map frame_key (ifq a) @ (ys @ zs) \<and> (\<forall>y\<in>set (ys @ zs). new_key y)"
    by auto
  then show ?thesis
    using assms unfolding pipe_kept_def by metis
qed

lemma pipe_kept_same:
  "ifq b = ifq a \<Longrightarrow> tx_window_size b = tx_window_size a \<Longrightarrow> tx_window_length b = tx_window_length a \<Longrightarrow>
   ifq_maxlen b = ifq_maxlen a \<Longrightarrow> pipe_kept a b"
  by (simp add: pipe_kept_def backlog_ok_def)

lemma pipe_kept_windows: "pipe_kept a b \<Longrightarrow> windows_ok a \<Longrightarrow> windows_ok b"
proof -
  assume kept: "pipe_kept a b" and "windows_ok a"
  then obtain ys where "map frame_key (ifq b) = map frame_key (ifq a) @ ys"
    by (auto simp: pipe_kept_def)
  from arg_cong [OF this, of length] have "length (ifq a) \<le> length (ifq b)"
    by simp
  then show ?thesis
    using kept \<open>windows_ok a\<close> by (simp add: pipe_kept_def windows_ok_def)
qed

text \<open>
  A quiet operation keeps all of that. Most operations of the stack are quiet: they send messages,
  emit indications or fill in fields.
\<close>

definition quiet :: "l2softc \<Rightarrow> l2softc \<Rightarrow> bool" where
  "quiet s s' \<longleftrightarrow> map cd_core (N_call_desc s') = map cd_core (N_call_desc s) \<and>
     N_channel_utilization s' = N_channel_utilization s \<and> L1_channel_end s' = L1_channel_end s \<and>
     N_cdid_end s' = N_cdid_end s \<and> map pipe_core (sc_pipe s') = map pipe_core (sc_pipe s) \<and>
     L1_auto_activate s' = L1_auto_activate s \<and> sc_fault s' = sc_fault s \<and> nt_mode s' = nt_mode s \<and>
     point_to_point s' = point_to_point s \<and> sc_current_pipe s' = sc_current_pipe s \<and>
     sc_current_mbuf s' = sc_current_mbuf s \<and> sc_current_length s' = sc_current_length s \<and>
     (\<forall>p<length (sc_pipe s). pipe_kept (pipe_at s p) (pipe_at s' p))"

lemma map_eq_nth: "map f xs = map f ys \<Longrightarrow> i < length ys \<Longrightarrow> f (xs ! i) = f (ys ! i)"
  by (metis length_map nth_map)

lemma quiet_refl [simp]: "quiet s s"
  by (simp add: quiet_def)

lemma quiet_fields:
  assumes "quiet s s'"
  shows "length (N_call_desc s') = length (N_call_desc s)" "N_channel_utilization s' = N_channel_utilization s"
    "L1_channel_end s' = L1_channel_end s" "N_cdid_end s' = N_cdid_end s" "length (sc_pipe s') = length (sc_pipe s)"
    "L1_auto_activate s' = L1_auto_activate s" "sc_fault s' = sc_fault s" "nt_mode s' = nt_mode s"
    "point_to_point s' = point_to_point s" "sc_current_pipe s' = sc_current_pipe s"
    "sc_current_mbuf s' = sc_current_mbuf s" "sc_current_length s' = sc_current_length s"
  using assms by (auto simp: quiet_def dest: map_eq_imp_length_eq)

lemma quiet_kept: "quiet s s' \<Longrightarrow> p < length (sc_pipe s) \<Longrightarrow> pipe_kept (pipe_at s p) (pipe_at s' p)"
  by (simp add: quiet_def)

lemma quiet_trans:
  assumes "quiet s s1" "quiet s1 s2"
  shows "quiet s s2"
proof -
  have "pipe_kept (pipe_at s p) (pipe_at s2 p)" if "p < length (sc_pipe s)" for p
    using pipe_kept_trans quiet_kept [OF assms(1) that] quiet_kept [OF assms(2), of p] that quiet_fields(5) [OF assms(1)] by auto
  then show ?thesis
    using assms by (simp add: quiet_def)
qed

lemma quiet_cd: "quiet s s' \<Longrightarrow> i < length (N_call_desc s) \<Longrightarrow> cd_core (cd_at s' i) = cd_core (cd_at s i)"
  unfolding quiet_def cd_at_def by (blast intro: map_eq_nth)

lemma quiet_pipe: "quiet s s' \<Longrightarrow> p < length (sc_pipe s) \<Longrightarrow> pipe_core (pipe_at s' p) = pipe_core (pipe_at s p)"
  unfolding quiet_def pipe_at_def by (blast intro: map_eq_nth)

named_theorems quiet_intros \<open>operations that are quiet\<close>

text \<open>Rules for the elementary updates.\<close>

lemma map_update_same: "(i < length xs \<Longrightarrow> f y = f (xs ! i)) \<Longrightarrow> map f (xs[i := y]) = map f xs"
  by (cases "i < length xs") (simp_all add: map_update list_update_same_conv list_update_beyond)

lemma quiet_cd_upd [quiet_intros]:
  assumes "quiet s t" "i < length (N_call_desc s) \<Longrightarrow> cd_core (f (cd_at t i)) = cd_core (cd_at t i)"
  shows "quiet s (cd_upd i f t)"
proof -
  have "map cd_core (N_call_desc (cd_upd i f t)) = map cd_core (N_call_desc t)"
    using assms(2) quiet_fields(1) [OF assms(1)]
    unfolding cd_upd_def cd_at_def by (simp add: map_update_same)
  then have "quiet t (cd_upd i f t)"
    by (simp add: quiet_def pipe_at_def cd_upd_def)
  then show ?thesis
    using assms(1) quiet_trans by blast
qed

lemma quiet_pipe_upd [quiet_intros]:
  assumes "quiet s t" "\<And>pi. pipe_core (f pi) = pipe_core pi" "\<And>pi. pipe_kept pi (f pi)"
  shows "quiet s (pipe_upd p f t)"
proof -
  have "map pipe_core (sc_pipe (pipe_upd p f t)) = map pipe_core (sc_pipe t)"
    using assms(2) unfolding pipe_upd_def by (simp add: map_update_same)
  moreover have "pipe_kept (pipe_at t q) (pipe_at (pipe_upd p f t) q)" if "q < length (sc_pipe t)" for q
    using that assms(3) by (cases "q = p") simp_all
  ultimately have "quiet t (pipe_upd p f t)"
    by (simp add: quiet_def pipe_upd_def)
  then show ?thesis
    using assms(1) quiet_trans by blast
qed

lemma quiet_same:
  assumes "quiet s t" "N_call_desc t' = N_call_desc t" "N_channel_utilization t' = N_channel_utilization t"
    "L1_channel_end t' = L1_channel_end t" "N_cdid_end t' = N_cdid_end t" "sc_pipe t' = sc_pipe t"
    "L1_auto_activate t' = L1_auto_activate t" "sc_fault t' = sc_fault t" "nt_mode t' = nt_mode t"
    "point_to_point t' = point_to_point t" "sc_current_pipe t' = sc_current_pipe t"
    "sc_current_mbuf t' = sc_current_mbuf t" "sc_current_length t' = sc_current_length t"
  shows "quiet s t'"
  using assms by (simp add: quiet_def pipe_at_def)

lemma quiet_emit [quiet_intros]: "quiet s t \<Longrightarrow> quiet s (emit e t)"
  by (erule quiet_same) (simp_all add: emit_def)

lemma quiet_getmbuf [quiet_intros]: "quiet s t \<Longrightarrow> quiet s (fst (i4b_getmbuf n t))"
  by (erule quiet_same) (simp_all add: i4b_getmbuf_def split: list.splits bool.splits)


text \<open>A descriptor messages can be sent for.\<close>

definition ready :: "l2softc \<Rightarrow> nat \<Rightarrow> bool" where
  "ready s i \<longleftrightarrow> i < length (N_call_desc s) \<and> cd_pipe (cd_at s i) \<noteq> None \<and> cause_ok (cd_at s i) \<and> strings_ok (cd_at s i)"

lemma quiet_ready: "quiet s t \<Longrightarrow> ready t i \<longleftrightarrow> ready s i"
  using quiet_cd [of s t i] quiet_fields(1) [of s t] unfolding ready_def cd_core_def by (metis prod.inject)

lemma readyD: "ready s i \<Longrightarrow> i < length (N_call_desc s)" "ready s i \<Longrightarrow> \<exists>p. cd_pipe (cd_at s i) = Some p"
  "ready s i \<Longrightarrow> cause_ok (cd_at s i)" "ready s i \<Longrightarrow> strings_ok (cd_at s i)"
  by (auto simp: ready_def)

lemma getmbuf_fields [simp]:
  "i4b_getmbuf n s = (s', r) \<Longrightarrow> N_call_desc s' = N_call_desc s"
  "i4b_getmbuf n s = (s', r) \<Longrightarrow> sc_pipe s' = sc_pipe s"
  "i4b_getmbuf n s = (s', r) \<Longrightarrow> primary_rate s' = primary_rate s"
  "i4b_getmbuf n s = (s', r) \<Longrightarrow> cd_at s' i = cd_at s i"
  by (auto simp: i4b_getmbuf_def cd_at_def split: list.splits bool.splits)

lemma getmbuf_frame: "i4b_getmbuf n s = (s', Some m) \<Longrightarrow> m_off m = 0 \<and> \<not> m_proto1 m \<and> length (m_mem m) = n"
  by (auto simp: i4b_getmbuf_def split: list.splits bool.splits)

lemma quiet_getmbuf_pair: "quiet s t \<Longrightarrow> i4b_getmbuf n t = (t', r) \<Longrightarrow> quiet s t'"
  using quiet_getmbuf [of s t n] by simp

end
