(* ===== verification/DSS1_Encoder.thy ===== *)
theory DSS1_Encoder
  imports DSS1_State
begin

unbundle bit_operations_syntax

text \<open>
  The encoder of Q.931 messages, \<^verbatim>\<open>src/src/sys/i4b/dss1/dss1_l3encoder.h\<close>, with the queueing of
  frames to layer 2 of \<^verbatim>\<open>dss1_l2fsm.c\<close> that it uses. A message is the list of octets behind the
  I-frame header; writing it beyond the end of its mbuf is a fault of the model.
\<close>

section \<open>Layer 2 queues\<close>

definition dss1_pipe_data_req :: "nat \<Rightarrow> mbuf \<Rightarrow> l2softc \<Rightarrow> l2softc" where
  "dss1_pipe_data_req p m s =
     (if ifq_maxlen (pipe_at s p) \<le> length (ifq (pipe_at s p)) \<or> \<not> sc_fifo s then s
      else emit L1_FIFO_START (pipe_upd p (\<lambda>pi. pi\<lparr>ifq := ifq pi @ [m]\<rparr>) s))"

definition dss1_l2_data_req :: "mbuf \<Rightarrow> l2softc \<Rightarrow> l2softc" where
  "dss1_l2_data_req m s =
     (if sc_ifq_maxlen s \<le> length (sc_ifq s) \<or> \<not> L1_activity s \<or> \<not> sc_fifo s then s
      else emit L1_FIFO_START (s\<lparr>sc_ifq := sc_ifq s @ [m]\<rparr>))"

section \<open>Call references\<close>

fun le_value :: "u8 list \<Rightarrow> u32" where
  "le_value [] = 0"
| "le_value (b # bs) = push_bit 8 (le_value bs) OR u32_of_u8 b"

text \<open>\<open>get_callreference\<close> at the length octet \<open>ptr[0]\<close>; octets past the list read as zero.\<close>

definition get_callreference :: "u8 list \<Rightarrow> u32" where
  "get_callreference ptr =
     (let len = unat (nth0 ptr 0 AND 0x0F) in le_value (map (nth0 ptr) [1..<len + 1]))"

definition cr_length :: "bool \<Rightarrow> u32 \<Rightarrow> nat" where
  "cr_length primary cr =
     (let len = (if cr AND 0xFF000000 \<noteq> 0 then 4 else if cr AND 0x00FF0000 \<noteq> 0 then 3
                 else if cr AND 0x0000FF00 \<noteq> 0 then 2 else 1)
      in if primary \<and> len < 2 then 2 else len)"

fun le_octets :: "nat \<Rightarrow> u32 \<Rightarrow> u8 list" where
  "le_octets 0 cr = []"
| "le_octets (Suc n) cr = u8_of_u32 cr # le_octets n (drop_bit 8 cr)"

definition make_callreference :: "bool \<Rightarrow> u32 \<Rightarrow> u8 list" where
  "make_callreference primary cr =
     (let len = cr_length primary cr in word_of_nat len # le_octets len cr)"

lemma length_le_octets [simp]: "length (le_octets n cr) = n"
  by (induction n arbitrary: cr) auto

lemma le_value_octets:
  assumes "drop_bit (8 * n) cr = 0"
  shows "le_value (le_octets n cr) = cr"
  using assms
proof (induction n arbitrary: cr)
  case (Suc n)
  have "drop_bit (8 * n) (drop_bit 8 cr) = 0"
    using Suc.prems by (simp add: add.commute)
  then have "le_value (le_octets (Suc n) cr) = push_bit 8 (drop_bit 8 cr) OR u32_of_u8 (u8_of_u32 cr)"
    using Suc.IH by simp
  also have "\<dots> = cr"
    by (rule bit_word_eqI) (auto simp: bit_simps)
  finally show ?case .
qed simp

lemma cr_length_range: "1 \<le> cr_length primary cr" "cr_length primary cr \<le> 4" "primary \<Longrightarrow> 2 \<le> cr_length primary cr"
  by (simp_all add: cr_length_def Let_def)

lemma and_bits_zero:
  fixes cr k :: u32
  assumes "cr AND k = 0" "bit k i"
  shows "\<not> bit cr i"
  using arg_cong [OF assms(1), of "\<lambda>w. bit w i"] assms(2) by (simp add: bit_simps)

lemma bit_mask_byte:
  assumes "i < 32" "8 * j \<le> i" "i < 8 * j + 8"
  shows "bit (push_bit (8 * j) 0xFF :: u32) i"
  using assms by (simp add: bit_simps) linarith

lemma cr_length_enough: "drop_bit (8 * cr_length primary cr) cr = 0"
proof (rule bit_word_eqI)
  fix i
  assume "i < LENGTH(32)"
  have b3: "\<not> bit cr i" if "cr AND 0xFF000000 = 0" "24 \<le> i" "i < 32" for i
    using and_bits_zero [OF that(1)] bit_mask_byte [of i 3] that by simp
  have b2: "\<not> bit cr i" if "cr AND 0x00FF0000 = 0" "16 \<le> i" "i < 24" for i
    using and_bits_zero [OF that(1)] bit_mask_byte [of i 2] that by simp
  have b1: "\<not> bit cr i" if "cr AND 0x0000FF00 = 0" "8 \<le> i" "i < 16" for i
    using and_bits_zero [OF that(1)] bit_mask_byte [of i 1] that by simp
  have top: "\<not> bit cr i" if "32 \<le> i" for i
    using that bit_imp_le_length [of cr i] by auto
  have "\<not> bit cr j" if l: "8 * cr_length primary cr \<le> j" for j
  proof -
    have "8 \<le> j"
      using l cr_length_range(1) [of primary cr] by linarith
    then consider "32 \<le> j" | "24 \<le> j" "j < 32" | "16 \<le> j" "j < 24" | "8 \<le> j" "j < 16"
      by linarith
    then show ?thesis
    proof cases
      case 2
      then have "cr AND 0xFF000000 = 0"
        using l by (cases "cr AND 0xFF000000 = 0") (simp_all add: cr_length_def)
      then show ?thesis
        using b3 2 by blast
    next
      case 3
      then have "cr AND 0x00FF0000 = 0"
        using l by (cases "cr AND 0x00FF0000 = 0") (simp_all add: cr_length_def split: if_splits)
      then show ?thesis
        using b2 3 by blast
    next
      case 4
      then have "cr AND 0x0000FF00 = 0"
        using l by (cases "cr AND 0x0000FF00 = 0") (simp_all add: cr_length_def split: if_splits)
      then show ?thesis
        using b1 4 by blast
    qed (rule top)
  qed
  then show "bit (drop_bit (8 * cr_length primary cr) cr) i = bit (0 :: u32) i"
    by (simp add: bit_simps)
qed

text \<open>
  C16: a call reference survives its encoding: reading back what \<open>make_callreference\<close> wrote gives the
  same 32-bit value, whatever follows it, in one to four octets (at least two on a primary rate
  interface).
\<close>

theorem callreference_roundtrip:
  "get_callreference (make_callreference primary cr @ rest) = cr \<and>
   (if primary then 3 else 2) \<le> length (make_callreference primary cr) \<and> length (make_callreference primary cr) \<le> 5"
proof -
  let ?n = "cr_length primary cr"
  have n: "unat (word_of_nat ?n AND 0x0F :: u8) = ?n"
  proof -
    have "?n \<in> {1, 2, 3, 4}"
      using cr_length_range(1,2) [of primary cr] by auto
    then show ?thesis
      by auto
  qed
  have "map (nth0 (word_of_nat ?n # le_octets ?n cr @ rest)) [1..<?n + 1] = le_octets ?n cr"
    by (rule nth_equalityI) (auto simp: nth0_def nth_append simp del: upt_Suc)
  then have "get_callreference (make_callreference primary cr @ rest) = le_value (le_octets ?n cr)"
    using n by (simp add: get_callreference_def make_callreference_def Let_def nth0_def)
  then show ?thesis
    using le_value_octets [OF cr_length_enough] cr_length_range [of primary cr]
    by (cases primary) (simp_all add: make_callreference_def Let_def)
qed


section \<open>Information elements\<close>

definition CHAN_D1 :: int where
  "CHAN_D1 = 0"

definition CHAN_B1 :: int where
  "CHAN_B1 = 1"

definition CHAN_B2 :: int where
  "CHAN_B2 = 2"

definition IEI_channelid :: "l2softc \<Rightarrow> call_desc \<Rightarrow> u8 list" where
  "IEI_channelid s cd =
     (let ch = cd_channel_id cd;
          b = 0x88 OR (if ch = CHAN_NOT_ANY then 0 else if ch = CHAN_D1 then 0x04
                       else if ch = CHAN_B1 then 0x01 else if ch = CHAN_B2 then 0x02 else 0x03);
          body = (if primary_rate s
                  then if CHAN_B1 \<le> ch
                       then [((b OR 0x20) AND NOT 0x03) OR 0x01, 0x83, word_of_int (env_encode_channel s ch) OR 0x80]
                       else [b OR 0x20]
                  else [b])
      in [0x18, word_of_nat (length body)] @ body)"

definition ie_string :: "u8 \<Rightarrow> u8 list \<Rightarrow> cstring \<Rightarrow> u8 list" where
  "ie_string iei prefix str =
     (if str = [] then [] else [iei, word_of_nat (length prefix + length str)] @ prefix @ str)"

definition ie_bearercap :: "call_desc \<Rightarrow> u8 list" where
  "ie_bearercap cd =
     (let sub = (if cd_channel_bsubprot cd = 1 then 0xA3 else if cd_channel_bsubprot cd = 2 then 0xA2 else 0xA0)
      in case cd_channel_bprot cd of
           BPROT_NONE_3_1_KHZ \<Rightarrow> [0x04, 3, 0x90, 0x90, sub]
         | BPROT_NONE \<Rightarrow> [0x04, 3, 0x80, 0x90, sub]
         | BPROT_RHDLC_DOV \<Rightarrow> [0x04, 3, 0x80, 0x90, sub]
         | _ \<Rightarrow> [0x04, 2, 0x88, 0x90])"

text \<open>The calling party number and subaddress, in the order of the label \<open>repeat_src_telno\<close>.\<close>

definition ie_source :: "i4b_src_telno \<Rightarrow> u8 list" where
  "ie_source p_src =
     (let ton = (if src_ton p_src = 1 then 0x91 else if src_ton p_src = 2 then 0xA1 else 0x81);
          ind = 0x80 OR (if src_prs_ind p_src = 2 then 0x20 else 0) OR
                (if src_scr_ind p_src = 2 then 0x01 else if src_scr_ind p_src = 3 then 0x02
                 else if src_scr_ind p_src = 4 then 0x03 else 0);
          prefix = (if src_prs_ind p_src \<noteq> 0 \<or> src_scr_ind p_src \<noteq> 0 then [ton AND NOT 0x80, ind] else [ton])
      in ie_string 0x6C prefix (src_telno p_src) @ ie_string 0x6D [0x80] (src_subaddr p_src))"

text \<open>\<open>CAUSE_STD_LOC_PUBLIC\<close> on the network side, \<open>CAUSE_STD_LOC_OUT\<close> on the user side.\<close>

definition cause_location :: "l2softc \<Rightarrow> u8" where
  "cause_location s = (if nt_mode s then 0x82 else 0x80)"

section \<open>Messages\<close>

definition DCH_MAX_DATALEN :: nat where
  "DCH_MAX_DATALEN = 264"

definition SETUP_MAX_DATALEN :: nat where
  "SETUP_MAX_DATALEN = 2048"

definition I_HEADER_LEN :: nat where
  "I_HEADER_LEN = 4"

text \<open>
  Fill the mbuf \<open>m\<close> of \<open>sz\<close> octets with the message behind the header and hand it to layer 2.
\<close>

definition send_message :: "nat \<Rightarrow> nat \<Rightarrow> mbuf \<Rightarrow> u8 list \<Rightarrow> l2softc \<Rightarrow> l2softc" where
  "send_message p sz m msg s =
     (if sz < I_HEADER_LEN + length msg then fault s
      else dss1_pipe_data_req p (m\<lparr>m_mem := take I_HEADER_LEN (m_mem m) @ msg, m_len := I_HEADER_LEN + length msg\<rparr>) s)"

definition setup_message :: "l2softc \<Rightarrow> call_desc \<Rightarrow> u8 list" where
  "setup_message s cd =
     [0x08] @ make_callreference (primary_rate s) (cd_cr cd) @ [0x05] @
     (if cd_sending_complete cd then [0xA1] else []) @ ie_bearercap cd @
     (if cd_channel_allocated cd then IEI_channelid s cd else []) @
     ie_string 0x2C [] (cd_keypad cd) @
     ie_source (fst (cd_src cd)) @ ie_source (snd (cd_src cd)) @
     ie_string 0x70 [0x81] (cd_dst_telno cd) @ ie_string 0x71 [0x80] (cd_dst_subaddr cd) @
     ie_string 0x7E [] (cd_user_user cd) @ ie_string 0x28 [] (cd_display cd)"

definition dss1_l3_tx_setup :: "nat \<Rightarrow> l2softc \<Rightarrow> l2softc" where
  "dss1_l3_tx_setup i s0 =
     (case i4b_getmbuf SETUP_MAX_DATALEN s0 of
        (s, None) \<Rightarrow> s
      | (s, Some m) \<Rightarrow>
          case cd_pipe (cd_at s i) of
            None \<Rightarrow> fault s
          | Some p \<Rightarrow>
              let msg = setup_message s (cd_at s i);
                  s = (if cd_dst_telno (cd_at s i) = [] then s
                       else cd_upd i (\<lambda>cd. cd\<lparr>cd_dst_telno_ptr := length (cd_dst_telno cd)\<rparr>) s)
              in send_message p SETUP_MAX_DATALEN m msg s)"

definition L3_TX_HEADER :: u16 where "L3_TX_HEADER = 0x0000"
definition L3_TX_CAUSE :: u16 where "L3_TX_CAUSE = 0x0001"
definition L3_TX_CALLSTATE :: u16 where "L3_TX_CALLSTATE = 0x0002"
definition L3_TX_CHANNELID :: u16 where "L3_TX_CHANNELID = 0x0004"
definition L3_TX_CALLEDPN :: u16 where "L3_TX_CALLEDPN = 0x0008"
definition L3_TX_PROGRESSI :: u16 where "L3_TX_PROGRESSI = 0x0010"
definition L3_TX_RESTARTI :: u16 where "L3_TX_RESTARTI = 0x0020"
definition L3_TX_DEFLECT :: u16 where "L3_TX_DEFLECT = 0x0040"
definition L3_TX_MCID_REQ :: u16 where "L3_TX_MCID_REQ = 0x0080"
definition L3_TX_DATE_TIME :: u16 where "L3_TX_DATE_TIME = 0x0100"

definition has_flag :: "u16 \<Rightarrow> u16 \<Rightarrow> bool" where
  "has_flag flag f \<longleftrightarrow> flag AND f \<noteq> 0"

definition L3_STATES_Q931_CONV :: "u8 list" where
  "L3_STATES_Q931_CONV = [0x00, 0x00, 0x01, 0x02, 0x02, 0x03, 0x03, 0x04, 0x04, 0x00, 0x19, 0x06, 0x06, 0x07, 0x07,
     0x08, 0x0A, 0x0A, 0x0C, 0x0C]"

definition ie_deflect :: "cstring \<Rightarrow> u8 list" where
  "ie_deflect str =
     (if str = [] then []
      else let n = word_of_nat (length str)
           in [0x1C, 0x10 + n, 0x91, 0xA1, 0x0D + n, 0x02, 0x02, 0x22, 0x00, 0x02, 0x01, 0x0D,
               0x30, 0x04 + n, 0x30, 0x02 + n, 0x80, n] @ str)"

definition ie_mcid :: "u8 list" where
  "ie_mcid = [0x1C, 0x0A, 0x91, 0xA1, 0x07, 0x02, 0x02, 0x22, 0x00, 0x02, 0x01, 0x03]"

text \<open>The message of \<open>dss1_l3_tx_message\<close>, given the Q.850 cause.\<close>

definition l3_message :: "l2softc \<Rightarrow> call_desc \<Rightarrow> u8 \<Rightarrow> u16 \<Rightarrow> u8 \<Rightarrow> u8 list" where
  "l3_message s cd message_type flag q850 =
     [0x08] @ make_callreference (primary_rate s) (cd_cr cd) @ [message_type] @
     (if has_flag flag L3_TX_CAUSE then [0x08, 2, cause_location s, q850 OR 0x80] else []) @
     (if has_flag flag L3_TX_CALLSTATE then [0x14, 1, L3_STATES_Q931_CONV ! cd_state cd] else []) @
     (if has_flag flag L3_TX_CHANNELID \<and> cd_channel_allocated cd then IEI_channelid s cd else []) @
     (if has_flag flag L3_TX_PROGRESSI then [0x1E, 2, cause_location s, 0x88] else []) @
     (if has_flag flag L3_TX_CALLEDPN then ie_string 0x70 [0x81] (cd_dst_telno_early cd) else []) @
     (if has_flag flag L3_TX_DEFLECT then ie_deflect (cd_dst_telno_part cd) else []) @
     (if has_flag flag L3_TX_MCID_REQ then ie_mcid else []) @
     (if has_flag flag L3_TX_DATE_TIME then ie_string 0x29 [] (take 8 (cd_odate_time cd)) else [])"

definition dss1_l3_tx_message :: "nat \<Rightarrow> u8 \<Rightarrow> u16 \<Rightarrow> l2softc \<Rightarrow> l2softc" where
  "dss1_l3_tx_message i message_type flag s0 =
     (case cd_pipe (cd_at s0 i) of
        None \<Rightarrow> fault s0
      | Some p \<Rightarrow>
          case i4b_getmbuf DCH_MAX_DATALEN s0 of
            (s, None) \<Rightarrow> s
          | (s, Some m) \<Rightarrow>
              case (if has_flag flag L3_TX_CAUSE then i4b_make_q850_cause (cd_cause_out (cd_at s i)) else Some 0) of
                None \<Rightarrow> fault s
              | Some q850 \<Rightarrow>
                  let msg = l3_message s (cd_at s i) message_type flag q850;
                      s = (if has_flag flag L3_TX_DATE_TIME
                           then cd_upd i (\<lambda>cd. cd\<lparr>cd_odate_time := take 8 (cd_odate_time cd)\<rparr>) s else s)
                  in send_message p DCH_MAX_DATALEN m msg s)"

text \<open>\<open>PIPE_FOREACH\<close> of \<open>dss1_l3_tx_message_complement\<close>; state 0 is \<open>ST_L2_PAUSE\<close>.\<close>

definition tx_complement_pipe :: "nat \<Rightarrow> nat option \<Rightarrow> nat option \<Rightarrow> u8 \<Rightarrow> u16 \<Rightarrow> nat \<Rightarrow> l2softc \<Rightarrow> l2softc" where
  "tx_complement_pipe i skip_1 skip_2 message_type flag p s =
     (if Some p \<noteq> skip_1 \<and> Some p \<noteq> skip_2 \<and> p_state (pipe_at s p) \<noteq> 0
      then dss1_l3_tx_message i message_type flag (cd_upd i (\<lambda>cd. cd\<lparr>cd_pipe := Some p\<rparr>) s)
      else s)"

definition dss1_l3_tx_message_complement ::
  "nat \<Rightarrow> nat option \<Rightarrow> nat option \<Rightarrow> u8 \<Rightarrow> u16 \<Rightarrow> l2softc \<Rightarrow> l2softc" where
  "dss1_l3_tx_message_complement i skip_1 skip_2 message_type flag s =
     (let pipe_old = cd_pipe (cd_at s i)
      in case pipe_old of
           None \<Rightarrow> fault s
         | Some _ \<Rightarrow> cd_upd i (\<lambda>cd. cd\<lparr>cd_pipe := pipe_old\<rparr>)
             (fold (tx_complement_pipe i skip_1 skip_2 message_type flag) [0..<PIPE_MAX] s))"

definition dss1_l3_tx_message_by_pipe_cr :: "nat \<Rightarrow> u32 \<Rightarrow> u8 \<Rightarrow> u16 \<Rightarrow> u8 \<Rightarrow> u8 \<Rightarrow> l2softc \<Rightarrow> l2softc" where
  "dss1_l3_tx_message_by_pipe_cr p call_ref message_type flag cause_out restart_indication s0 =
     (case i4b_getmbuf DCH_MAX_DATALEN s0 of
        (s, None) \<Rightarrow> s
      | (s, Some m) \<Rightarrow>
          case i4b_make_q850_cause (u32_of_u8 cause_out) of
            None \<Rightarrow> fault s
          | Some q850 \<Rightarrow>
              send_message p DCH_MAX_DATALEN m
                ([0x08] @ make_callreference (primary_rate s) call_ref @ [message_type] @
                 (if has_flag flag L3_TX_CAUSE then [0x08, 2, cause_location s, q850 OR 0x80] else []) @
                 (if has_flag flag L3_TX_RESTARTI then [0x79, 1, restart_indication OR 0x80] else [])) s)"


section \<open>Messages fit their buffers\<close>

lemma length_ie_string: "length (ie_string iei prefix str) \<le> 2 + length prefix + length str"
  by (simp add: ie_string_def)

lemma length_IEI_channelid: "length (IEI_channelid s cd) \<le> 5"
  by (simp add: IEI_channelid_def Let_def)

lemma length_ie_bearercap: "length (ie_bearercap cd) \<le> 5"
  by (simp add: ie_bearercap_def Let_def split: bprot.splits)

lemma length_ie_deflect: "length (ie_deflect str) \<le> 18 + length str"
  by (simp add: ie_deflect_def Let_def)

lemma length_make_callreference: "length (make_callreference primary cr) \<le> 5"
  using cr_length_range(2) [of primary cr] by (simp add: make_callreference_def Let_def)

lemma length_ie_source:
  assumes "src_ok p_src"
  shows "length (ie_source p_src) \<le> 67"
proof -
  have a: "length (ie_string 0x6C prefix (src_telno p_src)) \<le> 44" if "length prefix \<le> 2" for prefix
    using length_ie_string [of "0x6C" prefix "src_telno p_src"] assms that by (simp add: src_ok_def)
  have b: "length (ie_string 0x6D [0x80] (src_subaddr p_src)) \<le> 23"
    using length_ie_string [of "0x6D" "[0x80]" "src_subaddr p_src"] assms by (simp add: src_ok_def)
  have "length (ie_source p_src) \<le> 44 + 23"
    unfolding ie_source_def Let_def length_append by (intro add_mono a b) simp
  then show ?thesis
    by simp
qed

lemma length_l3_message: "strings_ok cd \<Longrightarrow> length (l3_message s cd message_type flag q850) \<le> 146"
proof -
  assume ok: "strings_ok cd"
  have a: "length (ie_string 0x70 [0x81] (cd_dst_telno_early cd)) \<le> 43"
    using length_ie_string [of "0x70" "[0x81]" "cd_dst_telno_early cd"] ok by (simp add: strings_ok_def)
  have b: "length (ie_deflect (cd_dst_telno_part cd)) \<le> 58"
    using length_ie_deflect [of "cd_dst_telno_part cd"] ok by (simp add: strings_ok_def)
  have c: "length (ie_string 0x29 [] (take 8 (cd_odate_time cd))) \<le> 10"
    using length_ie_string [of "0x29" "[]" "take 8 (cd_odate_time cd)"] by simp
  have if_le: "length (if P then xs else []) \<le> n" if "length xs \<le> n" for P n and xs :: "u8 list"
    using that by simp
  have "length (l3_message s cd message_type flag q850) \<le> 1 + (5 + (1 + (4 + (3 + (5 + (4 + (43 + (58 + (12 + (10))))))))))"
    unfolding l3_message_def length_append
    by (intro add_mono if_le a b c length_make_callreference length_IEI_channelid) (simp_all add: ie_mcid_def)
  then show ?thesis
    by simp
qed

lemma length_setup_message: "strings_ok cd \<Longrightarrow> length (setup_message s cd) \<le> 509"
proof -
  assume ok: "strings_ok cd"
  have str: "length (ie_string iei prefix str) \<le> n" if "2 + length prefix + length str \<le> n" for iei prefix str n
    using length_ie_string [of iei prefix str] that by linarith
  have if_le: "length (if P then xs else []) \<le> n" if "length xs \<le> n" for P n and xs :: "u8 list"
    using that by simp
  have "length (setup_message s cd) \<le> 1 + (5 + (1 + (1 + (5 + (5 + (36 + (67 + (67 + (43 + (23 + (130 + (92))))))))))))"
    unfolding setup_message_def length_append
    by (intro add_mono if_le str length_make_callreference length_IEI_channelid length_ie_source length_ie_bearercap)
      (use ok in \<open>simp_all add: strings_ok_def\<close>)
  then show ?thesis
    by simp
qed

section \<open>Sending is quiet\<close>

lemma kept_enqueue:
  assumes "new_key (frame_key m)" "length (ifq pi) < ifq_maxlen pi"
  shows "pipe_kept pi (pi\<lparr>ifq := ifq pi @ [m]\<rparr>)"
  using assms by (simp add: pipe_kept_def backlog_ok_def)

lemma quiet_data_req [quiet_intros]:
  assumes "quiet s t" "new_key (frame_key m)"
  shows "quiet s (dss1_pipe_data_req p m t)"
proof (cases "length (ifq (pipe_at t p)) < ifq_maxlen (pipe_at t p)")
  case True
  have "pipe_upd p (\<lambda>pi. pi\<lparr>ifq := ifq pi @ [m]\<rparr>) t =
      pipe_upd p (\<lambda>pi. if length (ifq pi) < ifq_maxlen pi then pi\<lparr>ifq := ifq pi @ [m]\<rparr> else pi) t"
    using True by (simp add: pipe_upd_def pipe_at_def)
  then have "quiet s (pipe_upd p (\<lambda>pi. pi\<lparr>ifq := ifq pi @ [m]\<rparr>) t)"
    using assms by (simp add: quiet_pipe_upd pipe_core_def kept_enqueue)
  then show ?thesis
    using assms(1) by (auto simp: dss1_pipe_data_req_def intro: quiet_emit)
qed (use assms in \<open>simp add: dss1_pipe_data_req_def\<close>)

lemma quiet_l2_data_req [quiet_intros]: "quiet s t \<Longrightarrow> quiet s (dss1_l2_data_req m t)"
  unfolding dss1_l2_data_req_def
  by (auto intro!: quiet_emit elim!: quiet_same)

lemma quiet_send_message:
  assumes "quiet s t" "I_HEADER_LEN + length msg \<le> sz" "i4b_getmbuf sz u = (u', Some m)"
  shows "quiet s (send_message p sz m msg t)"
proof -
  have "new_key (frame_key (m\<lparr>m_mem := take I_HEADER_LEN (m_mem m) @ msg, m_len := I_HEADER_LEN + length msg\<rparr>))"
    using getmbuf_frame [OF assms(3)] assms(2) by (simp add: new_key_def frame_key_def I_HEADER_LEN_def)
  then show ?thesis
    using assms(1,2) by (simp add: send_message_def quiet_data_req)
qed

lemma quiet_tx_setup [quiet_intros]:
  assumes "quiet s t" "ready s i"
  shows "quiet s (dss1_l3_tx_setup i t)"
proof (cases "i4b_getmbuf SETUP_MAX_DATALEN t")
  case (Pair t1 r)
  have t1: "quiet s t1"
    by (rule quiet_getmbuf_pair [OF assms(1) Pair])
  have r: "ready t1 i"
    using quiet_ready [OF t1] assms(2) by blast
  then obtain p where p: "cd_pipe (cd_at t1 i) = Some p"
    using readyD(2) by blast
  have len: "I_HEADER_LEN + length (setup_message t1 (cd_at t1 i)) \<le> SETUP_MAX_DATALEN"
    using length_setup_message [OF readyD(4) [OF r], of t1] by (simp add: I_HEADER_LEN_def SETUP_MAX_DATALEN_def)
  have u: "quiet s (cd_upd i (\<lambda>cd. cd\<lparr>cd_dst_telno_ptr := length (cd_dst_telno cd)\<rparr>) t1)"
    using readyD(4) [OF r] by (intro quiet_cd_upd t1) (simp add: cd_core_def cause_ok_def strings_ok_def)
  show ?thesis
    using Pair p t1 u len by (auto simp: dss1_l3_tx_setup_def Let_def intro: quiet_send_message split: option.splits)
qed

lemma quiet_tx_message [quiet_intros]:
  assumes "quiet s t" "ready s i"
  shows "quiet s (dss1_l3_tx_message i mt flag t)"
proof (cases "i4b_getmbuf DCH_MAX_DATALEN t")
  case (Pair t1 r)
  have t1: "quiet s t1"
    by (rule quiet_getmbuf_pair [OF assms(1) Pair])
  have r: "ready t1 i" and rt: "ready t i"
    using quiet_ready [OF t1] quiet_ready [OF assms(1)] assms(2) by blast+
  then obtain p where p: "cd_pipe (cd_at t i) = Some p"
    using readyD(2) by blast
  have len: "I_HEADER_LEN + length (l3_message t1 (cd_at t1 i) mt flag q) \<le> DCH_MAX_DATALEN" for q
    using length_l3_message [OF readyD(4) [OF r], of t1 mt flag q] by (simp add: I_HEADER_LEN_def DCH_MAX_DATALEN_def)
  have u: "quiet s (cd_upd i (\<lambda>cd. cd\<lparr>cd_odate_time := take 8 (cd_odate_time cd)\<rparr>) t1)"
    by (intro quiet_cd_upd t1) (simp add: cd_core_def cause_ok_def strings_ok_def)
  have c: "i4b_make_q850_cause (cd_cause_out (cd_at t1 i)) \<noteq> None"
    using readyD(3) [OF r] by (simp add: cause_ok_def)
  show ?thesis
    using Pair p t1 u c quiet_send_message [OF t1 len] quiet_send_message [OF u len]
    by (auto simp: dss1_l3_tx_message_def Let_def split: option.splits)
qed

lemma q850_ok: "drop_bit 8 c AND 0xFF = 0 \<Longrightarrow> i4b_make_q850_cause c \<noteq> None"
  by (simp add: i4b_make_q850_cause_def Let_def)

lemma q850_u8: "i4b_make_q850_cause (u32_of_u8 c) \<noteq> None"
proof (rule q850_ok)
  show "drop_bit 8 (u32_of_u8 c) AND 0xFF = 0"
    by (rule bit_word_eqI) (auto simp: bit_simps)
qed

lemma quiet_tx_message_by_pipe_cr [quiet_intros]:
  assumes "quiet s t"
  shows "quiet s (dss1_l3_tx_message_by_pipe_cr p cr mt flag cause ri t)"
proof (cases "i4b_getmbuf DCH_MAX_DATALEN t")
  case (Pair t1 r)
  have t1: "quiet s t1"
    by (rule quiet_getmbuf_pair [OF assms Pair])
  show ?thesis
    using Pair t1 q850_u8 [of cause] length_make_callreference [of "primary_rate t1" cr]
    by (auto simp: dss1_l3_tx_message_by_pipe_cr_def I_HEADER_LEN_def DCH_MAX_DATALEN_def
        intro!: quiet_send_message split: option.splits)
qed


lemma cd_core_pipe_cong: "cd_core a = cd_core b \<Longrightarrow> cd_core (a\<lparr>cd_pipe := x\<rparr>) = cd_core (b\<lparr>cd_pipe := x\<rparr>)"
  by (auto simp: cd_core_def cause_ok_def strings_ok_def split: if_splits)

lemma quiet_pipe_set_cong:
  assumes "quiet v w"
  shows "quiet (cd_upd i (\<lambda>cd. cd\<lparr>cd_pipe := x\<rparr>) v) (cd_upd i (\<lambda>cd. cd\<lparr>cd_pipe := x\<rparr>) w)"
proof -
  have len: "length (N_call_desc w) = length (N_call_desc v)"
    using assms by (rule quiet_fields)
  have "map cd_core (N_call_desc (cd_upd i (\<lambda>cd. cd\<lparr>cd_pipe := x\<rparr>) w))
      = map cd_core (N_call_desc (cd_upd i (\<lambda>cd. cd\<lparr>cd_pipe := x\<rparr>) v))"
  proof (rule nth_equalityI)
    fix j
    assume "j < length (map cd_core (N_call_desc (cd_upd i (\<lambda>cd. cd\<lparr>cd_pipe := x\<rparr>) w)))"
    then show "map cd_core (N_call_desc (cd_upd i (\<lambda>cd. cd\<lparr>cd_pipe := x\<rparr>) w)) ! j
        = map cd_core (N_call_desc (cd_upd i (\<lambda>cd. cd\<lparr>cd_pipe := x\<rparr>) v)) ! j"
      using quiet_cd [OF assms, of j] len cd_core_pipe_cong [of "cd_at w j" "cd_at v j" x]
      by (cases "j = i") (simp_all add: cd_upd_def cd_at_def)
  qed (simp add: len)
  then show ?thesis
    using assms by (simp add: quiet_def pipe_at_def cd_upd_def)
qed

lemma cd_pipe_twice: "cd_upd i (\<lambda>cd. cd\<lparr>cd_pipe := x\<rparr>) (cd_upd i (\<lambda>cd. cd\<lparr>cd_pipe := y\<rparr>) u) = cd_upd i (\<lambda>cd. cd\<lparr>cd_pipe := x\<rparr>) u"
  by (cases "i < length (N_call_desc u)") (simp_all add: cd_upd_def list_update_beyond)

lemma quiet_tx_complement_pipe:
  assumes q: "quiet s (cd_upd i (\<lambda>cd. cd\<lparr>cd_pipe := x\<rparr>) u)" and "ready s i"
  shows "quiet s (cd_upd i (\<lambda>cd. cd\<lparr>cd_pipe := x\<rparr>) (tx_complement_pipe i p1 p2 mt fl p u))"
proof -
  let ?v = "cd_upd i (\<lambda>cd. cd\<lparr>cd_pipe := Some p\<rparr>) u"
  have "ready (cd_upd i (\<lambda>cd. cd\<lparr>cd_pipe := x\<rparr>) u) i"
    using quiet_ready [OF q] assms(2) by blast
  then have "ready ?v i"
    by (auto simp: ready_def cause_ok_def strings_ok_def)
  then have "quiet ?v (dss1_l3_tx_message i mt fl ?v)"
    by (intro quiet_tx_message) simp_all
  from quiet_pipe_set_cong [OF this, of i x] show ?thesis
    using q quiet_trans by (auto simp: tx_complement_pipe_def cd_pipe_twice)
qed

lemma quiet_tx_message_complement [quiet_intros]:
  assumes "quiet s t" "ready s i"
  shows "quiet s (dss1_l3_tx_message_complement i p1 p2 mt fl t)"
proof -
  obtain q where q: "cd_pipe (cd_at t i) = Some q" and i: "i < length (N_call_desc t)"
    using quiet_ready [OF assms(1)] assms(2) readyD by blast
  have start: "quiet s (cd_upd i (\<lambda>cd. cd\<lparr>cd_pipe := Some q\<rparr>) t)"
    using assms(1) by (rule quiet_cd_upd) (simp add: cd_core_def cause_ok_def strings_ok_def q)
  have "quiet s (cd_upd i (\<lambda>cd. cd\<lparr>cd_pipe := Some q\<rparr>) (fold (tx_complement_pipe i p1 p2 mt fl) ps u))"
    if "quiet s (cd_upd i (\<lambda>cd. cd\<lparr>cd_pipe := Some q\<rparr>) u)" for ps u
    using that by (induction ps arbitrary: u) (simp_all add: quiet_tx_complement_pipe [OF _ assms(2)])
  from this [OF start] show ?thesis
    by (simp add: dss1_l3_tx_message_complement_def q)
qed

end
