(* ===== verification/L4_Indications.thy ===== *)
theory L4_Indications
  imports DSS1_State
begin

unbundle bit_operations_syntax

text \<open>
  What layer 4 tells the applications about a call, \<^verbatim>\<open>src/src/sys/i4b/layer4/i4b_l4.c\<close>: the
  indications, the link of a call to its B-channel driver, and the start of the shorthold timer.
  The messages handed to \<open>i4b_ai_putqueue\<close>, to the CAPI interface and to \<open>i4b_setup_driver\<close> are
  recorded in the trace; the layout of a message in its mbuf is not represented.
\<close>

section \<open>Messages\<close>

definition to_i4b :: "call_desc \<Rightarrow> bool" where
  "to_i4b cd \<longleftrightarrow> cd_ai_type cd = 1 \<or> cd_ai_type cd = 0"

definition to_capi :: "call_desc \<Rightarrow> bool" where
  "to_capi cd \<longleftrightarrow> cd_ai_type cd = 2 \<or> cd_ai_type cd = 0"

definition ai_put :: "nat \<Rightarrow> i4b_msg \<Rightarrow> l2softc \<Rightarrow> l2softc" where
  "ai_put ai_ptr msg s =
     (case i4b_getmbuf 0 s of (s, None) \<Rightarrow> s | (s, Some _) \<Rightarrow> emit (AI_PUTQUEUE ai_ptr msg) s)"

definition ind_i4b :: "nat \<Rightarrow> (call_desc \<Rightarrow> i4b_msg) \<Rightarrow> l2softc \<Rightarrow> l2softc" where
  "ind_i4b i msg s = (let cd = cd_at s i in if to_i4b cd then ai_put (cd_ai_ptr cd) (msg cd) s else s)"

definition ind_capi :: "nat \<Rightarrow> (call_desc \<Rightarrow> event list) \<Rightarrow> l2softc \<Rightarrow> l2softc" where
  "ind_capi i evs s = (let cd = cd_at s i in if to_capi cd then fold emit (evs cd) s else s)"

definition i4b_l4_teiasg :: "u8 \<Rightarrow> u8 \<Rightarrow> l2softc \<Rightarrow> l2softc" where
  "i4b_l4_teiasg controller te = ai_put 0 (MSG_TEIASG_IND controller te)"

text \<open>\<open>TELNO_EMPTY\<close> is the string NotAvailable.\<close>

definition TELNO_EMPTY :: cstring where
  "TELNO_EMPTY = [78, 111, 116, 65, 118, 97, 105, 108, 97, 98, 108, 101]"

definition telno_copy :: "cstring \<Rightarrow> cstring" where
  "telno_copy src = (if src = [] then TELNO_EMPTY else src)"

definition connect_ind_of :: "call_desc \<Rightarrow> connect_ind" where
  "connect_ind_of cd = \<lparr>ci_channel = cd_channel_id cd, ci_bprot = cd_channel_bprot cd,
     ci_sending_complete = cd_sending_complete cd, ci_dst_telno = cd_dst_telno cd, ci_dst_subaddr = cd_dst_subaddr cd,
     ci_src_telno = telno_copy (src_telno (fst (cd_src cd))), ci_src_subaddr = telno_copy (src_subaddr (fst (cd_src cd))),
     ci_src_ton = src_ton (fst (cd_src cd)), ci_dst_ton = cd_dst_ton cd, ci_display = cd_display cd,
     ci_user_user = cd_user_user cd, ci_scr_ind = src_scr_ind (fst (cd_src cd)), ci_prs_ind = src_prs_ind (fst (cd_src cd))\<rparr>"

text \<open>The number of listeners a connect indication reaches is the next answer of the environment.\<close>

definition count_listeners :: "l2softc \<times> u16 \<Rightarrow> l2softc \<times> u16" where
  "count_listeners r =
     (case r of (s, n) \<Rightarrow>
        case env_listeners s of [] \<Rightarrow> (s, n) | k # ks \<Rightarrow> (s\<lparr>env_listeners := ks\<rparr>, n + k))"

definition i4b_ai_connect_ind :: "nat \<Rightarrow> l2softc \<times> u16 \<Rightarrow> l2softc \<times> u16" where
  "i4b_ai_connect_ind i r =
     (case r of (s, n) \<Rightarrow>
        case i4b_getmbuf 0 s of
          (s, None) \<Rightarrow> (s, n)
        | (s, Some _) \<Rightarrow> let cd = cd_at s i
            in count_listeners (emit (AI_PUTQUEUE (cd_ai_ptr cd) (MSG_CONNECT_IND (cd_cdid cd) (connect_ind_of cd))) s, n))"

definition i4b_l4_connect_ind :: "nat \<Rightarrow> l2softc \<Rightarrow> l2softc \<times> u16" where
  "i4b_l4_connect_ind i s =
     (let r = (if to_i4b (cd_at s i) then i4b_ai_connect_ind i (s, 0) else (s, 0))
      in if to_capi (cd_at s i)
         then case count_listeners (emit (CAPI_CONNECT_IND (cd_cdid (cd_at s i))) (fst r), snd r) of
                (s', n) \<Rightarrow> (emit (CAPI_INFO_IND (cd_cdid (cd_at s i)) 0x8005 []) s', n)
         else r)"

text \<open>
  \<open>snprintf\<close> writes the type octet and the digits into an array of \<open>TELNO_MAX\<close> octets, so that a part
  of 40 digits loses its last one.
\<close>

definition i4b_l4_information_ind :: "nat \<Rightarrow> l2softc \<Rightarrow> l2softc" where
  "i4b_l4_information_ind i s =
     (let part = cd_dst_telno_part (cd_at s i);
          temp = (if cd_dst_ton (cd_at s i) = 1 then 0x91 else if cd_dst_ton (cd_at s i) = 2 then 0xA1 else 0x81);
          digits = take 39 part
      in if part = [] then s
         else ind_capi i (\<lambda>cd. [CAPI_INFO_IND (cd_cdid cd) 0x0070
                ([temp] @ digits @ replicate (length part - length digits) 0)])
              (ind_i4b i (\<lambda>cd. MSG_INFORMATION_IND (cd_cdid cd) digits) s))"

definition i4b_l4_idle_timeout_ind :: "nat \<Rightarrow> l2softc \<Rightarrow> l2softc" where
  "i4b_l4_idle_timeout_ind i = ind_i4b i (\<lambda>cd. MSG_IDLE_TIMEOUT_IND (cd_cdid cd))"

definition i4b_l4_charging_ind :: "nat \<Rightarrow> l2softc \<Rightarrow> l2softc" where
  "i4b_l4_charging_ind i = ind_i4b i (\<lambda>cd. MSG_CHARGING_IND (cd_cdid cd) (cd_units_type cd)
     (if cd_units_type cd = 3 then cd_cunits cd else cd_units cd))"

definition i4b_l4_alert_ind :: "nat \<Rightarrow> l2softc \<Rightarrow> l2softc" where
  "i4b_l4_alert_ind i s =
     ind_capi i (\<lambda>cd. [CAPI_INFO_IND (cd_cdid cd) 0x8001 []]) (ind_i4b i (\<lambda>cd. MSG_ALERT_IND (cd_cdid cd)) s)"

definition i4b_l4_proceeding_ind :: "nat \<Rightarrow> bool \<Rightarrow> bool \<Rightarrow> l2softc \<Rightarrow> l2softc" where
  "i4b_l4_proceeding_ind i sending_complete progress s =
     ind_capi i (\<lambda>cd. CAPI_INFO_IND (cd_cdid cd) (if sending_complete then 0x8002 else 0x800D) [] #
         (if cd_channel_id cd \<noteq> CHAN_ANY \<and> cd_channel_id cd \<noteq> CHAN_NOT_ANY \<and> progress
          then [CAPI_INFO_IND (cd_cdid cd) 0x001E [0x02, 0x80, 0x88]] else []))
       (ind_i4b i (\<lambda>cd. MSG_PROCEEDING_IND (cd_cdid cd) sending_complete) s)"

definition i4b_l4_retrieve_ind :: "nat \<Rightarrow> l2softc \<Rightarrow> l2softc" where
  "i4b_l4_retrieve_ind i s =
     ind_capi i (\<lambda>cd. [CAPI_INFO_IND (cd_cdid cd) 0x0027 [0x01, 0xFA]]) (ind_i4b i (\<lambda>cd. MSG_RETRIEVE_IND (cd_cdid cd)) s)"

definition i4b_l4_hold_ind :: "nat \<Rightarrow> l2softc \<Rightarrow> l2softc" where
  "i4b_l4_hold_ind i s =
     ind_capi i (\<lambda>cd. [CAPI_INFO_IND (cd_cdid cd) 0x0027 [0x01, 0xF9]]) (ind_i4b i (\<lambda>cd. MSG_HOLD_IND (cd_cdid cd)) s)"

definition i4b_l4_pre_disconnect_ind :: "nat \<Rightarrow> l2softc \<Rightarrow> l2softc" where
  "i4b_l4_pre_disconnect_ind i s =
     ind_capi i (\<lambda>cd. [CAPI_INFO_IND (cd_cdid cd) 0x8045 []])
       (ind_i4b i (\<lambda>cd. MSG_PRE_DISCONNECT_IND (cd_cdid cd) (cd_cause_in cd)) s)"

section \<open>The B-channel driver of a call\<close>

definition I4B_B_PROTOCOLS_PROTOCOL :: "bprot \<Rightarrow> nat" where
  "I4B_B_PROTOCOLS_PROTOCOL b =
     (case b of BPROT_DISABLE \<Rightarrow> 0 | BPROT_NONE_VOD \<Rightarrow> 10 | BPROT_RHDLC \<Rightarrow> 1 | BPROT_RHDLC_DOV \<Rightarrow> 1
      | BPROT_NONE \<Rightarrow> 10 | BPROT_NONE_3_1_KHZ \<Rightarrow> 10)"

definition setup_bchan :: "nat \<Rightarrow> nat \<Rightarrow> nat \<Rightarrow> l2softc \<Rightarrow> l2softc" where
  "setup_bchan i protocol_1 protocol_4 s =
     (let cd = cd_at s i
      in if cd_channel_allocated cd
         then emit (I4B_SETUP_DRIVER (cd_channel_id cd) protocol_1 protocol_4 (cd_driver_type_copy cd) (cd_driver_unit_copy cd)) s
         else s)"

definition unlink_bchandrvr :: "nat \<Rightarrow> l2softc \<Rightarrow> l2softc" where
  "unlink_bchandrvr i s = setup_bchan i 0 0 (cd_upd i (\<lambda>cd. cd\<lparr>cd_b_link_want_active := False\<rparr>) s)"

definition i4b_link_bchandrvr :: "nat \<Rightarrow> bool \<Rightarrow> l2softc \<Rightarrow> l2softc" where
  "i4b_link_bchandrvr i activate s0 =
     (if activate
      then let s = cd_upd i (\<lambda>cd. cd\<lparr>cd_driver_type_copy := cd_driver_type cd, cd_driver_unit_copy := cd_driver_unit cd,
                                   cd_b_link_want_active := True\<rparr>) (unlink_bchandrvr i s0)
           in setup_bchan i (I4B_B_PROTOCOLS_PROTOCOL (cd_channel_bprot (cd_at s i))) (cd_channel_bsubprot (cd_at s i)) s
      else unlink_bchandrvr i s0)"

definition i4b_l4_disconnect_ind :: "nat \<Rightarrow> l2softc \<Rightarrow> l2softc" where
  "i4b_l4_disconnect_ind i s =
     ind_capi i (\<lambda>cd. [CAPI_INFO_IND (cd_cdid cd) 0x805A [], CAPI_DISCONNECT_IND (cd_cdid cd)])
       (ind_i4b i (\<lambda>cd. MSG_DISCONNECT_IND (cd_cdid cd) (cd_cause_in cd)) (i4b_link_bchandrvr i False s))"

text \<open>With the flag \<open>complement\<close> set: every interface but the one of the call is told, the B-channel stays.\<close>

definition i4b_l4_disconnect_ind_others :: "nat \<Rightarrow> l2softc \<Rightarrow> l2softc" where
  "i4b_l4_disconnect_ind_others i s0 =
     (let cd = cd_at s0 i;
          s = (case i4b_getmbuf 0 s0 of
                 (s, None) \<Rightarrow> s
               | (s, Some _) \<Rightarrow> emit (AI_PUTQUEUE_OTHERS (cd_ai_ptr cd) (MSG_DISCONNECT_IND (cd_cdid cd) (cd_cause_in cd))) s)
      in emit (CAPI_DISCONNECT_IND_OTHERS (cd_cdid cd)) (emit (CAPI_INFO_IND_OTHERS (cd_cdid cd) 0x805A) s))"

section \<open>The shorthold timer\<close>

text \<open>The case \<open>IST_STARTED\<close> of \<open>i4b_idle_check\<close>: charge a unit and wait for its length.\<close>

definition idle_unit :: "nat \<Rightarrow> l2softc \<Rightarrow> l2softc" where
  "idle_unit i s0 =
     (let s = (if cd_aocd_flag (cd_at s0 i) then s0
               else i4b_l4_charging_ind i (cd_upd i (\<lambda>cd. cd\<lparr>cd_units_type := 3, cd_cunits := cd_cunits cd + 1\<rparr>) s0))
      in cd_upd i (\<lambda>cd. cd\<lparr>cd_idle_state := 2, cd_idle_callout := Some (unitlen_time (cd_shorthold_data cd))\<rparr>) s)"

definition shorthold_parms :: "call_desc \<Rightarrow> msg_shorthold \<times> bool \<times> int" where
  "shorthold_parms cd =
     (let sh = cd_shorthold_data cd
      in if \<not> cd_dir_incoming cd \<and> 0 < unitlen_time sh \<and> earlyhup_time sh < unitlen_time sh
         then if shorthold_algorithm sh = 1
              then (sh\<lparr>unitlen_time := unitlen_time sh - 1, earlyhup_time := 0\<rparr>, True, 1)
              else (sh\<lparr>unitlen_time := unitlen_time sh - earlyhup_time sh\<rparr>, cd_aocd_flag cd, 0)
         else (sh\<lparr>unitlen_time := 1, earlyhup_time := 0\<rparr>, True, 0))"

definition i4b_l4_setup_timeout :: "nat \<Rightarrow> l2softc \<Rightarrow> l2softc" where
  "i4b_l4_setup_timeout i s0 =
     (case shorthold_parms (cd_at s0 i) of
        (sh, aocd, next) \<Rightarrow>
          let s1 = cd_upd i (\<lambda>cd. cd\<lparr>cd_shorthold_data := sh, cd_aocd_flag := aocd\<rparr>) s0;
              s2 = (if cd_idle_state (cd_at s1 i) = 0 \<and> (\<not> aocd \<or> 0 < idle_time sh)
                    then let s = cd_upd i (\<lambda>cd. cd\<lparr>cd_idle_state := 1\<rparr>) s1
                         in if sc_fifo s \<and> cd_cdid (cd_at s i) \<noteq> CDID_UNUSED then idle_unit i s else s
                    else s1)
          in if next \<noteq> 0
             then cd_upd i (\<lambda>cd. cd\<lparr>cd_shorthold_data := (cd_shorthold_data cd)\<lparr>unitlen_time := next\<rparr>\<rparr>) s2 else s2)"

text \<open>\<open>snprintf\<close> of six two-digit numbers.\<close>

definition datetime_string :: "u8 list \<Rightarrow> cstring" where
  "datetime_string idate =
     (if idate = [] then []
      else concat (map (\<lambda>b. [48 + (b mod 100) div 10, 48 + (b mod 100) mod 10]) (take 6 (idate @ replicate 6 0))))"

definition i4b_l4_connect_active_ind :: "nat \<Rightarrow> l2softc \<Rightarrow> l2softc" where
  "i4b_l4_connect_active_ind i s0 =
     (let s = cd_upd i (\<lambda>cd. cd\<lparr>cd_last_active_time := env_second s0, cd_connect_time := env_second s0\<rparr>) s0
      in ind_capi i (\<lambda>cd. [CAPI_CONNECT_ACTIVE_IND (cd_cdid cd),
                           CAPI_INFO_IND (cd_cdid cd) (if cd_dir_incoming cd then 0x800F else 0x8007) []])
           (ind_i4b i (\<lambda>cd. MSG_CONNECT_ACTIVE_IND (cd_cdid cd) (cd_channel_id cd) (datetime_string (cd_idate_time cd)))
             (i4b_l4_setup_timeout i s)))"

section \<open>Indications are quiet\<close>

lemma quiet_ai_put [quiet_intros]: "quiet s t \<Longrightarrow> quiet s (ai_put p msg t)"
  using quiet_getmbuf [of s t 0] by (auto simp: ai_put_def intro: quiet_emit split: prod.splits option.splits)

lemma quiet_fold_emit [quiet_intros]: "quiet s t \<Longrightarrow> quiet s (fold emit evs t)"
  by (induction evs arbitrary: t) (simp_all add: quiet_emit)

lemma quiet_ind_i4b [quiet_intros]: "quiet s t \<Longrightarrow> quiet s (ind_i4b i msg t)"
  by (simp add: ind_i4b_def Let_def quiet_ai_put)

lemma quiet_ind_capi [quiet_intros]: "quiet s t \<Longrightarrow> quiet s (ind_capi i evs t)"
  by (simp add: ind_capi_def Let_def quiet_fold_emit)

lemma quiet_count_listeners: "quiet s (fst r) \<Longrightarrow> quiet s (fst (count_listeners r))"
  by (cases r) (auto simp: count_listeners_def split: list.splits elim: quiet_same)

lemma quiet_connect_ind [quiet_intros]:
  assumes "quiet s t"
  shows "quiet s (fst (i4b_l4_connect_ind i t))"
proof -
  have "quiet s (fst (i4b_ai_connect_ind i (t, n)))" for n
    using quiet_getmbuf [OF assms, of 0]
    by (auto simp: i4b_ai_connect_ind_def Let_def intro!: quiet_count_listeners quiet_emit split: prod.splits option.splits)
  then have r: "quiet s (fst (if to_i4b (cd_at t i) then i4b_ai_connect_ind i (t, 0) else (t, 0)))"
    using assms by simp
  have "quiet s t'" if "count_listeners (emit e (fst r), snd r) = (t', n)" "quiet s (fst r)" for e r t' n
    using quiet_count_listeners [of s "(emit e (fst r), snd r)"] that by (simp add: quiet_emit)
  then have "quiet s (fst (case count_listeners (emit e (fst r), snd r) of (s', n) \<Rightarrow> (emit e' s', n)))"
    if "quiet s (fst r)" for e e' r
    using that by (auto intro: quiet_emit split: prod.splits)
  from this [OF r] r show ?thesis
    unfolding i4b_l4_connect_ind_def Let_def by simp
qed

lemma quiet_l4_inds [quiet_intros]:
  assumes "quiet s t"
  shows "quiet s (i4b_l4_teiasg c te t)" "quiet s (i4b_l4_information_ind i t)" "quiet s (i4b_l4_idle_timeout_ind i t)"
    "quiet s (i4b_l4_charging_ind i t)" "quiet s (i4b_l4_alert_ind i t)" "quiet s (i4b_l4_proceeding_ind i sc pr t)"
    "quiet s (i4b_l4_retrieve_ind i t)" "quiet s (i4b_l4_hold_ind i t)" "quiet s (i4b_l4_pre_disconnect_ind i t)"
  using assms by (auto simp: i4b_l4_teiasg_def i4b_l4_information_ind_def i4b_l4_idle_timeout_ind_def
      i4b_l4_charging_ind_def i4b_l4_alert_ind_def i4b_l4_proceeding_ind_def i4b_l4_retrieve_ind_def i4b_l4_hold_ind_def
      i4b_l4_pre_disconnect_ind_def Let_def intro!: quiet_intros)

lemma quiet_setup_bchan [quiet_intros]: "quiet s t \<Longrightarrow> quiet s (setup_bchan i a b t)"
  by (simp add: setup_bchan_def Let_def quiet_emit)

lemma quiet_link_bchandrvr [quiet_intros]: "quiet s t \<Longrightarrow> quiet s (i4b_link_bchandrvr i act t)"
  by (auto simp: i4b_link_bchandrvr_def unlink_bchandrvr_def Let_def cd_core_def cause_ok_def strings_ok_def
      intro!: quiet_intros)

lemma quiet_disconnect_ind [quiet_intros]: "quiet s t \<Longrightarrow> quiet s (i4b_l4_disconnect_ind i t)"
  by (auto simp: i4b_l4_disconnect_ind_def intro!: quiet_intros)

lemma quiet_idle_unit [quiet_intros]: "quiet s t \<Longrightarrow> quiet s (idle_unit i t)"
  by (auto simp: idle_unit_def Let_def cd_core_def cause_ok_def strings_ok_def intro!: quiet_intros)

lemma quiet_setup_timeout [quiet_intros]: "quiet s t \<Longrightarrow> quiet s (i4b_l4_setup_timeout i t)"
  by (auto simp: i4b_l4_setup_timeout_def Let_def cd_core_def cause_ok_def strings_ok_def
      intro!: quiet_intros split: prod.splits)

lemma quiet_connect_active_ind [quiet_intros]: "quiet s t \<Longrightarrow> quiet s (i4b_l4_connect_active_ind i t)"
  by (auto simp: i4b_l4_connect_active_ind_def Let_def cd_core_def cause_ok_def strings_ok_def intro!: quiet_intros)

end
