(* ===== verification/DSS1_Call.thy ===== *)
theory DSS1_Call
  imports DSS1_Encoder L4_Indications
begin

unbundle bit_operations_syntax

text \<open>
  The life of a call: activation of layer 1 (\<^verbatim>\<open>src/src/sys/i4b/dss1/dss1_l3fsm.h\<close>), the release of a
  descriptor (\<open>n_free_cd\<close> of \<^verbatim>\<open>dss1_l3decoder.h\<close>) and \<open>cd_set_state\<close>, with the invariant that ties
  descriptors, links and the layer 1 activation count together.
\<close>

section \<open>Layer 1 activation\<close>

definition dss1_L1_activity_timeout :: "l2softc \<Rightarrow> l2softc" where
  "dss1_L1_activity_timeout s =
     (if sc_fifo s
      then let s = (if L1_activity s \<and> L1_auto_activate s = 0 \<and> \<not> sc_received_frame s \<and> \<not> no_power_save s
                    then if L1_deactivate_count s \<noteq> 0 then emit CMR_PH_DEACTIVATE s\<lparr>L1_deactivate_count := 0\<rparr>
                         else s\<lparr>L1_deactivate_count := 1\<rparr>
                    else s\<lparr>L1_deactivate_count := 0, sc_received_frame := False\<rparr>)
           in s\<lparr>L1_activity_callout := Some 15\<rparr>
      else s)"

definition dss1_L1_deactivate_req :: "l2softc \<Rightarrow> l2softc" where
  "dss1_L1_deactivate_req s0 =
     (let s = s0\<lparr>L1_auto_activate := L1_auto_activate s0 - 1\<rparr>
      in if L1_auto_activate s = 0 then dss1_L1_activity_timeout s else s)"

definition dss1_L1_activate_req :: "l2softc \<Rightarrow> l2softc" where
  "dss1_L1_activate_req s0 =
     (let s = s0\<lparr>L1_auto_activate := L1_auto_activate s0 + 1\<rparr>
      in if L1_auto_activate s0 = 0
         then emit CMR_PH_ACTIVATE (s\<lparr>L1_activity_callout := None, L1_deactivate_count := 0\<rparr>) else s)"

section \<open>Releasing a call\<close>

text \<open>The block \<open>if(cd->pipe)\<close> of \<open>cd_set_pipe\<close>.\<close>

definition cd_drop_pipe :: "nat \<Rightarrow> l2softc \<Rightarrow> l2softc" where
  "cd_drop_pipe i s =
     (case cd_pipe (cd_at s i) of
        None \<Rightarrow> s
      | Some p \<Rightarrow> dss1_L1_deactivate_req (pipe_upd p (\<lambda>pi. pi\<lparr>refcount := refcount pi - 1\<rparr>) s))"

text \<open>\<open>n_free_cd\<close>; its call of \<open>cd_set_pipe\<close> with a null pointer has no other effect.\<close>

definition n_free_cd :: "nat \<Rightarrow> l2softc \<Rightarrow> l2softc" where
  "n_free_cd i s0 =
     (let s1 = cd_set_appl_interface i 0 0 (i4b_l4_disconnect_ind i s0);
          s2 = cd_upd i (\<lambda>cd. cd\<lparr>cd_pipe := None\<rparr>) (cd_drop_pipe i s1)
      in i4b_free_cd i (cd_free_channel i s2))"

text \<open>Frames of a call still queued are cut down to their header, so that they keep their number.\<close>

definition cut_frame :: "u32 \<Rightarrow> mbuf \<Rightarrow> mbuf" where
  "cut_frame cr m =
     (let pos = m_off m + I_HEADER_LEN - (if m_proto1 m then 1 else 0)
      in if nth0 (m_mem m) pos = 0x08 \<and> get_callreference (drop (pos + 1) (m_mem m)) = cr
         then m\<lparr>m_len := pos - m_off m\<rparr> else m)"

definition dss1_pipe_data_acknowledge :: "nat \<Rightarrow> nat \<Rightarrow> l2softc \<Rightarrow> l2softc" where
  "dss1_pipe_data_acknowledge p i s = pipe_upd p (\<lambda>pi. pi\<lparr>ifq := map (cut_frame (cd_cr (cd_at s i))) (ifq pi)\<rparr>) s"

section \<open>Call states\<close>

text \<open>
  States are numbered as the enumeration \<open>L3_STATES\<close> does; the states whose name ends in \<open>_TO\<close> follow
  the state whose timer leads to them.
\<close>

abbreviation (input) "ST_L3_U0 \<equiv> (0 :: nat)"
abbreviation (input) "ST_L3_OUTGOING \<equiv> (1 :: nat)"
abbreviation (input) "ST_L3_U1 \<equiv> (2 :: nat)"
abbreviation (input) "ST_L3_U2 \<equiv> (3 :: nat)"
abbreviation (input) "ST_L3_U2_ACK \<equiv> (4 :: nat)"
abbreviation (input) "ST_L3_U3 \<equiv> (5 :: nat)"
abbreviation (input) "ST_L3_U3_TO \<equiv> (6 :: nat)"
abbreviation (input) "ST_L3_U4 \<equiv> (7 :: nat)"
abbreviation (input) "ST_L3_U4_TO \<equiv> (8 :: nat)"
abbreviation (input) "ST_L3_INCOMING \<equiv> (9 :: nat)"
abbreviation (input) "ST_L3_IN_ACK \<equiv> (10 :: nat)"
abbreviation (input) "ST_L3_U6 \<equiv> (11 :: nat)"
abbreviation (input) "ST_L3_U6_TO \<equiv> (12 :: nat)"
abbreviation (input) "ST_L3_U7 \<equiv> (13 :: nat)"
abbreviation (input) "ST_L3_U7_TO \<equiv> (14 :: nat)"
abbreviation (input) "ST_L3_U8 \<equiv> (15 :: nat)"
abbreviation (input) "ST_L3_UA \<equiv> (16 :: nat)"
abbreviation (input) "ST_L3_UA_TO \<equiv> (17 :: nat)"
abbreviation (input) "ST_L3_UC \<equiv> (18 :: nat)"
abbreviation (input) "ST_L3_UC_TO \<equiv> (19 :: nat)"

definition L3_STATES_TIMEOUT_DELAY :: "nat list" where
  "L3_STATES_TIMEOUT_DELAY = [0, 8, 8, 16, 16, 8, 4, 8, 4, 8, 16, 8, 4, 8, 4, 4, 8, 4, 8, 4]"

definition L3_STATES_TIMEOUT_STATE :: "nat list" where
  "L3_STATES_TIMEOUT_STATE =
     [ST_L3_U0, ST_L3_U0, ST_L3_U0, ST_L3_U0, ST_L3_U0, ST_L3_U3_TO, ST_L3_U0, ST_L3_U4_TO, ST_L3_U0,
      ST_L3_U0, ST_L3_U0, ST_L3_U6_TO, ST_L3_U0, ST_L3_U7_TO, ST_L3_U0, ST_L3_U0,
      ST_L3_UA_TO, ST_L3_U0, ST_L3_UC_TO, ST_L3_U0]"

definition is_to_state :: "nat \<Rightarrow> bool" where
  "is_to_state st \<longleftrightarrow> st = ST_L3_UC_TO \<or> st = ST_L3_UA_TO \<or> st = ST_L3_U3_TO \<or> st = ST_L3_U4_TO \<or>
     st = ST_L3_U6_TO \<or> st = ST_L3_U7_TO"

text \<open>
  The branch of \<open>cd_set_state\<close> for \<open>ST_L3_U0\<close>, \<open>p\<close> being the link of the call: what is sent before
  the descriptor is freed, and the branch itself.
\<close>

definition release_notify :: "nat \<Rightarrow> nat \<Rightarrow> l2softc \<Rightarrow> l2softc" where
  "release_notify i p s0 =
     (let s1 = dss1_pipe_data_acknowledge p i s0;
          s2 = (if cd_need_release (cd_at s1 i)
                then let s = (if cd_cause_out (cd_at s1 i) = 0 then cd_upd i (\<lambda>cd. cd\<lparr>cd_cause_out := 0x66\<rparr>) s1 else s1)
                     in if nt_mode s \<and> \<not> point_to_point s \<and> \<not> cd_dir_incoming (cd_at s i) \<and> p = 0
                        then dss1_l3_tx_message_complement i (Some p) None 0x5A L3_TX_CAUSE s
                        else dss1_l3_tx_message i 0x5A L3_TX_CAUSE s
                else s1)
      in if L1_activity s2 then s2 else cd_upd i (\<lambda>cd. cd\<lparr>cd_cause_in := 0x107\<rparr>) s2)"

definition cd_release :: "nat \<Rightarrow> nat \<Rightarrow> l2softc \<Rightarrow> l2softc" where
  "cd_release i p s = n_free_cd i (release_notify i p (cd_upd i (\<lambda>cd. cd\<lparr>cd_state := ST_L3_U0\<rparr>) s))"

text \<open>The other branch: the state actually entered, and whether a status enquiry is sent.\<close>

definition next_state :: "l2softc \<Rightarrow> call_desc \<Rightarrow> nat \<Rightarrow> nat \<times> bool \<times> bool" where
  "next_state s cd newstate =
     (if nt_mode s \<and> \<not> point_to_point s \<and> (newstate = ST_L3_U3_TO \<or> newstate = ST_L3_U4_TO)
      then if cd_peer_responded cd \<and> cd_status_enquiry_timeout cd < 8 then (newstate - 1, False, True)
           else (newstate, False, False)
      else if no_status_enquiry s \<and> is_to_state newstate then (newstate - 1, False, False)
      else (newstate, is_to_state newstate, False))"

definition cd_enter :: "nat \<Rightarrow> nat \<Rightarrow> l2softc \<Rightarrow> l2softc" where
  "cd_enter i newstate0 s0 =
     (case next_state s0 (cd_at s0 i) newstate0 of
        (newstate, enquiry, count) \<Rightarrow>
          let s1 = cd_upd i (\<lambda>cd. cd\<lparr>cd_state := newstate,
                     cd_status_enquiry_timeout := cd_status_enquiry_timeout cd + (if count then 1 else 0),
                     cd_set_state_callout := Some (L3_STATES_TIMEOUT_DELAY ! newstate + (if L1_activity s0 then 0 else 4))\<rparr>) s0;
              s2 = (if enquiry then dss1_l3_tx_message i 0x75 L3_TX_HEADER s1 else s1)
          in if cd_dst_telno_early (cd_at s2 i) \<noteq> [] \<and> newstate \<noteq> ST_L3_U2 \<and>
                (\<not> nt_mode s2 \<or> point_to_point s2 \<or> newstate = ST_L3_UA \<or> newstate = ST_L3_UA_TO)
             then cd_upd i (\<lambda>cd. cd\<lparr>cd_dst_telno_early := []\<rparr>) (dss1_l3_tx_message i 0x7B (L3_TX_HEADER OR L3_TX_CALLEDPN) s2)
             else s2)"

definition cd_set_state :: "nat \<Rightarrow> nat \<Rightarrow> l2softc \<Rightarrow> l2softc" where
  "cd_set_state i newstate s0 =
     (case cd_pipe (cd_at s0 i) of
        None \<Rightarrow> fault s0
      | Some p \<Rightarrow>
          let s1 = cd_upd i (\<lambda>cd. cd\<lparr>cd_set_state_callout := None\<rparr>) s0;
              s2 = (if newstate = ST_L3_U0 then cd_release i p s1 else cd_enter i newstate s1)
          in cd_upd i (\<lambda>cd. cd\<lparr>cd_tone_gen_state := L3_STATES_Q931_CONV ! cd_state cd\<rparr>) s2)"

definition cd_set_state_timeout :: "nat \<Rightarrow> l2softc \<Rightarrow> l2softc" where
  "cd_set_state_timeout i s =
     (if sc_fifo s then cd_set_state i (L3_STATES_TIMEOUT_STATE ! cd_state (cd_at s i)) s else s)"

end
