(* ===== verification/DSS1_Invariant.thy ===== *)
theory DSS1_Invariant
  imports DSS1_Call
begin

unbundle bit_operations_syntax

text \<open>
  The resource invariant of the DSS1 stack and its preservation by the release of a call and by
  \<open>cd_set_state\<close>. An unused descriptor holds no link and no channel; a used one holds a link, is in
  a proper state and has its timer running; the reference count of a link is the number of calls
  on it and the activation count of layer 1 the number of all linked calls; channels and ids are
  exclusive; and nothing has gone wrong.
\<close>

section \<open>The invariant\<close>

definition call_ok :: "call_desc \<Rightarrow> bool" where
  "call_ok cd \<longleftrightarrow>
     (if cd_cdid cd = CDID_UNUSED then cd_pipe cd = None \<and> \<not> cd_channel_allocated cd
      else (\<exists>p<PIPE_MAX. cd_pipe cd = Some p) \<and> 0 < cd_state cd \<and> cd_state cd < 20 \<and>
           cd_set_state_callout cd \<noteq> None \<and> cause_ok cd \<and> strings_ok cd)"

definition calls_on :: "l2softc \<Rightarrow> nat \<Rightarrow> nat set" where
  "calls_on s p = {i. i < length (N_call_desc s) \<and> cd_pipe (cd_at s i) = Some p}"

definition linked :: "l2softc \<Rightarrow> nat set" where
  "linked s = {i. i < length (N_call_desc s) \<and> cd_pipe (cd_at s i) \<noteq> None}"

text \<open>
  In NT mode on a bus, link 0 is the adapter link: it broadcasts, never has a TEI, and only its
  frames have the shorter header.
\<close>

definition adapter :: "l2softc \<Rightarrow> nat \<Rightarrow> bool" where
  "adapter s p \<longleftrightarrow> p = 0 \<and> nt_mode s \<and> \<not> point_to_point s"

definition key_ok :: "bool \<Rightarrow> nat \<times> nat \<times> nat \<times> bool \<Rightarrow> bool" where
  "key_ok ad k = (case k of (_, off, n, proto1) \<Rightarrow> 4 \<le> n \<and> off = (if proto1 then 1 else 0) \<and> (proto1 \<longrightarrow> ad))"

definition queue_ok :: "bool \<Rightarrow> tcp_pipe \<Rightarrow> bool" where
  "queue_ok ad pi \<longleftrightarrow> (\<forall>m\<in>set (ifq pi). key_ok ad (frame_key m)) \<and> backlog_ok pi \<and> windows_ok pi"

definition pipe_ok :: "nat set \<Rightarrow> l2softc \<Rightarrow> nat \<Rightarrow> bool" where
  "pipe_ok Y s p \<longleftrightarrow> unat (refcount (pipe_at s p)) = card (calls_on s p) \<and> p_state (pipe_at s p) < 6 \<and>
     (p \<notin> Y \<longrightarrow> refcount (pipe_at s p) \<noteq> 0 \<longrightarrow> p_state (pipe_at s p) \<noteq> 0) \<and>
     (adapter s p \<longrightarrow> p_state (pipe_at s p) \<le> 1) \<and> queue_ok (adapter s p) (pipe_at s p)"

text \<open>While a window is being sent, \<open>sc_current_mbuf\<close> is in the queue of the current link, with the rest behind it.\<close>

definition current_ok :: "l2softc \<Rightarrow> bool" where
  "current_ok s \<longleftrightarrow> sc_current_pipe s < PIPE_MAX \<and>
     (let pi = pipe_at s (sc_current_pipe s) in sc_current_length s \<noteq> 0 \<longrightarrow> tx_window_length pi \<noteq> 0 \<longrightarrow>
       (\<exists>k. k + unat (sc_current_length s) \<le> length (ifq pi) \<and> sc_current_mbuf s = Some (m_id (ifq pi ! k))))"

text \<open>
  The descriptors in \<open>X\<close> are in transition: nothing is required of them yet. The links in \<open>Y\<close> are
  being shut down: they may have calls although they are paused.
\<close>

definition dss1_inv :: "nat set \<Rightarrow> nat set \<Rightarrow> l2softc \<Rightarrow> bool" where
  "dss1_inv X Y s \<longleftrightarrow> length (sc_pipe s) = PIPE_MAX \<and> length (N_call_desc s) < 2 ^ 31 \<and> \<not> sc_fault s \<and>
     chan_inv s \<and> unique_cdids s \<and> wf_cdid_range s \<and>
     (\<forall>i<length (N_call_desc s). i \<notin> X \<longrightarrow> call_ok (cd_at s i)) \<and>
     (\<forall>p<PIPE_MAX. pipe_ok Y s p) \<and> unat (L1_auto_activate s) = card (linked s) \<and> current_ok s"

definition active :: "l2softc \<Rightarrow> nat \<Rightarrow> bool" where
  "active s i \<longleftrightarrow> i < length (N_call_desc s) \<and> cd_cdid (cd_at s i) \<noteq> CDID_UNUSED"

lemma dss1_invD:
  assumes "dss1_inv X Y s"
  shows "length (sc_pipe s) = PIPE_MAX" "length (N_call_desc s) < 2 ^ 31" "\<not> sc_fault s" "chan_inv s"
    "unique_cdids s" "wf_cdid_range s" "i < length (N_call_desc s) \<Longrightarrow> i \<notin> X \<Longrightarrow> call_ok (cd_at s i)"
    "p < PIPE_MAX \<Longrightarrow> pipe_ok Y s p" "unat (L1_auto_activate s) = card (linked s)"
    "current_ok s"
  using assms by (simp_all add: dss1_inv_def)

lemma cd_core_eqD:
  assumes "cd_core a = cd_core b"
  shows "cd_cdid a = cd_cdid b" "cd_pipe a = cd_pipe b" "cd_state a = cd_state b"
    "cd_set_state_callout a = None \<longleftrightarrow> cd_set_state_callout b = None"
    "cd_channel_allocated a = cd_channel_allocated b" "cd_channel_allocated b \<Longrightarrow> cd_channel_id a = cd_channel_id b"
    "cause_ok a = cause_ok b" "strings_ok a = strings_ok b" "call_ok a = call_ok b"
  using assms by (auto simp: cd_core_def call_ok_def split: if_splits)

lemma quiet_cd_fields:
  assumes "quiet s t" "i < length (N_call_desc s)"
  shows "cd_cdid (cd_at t i) = cd_cdid (cd_at s i)" "cd_pipe (cd_at t i) = cd_pipe (cd_at s i)"
    "cd_state (cd_at t i) = cd_state (cd_at s i)" "cd_channel_allocated (cd_at t i) = cd_channel_allocated (cd_at s i)"
    "cd_channel_allocated (cd_at s i) \<Longrightarrow> cd_channel_id (cd_at t i) = cd_channel_id (cd_at s i)"
    "call_ok (cd_at t i) = call_ok (cd_at s i)" "cause_ok (cd_at t i) = cause_ok (cd_at s i)"
    "strings_ok (cd_at t i) = strings_ok (cd_at s i)"
  using cd_core_eqD [OF quiet_cd [OF assms]] by blast+

lemma quiet_calls_on:
  assumes "quiet s t"
  shows "calls_on t p = calls_on s p"
  by (auto simp: calls_on_def quiet_fields [OF assms] quiet_cd_fields [OF assms])

lemma quiet_linked:
  assumes "quiet s t"
  shows "linked t = linked s"
  unfolding linked_def quiet_fields [OF assms] by (rule Collect_cong) (simp add: quiet_cd_fields [OF assms] cong: conj_cong)

lemma quiet_same_channels:
  assumes "quiet s t"
  shows "same_channels s t"
  by (simp add: same_channels_def quiet_fields [OF assms] quiet_cd_fields [OF assms])

lemma quiet_unique_cdids:
  assumes "quiet s t"
  shows "unique_cdids t \<longleftrightarrow> unique_cdids s"
  by (simp add: unique_cdids_def quiet_fields [OF assms] quiet_cd_fields [OF assms])

lemma queue_ok_kept:
  assumes "pipe_kept a b" "queue_ok ad a"
  shows "queue_ok ad b"
proof -
  obtain ys where ys: "map frame_key (ifq b) = map frame_key (ifq a) @ ys" "\<forall>y\<in>set ys. new_key y"
    using assms(1) by (auto simp: pipe_kept_def)
  have "key_ok ad y" if "new_key y" for y
    using that by (auto simp: new_key_def key_ok_def)
  then have "\<forall>k\<in>set (map frame_key (ifq b)). key_ok ad k"
    unfolding ys(1) using ys(2) assms(2) by (auto simp: queue_ok_def)
  then show ?thesis
    using assms pipe_kept_windows [OF assms(1)] by (simp add: queue_ok_def pipe_kept_def)
qed

lemma quiet_pipe_ok:
  assumes "quiet s t" "length (sc_pipe s) = PIPE_MAX" "p < PIPE_MAX" "pipe_ok Y s p"
  shows "pipe_ok Y t p"
proof -
  have "adapter t p = adapter s p"
    by (simp add: adapter_def quiet_fields [OF assms(1)])
  then show ?thesis
    using assms quiet_pipe [OF assms(1), of p] quiet_calls_on [OF assms(1)] queue_ok_kept [OF quiet_kept [OF assms(1), of p]]
    by (simp add: pipe_ok_def pipe_core_def)
qed

lemma kept_position:
  assumes "pipe_kept a b" "k + Suc n \<le> length (ifq a)"
  shows "k + Suc n \<le> length (ifq b)" "m_id (ifq b ! k) = m_id (ifq a ! k)"
proof -
  obtain ys where ys: "map frame_key (ifq b) = map frame_key (ifq a) @ ys"
    using assms(1) by (auto simp: pipe_kept_def)
  from arg_cong [OF ys, of length] show len: "k + Suc n \<le> length (ifq b)"
    using assms(2) by simp
  have "map frame_key (ifq b) ! k = map frame_key (ifq a) ! k"
    unfolding ys using assms(2) by (simp add: nth_append)
  then show "m_id (ifq b ! k) = m_id (ifq a ! k)"
    using len assms(2) by (simp add: frame_key_def)
qed

lemma quiet_current_ok:
  assumes "quiet s t" "length (sc_pipe s) = PIPE_MAX" "current_ok s"
  shows "current_ok t"
proof -
  let ?p = "sc_current_pipe s"
  have p: "?p < length (sc_pipe s)"
    using assms(2,3) by (simp add: current_ok_def)
  note kept = quiet_kept [OF assms(1) p]
  have w: "tx_window_length (pipe_at t ?p) = tx_window_length (pipe_at s ?p)"
    using kept by (simp add: pipe_kept_def)
  have "\<exists>k. k + unat (sc_current_length s) \<le> length (ifq (pipe_at t ?p)) \<and> sc_current_mbuf s = Some (m_id (ifq (pipe_at t ?p) ! k))"
    if l: "sc_current_length s \<noteq> 0" and wl: "tx_window_length (pipe_at s ?p) \<noteq> 0"
  proof -
    obtain k where k: "k + unat (sc_current_length s) \<le> length (ifq (pipe_at s ?p))" "sc_current_mbuf s = Some (m_id (ifq (pipe_at s ?p) ! k))"
      using l wl assms(3) unfolding current_ok_def Let_def by blast
    obtain n where "unat (sc_current_length s) = Suc n"
      using l by (cases "unat (sc_current_length s)") (auto simp: unat_eq_0)
    then show ?thesis
      using kept_position [OF kept, of k n] k by auto
  qed
  then show ?thesis
    using assms(2) p by (simp add: current_ok_def Let_def quiet_fields [OF assms(1)] w)
qed

lemma quiet_inv: "quiet s t \<Longrightarrow> dss1_inv X Y s \<Longrightarrow> dss1_inv X Y t"
proof -
  assume q: "quiet s t" and inv: "dss1_inv X Y s"
  have "call_ok (cd_at t i)" if "i < length (N_call_desc s)" "i \<notin> X" for i
    using dss1_invD(7) [OF inv that] cd_core_eqD(9) [OF quiet_cd [OF q that(1)]] by simp
  moreover have "pipe_ok Y t p" if "p < PIPE_MAX" for p
    using quiet_pipe_ok [OF q dss1_invD(1) [OF inv] that] dss1_invD(8) [OF inv that] .
  moreover have "chan_inv t"
    using same_channels_inv [OF quiet_same_channels [OF q]] dss1_invD(4) [OF inv] .
  ultimately show ?thesis
    using inv quiet_fields [OF q] quiet_unique_cdids [OF q] quiet_linked [OF q] quiet_current_ok [OF q]
    by (simp add: dss1_inv_def wf_cdid_range_def)
qed

lemma quiet_active:
  assumes "quiet s t"
  shows "active t i \<longleftrightarrow> active s i"
  by (simp add: active_def quiet_fields [OF assms] quiet_cd_fields [OF assms] cong: conj_cong)

lemma active_ready:
  assumes "dss1_inv X Y s" "active s i" "i \<notin> X"
  shows "ready s i" "\<exists>p<PIPE_MAX. cd_pipe (cd_at s i) = Some p" "0 < cd_state (cd_at s i)" "cd_state (cd_at s i) < 20"
  using dss1_invD(7) [OF assms(1), of i] assms(2,3) by (auto simp: active_def call_ok_def ready_def)

lemma dss1_inv_insert: "dss1_inv X Y s \<Longrightarrow> dss1_inv (insert i X) Y s"
  by (simp add: dss1_inv_def)

lemma dss1_inv_close: "dss1_inv (insert i X) Y s \<Longrightarrow> call_ok (cd_at s i) \<Longrightarrow> dss1_inv X Y s"
  by (auto simp: dss1_inv_def)

text \<open>Updates of one descriptor that keep its identity, link and channel.\<close>

lemma inv_cd_upd:
  assumes inv: "dss1_inv X Y s"
    and f: "\<And>cd. cd_cdid (f cd) = cd_cdid cd \<and> cd_pipe (f cd) = cd_pipe cd \<and>
      cd_channel_allocated (f cd) = cd_channel_allocated cd \<and> cd_channel_id (f cd) = cd_channel_id cd"
  shows "dss1_inv (insert i X) Y (cd_upd i f s)"
proof -
  let ?t = "cd_upd i f s"
  have at: "cd_cdid (cd_at ?t j) = cd_cdid (cd_at s j)" "cd_pipe (cd_at ?t j) = cd_pipe (cd_at s j)"
    if "j < length (N_call_desc s)" for j
    using that f by (cases "j = i"; simp)+
  have "chan_inv ?t"
    using same_channels_inv [OF same_channels_upd dss1_invD(4) [OF inv]] f by blast
  moreover have "unique_cdids ?t"
    using dss1_invD(5) [OF inv] at by (auto simp: unique_cdids_def)
  moreover have "calls_on ?t p = calls_on s p" "linked ?t = linked s" for p
    using at by (auto simp: calls_on_def linked_def)
  moreover have "pipe_at ?t p = pipe_at s p" for p
    by (simp add: pipe_at_def cd_upd_def)
  moreover have "call_ok (cd_at ?t j)" if "j < length (N_call_desc s)" "j \<noteq> i" "j \<notin> X" for j
    using dss1_invD(7) [OF inv] that by simp
  ultimately show ?thesis
    using inv by (simp add: dss1_inv_def pipe_ok_def adapter_def current_ok_def wf_cdid_range_def cd_upd_def)
qed


section \<open>Releasing a call\<close>

text \<open>Steps that concern one call only.\<close>

definition only_call :: "nat \<Rightarrow> l2softc \<Rightarrow> l2softc \<Rightarrow> bool" where
  "only_call i s t \<longleftrightarrow> length (N_call_desc t) = length (N_call_desc s) \<and> length (sc_pipe t) = length (sc_pipe s) \<and>
     (\<forall>j<length (N_call_desc s). j \<noteq> i \<longrightarrow> cd_core (cd_at t j) = cd_core (cd_at s j)) \<and>
     (\<forall>p<length (sc_pipe s). p_state (pipe_at t p) = p_state (pipe_at s p)) \<and>
     nt_mode t = nt_mode s \<and> point_to_point t = point_to_point s \<and> L1_channel_end t = L1_channel_end s"

lemma only_call_quiet:
  assumes "quiet s t"
  shows "only_call i s t"
  using quiet_pipe [OF assms] by (simp add: only_call_def quiet_fields [OF assms] quiet_cd [OF assms] pipe_core_def)

lemma only_call_refl [simp]: "only_call i s s"
  by (simp add: only_call_def)

lemma only_call_trans: "only_call i s t \<Longrightarrow> only_call i t u \<Longrightarrow> only_call i s u"
  by (simp add: only_call_def)

lemma only_call_cd_upd: "only_call i s (cd_upd i f s)"
  by (simp add: only_call_def cd_upd_def cd_at_def pipe_at_def)

lemma card_remove_one: "finite A \<Longrightarrow> i \<in> A \<Longrightarrow> card (A - {i}) = card A - 1"
  by (simp add: card_Diff_singleton)

lemma finite_calls [simp]: "finite (calls_on s p)" "finite (linked s)"
  by (simp_all add: calls_on_def linked_def)

lemma unat_pred: "0 < n \<Longrightarrow> unat x = n \<Longrightarrow> unat (x - 1) = n - 1" for x :: u32
  by (metis gr_implies_not0 unat_0 unat_minus_one)

definition drop_step :: "nat \<Rightarrow> nat \<Rightarrow> l2softc \<Rightarrow> l2softc" where
  "drop_step i p s = cd_upd i (\<lambda>cd. cd\<lparr>cd_pipe := None\<rparr>)
     (pipe_upd p (\<lambda>pi. pi\<lparr>refcount := refcount pi - 1\<rparr>) s\<lparr>L1_auto_activate := L1_auto_activate s - 1\<rparr>)"

lemma quiet_activity_timeout [quiet_intros]: "quiet s t \<Longrightarrow> quiet s (dss1_L1_activity_timeout t)"
  by (auto simp: dss1_L1_activity_timeout_def Let_def emit_def elim!: quiet_same)

lemma drop_pipe_quiet:
  assumes "cd_pipe (cd_at s i) = Some p"
  shows "quiet (drop_step i p s) (cd_upd i (\<lambda>cd. cd\<lparr>cd_pipe := None\<rparr>) (cd_drop_pipe i s))"
proof -
  let ?u = "pipe_upd p (\<lambda>pi. pi\<lparr>refcount := refcount pi - 1\<rparr>) s\<lparr>L1_auto_activate := L1_auto_activate s - 1\<rparr>"
  have "quiet ?u (cd_drop_pipe i s)"
    using assms by (auto simp: cd_drop_pipe_def dss1_L1_deactivate_req_def Let_def pipe_upd_def intro!: quiet_activity_timeout)
  from quiet_pipe_set_cong [OF this] show ?thesis
    unfolding drop_step_def .
qed

lemma drop_step_cds:
  assumes "i < length (N_call_desc s)"
  shows "cd_at (drop_step i p s) j = (if j = i then (cd_at s i)\<lparr>cd_pipe := None\<rparr> else cd_at s j)"
    "length (N_call_desc (drop_step i p s)) = length (N_call_desc s)"
  using assms by (simp_all add: drop_step_def cd_upd_def pipe_upd_def cd_at_def)

lemma drop_step_pipes:
  "length (sc_pipe (drop_step i p s)) = length (sc_pipe s)"
  "p < length (sc_pipe s) \<Longrightarrow> pipe_at (drop_step i p s) q =
     (if q = p then (pipe_at s p)\<lparr>refcount := refcount (pipe_at s p) - 1\<rparr> else pipe_at s q)"
  by (simp_all add: drop_step_def cd_upd_def pipe_upd_def pipe_at_def nth_list_update)

lemma drop_step_fields [simp]:
  "N_channel_utilization (drop_step i p s) = N_channel_utilization s" "L1_channel_end (drop_step i p s) = L1_channel_end s"
  "N_cdid_end (drop_step i p s) = N_cdid_end s" "sc_fault (drop_step i p s) = sc_fault s"
  "nt_mode (drop_step i p s) = nt_mode s" "point_to_point (drop_step i p s) = point_to_point s"
  "L1_auto_activate (drop_step i p s) = L1_auto_activate s - 1" "sc_current_pipe (drop_step i p s) = sc_current_pipe s"
  "sc_current_mbuf (drop_step i p s) = sc_current_mbuf s" "sc_current_length (drop_step i p s) = sc_current_length s"
  by (simp_all add: drop_step_def cd_upd_def pipe_upd_def)

lemma inv_drop_step:
  assumes inv: "dss1_inv X Y s" and i: "i < length (N_call_desc s)" and p: "cd_pipe (cd_at s i) = Some p" "p < PIPE_MAX"
  shows "dss1_inv (insert i X) Y (drop_step i p s)"
proof -
  let ?t = "drop_step i p s"
  note cds = drop_step_cds [OF i, of p]
  have pl: "p < length (sc_pipe s)"
    using p(2) dss1_invD(1) [OF inv] by simp
  note pipes = drop_step_pipes(1) drop_step_pipes(2) [OF pl, of i]
  have on: "calls_on ?t q = (if q = p then calls_on s p - {i} else calls_on s q)" for q
    using p(1) by (auto simp: calls_on_def cds)
  have ad: "adapter ?t q = adapter s q" for q
    by (simp add: adapter_def)
  have li: "linked ?t = linked s - {i}"
    by (auto simp: linked_def cds)
  have mem: "i \<in> calls_on s p" "i \<in> linked s"
    using i p(1) by (simp_all add: calls_on_def linked_def)
  have pos: "0 < card (calls_on s p)" "0 < card (linked s)"
    using mem by (auto simp: card_gt_0_iff)
  have "chan_inv ?t"
    by (rule same_channels_inv [OF _ dss1_invD(4) [OF inv]]) (simp add: same_channels_def cds)
  moreover have "unique_cdids ?t"
  proof -
    have "cd_cdid (cd_at ?t j) = cd_cdid (cd_at s j)" for j
      by (simp add: cds)
    then show ?thesis
      using dss1_invD(5) [OF inv] by (simp add: unique_cdids_def cds(2))
  qed
  moreover have "pipe_ok Y ?t q" if "q < PIPE_MAX" for q
  proof (cases "q = p")
    case True
    have r: "unat (refcount (pipe_at s p) - 1) = card (calls_on s p) - 1"
      using dss1_invD(8) [OF inv p(2)] pos(1) by (intro unat_pred) (simp_all add: pipe_ok_def)
    have "refcount (pipe_at s p) \<noteq> 0"
    proof
      assume "refcount (pipe_at s p) = 0"
      then show False
        using dss1_invD(8) [OF inv p(2)] pos(1) by (simp add: pipe_ok_def)
    qed
    then have "p \<notin> Y \<longrightarrow> p_state (pipe_at s p) \<noteq> 0"
      using dss1_invD(8) [OF inv p(2)] by (simp add: pipe_ok_def)
    then show ?thesis
      using True r mem(1) dss1_invD(8) [OF inv p(2)]
      by (simp add: pipe_ok_def ad pipes on card_remove_one queue_ok_def windows_ok_def backlog_ok_def)
  next
    case False
    then show ?thesis
      using dss1_invD(8) [OF inv that] by (simp add: pipe_ok_def ad pipes on)
  qed
  moreover have "unat (L1_auto_activate s - 1) = card (linked ?t)"
    using unat_pred [OF pos(2) dss1_invD(9) [OF inv]] mem(2) by (simp add: li card_remove_one)
  moreover have "call_ok (cd_at ?t j)" if "j < length (N_call_desc s)" "j \<noteq> i" "j \<notin> X" for j
    using dss1_invD(7) [OF inv that(1,3)] that(2) by (simp add: cds)
  moreover have "current_ok ?t"
    using dss1_invD(10) [OF inv] by (auto simp: current_ok_def Let_def pipes)
  ultimately show ?thesis
    using inv by (simp add: dss1_inv_def cds(2) pipes(1) wf_cdid_range_def)
qed

lemma free_channel_frame:
  "length (N_call_desc (cd_free_channel i s)) = length (N_call_desc s)" "sc_pipe (cd_free_channel i s) = sc_pipe s"
  "N_cdid_end (cd_free_channel i s) = N_cdid_end s" "sc_fault (cd_free_channel i s) = sc_fault s"
  "L1_auto_activate (cd_free_channel i s) = L1_auto_activate s" "nt_mode (cd_free_channel i s) = nt_mode s"
  "point_to_point (cd_free_channel i s) = point_to_point s" "sc_current_pipe (cd_free_channel i s) = sc_current_pipe s"
  "sc_current_mbuf (cd_free_channel i s) = sc_current_mbuf s" "sc_current_length (cd_free_channel i s) = sc_current_length s"
  "L1_channel_end (cd_free_channel i s) = L1_channel_end s"
  by (simp_all add: cd_free_channel_def cd_free_li_def Let_def cd_upd_def split: option.splits)

lemma free_channel_other: "j \<noteq> i \<Longrightarrow> cd_at (cd_free_channel i s) j = cd_at s j"
  by (simp add: cd_free_channel_def cd_free_li_def Let_def cd_upd_def cd_at_def split: option.splits)

lemma cd_at_upd_keeps: "(\<And>cd. P (f cd) = P cd) \<Longrightarrow> P (cd_at (cd_upd i f s) j) = P (cd_at s j)"
  by (cases "i < length (N_call_desc s)"; cases "j = i") (simp_all add: cd_upd_def cd_at_def list_update_beyond)

lemma free_li_keeps:
  "(\<And>cd. P (cd\<lparr>cd_li_data_ptr := None\<rparr>) = P cd) \<Longrightarrow> P (cd_at (cd_free_li i s) j) = P (cd_at s j)" for s :: l2softc
  by (simp add: cd_free_li_def cd_at_upd_keeps split: option.splits)

lemma free_channel_keeps:
  fixes s :: l2softc
  assumes "\<And>cd. P (cd\<lparr>cd_li_data_ptr := None\<rparr>) = P cd"
    "\<And>cd. P (cd\<lparr>cd_channel_id := CHAN_ANY, cd_channel_allocated := False\<rparr>) = P cd"
  shows "P (cd_at (cd_free_channel i s) j) = P (cd_at s j)"
proof -
  have at: "cd_at (u\<lparr>N_channel_utilization := b\<rparr>) = cd_at u" for u :: l2softc and b
    by (auto simp: cd_at_def)
  show ?thesis
    using free_li_keeps [of P i s j, OF assms(1)] assms(2)
    by (simp add: cd_free_channel_def Let_def cd_at_upd_keeps at)
qed

lemma free_channel_cd:
  "cd_cdid (cd_at (cd_free_channel i s) j) = cd_cdid (cd_at s j)" "cd_pipe (cd_at (cd_free_channel i s) j) = cd_pipe (cd_at s j)"
  "cd_state (cd_at (cd_free_channel i s) j) = cd_state (cd_at s j)"
  "cd_set_state_callout (cd_at (cd_free_channel i s) j) = cd_set_state_callout (cd_at s j)"
  "cause_ok (cd_at (cd_free_channel i s) j) = cause_ok (cd_at s j)"
  "strings_ok (cd_at (cd_free_channel i s) j) = strings_ok (cd_at s j)" for s :: l2softc
  by (rule free_channel_keeps; simp add: cause_ok_def strings_ok_def)+

lemma inv_free_channel:
  assumes inv: "dss1_inv X Y s" and i: "i < length (N_call_desc s)"
  shows "dss1_inv (insert i X) Y (cd_free_channel i s)"
proof -
  let ?t = "cd_free_channel i s"
  note at = free_channel_cd [of i s]
  have "chan_inv ?t"
    using cd_free_channel_exact [OF dss1_invD(4) [OF inv] i] by blast
  moreover have "unique_cdids ?t"
    using dss1_invD(5) [OF inv] by (simp add: unique_cdids_def at free_channel_frame)
  moreover have "calls_on ?t p = calls_on s p" "linked ?t = linked s" for p
    by (simp_all add: calls_on_def linked_def at free_channel_frame)
  moreover have "pipe_at ?t p = pipe_at s p" for p
    by (simp add: pipe_at_def free_channel_frame)
  ultimately show ?thesis
    using inv free_channel_other [of _ i s]
    by (simp add: dss1_inv_def pipe_ok_def adapter_def current_ok_def wf_cdid_range_def free_channel_frame)
qed

lemma only_call_free_channel: "only_call i s (cd_free_channel i s)"
  by (simp add: only_call_def free_channel_frame free_channel_other pipe_at_def)

lemma only_call_drop_step: "i < length (N_call_desc s) \<Longrightarrow> p < length (sc_pipe s) \<Longrightarrow> only_call i s (drop_step i p s)"
  by (simp add: only_call_def drop_step_cds drop_step_pipes)


lemma inv_free_cd:
  assumes inv: "dss1_inv (insert i X) Y s" and "i < length (N_call_desc s)" "cd_pipe (cd_at s i) = None" "\<not> cd_channel_allocated (cd_at s i)"
  shows "dss1_inv X Y (i4b_free_cd i s)"
proof -
  let ?t = "i4b_free_cd i s"
  have at: "cd_at ?t i = (cd_at s i)\<lparr>cd_cdid := CDID_UNUSED, cd_idle_callout := None, cd_set_state_callout := None\<rparr>"
    "j \<noteq> i \<Longrightarrow> cd_at ?t j = cd_at s j" for j
    using assms(2) by (simp_all add: i4b_free_cd_def)
  have pipe: "cd_pipe (cd_at ?t j) = cd_pipe (cd_at s j)" for j
    using at by (cases "j = i") simp_all
  have "chan_inv ?t"
    unfolding i4b_free_cd_def by (rule same_channels_inv [OF same_channels_upd dss1_invD(4) [OF inv]]) simp_all
  moreover have "unique_cdids ?t"
    unfolding unique_cdids_def
  proof (intro allI impI)
    fix j k
    assume jk: "j < length (N_call_desc ?t)" "k < length (N_call_desc ?t)" "cd_cdid (cd_at ?t j) = cd_cdid (cd_at ?t k)"
      "cd_cdid (cd_at ?t j) \<noteq> CDID_UNUSED"
    then have "j \<noteq> i" "k \<noteq> i"
      using at(1) by auto
    then show "j = k"
      using jk at(2) dss1_invD(5) [OF inv] by (simp add: unique_cdids_def i4b_free_cd_def)
  qed
  moreover have "calls_on ?t p = calls_on s p" "linked ?t = linked s" for p
    by (simp_all add: calls_on_def linked_def pipe) (simp_all add: i4b_free_cd_def)
  moreover have "call_ok (cd_at ?t j)" if "j < length (N_call_desc s)" "j \<notin> X" for j
    using that dss1_invD(7) [OF inv, of j] assms(3,4) at by (cases "j = i") (simp_all add: call_ok_def)
  ultimately show ?thesis
    using inv by (simp add: dss1_inv_def pipe_ok_def adapter_def current_ok_def wf_cdid_range_def i4b_free_cd_def cd_upd_def pipe_at_def)
qed

lemma quiet_appl [quiet_intros]: "quiet s t \<Longrightarrow> quiet s (cd_set_appl_interface i ty p t)"
  unfolding cd_set_appl_interface_def by (rule quiet_cd_upd) (simp_all add: cd_core_def cause_ok_def strings_ok_def)

lemma n_free_cd_inv:
  assumes inv: "dss1_inv (insert i X) Y s" and i: "i < length (N_call_desc s)"
    and p: "cd_pipe (cd_at s i) = Some p" "p < PIPE_MAX"
  shows "dss1_inv X Y (n_free_cd i s)" "only_call i s (n_free_cd i s)" "\<not> active (n_free_cd i s) i"
proof -
  define s1 where "s1 = cd_set_appl_interface i 0 0 (i4b_l4_disconnect_ind i s)"
  define s2 where "s2 = cd_upd i (\<lambda>cd. cd\<lparr>cd_pipe := None\<rparr>) (cd_drop_pipe i s1)"
  define s3 where "s3 = cd_free_channel i s2"
  have eq: "n_free_cd i s = i4b_free_cd i s3"
    by (simp add: n_free_cd_def s1_def s2_def s3_def Let_def)
  have q1: "quiet s s1"
    unfolding s1_def by (intro quiet_intros) simp
  have i1: "i < length (N_call_desc s1)" and p1: "cd_pipe (cd_at s1 i) = Some p"
    using quiet_fields(1) [OF q1] quiet_cd_fields [OF q1 i] i p by simp_all
  have inv1: "dss1_inv (insert i X) Y s1"
    by (rule quiet_inv [OF q1 inv])
  have q2: "quiet (drop_step i p s1) s2"
    unfolding s2_def by (rule drop_pipe_quiet [OF p1])
  have inv2: "dss1_inv (insert i X) Y s2"
    using quiet_inv [OF q2 inv_drop_step [OF inv1 i1 p1 p(2)]] by simp
  have i2: "i < length (N_call_desc s2)"
    using quiet_fields(1) [OF q2] drop_step_cds(2) [OF i1] i1 by simp
  have p2: "cd_pipe (cd_at s2 i) = None"
    using quiet_cd_fields(2) [OF q2, of i] drop_step_cds [OF i1, of p] i1 by simp
  have inv3: "dss1_inv (insert i X) Y s3"
    using inv_free_channel [OF inv2 i2] by (simp add: s3_def)
  have f3: "i < length (N_call_desc s3)" "cd_pipe (cd_at s3 i) = None" "\<not> cd_channel_allocated (cd_at s3 i)"
    using i2 p2 free_channel_cd(2) [of i s2 i] cd_free_channel_exact [OF dss1_invD(4) [OF inv2] i2]
    by (simp_all add: s3_def)
  show "dss1_inv X Y (n_free_cd i s)"
    unfolding eq by (rule inv_free_cd [OF inv3 f3])
  show "\<not> active (n_free_cd i s) i"
    unfolding eq using f3(1) by (simp add: active_def i4b_free_cd_def)
  have "only_call i s1 (drop_step i p s1)"
    using only_call_drop_step [OF i1] p(2) dss1_invD(1) [OF inv1] by simp
  from only_call_trans [OF only_call_quiet [OF q1] this]
  have "only_call i s s2"
    using only_call_quiet [OF q2] only_call_trans by blast
  then have "only_call i s s3"
    unfolding s3_def using only_call_free_channel only_call_trans by blast
  then show "only_call i s (n_free_cd i s)"
    unfolding eq i4b_free_cd_def using only_call_cd_upd only_call_trans by blast
qed


section \<open>Changing the state of a call\<close>

lemma cut_frame_key [simp]: "frame_key (cut_frame cr m) = frame_key m"
  by (simp add: cut_frame_def frame_key_def Let_def)

lemma cut_frame_zif: "is_zif m \<Longrightarrow> is_zif (cut_frame cr m)"
  by (auto simp: cut_frame_def is_zif_def Let_def I_HEADER_LEN_def)

lemma length_takeWhile_map: "(\<And>x. P x \<Longrightarrow> P (f x)) \<Longrightarrow> length (takeWhile P xs) \<le> length (takeWhile P (map f xs))"
  by (induction xs) auto

lemma kept_cut: "pipe_kept pi (pi\<lparr>ifq := map (cut_frame cr) (ifq pi)\<rparr>)"
proof -
  have "map frame_key (map (cut_frame cr) (ifq pi)) = map frame_key (ifq pi)"
    by simp
  then show ?thesis
    using length_takeWhile_map [of is_zif "cut_frame cr" "take 2 (ifq pi)"] cut_frame_zif
    unfolding pipe_kept_def backlog_ok_def by (simp add: take_map comp_def)
qed

lemma quiet_data_acknowledge [quiet_intros]: "quiet s t \<Longrightarrow> quiet s (dss1_pipe_data_acknowledge p i t)"
  unfolding dss1_pipe_data_acknowledge_def by (rule quiet_pipe_upd) (simp_all add: pipe_core_def kept_cut)

lemma q850_consts [simp]: "i4b_make_q850_cause 0 \<noteq> None" "i4b_make_q850_cause 0x66 \<noteq> None" "i4b_make_q850_cause 0x1E \<noteq> None"
  "i4b_make_q850_cause 0x62 \<noteq> None" "i4b_make_q850_cause 0x22 \<noteq> None" "i4b_make_q850_cause 0x1A \<noteq> None"
  "i4b_make_q850_cause 0x13 \<noteq> None"
  by (simp_all add: i4b_make_q850_cause_def Let_def)

lemma quiet_cause_out [quiet_intros]:
  assumes "quiet s t" "ready s i" "i4b_make_q850_cause c \<noteq> None"
  shows "quiet s (cd_upd i (\<lambda>cd. cd\<lparr>cd_cause_out := c\<rparr>) t)"
proof (rule quiet_cd_upd [OF assms(1)])
  have "ready t i"
    using quiet_ready [OF assms(1)] assms(2) by blast
  then show "cd_core ((cd_at t i)\<lparr>cd_cause_out := c\<rparr>) = cd_core (cd_at t i)"
    using assms(3) by (simp add: cd_core_def ready_def cause_ok_def strings_ok_def)
qed

lemma quiet_release_notify:
  assumes "quiet b t" "ready b i"
  shows "quiet b (release_notify i p t)"
  unfolding release_notify_def Let_def using assms
  by (auto simp: cd_core_def cause_ok_def strings_ok_def intro!: quiet_intros)

lemma cd_set_state_U0:
  assumes inv: "dss1_inv X Y s" and act: "active s i" and "i \<notin> X"
  shows "dss1_inv X Y (cd_set_state i ST_L3_U0 s)" "only_call i s (cd_set_state i ST_L3_U0 s)"
    "\<not> active (cd_set_state i ST_L3_U0 s) i"
proof -
  obtain p where p: "cd_pipe (cd_at s i) = Some p" "p < PIPE_MAX"
    using active_ready(2) [OF assms] by blast
  have i: "i < length (N_call_desc s)"
    using act by (simp add: active_def)
  define s1 where "s1 = cd_upd i (\<lambda>cd. cd\<lparr>cd_set_state_callout := None\<rparr>) s"
  define b where "b = cd_upd i (\<lambda>cd. cd\<lparr>cd_state := ST_L3_U0\<rparr>) s1"
  have invb: "dss1_inv (insert i X) Y b"
  proof -
    have "dss1_inv (insert i X) Y s1"
      unfolding s1_def by (rule inv_cd_upd [OF inv]) simp
    then have "dss1_inv (insert i (insert i X)) Y b"
      unfolding b_def by (rule inv_cd_upd) simp
    then show ?thesis
      by simp
  qed
  have rb: "ready b i"
    using active_ready(1) [OF assms] by (simp add: ready_def b_def s1_def cause_ok_def strings_ok_def)
  define t where "t = release_notify i p b"
  have t: "quiet b t" "n_free_cd i t = cd_release i p s1"
    using quiet_release_notify [OF quiet_refl rb] by (simp_all add: t_def cd_release_def b_def)
  have ib: "i < length (N_call_desc t)" "cd_pipe (cd_at t i) = Some p"
    using quiet_fields(1) [OF t(1)] quiet_cd_fields(2) [OF t(1), of i] i p by (simp_all add: b_def s1_def)
  note fr = n_free_cd_inv [OF quiet_inv [OF t(1) invb] ib p(2)]
  have res: "cd_set_state i ST_L3_U0 s =
      cd_upd i (\<lambda>cd. cd\<lparr>cd_tone_gen_state := L3_STATES_Q931_CONV ! cd_state cd\<rparr>) (n_free_cd i t)"
    by (simp add: cd_set_state_def p t(2) s1_def Let_def)
  have q: "quiet (n_free_cd i t) (cd_set_state i ST_L3_U0 s)"
    unfolding res by (rule quiet_cd_upd) (simp_all add: cd_core_def cause_ok_def strings_ok_def)
  show "dss1_inv X Y (cd_set_state i ST_L3_U0 s)"
    by (rule quiet_inv [OF q fr(1)])
  show "\<not> active (cd_set_state i ST_L3_U0 s) i"
    using quiet_active [OF q] fr(3) by blast
  have "only_call i s b"
    unfolding b_def s1_def using only_call_cd_upd only_call_trans by blast
  then show "only_call i s (cd_set_state i ST_L3_U0 s)"
    using only_call_quiet [OF t(1)] fr(2) only_call_quiet [OF q] only_call_trans by blast
qed


lemma next_state_range:
  assumes "0 < n" "n < 20" "next_state s cd n = (n', e, c)"
  shows "0 < n'" "n' < 20"
  using assms by (auto simp: next_state_def is_to_state_def split: if_splits)

lemma quiet_clear_early [quiet_intros]:
  assumes "quiet s t" "ready s i"
  shows "quiet s (cd_upd i (\<lambda>cd. cd\<lparr>cd_dst_telno_early := []\<rparr>) t)"
proof (rule quiet_cd_upd [OF assms(1)])
  have "ready t i"
    using quiet_ready [OF assms(1)] assms(2) by blast
  then show "cd_core ((cd_at t i)\<lparr>cd_dst_telno_early := []\<rparr>) = cd_core (cd_at t i)"
    by (simp add: cd_core_def ready_def cause_ok_def strings_ok_def)
qed

lemma cd_set_state_first:
  assumes inv: "dss1_inv (insert i X) Y s" and act: "active s i" and "i \<notin> X" and n: "0 < n" "n < 20"
    and rdy: "ready s i" and p: "cd_pipe (cd_at s i) = Some p" "p < PIPE_MAX"
  shows "dss1_inv X Y (cd_set_state i n s) \<and> only_call i s (cd_set_state i n s) \<and> active (cd_set_state i n s) i"
proof -
  have i: "i < length (N_call_desc s)" "cd_cdid (cd_at s i) \<noteq> CDID_UNUSED"
    using act by (simp_all add: active_def)
  define s1 where "s1 = cd_upd i (\<lambda>cd. cd\<lparr>cd_set_state_callout := None\<rparr>) s"
  obtain n' e c where ns: "next_state s1 (cd_at s1 i) n = (n', e, c)"
    by (cases "next_state s1 (cd_at s1 i) n")
  define f where "f = (\<lambda>cd :: call_desc. cd\<lparr>cd_state := n',
      cd_status_enquiry_timeout := cd_status_enquiry_timeout cd + (if c then 1 else 0),
      cd_set_state_callout := Some (L3_STATES_TIMEOUT_DELAY ! n' + (if L1_activity s1 then 0 else 4))\<rparr>)"
  define b where "b = cd_upd i f s1"
  have "dss1_inv (insert i (insert i X)) Y s1"
    unfolding s1_def by (rule inv_cd_upd [OF inv]) simp
  then have "dss1_inv (insert i (insert i (insert i X))) Y b"
    unfolding b_def by (rule inv_cd_upd) (simp add: f_def)
  moreover have ok: "call_ok (cd_at b i)"
    using rdy i p next_state_range [OF n ns]
    by (simp add: b_def s1_def f_def call_ok_def ready_def cause_ok_def strings_ok_def)
  ultimately have invb: "dss1_inv X Y b"
    using dss1_inv_close [of i X Y b] by simp
  have ab: "active b i"
    using i by (simp add: b_def s1_def f_def active_def)
  have rb: "ready b i"
    by (rule active_ready(1) [OF invb ab assms(3)])
  have res: "cd_set_state i n s = cd_upd i (\<lambda>cd. cd\<lparr>cd_tone_gen_state := L3_STATES_Q931_CONV ! cd_state cd\<rparr>) (cd_enter i n s1)"
    using n by (simp add: cd_set_state_def p s1_def Let_def)
  have "quiet b (cd_enter i n s1)"
    unfolding cd_enter_def ns prod.case Let_def f_def [symmetric] b_def [symmetric] using rb
    by (auto intro!: quiet_intros)
  then have q: "quiet b (cd_set_state i n s)"
    unfolding res by (rule quiet_cd_upd) (simp_all add: cd_core_def cause_ok_def strings_ok_def)
  have "only_call i s b"
    unfolding b_def s1_def using only_call_cd_upd only_call_trans by blast
  then show ?thesis
    using quiet_inv [OF q invb] only_call_quiet [OF q] only_call_trans quiet_active [OF q] ab by blast
qed

lemma cd_set_state_enter:
  assumes inv: "dss1_inv X Y s" and act: "active s i" and i: "i \<notin> X" and n: "0 < n" "n < 20"
  shows "dss1_inv X Y (cd_set_state i n s) \<and> only_call i s (cd_set_state i n s) \<and> active (cd_set_state i n s) i"
proof -
  obtain p where "cd_pipe (cd_at s i) = Some p" "p < PIPE_MAX"
    using active_ready(2) [OF inv act i] by blast
  then show ?thesis
    using cd_set_state_first [OF dss1_inv_insert [OF inv] act i n active_ready(1) [OF inv act i]] by blast
qed

end
