(* ===== verification/DSS1_Link.thy ===== *)
theory DSS1_Link
  imports DSS1_Invariant
begin

unbundle bit_operations_syntax

text \<open>
  The state of a link (pipe) of \<^verbatim>\<open>src/src/sys/i4b/dss1/dss1_l2fsm.c\<close>: supervisory and TEI management
  frames, \<open>dss1_pipe_set_state\<close> with the indications it gives to layer 3, activation of a link, and
  \<open>cd_set_pipe\<close>, which moves a call to a link.
\<close>

section \<open>Frames without information\<close>

abbreviation (input) "ST_L2_PAUSE \<equiv> (0 :: nat)"
abbreviation (input) "ST_L2_SEND_TEI \<equiv> (1 :: nat)"
abbreviation (input) "ST_L2_SEND_SABME \<equiv> (2 :: nat)"
abbreviation (input) "ST_L2_SEND_UA \<equiv> (3 :: nat)"
abbreviation (input) "ST_L2_SINGLE_FRAME \<equiv> (4 :: nat)"
abbreviation (input) "ST_L2_MULTI_FRAME \<equiv> (5 :: nat)"

definition L2_STATES_TIMEOUT_DELAY :: "nat list" where
  "L2_STATES_TIMEOUT_DELAY = [0, 1, 2, 2, 8, 12]"

definition L2_STATES_TIMEOUT_STATE :: "nat list" where
  "L2_STATES_TIMEOUT_STATE =
     [ST_L2_PAUSE, ST_L2_SEND_TEI, ST_L2_SEND_TEI, ST_L2_SEND_TEI, ST_L2_SEND_TEI, ST_L2_SINGLE_FRAME]"

definition L2_STATE_IS_TEI_ASSIGNED :: "nat \<Rightarrow> bool" where
  "L2_STATE_IS_TEI_ASSIGNED st \<longleftrightarrow> ST_L2_SEND_TEI < st"

definition MAKE_SAPI :: "u8 \<Rightarrow> bool \<Rightarrow> u8" where
  "MAKE_SAPI sapi cr = (push_bit 2 sapi AND 0xFC) OR (if cr then 2 else 0)"

text \<open>An S- or U-frame; \<open>response\<close> is the C/R bit.\<close>

definition dss1_cntl_tx_frame :: "nat \<Rightarrow> bool \<Rightarrow> u8 \<Rightarrow> l2softc \<Rightarrow> l2softc" where
  "dss1_cntl_tx_frame p response cntl s0 =
     (if L2_STATE_IS_TEI_ASSIGNED (p_state (pipe_at s0 p))
      then case i4b_getmbuf 4 s0 of
             (s, None) \<Rightarrow> s
           | (s, Some m) \<Rightarrow>
               dss1_l2_data_req
                 (m\<lparr>m_mem := [MAKE_SAPI 0 response, tei (pipe_at s p), cntl,
                              (push_bit 1 (rx_nr (pipe_at s p)) AND 0xFE) OR (if response then 1 else 0)],
                    m_len := (if cntl AND 2 = 0 then 4 else 3)\<rparr>) s
      else s0)"

definition TEI_BROADCAST :: u8 where
  "TEI_BROADCAST = 0xFF"

text \<open>A TEI management frame; \<open>MT_ID_REQUEST\<close> is 1.\<close>

definition dss1_tei_tx_frame :: "nat \<Rightarrow> u8 \<Rightarrow> l2softc \<Rightarrow> l2softc" where
  "dss1_tei_tx_frame p ty s0 =
     (if point_to_point s0 then s0
      else let s1 = (if ty = 1 then pipe_upd p (\<lambda>pi. pi\<lparr>tei := TEI_BROADCAST\<rparr>) s0 else s0)
           in case i4b_getmbuf 8 s1 of
                (s, None) \<Rightarrow> s
              | (s, Some m) \<Rightarrow>
                  let pi = pipe_at s p;
                      ri = (if tei pi < 0x80 then [0, 0]
                            else [LO8 (serial_number pi), LO8 (drop_bit 8 (serial_number pi))])
                  in dss1_l2_data_req
                       (m\<lparr>m_mem := [MAKE_SAPI 0x3F False, TEI_BROADCAST, 0x03, 0x0F] @ ri @ [ty, tei pi]\<rparr>) s)"

section \<open>Indications to layer 3\<close>

text \<open>\<open>CD_FOREACH\<close> of \<open>dss1_pipe_resend_ind\<close> and \<open>dss1_pipe_reset_ind\<close>.\<close>

definition resend_call :: "nat \<Rightarrow> nat \<Rightarrow> l2softc \<Rightarrow> l2softc" where
  "resend_call p i s0 =
     (let cd = cd_at s0 i
      in if cd_cdid cd \<noteq> CDID_UNUSED \<and> cd_pipe cd = Some p \<and> cd_need_release cd
         then let s1 = (if \<not> cd_peer_responded cd \<and>
                           (cd_setup_interleave cd = 0 \<or> cd_setup_interleave cd = 4 \<or> 6 \<le> cd_setup_interleave cd)
                        then dss1_l3_tx_setup i s0 else s0)
              in if L1_activity s1 \<or> cd_setup_interleave (cd_at s1 i) \<noteq> 0
                 then cd_upd i (\<lambda>cd. cd\<lparr>cd_setup_interleave := cd_setup_interleave cd + 1\<rparr>) s1 else s1
         else s0)"

definition dss1_pipe_resend_ind :: "nat \<Rightarrow> l2softc \<Rightarrow> l2softc" where
  "dss1_pipe_resend_ind p s = fold (resend_call p) [0..<length (N_call_desc s)] s"

text \<open>
  \<open>cd_update\<close> for the event \<open>EV_L3_RELEASE\<close>, which passes the check of the direction for every call,
  is \<open>cd_set_state\<close> to the null state.
\<close>

definition reset_call :: "nat \<Rightarrow> nat \<Rightarrow> l2softc \<Rightarrow> l2softc" where
  "reset_call p i s =
     (if cd_cdid (cd_at s i) \<noteq> CDID_UNUSED \<and> cd_pipe (cd_at s i) = Some p then cd_set_state i ST_L3_U0 s else s)"

definition dss1_pipe_reset_ind :: "nat \<Rightarrow> l2softc \<Rightarrow> l2softc" where
  "dss1_pipe_reset_ind p s = fold (reset_call p) [0..<length (N_call_desc s)] s"

section \<open>The state of a link\<close>

definition pipe_goto :: "nat \<Rightarrow> nat \<Rightarrow> l2softc \<Rightarrow> l2softc" where
  "pipe_goto p st = pipe_upd p (\<lambda>pi. pi\<lparr>p_state := st\<rparr>)"

text \<open>The block for \<open>ST_L2_SINGLE_FRAME\<close>.\<close>

definition pipe_single :: "nat \<Rightarrow> l2softc \<Rightarrow> l2softc" where
  "pipe_single p s =
     (if refcount (pipe_at s p) = 0 \<and> ifq (pipe_at s p) = []
      then if point_to_point s \<or> nt_mode s \<and> refcount (pipe_at s 0) \<noteq> 0 then emit L1_FIFO_START s
           else pipe_goto p ST_L2_PAUSE
                  (if nt_mode s \<and> \<not> point_to_point s \<and> p \<noteq> 0
                   then dss1_cntl_tx_frame p False 0x53 (dss1_cntl_tx_frame p False 0x53 s) else s)
      else s)"

text \<open>The block for \<open>ST_L2_SEND_TEI\<close>; the flag is the jump to the label \<open>done\<close>.\<close>

definition pipe_send_tei :: "nat \<Rightarrow> l2softc \<Rightarrow> l2softc \<times> bool" where
  "pipe_send_tei p s =
     (if refcount (pipe_at s p) = 0 then (pipe_goto p ST_L2_PAUSE s, False)
      else if \<not> point_to_point s \<and> nt_mode s \<and> p = 0 then (dss1_pipe_resend_ind p s, True)
      else if \<not> point_to_point s \<and> \<not> nt_mode s \<and> 0x80 \<le> serial_number (pipe_at s p) then (dss1_tei_tx_frame p 1 s, True)
      else (pipe_goto p ST_L2_SEND_SABME
              (if \<not> point_to_point s \<and> \<not> nt_mode s
               then pipe_upd p (\<lambda>pi. pi\<lparr>tei := LO8 (serial_number pi)\<rparr>) s else s), False))"

definition pipe_pause :: "nat \<Rightarrow> l2softc \<Rightarrow> l2softc" where
  "pipe_pause p s =
     pipe_upd p (\<lambda>pi. pi\<lparr>ifq := [], tx_window_size := 0, tx_window_length := 0, rx_nr := 0, tx_nr := 0,
                         get_mbuf_callout := None\<rparr>) (dss1_pipe_reset_ind p s)"

text \<open>The blocks for \<open>ST_L2_SEND_SABME\<close> and \<open>ST_L2_PAUSE\<close>.\<close>

definition pipe_finish :: "nat \<Rightarrow> l2softc \<Rightarrow> l2softc" where
  "pipe_finish p s =
     (if p_state (pipe_at s p) = ST_L2_SEND_SABME
      then (if \<not> nt_mode s \<or> point_to_point s then dss1_cntl_tx_frame p False 0x7F s else s)
      else if p_state (pipe_at s p) = ST_L2_PAUSE then pipe_pause p s else s)"

definition pipe_timer :: "nat \<Rightarrow> l2softc \<Rightarrow> l2softc" where
  "pipe_timer p s =
     (if p_state (pipe_at s p) \<noteq> ST_L2_PAUSE
      then pipe_upd p (\<lambda>pi. pi\<lparr>set_state_callout := Some (L2_STATES_TIMEOUT_DELAY ! p_state pi)\<rparr>) s else s)"

definition dss1_pipe_set_state :: "nat \<Rightarrow> nat \<Rightarrow> l2softc \<Rightarrow> l2softc" where
  "dss1_pipe_set_state p newstate s0 =
     (if p_state (pipe_at s0 p) \<le> ST_L2_SEND_TEI \<and> ST_L2_SEND_TEI + 2 \<le> newstate then s0
      else let s1 = pipe_goto p newstate (pipe_upd p (\<lambda>pi. pi\<lparr>set_state_callout := None\<rparr>) s0);
               s2 = (if newstate = ST_L2_SINGLE_FRAME then pipe_single p s1 else s1)
           in case (if p_state (pipe_at s2 p) = ST_L2_SEND_TEI then pipe_send_tei p s2 else (s2, False)) of
                (s3, finished) \<Rightarrow> pipe_timer p (if finished then s3 else pipe_finish p s3))"

definition dss1_pipe_set_state_timeout :: "nat \<Rightarrow> l2softc \<Rightarrow> l2softc" where
  "dss1_pipe_set_state_timeout p s =
     (if sc_fifo s then dss1_pipe_set_state p (L2_STATES_TIMEOUT_STATE ! p_state (pipe_at s p)) s else s)"

definition dss1_pipe_activate_req :: "nat \<Rightarrow> l2softc \<Rightarrow> l2softc" where
  "dss1_pipe_activate_req p s =
     (if p_state (pipe_at s p) = ST_L2_PAUSE
      then pipe_upd p (\<lambda>pi. pi\<lparr>refcount := refcount pi - 1\<rparr>)
             (dss1_pipe_set_state p ST_L2_SEND_TEI (pipe_upd p (\<lambda>pi. pi\<lparr>refcount := refcount pi + 1\<rparr>) s))
      else s)"

definition cd_set_pipe :: "nat \<Rightarrow> nat option \<Rightarrow> l2softc \<Rightarrow> l2softc" where
  "cd_set_pipe i pipe s0 =
     (let s1 = (case pipe of
                  None \<Rightarrow> s0
                | Some p \<Rightarrow> dss1_pipe_activate_req p
                    (dss1_L1_activate_req (pipe_upd p (\<lambda>pi. pi\<lparr>refcount := refcount pi + 1\<rparr>) s0)))
      in cd_upd i (\<lambda>cd. cd\<lparr>cd_pipe := pipe\<rparr>) (cd_drop_pipe i s1))"

lemma n_free_cd_set_pipe:
  "n_free_cd i s = i4b_free_cd i (cd_free_channel i (cd_set_pipe i None
     (cd_set_appl_interface i 0 0 (i4b_l4_disconnect_ind i s))))"
  by (simp add: n_free_cd_def cd_set_pipe_def Let_def)

section \<open>Quiet parts\<close>

lemma quiet_cntl_tx_frame [quiet_intros]: "quiet s t \<Longrightarrow> quiet s (dss1_cntl_tx_frame p r c t)"
  by (auto simp: dss1_cntl_tx_frame_def intro!: quiet_l2_data_req intro: quiet_getmbuf_pair split: prod.splits option.splits)

lemma quiet_tei_tx_frame [quiet_intros]:
  assumes "quiet s t"
  shows "quiet s (dss1_tei_tx_frame p ty t)"
proof -
  have "quiet s (if ty = 1 then pipe_upd p (\<lambda>pi. pi\<lparr>tei := TEI_BROADCAST\<rparr>) t else t)"
    using assms by (auto intro!: quiet_intros simp: pipe_core_def pipe_kept_same)
  then show ?thesis
    using assms by (auto simp: dss1_tei_tx_frame_def Let_def intro!: quiet_l2_data_req intro: quiet_getmbuf_pair
        split: prod.splits option.splits)
qed

definition calls_ready :: "nat \<Rightarrow> l2softc \<Rightarrow> bool" where
  "calls_ready p s \<longleftrightarrow> (\<forall>i<length (N_call_desc s). cd_cdid (cd_at s i) \<noteq> CDID_UNUSED \<longrightarrow> cd_pipe (cd_at s i) = Some p \<longrightarrow> ready s i)"

lemma quiet_resend_call:
  assumes "quiet s t" "calls_ready p s" "i < length (N_call_desc s)"
  shows "quiet s (resend_call p i t)"
proof (cases "cd_cdid (cd_at t i) \<noteq> CDID_UNUSED \<and> cd_pipe (cd_at t i) = Some p")
  case True
  then have "ready s i"
    using assms(2,3) quiet_cd_fields(1,2) [OF assms(1,3)] by (simp add: calls_ready_def)
  then show ?thesis
    using assms(1) by (auto simp: resend_call_def Let_def cd_core_def cause_ok_def strings_ok_def intro!: quiet_intros)
next
  case False
  then show ?thesis
    using assms(1) by (auto simp: resend_call_def Let_def)
qed

lemma quiet_resend_ind [quiet_intros]:
  assumes "quiet s t" "calls_ready p s"
  shows "quiet s (dss1_pipe_resend_ind p t)"
proof -
  have "quiet s (fold (resend_call p) is u)" if "quiet s u" "\<forall>i\<in>set is. i < length (N_call_desc s)" for "is" u
    using that by (induction "is" arbitrary: u) (simp_all add: quiet_resend_call [OF _ assms(2)])
  then show ?thesis
    using assms(1) quiet_fields(1) [OF assms(1)] by (simp add: dss1_pipe_resend_ind_def)
qed

text \<open>Updates determined by the core part are compatible with quiet steps.\<close>

lemma quiet_pipe_cong:
  assumes "quiet u v"
    and "\<And>pi pi'. pipe_core pi = pipe_core pi' \<Longrightarrow> pipe_core (f pi) = pipe_core (f pi')"
    and "\<And>pi pi'. pipe_kept pi pi' \<Longrightarrow> pipe_kept (f pi) (f pi')"
  shows "quiet (pipe_upd p f u) (pipe_upd p f v)"
proof -
  have len: "length (sc_pipe v) = length (sc_pipe u)"
    using assms(1) by (rule quiet_fields)
  have "map pipe_core (sc_pipe (pipe_upd p f v)) = map pipe_core (sc_pipe (pipe_upd p f u))"
  proof (rule nth_equalityI)
    fix q
    assume "q < length (map pipe_core (sc_pipe (pipe_upd p f v)))"
    then show "map pipe_core (sc_pipe (pipe_upd p f v)) ! q = map pipe_core (sc_pipe (pipe_upd p f u)) ! q"
      using quiet_pipe [OF assms(1), of q] len assms(2) [of "pipe_at v q" "pipe_at u q"]
      by (cases "q = p") (simp_all add: pipe_upd_def pipe_at_def)
  qed (simp add: len pipe_upd_def)
  moreover have "pipe_kept (pipe_at (pipe_upd p f u) q) (pipe_at (pipe_upd p f v) q)" if "q < length (sc_pipe u)" for q
    using that assms(1,3) len by (cases "q = p") (simp_all add: quiet_def)
  ultimately show ?thesis
    using assms(1) by (simp add: quiet_def pipe_upd_def pipe_at_def)
qed

lemma quiet_goto_cong: "quiet u v \<Longrightarrow> quiet (pipe_goto p st u) (pipe_goto p st v)"
  unfolding pipe_goto_def by (rule quiet_pipe_cong) (auto simp: pipe_core_def pipe_kept_def backlog_ok_def)

lemma quiet_refcount_cong:
  "quiet u v \<Longrightarrow> quiet (pipe_upd p (\<lambda>pi. pi\<lparr>refcount := g (refcount pi)\<rparr>) u) (pipe_upd p (\<lambda>pi. pi\<lparr>refcount := g (refcount pi)\<rparr>) v)"
  by (rule quiet_pipe_cong) (auto simp: pipe_core_def pipe_kept_def backlog_ok_def)

lemma quiet_auto_cong:
  "quiet u v \<Longrightarrow> quiet (u\<lparr>L1_auto_activate := g (L1_auto_activate u)\<rparr>) (v\<lparr>L1_auto_activate := g (L1_auto_activate v)\<rparr>)"
  by (simp add: quiet_def pipe_at_def)


section \<open>Activating a link\<close>

lemma pipe_upd_length [simp]: "length (sc_pipe (pipe_upd p f s)) = length (sc_pipe s)" "length (sc_pipe (pipe_goto p st s)) = length (sc_pipe s)"
  "N_call_desc (pipe_upd p f s) = N_call_desc s" "N_call_desc (pipe_goto p st s) = N_call_desc s"
  "nt_mode (pipe_upd p f s) = nt_mode s" "point_to_point (pipe_upd p f s) = point_to_point s"
  "nt_mode (pipe_goto p st s) = nt_mode s" "point_to_point (pipe_goto p st s) = point_to_point s"
  "cd_at (pipe_upd p f s) = cd_at s" "cd_at (pipe_goto p st s) = cd_at s"
  by (auto simp: pipe_upd_def pipe_goto_def cd_at_def)

lemma calls_ready_upd [simp]: "calls_ready p (pipe_upd q f s) = calls_ready p s" "calls_ready p (pipe_goto q st s) = calls_ready p s"
  by (simp_all add: calls_ready_def ready_def)

lemma pipe_at_goto: "p < length (sc_pipe s) \<Longrightarrow> pipe_at (pipe_goto p st s) p = (pipe_at s p)\<lparr>p_state := st\<rparr>"
  by (simp add: pipe_goto_def)

lemma quiet_stop_timer:
  "quiet (pipe_goto p st s) (pipe_goto p st (pipe_upd p (\<lambda>pi. pi\<lparr>set_state_callout := x\<rparr>) s))"
  by (rule quiet_goto_cong) (auto intro!: quiet_pipe_upd simp: pipe_core_def pipe_kept_same)

lemma quiet_pipe_timer [quiet_intros]: "quiet s t \<Longrightarrow> quiet s (pipe_timer p t)"
  by (auto simp: pipe_timer_def pipe_core_def pipe_kept_same intro!: quiet_intros)

lemma goto_goto [simp]: "pipe_goto p b (pipe_goto p a s) = pipe_goto p b s"
  by (cases "p < length (sc_pipe s)") (simp_all add: pipe_goto_def pipe_upd_def list_update_beyond)

lemma quiet_p_state: "quiet s t \<Longrightarrow> p < length (sc_pipe s) \<Longrightarrow> p_state (pipe_at t p) = p_state (pipe_at s p)"
  using quiet_pipe [of s t p] by (simp add: pipe_core_def)

lemma quiet_refcount: "quiet s t \<Longrightarrow> p < length (sc_pipe s) \<Longrightarrow> refcount (pipe_at t p) = refcount (pipe_at s p)"
  using quiet_pipe [of s t p] by (simp add: pipe_core_def)

lemma set_state_send_tei:
  assumes p: "p < length (sc_pipe s)" and r: "refcount (pipe_at s p) \<noteq> 0" and "calls_ready p s"
  shows "\<exists>st\<in>{ST_L2_SEND_TEI, ST_L2_SEND_SABME}. (adapter s p \<longrightarrow> st = ST_L2_SEND_TEI) \<and>
    quiet (pipe_goto p st s) (dss1_pipe_set_state p ST_L2_SEND_TEI s)"
proof -
  define s1 where "s1 = pipe_goto p ST_L2_SEND_TEI (pipe_upd p (\<lambda>pi. pi\<lparr>set_state_callout := None\<rparr>) s)"
  let ?b = "pipe_goto p ST_L2_SEND_TEI s"
  have q1: "quiet ?b s1"
    unfolding s1_def by (rule quiet_stop_timer)
  have f1: "p_state (pipe_at s1 p) = ST_L2_SEND_TEI" "refcount (pipe_at s1 p) \<noteq> 0"
    using p r by (simp_all add: s1_def pipe_at_goto)
  have set: "dss1_pipe_set_state p ST_L2_SEND_TEI s =
      (case pipe_send_tei p s1 of (s3, finished) \<Rightarrow> pipe_timer p (if finished then s3 else pipe_finish p s3))"
    unfolding dss1_pipe_set_state_def Let_def s1_def [symmetric] using f1(1) by simp
  have "quiet ?b (dss1_pipe_resend_ind p s1)" "quiet ?b (dss1_tei_tx_frame p 1 s1)"
    using q1 assms(3) by (auto intro!: quiet_intros)
  moreover
  define u where "u = (if \<not> point_to_point s1 \<and> \<not> nt_mode s1 then pipe_upd p (\<lambda>pi. pi\<lparr>tei := LO8 (serial_number pi)\<rparr>) s1 else s1)"
  have "quiet ?b u"
    using q1 by (auto simp: u_def pipe_core_def pipe_kept_same intro!: quiet_intros)
  from quiet_goto_cong [OF this, of p ST_L2_SEND_SABME]
  have qs: "quiet (pipe_goto p ST_L2_SEND_SABME s) (pipe_goto p ST_L2_SEND_SABME u)"
    by simp
  have st: "p_state (pipe_at (pipe_goto p ST_L2_SEND_SABME u) p) = ST_L2_SEND_SABME"
    using p by (simp add: pipe_at_goto u_def s1_def)
  have "quiet (pipe_goto p ST_L2_SEND_SABME s) (pipe_finish p (pipe_goto p ST_L2_SEND_SABME u))"
    using qs st by (auto simp: pipe_finish_def intro!: quiet_intros)
  moreover have "adapter s p \<longleftrightarrow> p = 0 \<and> nt_mode s1 \<and> \<not> point_to_point s1"
    by (simp add: adapter_def s1_def)
  ultimately show ?thesis
    unfolding set pipe_send_tei_def using f1(2)
    by (auto simp: u_def intro: quiet_pipe_timer)
qed

lemma activate_req_quiet:
  assumes p: "p < length (sc_pipe s)" and "calls_ready p s" and "unat (refcount (pipe_at s p)) + 1 < 2 ^ 32"
  shows "\<exists>st. 0 < st \<and> (p_state (pipe_at s p) < 6 \<longrightarrow> st < 6) \<and> (adapter s p \<and> p_state (pipe_at s p) \<le> 1 \<longrightarrow> st \<le> 1) \<and>
    quiet (pipe_goto p st s) (dss1_pipe_activate_req p s)"
proof (cases "p_state (pipe_at s p) = ST_L2_PAUSE")
  case True
  let ?s1 = "pipe_upd p (\<lambda>pi. pi\<lparr>refcount := refcount pi + 1\<rparr>) s"
  have "unat (refcount (pipe_at s p) + 1) = unat (refcount (pipe_at s p)) + 1"
    using assms(3) by (simp add: unat_word_ariths(1))
  then have "refcount (pipe_at s p) + 1 \<noteq> 0"
    by (metis add_is_0 one_neq_zero unat_0)
  then have "refcount (pipe_at ?s1 p) \<noteq> 0"
    using p by simp
  then obtain st where st: "st \<in> {ST_L2_SEND_TEI, ST_L2_SEND_SABME}" "adapter s p \<longrightarrow> st = ST_L2_SEND_TEI"
    "quiet (pipe_goto p st ?s1) (dss1_pipe_set_state p ST_L2_SEND_TEI ?s1)"
    using set_state_send_tei [of p ?s1] p assms(2) by (auto simp: adapter_def)
  have "pipe_upd p (\<lambda>pi. pi\<lparr>refcount := refcount pi - 1\<rparr>) (pipe_goto p st ?s1) = pipe_goto p st s"
    using p by (simp add: pipe_goto_def pipe_upd_def)
  then have "quiet (pipe_goto p st s) (dss1_pipe_activate_req p s)"
    using quiet_refcount_cong [OF st(3), of p "\<lambda>r. r - 1"] True by (simp add: dss1_pipe_activate_req_def)
  then show ?thesis
    using st(1,2) by (intro exI [of _ st]) auto
next
  case False
  have "pipe_goto p (p_state (pipe_at s p)) s = s"
    using p by (simp add: pipe_goto_def pipe_upd_def pipe_at_def)
  then show ?thesis
    using False by (intro exI [of _ "p_state (pipe_at s p)"]) (simp add: dss1_pipe_activate_req_def)
qed


section \<open>Changes of the state of a link\<close>

lemma pipe_upd_frame [simp]:
  "L1_auto_activate (pipe_upd p f s) = L1_auto_activate s" "sc_fault (pipe_upd p f s) = sc_fault s"
  "N_channel_utilization (pipe_upd p f s) = N_channel_utilization s" "L1_channel_end (pipe_upd p f s) = L1_channel_end s"
  "N_cdid_end (pipe_upd p f s) = N_cdid_end s" "sc_current_pipe (pipe_upd p f s) = sc_current_pipe s"
  "sc_current_mbuf (pipe_upd p f s) = sc_current_mbuf s" "sc_current_length (pipe_upd p f s) = sc_current_length s"
  by (simp_all add: pipe_upd_def)

lemma inv_pipe_upd:
  assumes inv: "dss1_inv X Y s" and p: "p < PIPE_MAX"
    and f: "refcount (f (pipe_at s p)) = refcount (pipe_at s p)" "p_state (f (pipe_at s p)) < 6"
      "adapter s p \<Longrightarrow> p_state (f (pipe_at s p)) \<le> 1" "queue_ok (adapter s p) (f (pipe_at s p))"
    and cur: "current_ok (pipe_upd p f s)"
  shows "dss1_inv X (insert p Y) (pipe_upd p f s)"
proof -
  let ?t = "pipe_upd p f s"
  have pl: "p < length (sc_pipe s)"
    using p dss1_invD(1) [OF inv] by simp
  have on: "calls_on ?t q = calls_on s q" "linked ?t = linked s" for q
    by (simp_all add: calls_on_def linked_def)
  have ad: "adapter ?t q = adapter s q" for q
    by (simp add: adapter_def)
  have "pipe_ok (insert p Y) ?t q" if "q < PIPE_MAX" for q
    using dss1_invD(8) [OF inv that] pl f by (cases "q = p") (simp_all add: pipe_ok_def on ad)
  moreover have "chan_inv ?t" "unique_cdids ?t" "wf_cdid_range ?t"
    using same_channels_inv [of s ?t] dss1_invD(4-6) [OF inv]
    by (simp_all add: same_channels_def unique_cdids_def wf_cdid_range_def)
  ultimately show ?thesis
    using inv cur by (simp add: dss1_inv_def on)
qed

lemma inv_link_close: "dss1_inv X (insert p Y) s \<Longrightarrow> (p_state (pipe_at s p) = 0 \<longrightarrow> calls_on s p = {}) \<Longrightarrow> dss1_inv X Y s"
  unfolding dss1_inv_def pipe_ok_def by (metis card.empty insertE unat_eq_zero)

lemma inv_link_weaken: "dss1_inv X Y s \<Longrightarrow> dss1_inv X (insert p Y) s"
  by (simp add: dss1_inv_def pipe_ok_def)

lemma current_ok_upd:
  assumes "current_ok s" "length (sc_pipe s) = PIPE_MAX"
    and "\<And>pi. tx_window_length (f pi) \<noteq> 0 \<Longrightarrow> ifq (f pi) = ifq pi \<and> tx_window_length pi \<noteq> 0"
  shows "current_ok (pipe_upd p f s)"
proof -
  have c: "sc_current_pipe s < length (sc_pipe s)"
    using assms(1,2) by (simp add: current_ok_def)
  show ?thesis
  proof (cases "sc_current_pipe s = p")
    case True
    then show ?thesis
      using c assms(1) assms(3) [of "pipe_at s p"] by (auto simp: current_ok_def Let_def)
  qed (use assms(1) in \<open>simp add: current_ok_def\<close>)
qed

lemma inv_pipe_keep:
  assumes inv: "dss1_inv X Y s" and p: "p < PIPE_MAX"
    and f: "refcount (f (pipe_at s p)) = refcount (pipe_at s p)" "p_state (f (pipe_at s p)) = p_state (pipe_at s p)"
      "queue_ok (adapter s p) (f (pipe_at s p))"
    and cur: "current_ok (pipe_upd p f s)"
  shows "dss1_inv X Y (pipe_upd p f s)"
proof -
  have "dss1_inv X (insert p Y) (pipe_upd p f s)"
    using dss1_invD(8) [OF inv p] f by (intro inv_pipe_upd inv p cur) (simp_all add: pipe_ok_def)
  moreover have "calls_on (pipe_upd p f s) p = calls_on s p" "adapter (pipe_upd p f s) p = adapter s p"
    by (simp_all add: calls_on_def adapter_def)
  then have "pipe_ok Y (pipe_upd p f s) p"
    using dss1_invD(8) [OF inv p] dss1_invD(1) [OF inv] p f by (simp add: pipe_ok_def)
  ultimately show ?thesis
    unfolding dss1_inv_def pipe_ok_def by blast
qed

lemma inv_goto:
  assumes "dss1_inv X Y s" "p < PIPE_MAX" "st < 6" "adapter s p \<Longrightarrow> st \<le> 1"
  shows "dss1_inv X (insert p Y) (pipe_goto p st s)"
  unfolding pipe_goto_def
  using assms dss1_invD(1,10) [OF assms(1)] dss1_invD(8) [OF assms(1,2)]
  by (intro inv_pipe_upd current_ok_upd) (simp_all add: pipe_ok_def queue_ok_def windows_ok_def backlog_ok_def)

lemma inv_calls_ready: "dss1_inv {} Y s \<Longrightarrow> calls_ready p s"
  using active_ready(1) [of "{}" Y s] by (auto simp: calls_ready_def active_def)

text \<open>Resetting a link releases the calls on it and nothing else.\<close>

definition released :: "nat \<Rightarrow> l2softc \<Rightarrow> l2softc \<Rightarrow> bool" where
  "released p s t \<longleftrightarrow> length (N_call_desc t) = length (N_call_desc s) \<and> length (sc_pipe t) = length (sc_pipe s) \<and>
     (\<forall>j<length (N_call_desc s). cd_pipe (cd_at s j) \<noteq> Some p \<longrightarrow> cd_core (cd_at t j) = cd_core (cd_at s j)) \<and>
     (\<forall>q<length (sc_pipe s). p_state (pipe_at t q) = p_state (pipe_at s q)) \<and>
     nt_mode t = nt_mode s \<and> point_to_point t = point_to_point s"

lemma reset_call_inv:
  assumes inv: "dss1_inv {} Y u" and i: "i < length (N_call_desc u)"
  shows "dss1_inv {} Y (reset_call p i u)" "only_call i u (reset_call p i u)" "cd_pipe (cd_at (reset_call p i u) i) \<noteq> Some p"
    "cd_pipe (cd_at u i) \<noteq> Some p \<Longrightarrow> reset_call p i u = u"
proof -
  have free: "cd_pipe (cd_at t i) = None" if "dss1_inv {} Y t" "\<not> active t i" "length (N_call_desc t) = length (N_call_desc u)" for t
    using dss1_invD(7) [OF that(1), of i] that i by (simp add: active_def call_ok_def)
  show "cd_pipe (cd_at u i) \<noteq> Some p \<Longrightarrow> reset_call p i u = u"
    by (simp add: reset_call_def)
  have "dss1_inv {} Y (reset_call p i u) \<and> only_call i u (reset_call p i u) \<and> cd_pipe (cd_at (reset_call p i u) i) \<noteq> Some p"
  proof (cases "active u i \<and> cd_pipe (cd_at u i) = Some p")
    case True
    then show ?thesis
      using cd_set_state_U0 [OF inv, of i] free [of "cd_set_state i ST_L3_U0 u"]
      by (simp add: reset_call_def active_def only_call_def)
  next
    case False
    then have "reset_call p i u = u"
      using i by (auto simp: reset_call_def active_def)
    then show ?thesis
      using inv False free [OF inv] by auto
  qed
  then show "dss1_inv {} Y (reset_call p i u)" "only_call i u (reset_call p i u)" "cd_pipe (cd_at (reset_call p i u) i) \<noteq> Some p"
    by simp_all
qed

lemma reset_ind_inv:
  assumes inv: "dss1_inv {} Y s"
  shows "dss1_inv {} Y (dss1_pipe_reset_ind p s)" "released p s (dss1_pipe_reset_ind p s)" "calls_on (dss1_pipe_reset_ind p s) p = {}"
proof -
  define u where "u n = fold (reset_call p) [0..<n] s" for n
  have "dss1_inv {} Y (u n) \<and> released p s (u n) \<and> (\<forall>j<n. cd_pipe (cd_at (u n) j) \<noteq> Some p)" if "n \<le> length (N_call_desc s)" for n
    using that
  proof (induction n)
    case 0
    then show ?case
      using inv by (simp add: u_def released_def)
  next
    case (Suc n)
    then have IH: "dss1_inv {} Y (u n)" "released p s (u n)" "\<forall>j<n. cd_pipe (cd_at (u n) j) \<noteq> Some p"
      and n: "n < length (N_call_desc (u n))"
      by (simp_all add: released_def)
    have u: "u (Suc n) = reset_call p n (u n)"
      by (simp add: u_def)
    note step = reset_call_inv [OF IH(1) n, of p]
    have other: "cd_core (cd_at (u (Suc n)) j) = cd_core (cd_at (u n) j)" if "j < length (N_call_desc (u n))" "j \<noteq> n" for j
      using step(2) that by (simp add: u only_call_def)
    have "cd_pipe (cd_at (u (Suc n)) j) \<noteq> Some p" if "j < Suc n" for j
    proof (cases "j = n")
      case False
      then have "cd_core (cd_at (u (Suc n)) j) = cd_core (cd_at (u n) j)" "j < n"
        using other [of j] n that by simp_all
      then show ?thesis
        using IH(3) by (simp add: cd_core_def)
    qed (use step(3) in \<open>simp add: u\<close>)
    moreover have "cd_core (cd_at (u (Suc n)) j) = cd_core (cd_at s j)"
      if "j < length (N_call_desc s)" "cd_pipe (cd_at s j) \<noteq> Some p" for j
    proof -
      have core: "cd_core (cd_at (u n) j) = cd_core (cd_at s j)" and j: "j < length (N_call_desc (u n))"
        using IH(2) that by (simp_all add: released_def)
      from cd_core_eqD(2) [OF core] have "j = n \<Longrightarrow> u (Suc n) = u n"
        using that(2) step(4) unfolding u by simp
      then have "cd_core (cd_at (u (Suc n)) j) = cd_core (cd_at (u n) j)"
        using other [OF j] by metis
      then show ?thesis
        using core by (rule trans)
    qed
    moreover have "length (N_call_desc (u (Suc n))) = length (N_call_desc s)" "length (sc_pipe (u (Suc n))) = length (sc_pipe s)"
      "nt_mode (u (Suc n)) = nt_mode s" "point_to_point (u (Suc n)) = point_to_point s"
      "\<forall>q<length (sc_pipe s). p_state (pipe_at (u (Suc n)) q) = p_state (pipe_at s q)"
      using IH(2) step(2) unfolding u released_def only_call_def by simp_all
    moreover have "dss1_inv {} Y (u (Suc n))"
      using step(1) by (simp add: u)
    ultimately show ?case
      unfolding released_def by blast
  qed
  from this [of "length (N_call_desc s)"]
  have res: "dss1_inv {} Y (dss1_pipe_reset_ind p s)" "released p s (dss1_pipe_reset_ind p s)"
    "\<forall>j<length (N_call_desc s). cd_pipe (cd_at (dss1_pipe_reset_ind p s) j) \<noteq> Some p"
    by (simp_all add: u_def dss1_pipe_reset_ind_def)
  show "dss1_inv {} Y (dss1_pipe_reset_ind p s)" "released p s (dss1_pipe_reset_ind p s)"
    by (rule res)+
  show "calls_on (dss1_pipe_reset_ind p s) p = {}"
    using res(2,3) unfolding calls_on_def released_def by simp
qed


lemma pause_inv:
  assumes inv: "dss1_inv {} (insert p Y) s" and p: "p < PIPE_MAX" and st: "p_state (pipe_at s p) = 0"
  shows "dss1_inv {} Y (pipe_pause p s)" "calls_on (pipe_pause p s) p = {}" "p_state (pipe_at (pipe_pause p s) p) = 0"
proof -
  define r where "r = dss1_pipe_reset_ind p s"
  note reset = reset_ind_inv [OF inv, of p, folded r_def]
  have pl: "p < length (sc_pipe r)"
    using p dss1_invD(1) [OF reset(1)] by simp
  have st': "p_state (pipe_at r p) = 0"
    using reset(2) st pl by (simp add: released_def)
  have t: "pipe_pause p s = pipe_upd p (\<lambda>pi. pi\<lparr>ifq := [], tx_window_size := 0, tx_window_length := 0, rx_nr := 0, tx_nr := 0,
      get_mbuf_callout := None\<rparr>) r"
    by (simp add: pipe_pause_def r_def)
  show on: "calls_on (pipe_pause p s) p = {}"
    using reset(3) by (simp add: t calls_on_def)
  show "p_state (pipe_at (pipe_pause p s) p) = 0"
    using pl st' by (simp add: t)
  have "dss1_inv {} (insert p (insert p Y)) (pipe_pause p s)"
    unfolding t using dss1_invD(1,10) [OF reset(1)] st'
    by (intro inv_pipe_upd reset(1) p current_ok_upd) (simp_all add: queue_ok_def backlog_ok_def windows_ok_def)
  then show "dss1_inv {} Y (pipe_pause p s)"
    using inv_link_close [of "{}" p Y] on by simp
qed

lemma finish_inv:
  assumes inv: "dss1_inv {} (insert p Y) s" and p: "p < PIPE_MAX"
  shows "dss1_inv {} Y (pipe_timer p (pipe_finish p s))"
proof -
  have "dss1_inv {} Y (pipe_finish p s)"
  proof (cases "p_state (pipe_at s p) = 0")
    case True
    then show ?thesis
      using pause_inv [OF inv p] by (simp add: pipe_finish_def)
  next
    case False
    have "quiet s (pipe_finish p s)"
      using False by (auto simp: pipe_finish_def intro!: quiet_intros)
    then show ?thesis
      using quiet_inv inv_link_close [OF inv] False by blast
  qed
  then show ?thesis
    using quiet_inv [OF quiet_pipe_timer [OF quiet_refl]] by blast
qed

text \<open>The mode of operation never changes after initialisation.\<close>

definition same_mode :: "l2softc \<Rightarrow> l2softc \<Rightarrow> bool" where
  "same_mode s t \<longleftrightarrow> nt_mode t = nt_mode s \<and> point_to_point t = point_to_point s"

lemma quiet_mode: "quiet s t \<Longrightarrow> same_mode s t"
  by (simp add: same_mode_def quiet_fields)

lemma same_mode_trans: "same_mode s t \<Longrightarrow> same_mode t u \<Longrightarrow> same_mode s u"
  by (simp add: same_mode_def)

lemma same_mode_simps [simp]: "same_mode s s" "same_mode s (pipe_upd p f t) = same_mode s t" "same_mode s (pipe_goto p st t) = same_mode s t"
  by (simp_all add: same_mode_def)

lemma same_mode_adapter: "same_mode s t \<Longrightarrow> adapter t p = adapter s p"
  by (simp add: same_mode_def adapter_def)

lemma finish_mode:
  assumes "dss1_inv {} Y s"
  shows "same_mode s (pipe_timer p (pipe_finish p s))"
proof -
  have "same_mode s (pipe_pause p s)"
    using reset_ind_inv(2) [OF assms, of p] by (simp add: pipe_pause_def released_def same_mode_def)
  moreover have "same_mode s (dss1_cntl_tx_frame p False 0x7F s)"
    by (intro quiet_mode quiet_cntl_tx_frame) simp
  ultimately have "same_mode s (pipe_finish p s)"
    by (simp add: pipe_finish_def)
  moreover have "same_mode (pipe_finish p s) (pipe_timer p (pipe_finish p s))"
    by (intro quiet_mode quiet_pipe_timer) simp
  ultimately show ?thesis
    by (rule same_mode_trans)
qed

lemma pipe_single_inv:
  assumes inv: "dss1_inv {} (insert p Y) s" and p: "p < PIPE_MAX"
  shows "dss1_inv {} (insert p Y) (pipe_single p s)" "same_mode s (pipe_single p s)"
proof -
  have q: "quiet s (dss1_cntl_tx_frame p False 0x53 (dss1_cntl_tx_frame p False 0x53 s))" "quiet s (emit L1_FIFO_START s)"
    by (auto intro!: quiet_intros)
  have "dss1_inv {} (insert p Y) (pipe_goto p 0 u)" if "quiet s u" for u
    using inv_goto [OF quiet_inv [OF that inv] p, of 0] by simp
  then show "dss1_inv {} (insert p Y) (pipe_single p s)"
    using inv q quiet_inv by (auto simp: pipe_single_def)
  show "same_mode s (pipe_single p s)"
    using q [THEN quiet_mode] by (simp add: pipe_single_def)
qed

lemma send_tei_inv:
  assumes inv: "dss1_inv {} (insert p Y) s" and p: "p < PIPE_MAX" and st: "p_state (pipe_at s p) = ST_L2_SEND_TEI"
    and res: "pipe_send_tei p s = (s3, finished)"
  shows "dss1_inv {} (insert p Y) s3" "finished \<Longrightarrow> p_state (pipe_at s3 p) \<noteq> 0" "same_mode s s3"
proof -
  have pl: "p < length (sc_pipe s)"
    using p dss1_invD(1) [OF inv] by simp
  have q: "quiet s (dss1_pipe_resend_ind p s)" "quiet s (dss1_tei_tx_frame p 1 s)"
    using inv_calls_ready [OF inv] by (auto intro!: quiet_intros)
  let ?u = "if \<not> point_to_point s \<and> \<not> nt_mode s then pipe_upd p (\<lambda>pi. pi\<lparr>tei := LO8 (serial_number pi)\<rparr>) s else s"
  have "quiet s ?u"
    by (auto simp: pipe_core_def pipe_kept_same intro!: quiet_intros)
  then have u: "dss1_inv {} (insert p Y) ?u"
    using inv quiet_inv by blast
  have "dss1_inv {} (insert p Y) (pipe_goto p ST_L2_SEND_SABME ?u)" if "\<not> adapter s p"
  proof -
    have "\<not> adapter ?u p"
      using that by (simp add: adapter_def)
    then show ?thesis
      using inv_goto [OF u p, of 2] by simp
  qed
  moreover have "dss1_inv {} (insert p Y) (pipe_goto p ST_L2_PAUSE s)"
    using inv_goto [OF inv p, of 0] by simp
  moreover have "dss1_inv {} (insert p Y) (dss1_pipe_resend_ind p s)" "dss1_inv {} (insert p Y) (dss1_tei_tx_frame p 1 s)"
    using quiet_inv [OF q(1) inv] quiet_inv [OF q(2) inv] by blast+
  ultimately show "dss1_inv {} (insert p Y) s3"
    using res by (auto simp: pipe_send_tei_def adapter_def split: if_splits)
  show "same_mode s s3"
    using res q [THEN quiet_mode] by (auto simp: pipe_send_tei_def split: if_splits)
  show "p_state (pipe_at s3 p) \<noteq> 0" if finished
    using res that st quiet_p_state [OF q(1) pl] quiet_p_state [OF q(2) pl]
    by (auto simp: pipe_send_tei_def split: if_splits)
qed

lemma set_state_inv:
  assumes inv: "dss1_inv {} Y s" and p: "p < PIPE_MAX" and st: "newstate < 6" and ad: "adapter s p \<longrightarrow> newstate \<noteq> ST_L2_SEND_SABME"
  shows "dss1_inv {} Y (dss1_pipe_set_state p newstate s)" (is ?inv) "same_mode s (dss1_pipe_set_state p newstate s)" (is ?mode)
proof -
  have "?inv \<and> ?mode"
  proof (cases "p_state (pipe_at s p) \<le> 1 \<and> 3 \<le> newstate")
    case True
    then show ?thesis
      using inv by (simp add: dss1_pipe_set_state_def)
  next
    case False
    define s1 where "s1 = pipe_goto p newstate (pipe_upd p (\<lambda>pi. pi\<lparr>set_state_callout := None\<rparr>) s)"
    define s2 where "s2 = (if newstate = ST_L2_SINGLE_FRAME then pipe_single p s1 else s1)"
    have "adapter s p \<longrightarrow> newstate \<le> 1"
      using False ad dss1_invD(8) [OF inv p] by (auto simp: pipe_ok_def)
    then have "dss1_inv {} (insert p Y) (pipe_goto p newstate s)"
      using inv_goto [OF inv p st] by simp
    then have "dss1_inv {} (insert p Y) s1"
      unfolding s1_def using quiet_inv [OF quiet_stop_timer] by blast
    then have inv2: "dss1_inv {} (insert p Y) s2" and m2: "same_mode s s2"
      using pipe_single_inv [of p Y s1] p by (auto simp: s2_def s1_def same_mode_def)
    obtain s3 fin where res: "(if p_state (pipe_at s2 p) = ST_L2_SEND_TEI then pipe_send_tei p s2 else (s2, False)) = (s3, fin)"
      by (cases "if p_state (pipe_at s2 p) = ST_L2_SEND_TEI then pipe_send_tei p s2 else (s2, False)")
    have eq: "dss1_pipe_set_state p newstate s = pipe_timer p (if fin then s3 else pipe_finish p s3)"
      unfolding dss1_pipe_set_state_def Let_def s1_def [symmetric] s2_def [symmetric] res using False by (auto simp: numeral_3_eq_3)
    have inv3: "dss1_inv {} (insert p Y) s3" and fin: "fin \<Longrightarrow> p_state (pipe_at s3 p) \<noteq> 0" and m3: "same_mode s s3"
      using res inv2 m2 send_tei_inv [OF inv2 p] same_mode_trans [OF m2] by (auto split: if_splits)
    show ?thesis
    proof (cases fin)
      case True
      then have "dss1_inv {} Y s3"
        using inv_link_close [OF inv3] fin by simp
      then show ?thesis
        using quiet_inv [OF quiet_pipe_timer [OF quiet_refl]] True same_mode_trans [OF m3 quiet_mode [OF quiet_pipe_timer]] by (simp add: eq)
    next
      case False
      then show ?thesis
        using finish_inv [OF inv3 p] same_mode_trans [OF m3 finish_mode [OF inv3]] by (simp add: eq)
    qed
  qed
  then show ?inv ?mode
    by simp_all
qed

lemma card_calls: "card (calls_on s p) \<le> length (N_call_desc s)" "card (linked s) \<le> length (N_call_desc s)"
proof -
  have "calls_on s p \<subseteq> {..<length (N_call_desc s)}" "linked s \<subseteq> {..<length (N_call_desc s)}"
    by (auto simp: calls_on_def linked_def)
  then show "card (calls_on s p) \<le> length (N_call_desc s)" "card (linked s) \<le> length (N_call_desc s)"
    using card_mono [of "{..<length (N_call_desc s)}"] by fastforce+
qed

lemma activate_req_inv:
  assumes inv: "dss1_inv {} Y s" and p: "p < PIPE_MAX"
  shows "dss1_inv {} Y (dss1_pipe_activate_req p s)" "same_mode s (dss1_pipe_activate_req p s)"
proof -
  have few: "unat (refcount (pipe_at s p)) + 1 < 2 ^ 32"
    using dss1_invD(8) [OF inv p] card_calls(1) [of s p] dss1_invD(2) [OF inv] by (simp add: pipe_ok_def)
  have pl: "p < length (sc_pipe s)"
    using p dss1_invD(1) [OF inv] by simp
  obtain st where st: "0 < st" "st < 6" "adapter s p \<longrightarrow> st \<le> 1" and q: "quiet (pipe_goto p st s) (dss1_pipe_activate_req p s)"
    using activate_req_quiet [OF pl inv_calls_ready [OF inv] few] dss1_invD(8) [OF inv p] by (auto simp: pipe_ok_def)
  have "dss1_inv {} (insert p Y) (pipe_goto p st s)"
    using st by (intro inv_goto inv p) simp_all
  then have "dss1_inv {} Y (pipe_goto p st s)"
    by (rule inv_link_close) (use st pl in \<open>simp add: pipe_at_goto\<close>)
  then show "dss1_inv {} Y (dss1_pipe_activate_req p s)"
    using quiet_inv [OF q] by blast
  show "same_mode s (dss1_pipe_activate_req p s)"
    using quiet_mode [OF q] by (simp add: same_mode_def)
qed

text \<open>Entering multiple frame operation changes nothing but the state.\<close>

lemma set_state_multi:
  assumes "p < length (sc_pipe s)"
  shows "ifq (pipe_at (dss1_pipe_set_state p ST_L2_MULTI_FRAME s) p) = ifq (pipe_at s p)"
    "tx_window_size (pipe_at (dss1_pipe_set_state p ST_L2_MULTI_FRAME s) p) = tx_window_size (pipe_at s p)"
    "tx_window_length (pipe_at (dss1_pipe_set_state p ST_L2_MULTI_FRAME s) p) = tx_window_length (pipe_at s p)"
  using assms by (simp_all add: dss1_pipe_set_state_def pipe_at_goto pipe_finish_def pipe_timer_def)


section \<open>Moving a call to a link\<close>

definition attach_step :: "nat \<Rightarrow> nat \<Rightarrow> nat \<Rightarrow> l2softc \<Rightarrow> l2softc" where
  "attach_step i p st s = cd_upd i (\<lambda>cd. cd\<lparr>cd_pipe := Some p\<rparr>)
     (pipe_upd p (\<lambda>pi. pi\<lparr>refcount := refcount pi + 1, p_state := st\<rparr>) s\<lparr>L1_auto_activate := L1_auto_activate s + 1\<rparr>)"

lemma attach_step_cds:
  assumes "i < length (N_call_desc s)"
  shows "cd_at (attach_step i p st s) j = (if j = i then (cd_at s i)\<lparr>cd_pipe := Some p\<rparr> else cd_at s j)"
    "length (N_call_desc (attach_step i p st s)) = length (N_call_desc s)"
  using assms by (simp_all add: attach_step_def cd_upd_def pipe_upd_def cd_at_def)

lemma attach_step_pipes:
  "length (sc_pipe (attach_step i p st s)) = length (sc_pipe s)"
  "p < length (sc_pipe s) \<Longrightarrow> pipe_at (attach_step i p st s) q =
     (if q = p then (pipe_at s p)\<lparr>refcount := refcount (pipe_at s p) + 1, p_state := st\<rparr> else pipe_at s q)"
  by (simp_all add: attach_step_def cd_upd_def pipe_upd_def pipe_at_def nth_list_update)

lemma attach_step_fields [simp]:
  "N_channel_utilization (attach_step i p st s) = N_channel_utilization s" "L1_channel_end (attach_step i p st s) = L1_channel_end s"
  "N_cdid_end (attach_step i p st s) = N_cdid_end s" "sc_fault (attach_step i p st s) = sc_fault s"
  "nt_mode (attach_step i p st s) = nt_mode s" "point_to_point (attach_step i p st s) = point_to_point s"
  "L1_auto_activate (attach_step i p st s) = L1_auto_activate s + 1" "sc_current_pipe (attach_step i p st s) = sc_current_pipe s"
  "sc_current_mbuf (attach_step i p st s) = sc_current_mbuf s" "sc_current_length (attach_step i p st s) = sc_current_length s"
  by (simp_all add: attach_step_def cd_upd_def pipe_upd_def)

lemma unat_succ: "unat x = n \<Longrightarrow> n < 2 ^ 31 \<Longrightarrow> unat (x + 1) = n + 1" for x :: u32
  by (simp add: unat_word_ariths(1))

lemma inv_attach_step:
  assumes inv: "dss1_inv X Y s" and i: "i < length (N_call_desc s)" and none: "cd_pipe (cd_at s i) = None" and p: "p < PIPE_MAX"
    and st: "0 < st" "st < 6" "adapter s p \<longrightarrow> st \<le> 1"
  shows "dss1_inv (insert i X) Y (attach_step i p st s)"
proof -
  let ?t = "attach_step i p st s"
  note cds = attach_step_cds [OF i, of p st]
  have pl: "p < length (sc_pipe s)"
    using p dss1_invD(1) [OF inv] by simp
  note pipes = attach_step_pipes(1) attach_step_pipes(2) [OF pl, of i st]
  have on: "calls_on ?t q = (if q = p then insert i (calls_on s p) else calls_on s q)" for q
    using none i by (auto simp: calls_on_def cds)
  have li: "linked ?t = insert i (linked s)"
    using i by (auto simp: linked_def cds)
  have ad: "adapter ?t q = adapter s q" for q
    by (simp add: adapter_def)
  have notin: "i \<notin> calls_on s q" "i \<notin> linked s" for q
    using none by (simp_all add: calls_on_def linked_def)
  have small: "card (calls_on s q) < 2 ^ 31" "card (linked s) < 2 ^ 31" for q
    using card_calls [of s] dss1_invD(2) [OF inv] le_less_trans by blast+
  have "chan_inv ?t"
    by (rule same_channels_inv [OF _ dss1_invD(4) [OF inv]]) (simp add: same_channels_def cds)
  moreover have "unique_cdids ?t"
  proof -
    have "cd_cdid (cd_at ?t j) = cd_cdid (cd_at s j)" for j
      by (simp add: cds)
    then show ?thesis
      using dss1_invD(5) [OF inv] by (simp add: unique_cdids_def cds(2))
  qed
  moreover have "pipe_ok Y ?t q" if "q < PIPE_MAX" for q
  proof (cases "q = p")
    case True
    have "unat (refcount (pipe_at s p) + 1) = card (calls_on s p) + 1"
      using dss1_invD(8) [OF inv p] small by (intro unat_succ) (simp_all add: pipe_ok_def)
    then show ?thesis
      using True st dss1_invD(8) [OF inv p] notin
      by (simp add: pipe_ok_def pipes on ad queue_ok_def windows_ok_def backlog_ok_def)
  next
    case False
    then show ?thesis
      using dss1_invD(8) [OF inv that] by (simp add: pipe_ok_def ad pipes on)
  qed
  moreover have "unat (L1_auto_activate s + 1) = card (linked ?t)"
    using unat_succ [OF dss1_invD(9) [OF inv] small(2)] notin(2) by (simp add: li)
  moreover have "call_ok (cd_at ?t j)" if "j < length (N_call_desc s)" "j \<noteq> i" "j \<notin> X" for j
    using dss1_invD(7) [OF inv that(1,3)] that(2) by (simp add: cds)
  moreover have "current_ok ?t"
    using dss1_invD(10) [OF inv] by (auto simp: current_ok_def Let_def pipes)
  ultimately show ?thesis
    using inv by (simp add: dss1_inv_def cds(2) pipes(1) wf_cdid_range_def)
qed


lemma quiet_deactivate:
  "quiet (s\<lparr>L1_auto_activate := L1_auto_activate s - 1\<rparr>) (dss1_L1_deactivate_req s)"
  by (auto simp: dss1_L1_deactivate_req_def Let_def intro!: quiet_activity_timeout)

lemma quiet_activate:
  "quiet (s\<lparr>L1_auto_activate := L1_auto_activate s + 1\<rparr>) (dss1_L1_activate_req s)"
  unfolding dss1_L1_activate_req_def Let_def by (auto simp: emit_def intro: quiet_same [OF quiet_refl])

lemma cd_drop_pipe_upd: "cd_pipe (cd_at s i) = Some q \<Longrightarrow>
   cd_drop_pipe i s = dss1_L1_deactivate_req (pipe_upd q (\<lambda>pi. pi\<lparr>refcount := refcount pi - 1\<rparr>) s)"
  by (simp add: cd_drop_pipe_def)

lemma attach_drop_commute:
  assumes "i < length (N_call_desc s)" "p < length (sc_pipe s)" "q < length (sc_pipe s)"
  shows "cd_upd i (\<lambda>cd. cd\<lparr>cd_pipe := Some p\<rparr>)
      ((pipe_upd q (\<lambda>pi. pi\<lparr>refcount := refcount pi - 1\<rparr>)
         (pipe_goto p st (pipe_upd p (\<lambda>pi. pi\<lparr>refcount := refcount pi + 1\<rparr>) s\<lparr>L1_auto_activate := L1_auto_activate s + 1\<rparr>)))
       \<lparr>L1_auto_activate := L1_auto_activate s\<rparr>) = attach_step i p st (drop_step i q s)"
  using assms
  by (cases "p = q")
    (simp_all add: attach_step_def drop_step_def cd_upd_def pipe_goto_def pipe_upd_def list_update_swap)

lemma set_pipe_quiet:
  assumes i: "i < length (N_call_desc s)" and p: "p < length (sc_pipe s)"
    and q: "\<And>q. cd_pipe (cd_at s i) = Some q \<Longrightarrow> q < length (sc_pipe s)"
    and ready: "calls_ready p s" and few: "unat (refcount (pipe_at s p)) + 2 < 2 ^ 32"
  shows "\<exists>st. 0 < st \<and> (p_state (pipe_at s p) < 6 \<longrightarrow> st < 6) \<and> (adapter s p \<and> p_state (pipe_at s p) \<le> 1 \<longrightarrow> st \<le> 1) \<and>
    quiet (attach_step i p st (case cd_pipe (cd_at s i) of None \<Rightarrow> s | Some q \<Rightarrow> drop_step i q s)) (cd_set_pipe i (Some p) s)"
proof -
  define w0 where "w0 = pipe_upd p (\<lambda>pi. pi\<lparr>refcount := refcount pi + 1\<rparr>) s"
  define w where "w = w0\<lparr>L1_auto_activate := L1_auto_activate s + 1\<rparr>"
  define u2 where "u2 = dss1_L1_activate_req w0"
  define u3 where "u3 = dss1_pipe_activate_req p u2"
  have q2: "quiet w u2"
    using quiet_activate [of w0] by (simp add: w_def u2_def w0_def)
  have w: "p < length (sc_pipe w)" "cd_at w = cd_at s" "N_call_desc w = N_call_desc s" "adapter w p = adapter s p"
    "p_state (pipe_at w p) = p_state (pipe_at s p)" "refcount (pipe_at w p) = refcount (pipe_at s p) + 1"
    using p by (simp_all add: w_def w0_def adapter_def cd_at_def pipe_upd_def pipe_at_def fun_eq_iff)
  have "calls_ready p w"
    using ready by (simp add: calls_ready_def ready_def w)
  then have r2: "calls_ready p u2"
    by (simp add: calls_ready_def quiet_fields [OF q2] quiet_cd_fields [OF q2] quiet_ready [OF q2])
  have few2: "unat (refcount (pipe_at u2 p)) + 1 < 2 ^ 32"
    using quiet_refcount [OF q2 w(1)] few by (simp add: w unat_word_ariths(1))
  have u2: "p < length (sc_pipe u2)" "p_state (pipe_at u2 p) = p_state (pipe_at s p)" "adapter u2 p = adapter s p"
    using quiet_p_state [OF q2 w(1)] quiet_fields [OF q2] w by (simp_all add: adapter_def)
  obtain st where st: "0 < st" "p_state (pipe_at s p) < 6 \<longrightarrow> st < 6" "adapter s p \<and> p_state (pipe_at s p) \<le> 1 \<longrightarrow> st \<le> 1"
    and q3: "quiet (pipe_goto p st u2) u3"
    using activate_req_quiet [OF u2(1) r2 few2] unfolding u2 u3_def by blast
  have b3: "quiet (pipe_goto p st w) u3"
    using quiet_trans [OF quiet_goto_cong [OF q2] q3] .
  have pipe3: "cd_pipe (cd_at u3 i) = cd_pipe (cd_at s i)"
    using quiet_cd_fields(2) [OF b3, of i] i by (simp add: w)
  have set: "cd_set_pipe i (Some p) s = cd_upd i (\<lambda>cd. cd\<lparr>cd_pipe := Some p\<rparr>) (cd_drop_pipe i u3)"
    by (simp add: cd_set_pipe_def u3_def u2_def w0_def)
  have "quiet (attach_step i p st (case cd_pipe (cd_at s i) of None \<Rightarrow> s | Some q \<Rightarrow> drop_step i q s)) (cd_set_pipe i (Some p) s)"
  proof (cases "cd_pipe (cd_at s i)")
    case None
    have "attach_step i p st s = cd_upd i (\<lambda>cd. cd\<lparr>cd_pipe := Some p\<rparr>) (pipe_goto p st w)"
      using p by (simp add: attach_step_def w_def w0_def pipe_goto_def pipe_upd_def cd_upd_def)
    then show ?thesis
      using None pipe3 quiet_pipe_set_cong [OF b3] by (simp add: set cd_drop_pipe_def)
  next
    case (Some r)
    let ?v = "pipe_upd r (\<lambda>pi. pi\<lparr>refcount := refcount pi - 1\<rparr>) u3"
    let ?b = "pipe_upd r (\<lambda>pi. pi\<lparr>refcount := refcount pi - 1\<rparr>) (pipe_goto p st w)"
    have "quiet ?b ?v"
      using quiet_refcount_cong [OF b3, of r "\<lambda>x. x - 1"] .
    from quiet_auto_cong [OF this, of "\<lambda>x. x - 1"]
    have "quiet (?b\<lparr>L1_auto_activate := L1_auto_activate ?b - 1\<rparr>) (cd_drop_pipe i u3)"
      using quiet_deactivate [of ?v] quiet_trans Some pipe3 by (simp add: cd_drop_pipe_upd)
    from quiet_pipe_set_cong [OF this]
    have "quiet (cd_upd i (\<lambda>cd. cd\<lparr>cd_pipe := Some p\<rparr>) (?b\<lparr>L1_auto_activate := L1_auto_activate ?b - 1\<rparr>)) (cd_set_pipe i (Some p) s)"
      unfolding set .
    moreover have "L1_auto_activate ?b - 1 = L1_auto_activate s"
      by (simp add: pipe_goto_def w_def)
    ultimately show ?thesis
      using attach_drop_commute [OF i p q [OF Some], of st] Some by (simp add: w_def w0_def)
  qed
  with st show ?thesis
    by blast
qed

lemma set_pipe_inv:
  assumes inv: "dss1_inv X Y s" and i: "i < length (N_call_desc s)" and p: "p < PIPE_MAX"
    and q: "\<And>q. cd_pipe (cd_at s i) = Some q \<Longrightarrow> q < PIPE_MAX" and ready: "calls_ready p s"
  shows "dss1_inv (insert i X) Y (cd_set_pipe i (Some p) s)"
    "\<exists>b. quiet b (cd_set_pipe i (Some p) s) \<and> length (N_call_desc b) = length (N_call_desc s) \<and>
      cd_at b i = (cd_at s i)\<lparr>cd_pipe := Some p\<rparr> \<and> (\<forall>j. j \<noteq> i \<longrightarrow> cd_at b j = cd_at s j)"
proof -
  have len: "length (sc_pipe s) = PIPE_MAX"
    by (rule dss1_invD(1) [OF inv])
  have "unat (refcount (pipe_at s p)) < 2 ^ 31"
    using dss1_invD(8) [OF inv p] card_calls(1) [of s p] dss1_invD(2) [OF inv] by (simp add: pipe_ok_def)
  then have few: "unat (refcount (pipe_at s p)) + 2 < 2 ^ 32"
    by simp
  define s1 where "s1 = (case cd_pipe (cd_at s i) of None \<Rightarrow> s | Some q \<Rightarrow> drop_step i q s)"
  obtain st where st: "0 < st" "st < 6" "adapter s p \<longrightarrow> st \<le> 1"
    and quiet: "quiet (attach_step i p st s1) (cd_set_pipe i (Some p) s)"
  proof -
    have "p < length (sc_pipe s)" "\<And>q. cd_pipe (cd_at s i) = Some q \<Longrightarrow> q < length (sc_pipe s)"
      "p_state (pipe_at s p) < 6" "adapter s p \<longrightarrow> p_state (pipe_at s p) \<le> 1"
      using len p q dss1_invD(8) [OF inv p] by (simp_all add: pipe_ok_def)
    then show ?thesis
      using set_pipe_quiet [OF i _ _ ready few] that unfolding s1_def by blast
  qed
  have inv1: "dss1_inv (insert i X) Y s1"
    using inv_drop_step [OF inv i] q dss1_inv_insert [OF inv] by (auto simp: s1_def split: option.splits)
  have at1: "length (N_call_desc s1) = length (N_call_desc s)" "cd_at s1 i = (cd_at s i)\<lparr>cd_pipe := None\<rparr>"
    "\<And>j. j \<noteq> i \<Longrightarrow> cd_at s1 j = cd_at s j" "adapter s1 p = adapter s p"
    using drop_step_cds [OF i] by (auto simp: s1_def adapter_def split: option.splits)
  have "dss1_inv (insert i (insert i X)) Y (attach_step i p st s1)"
    using st at1 i p by (intro inv_attach_step inv1) simp_all
  then show "dss1_inv (insert i X) Y (cd_set_pipe i (Some p) s)"
    using quiet_inv [OF quiet] by simp
  show "\<exists>b. quiet b (cd_set_pipe i (Some p) s) \<and> length (N_call_desc b) = length (N_call_desc s) \<and>
      cd_at b i = (cd_at s i)\<lparr>cd_pipe := Some p\<rparr> \<and> (\<forall>j. j \<noteq> i \<longrightarrow> cd_at b j = cd_at s j)"
    using quiet attach_step_cds [of i s1 p st] at1 i by (intro exI [of _ "attach_step i p st s1"]) simp
qed

end
