(* ===== verification/DSS1_L3fsm.thy ===== *)
theory DSS1_L3fsm
  imports DSS1_Link
begin

unbundle bit_operations_syntax

text \<open>
  The call state machine: \<open>cd_update\<close> of \<^verbatim>\<open>src/src/sys/i4b/dss1/dss1_l3fsm.h\<close>, one definition per
  event, the requests of the layer above (\<^verbatim>\<open>n_connect_request\<close> and so on, \<^verbatim>\<open>dss1_l3decoder.h\<close>), the
  shorthold check and the information request of \<^verbatim>\<open>layer4/i4b_l4.c\<close>; with the proof that each of them
  keeps the invariant of the stack.
\<close>

section \<open>Events\<close>

datatype l3_event =
    EV_L3_ILL | EV_L3_PROGRESSRQ | EV_L3_ALERTRQ | EV_L3_PROCEEDINGRQ | EV_L3_SETACRS | EV_L3_SETRJRS
  | EV_L3_DEFLECTRQ | EV_L3_MCIDRQ | EV_L3_SETUP | EV_L3_CONACK
  | EV_L3_STATUS | EV_L3_RELEASE | EV_L3_STATENQ | EV_L3_INFO | EV_L3_FACILITY | EV_L3_RESTART_IND
  | EV_L3_RESTART_ACK | EV_L3_HOLD_IND | EV_L3_RETRIEVE_IND | EV_L3_RETRIEVE_ACK | EV_L3_DISCONNECT
  | EV_L3_INFORQ | EV_L3_HOLD_REQ | EV_L3_RETRIEVE_REQ
  | EV_L3_SETUPRQ | EV_L3_SETUPAK | EV_L3_CALLPRC | EV_L3_ALERT | EV_L3_CONNECT | EV_L3_PROGIND

text \<open>The lists \<open>L3_EVENTS_LOCAL_INCOMING\<close> and \<open>L3_EVENTS_LOCAL_OUTGOING\<close>; the other events are neutral.\<close>

definition L3_EVENTS_LOCAL_INCOMING :: "l3_event list" where
  "L3_EVENTS_LOCAL_INCOMING =
     [EV_L3_ILL, EV_L3_PROGRESSRQ, EV_L3_ALERTRQ, EV_L3_PROCEEDINGRQ, EV_L3_SETACRS, EV_L3_SETRJRS,
      EV_L3_DEFLECTRQ, EV_L3_MCIDRQ, EV_L3_SETUP, EV_L3_CONACK]"

definition L3_EVENTS_LOCAL_OUTGOING :: "l3_event list" where
  "L3_EVENTS_LOCAL_OUTGOING =
     [EV_L3_SETUPRQ, EV_L3_SETUPAK, EV_L3_CALLPRC, EV_L3_ALERT, EV_L3_CONNECT, EV_L3_PROGIND]"

definition L3_EVENT_IS_LOCAL_INCOMING :: "l3_event \<Rightarrow> bool" where
  "L3_EVENT_IS_LOCAL_INCOMING ev \<longleftrightarrow> ev \<notin> set L3_EVENTS_LOCAL_OUTGOING"

definition L3_EVENT_IS_LOCAL_OUTGOING :: "l3_event \<Rightarrow> bool" where
  "L3_EVENT_IS_LOCAL_OUTGOING ev \<longleftrightarrow> ev \<notin> set L3_EVENTS_LOCAL_INCOMING"

section \<open>Messages\<close>

text \<open>The macros \<open>dss1_l3_tx_setup_acknowledge\<close> and \<open>dss1_l3_tx_call_proceeding\<close>.\<close>

definition progress_flags :: "bool \<Rightarrow> bool \<Rightarrow> u16" where
  "progress_flags send_chan_id send_progress =
     L3_TX_HEADER OR (if send_progress then L3_TX_PROGRESSI else 0) OR (if send_chan_id then L3_TX_CHANNELID else 0)"

definition dss1_l3_tx_setup_acknowledge :: "nat \<Rightarrow> bool \<Rightarrow> bool \<Rightarrow> l2softc \<Rightarrow> l2softc" where
  "dss1_l3_tx_setup_acknowledge i send_chan_id send_progress =
     dss1_l3_tx_message i 0x0D (progress_flags send_chan_id send_progress)"

definition dss1_l3_tx_call_proceeding :: "nat \<Rightarrow> bool \<Rightarrow> bool \<Rightarrow> l2softc \<Rightarrow> l2softc" where
  "dss1_l3_tx_call_proceeding i send_chan_id send_progress =
     dss1_l3_tx_message i 0x02 (progress_flags send_chan_id send_progress)"

definition dss1_l3_tx_connect :: "nat \<Rightarrow> bool \<Rightarrow> l2softc \<Rightarrow> l2softc" where
  "dss1_l3_tx_connect i send_date_time =
     dss1_l3_tx_message i 0x07 (L3_TX_HEADER OR (if send_date_time then L3_TX_DATE_TIME else 0))"

text \<open>A message with a cause of its own: \<open>dss1_l3_tx_status\<close>, \<open>_hold_reject\<close>, \<open>_retrieve_reject\<close>.\<close>

definition tx_with_cause :: "nat \<Rightarrow> u8 \<Rightarrow> u16 \<Rightarrow> u32 \<Rightarrow> l2softc \<Rightarrow> l2softc" where
  "tx_with_cause i message_type flag q850cause s =
     cd_upd i (\<lambda>cd. cd\<lparr>cd_cause_out := 0\<rparr>)
       (dss1_l3_tx_message i message_type flag (cd_upd i (\<lambda>cd. cd\<lparr>cd_cause_out := q850cause\<rparr>) s))"

definition dss1_l3_tx_status :: "nat \<Rightarrow> u32 \<Rightarrow> l2softc \<Rightarrow> l2softc" where
  "dss1_l3_tx_status i = tx_with_cause i 0x7D (L3_TX_HEADER OR L3_TX_CAUSE OR L3_TX_CALLSTATE)"

definition dss1_l3_tx_hold_reject :: "nat \<Rightarrow> u32 \<Rightarrow> l2softc \<Rightarrow> l2softc" where
  "dss1_l3_tx_hold_reject i = tx_with_cause i 0x30 (L3_TX_HEADER OR L3_TX_CAUSE)"

definition dss1_l3_tx_retrieve_reject :: "nat \<Rightarrow> u32 \<Rightarrow> l2softc \<Rightarrow> l2softc" where
  "dss1_l3_tx_retrieve_reject i = tx_with_cause i 0x37 (L3_TX_HEADER OR L3_TX_CAUSE)"

section \<open>The labels of the state machine\<close>

definition sms_release :: "nat \<Rightarrow> l2softc \<Rightarrow> l2softc" where
  "sms_release i s = cd_set_state i ST_L3_U0 (cd_upd i (\<lambda>cd. cd\<lparr>cd_cause_out := 0x13, cd_need_release := True\<rparr>) s)"

definition event_connect_ack :: "nat \<Rightarrow> l2softc \<Rightarrow> l2softc" where
  "event_connect_ack i s =
     (if cd_is_sms (cd_at s i) then sms_release i s else i4b_l4_connect_active_ind i (cd_set_state i ST_L3_UA s))"

definition no_channel_available :: "nat \<Rightarrow> l2softc \<Rightarrow> l2softc" where
  "no_channel_available i s =
     (let s1 = cd_upd i (\<lambda>cd. cd\<lparr>cd_cause_out := 0x22\<rparr>) s;
          s2 = (if nt_mode s1 \<or> point_to_point s1 then cd_upd i (\<lambda>cd. cd\<lparr>cd_need_release := True\<rparr>) s1 else s1)
      in cd_set_state i ST_L3_U0 s2)"

text \<open>Reserve a channel unless any will do, before the proceeding indication.\<close>

definition try_channel :: "nat \<Rightarrow> l2softc \<Rightarrow> l2softc" where
  "try_channel i s = (if cd_channel_id (cd_at s i) \<noteq> CHAN_ANY then cd_allocate_channel i s else s)"

text \<open>Disconnect the B-channel of a call put on hold and give it back.\<close>

definition hold_channel :: "nat \<Rightarrow> l2softc \<Rightarrow> l2softc" where
  "hold_channel i s =
     cd_free_channel i
       (if cd_b_link_want_active (cd_at s i)
        then cd_upd i (\<lambda>cd. cd\<lparr>cd_b_link_want_active := True\<rparr>) (i4b_link_bchandrvr i False s) else s)"

section \<open>Events of both directions\<close>

definition ev_disconnect :: "nat \<Rightarrow> l2softc \<Rightarrow> l2softc" where
  "ev_disconnect i s =
     (if cd_state (cd_at s i) \<noteq> ST_L3_UC \<and> cd_state (cd_at s i) \<noteq> ST_L3_UC_TO
      then cd_set_state i ST_L3_UC (i4b_l4_pre_disconnect_ind i s) else s)"

definition ev_status :: "nat \<Rightarrow> l2softc \<Rightarrow> l2softc" where
  "ev_status i s =
     (let cd = cd_at s i; state = cd_state cd; cs = cd_call_state cd
      in if state = ST_L3_U3_TO \<or> state = ST_L3_U4_TO \<or> state = ST_L3_U6_TO \<or> state = ST_L3_U7_TO
         then if (cs = 0x19 \<or> 1 \<le> cs \<and> cs \<le> 9) \<and> cd_status_enquiry_timeout cd < 8
              then cd_set_state i (state - 1)
                     (cd_upd i (\<lambda>cd. cd\<lparr>cd_status_enquiry_timeout := cd_status_enquiry_timeout cd + 1\<rparr>) s)
              else s
         else if state = ST_L3_UA_TO \<and> cs = 0xA \<or> state = ST_L3_UC_TO \<and> (cs = 0xB \<or> cs = 0xC)
         then cd_set_state i (state - 1) s else s)"

definition ev_hold_ind :: "nat \<Rightarrow> l2softc \<Rightarrow> l2softc" where
  "ev_hold_ind i s =
     (let cd = cd_at s i; st = cd_state cd
      in if (st = ST_L3_UA \<or> st = ST_L3_UA_TO \<or> ST_L3_U6 \<le> st \<and> st \<le> ST_L3_U8) \<and> \<not> cd_call_is_on_hold cd \<and> nt_mode s
         then cd_upd i (\<lambda>cd. cd\<lparr>cd_call_is_on_hold := True\<rparr>)
                (i4b_l4_hold_ind i (dss1_l3_tx_message i 0x28 L3_TX_HEADER (hold_channel i s)))
         else dss1_l3_tx_hold_reject i 0x62 s)"

definition ev_retrieve_ind :: "nat \<Rightarrow> l2softc \<Rightarrow> l2softc" where
  "ev_retrieve_ind i s0 =
     (if cd_call_is_on_hold (cd_at s0 i) \<and> nt_mode s0
      then let s = cd_allocate_channel i s0
           in if \<not> cd_channel_allocated (cd_at s i) then dss1_l3_tx_retrieve_reject i 0x22 s
              else let s1 = cd_upd i (\<lambda>cd. cd\<lparr>cd_call_is_on_hold := False\<rparr>)
                              (i4b_l4_retrieve_ind i (dss1_l3_tx_message i 0x33 (L3_TX_HEADER OR L3_TX_CHANNELID) s))
                   in if cd_b_link_want_active (cd_at s1 i) then i4b_link_bchandrvr i True s1 else s1
      else dss1_l3_tx_retrieve_reject i 0x62 s0)"

definition ev_hold_req :: "nat \<Rightarrow> l2softc \<Rightarrow> l2softc" where
  "ev_hold_req i s =
     (let cd = cd_at s i; st = cd_state cd
      in if (st = ST_L3_UA \<or> st = ST_L3_UA_TO \<or> ST_L3_U2_ACK \<le> st \<and> st \<le> ST_L3_U4_TO) \<and> \<not> cd_call_is_on_hold cd \<and> \<not> nt_mode s
         then cd_upd i (\<lambda>cd. cd\<lparr>cd_call_is_on_hold := True, cd_call_is_retrieving := False\<rparr>)
                (dss1_l3_tx_message i 0x24 L3_TX_HEADER (hold_channel i s))
         else s)"

definition ev_retrieve_req :: "nat \<Rightarrow> l2softc \<Rightarrow> l2softc" where
  "ev_retrieve_req i s =
     (if cd_call_is_on_hold (cd_at s i) \<and> \<not> nt_mode s
      then cd_upd i (\<lambda>cd. cd\<lparr>cd_call_is_on_hold := False, cd_call_is_retrieving := True\<rparr>)
             (dss1_l3_tx_message i 0x31 L3_TX_HEADER s)
      else s)"

definition ev_retrieve_ack :: "nat \<Rightarrow> l2softc \<Rightarrow> l2softc" where
  "ev_retrieve_ack i s0 =
     (if cd_call_is_retrieving (cd_at s0 i) \<and> \<not> nt_mode s0
      then let s = cd_upd i (\<lambda>cd. cd\<lparr>cd_call_is_retrieving := False\<rparr>) (cd_allocate_channel i s0)
           in if cd_b_link_want_active (cd_at s i) then i4b_link_bchandrvr i True s else s
      else s0)"

text \<open>The case of \<open>EV_L3_INFO\<close> and of the events without a case.\<close>

definition ev_info :: "nat \<Rightarrow> l2softc \<Rightarrow> l2softc" where
  "ev_info i s =
     (if cd_dst_telno_part (cd_at s i) \<noteq> []
      then i4b_l4_information_ind i
             (if cd_state (cd_at s i) = ST_L3_IN_ACK then cd_set_state i ST_L3_IN_ACK s else s)
      else s)"

section \<open>Events of outgoing calls\<close>

definition ev_setuprq :: "nat \<Rightarrow> l2softc \<Rightarrow> l2softc" where
  "ev_setuprq i s =
     (if cd_state (cd_at s i) = ST_L3_OUTGOING
      then let s1 = cd_upd i (\<lambda>cd. cd\<lparr>cd_cause_out := 0, cd_need_release := True\<rparr>)
                      (if \<not> nt_mode s \<or> point_to_point s then dss1_l3_tx_setup i s else s)
           in cd_set_state i (if cd_sending_complete (cd_at s1 i) then ST_L3_U1 else ST_L3_U2) s1
      else s)"

text \<open>\<open>dst_telno_early\<close> has room for 40 characters.\<close>

definition ev_inforq :: "nat \<Rightarrow> l2softc \<Rightarrow> l2softc" where
  "ev_inforq i s =
     (let state = cd_state (cd_at s i);
          s1 = (if \<not> nt_mode s \<or> point_to_point s \<or> state = ST_L3_UA \<or> state = ST_L3_UA_TO
                then let u = cd_upd i (\<lambda>cd. cd\<lparr>cd_dst_telno_early := take 40 (cd_dst_telno_early cd @ cd_dst_telno_part cd)\<rparr>) s
                     in if state \<noteq> ST_L3_U2
                        then cd_upd i (\<lambda>cd. cd\<lparr>cd_dst_telno_early := []\<rparr>)
                               (dss1_l3_tx_message i 0x7B (L3_TX_HEADER OR L3_TX_CALLEDPN) u)
                        else u
                else s)
      in if state = ST_L3_U2 \<or> state = ST_L3_U2_ACK then cd_set_state i state s1 else s1)"

definition ev_callprc :: "nat \<Rightarrow> l2softc \<Rightarrow> l2softc" where
  "ev_callprc i s =
     (if ST_L3_OUTGOING < cd_state (cd_at s i) \<and> cd_state (cd_at s i) < ST_L3_U3
      then i4b_l4_proceeding_ind i True (\<not> nt_mode s) (try_channel i (cd_set_state i ST_L3_U3 s))
      else s)"

text \<open>In any other state the case of \<open>EV_L3_SETUPAK\<close> runs into the next one.\<close>

definition ev_setupak :: "nat \<Rightarrow> l2softc \<Rightarrow> l2softc" where
  "ev_setupak i s =
     (if cd_state (cd_at s i) = ST_L3_U2
      then i4b_l4_proceeding_ind i False (\<not> nt_mode s) (try_channel i (cd_set_state i ST_L3_U2_ACK s))
      else if cd_state (cd_at s i) = ST_L3_U2_ACK then s
      else ev_callprc i s)"

definition ev_alert :: "nat \<Rightarrow> l2softc \<Rightarrow> l2softc" where
  "ev_alert i s =
     (let state = cd_state (cd_at s i)
      in if ST_L3_OUTGOING < state \<and> state < ST_L3_U4
         then if cd_is_sms (cd_at s i) then sms_release i s
              else let s1 = (if state < ST_L3_U3 then i4b_l4_proceeding_ind i True (\<not> nt_mode s) (try_channel i s) else s)
                   in i4b_l4_alert_ind i (cd_set_state i ST_L3_U4 s1)
         else s)"

definition ev_connect :: "nat \<Rightarrow> nat option \<Rightarrow> l2softc \<Rightarrow> l2softc" where
  "ev_connect i pipe s =
     (if ST_L3_OUTGOING < cd_state (cd_at s i) \<and> cd_state (cd_at s i) < ST_L3_UA
      then if cd_is_sms (cd_at s i) then sms_release i s
           else let s1 = try_channel i s
                in if cd_channel_id (cd_at s i) \<noteq> CHAN_ANY \<and> cd_channel_allocated (cd_at s1 i)
                   then let s2 = (if nt_mode s1 \<and> \<not> point_to_point s1
                                  then cd_upd i (\<lambda>cd. cd\<lparr>cd_cause_out := 0\<rparr>)
                                         (dss1_l3_tx_message_complement i (cd_pipe (cd_at s1 i)) pipe 0x5A (L3_TX_HEADER OR L3_TX_CAUSE)
                                           (cd_upd i (\<lambda>cd. cd\<lparr>cd_cause_out := 0x1A\<rparr>) s1))
                                  else s1)
                        in event_connect_ack i (dss1_l3_tx_message i 0x0F L3_TX_HEADER (cd_set_pipe i pipe s2))
                   else no_channel_available i s1
      else s)"

section \<open>Events of incoming calls\<close>

definition want_dialtone :: "l2softc \<Rightarrow> call_desc \<Rightarrow> bool" where
  "want_dialtone s cd \<longleftrightarrow> nt_mode s \<and> \<not> no_layer1_dialtone s \<and>
     (cd_channel_bprot cd = BPROT_NONE \<or> cd_channel_bprot cd = BPROT_NONE_3_1_KHZ)"

definition setup_answer :: "nat \<Rightarrow> bool \<Rightarrow> l2softc \<Rightarrow> l2softc" where
  "setup_answer i dialtone s =
     (if \<not> cd_sending_complete (cd_at s i)
      then cd_set_state i ST_L3_IN_ACK (dss1_l3_tx_setup_acknowledge i (nt_mode s) dialtone s)
      else cd_set_state i ST_L3_U6 (dss1_l3_tx_call_proceeding i (nt_mode s) dialtone s))"

definition ev_setup :: "nat \<Rightarrow> l2softc \<Rightarrow> l2softc" where
  "ev_setup i s =
     (if cd_state (cd_at s i) = ST_L3_INCOMING \<or> cd_state (cd_at s i) = ST_L3_IN_ACK
      then let dialtone = want_dialtone s (cd_at s i);
               s1 = cd_allocate_channel i
                      (if nt_mode s \<or> point_to_point s then cd_upd i (\<lambda>cd. cd\<lparr>cd_need_release := True\<rparr>) s else s)
           in if \<not> cd_channel_allocated (cd_at s1 i) then no_channel_available i s1
              else let s2 = setup_answer i dialtone s1;
                       s3 = (if dialtone
                             then i4b_link_bchandrvr i True (cd_upd i (\<lambda>cd. cd\<lparr>cd_driver_type := 8, cd_driver_unit := 0\<rparr>) s2)
                             else s2)
                   in case i4b_l4_connect_ind i s3 of
                        (s4, n) \<Rightarrow> let s5 = cd_upd i (\<lambda>cd. cd\<lparr>cd_connect_ind_count := n\<rparr>) s4
                                   in if n = 0 then sms_release i s5 else s5
      else s)"

definition ev_proceedingrq :: "nat \<Rightarrow> l2softc \<Rightarrow> l2softc" where
  "ev_proceedingrq i s =
     (if ST_L3_INCOMING < cd_state (cd_at s i) \<and> cd_state (cd_at s i) < ST_L3_U6
      then cd_set_state i ST_L3_U6 (dss1_l3_tx_call_proceeding i (nt_mode s) False s) else s)"

definition ev_alertrq :: "nat \<Rightarrow> l2softc \<Rightarrow> l2softc" where
  "ev_alertrq i s =
     (let state = cd_state (cd_at s i)
      in if ST_L3_INCOMING < state \<and> state < ST_L3_U7
         then if cd_is_sms (cd_at s i) then sms_release i s
              else cd_set_state i ST_L3_U7 (dss1_l3_tx_message i 0x01 L3_TX_HEADER
                     (if state < ST_L3_U6 then dss1_l3_tx_call_proceeding i (nt_mode s) False s else s))
         else s)"

definition ev_progressrq :: "nat \<Rightarrow> l2softc \<Rightarrow> l2softc" where
  "ev_progressrq i s =
     (if ST_L3_INCOMING < cd_state (cd_at s i) \<and> cd_state (cd_at s i) < ST_L3_UA
      then dss1_l3_tx_message i 0x03 (L3_TX_HEADER OR L3_TX_PROGRESSI) s else s)"

definition ev_setacrs :: "nat \<Rightarrow> l2softc \<Rightarrow> l2softc" where
  "ev_setacrs i s =
     (let state = cd_state (cd_at s i)
      in if ST_L3_INCOMING < state \<and> state < ST_L3_U8
         then if cd_is_sms (cd_at s i) then sms_release i s
              else let s1 = dss1_l3_tx_connect i (nt_mode s)
                              (if state < ST_L3_U6 then dss1_l3_tx_call_proceeding i (nt_mode s) False s else s);
                       s2 = cd_set_state i ST_L3_U8 (cd_upd i (\<lambda>cd. cd\<lparr>cd_cause_out := 0, cd_need_release := True\<rparr>) s1)
                   in if nt_mode s2 then event_connect_ack i s2 else s2
         else s)"

section \<open>The state machine\<close>

definition event_ok :: "l3_event \<Rightarrow> call_desc \<Rightarrow> bool" where
  "event_ok ev cd \<longleftrightarrow> (if cd_dir_incoming cd then L3_EVENT_IS_LOCAL_INCOMING ev else L3_EVENT_IS_LOCAL_OUTGOING ev)"

definition cd_update :: "nat \<Rightarrow> nat option \<Rightarrow> l3_event \<Rightarrow> l2softc \<Rightarrow> l2softc" where
  "cd_update i pipe ev s =
     (if \<not> event_ok ev (cd_at s i) then s
      else case ev of
        EV_L3_SETRJRS \<Rightarrow> cd_set_state i ST_L3_U0 (cd_upd i (\<lambda>cd. cd\<lparr>cd_need_release := True\<rparr>) s)
      | EV_L3_DISCONNECT \<Rightarrow> ev_disconnect i s
      | EV_L3_RELEASE \<Rightarrow> cd_set_state i ST_L3_U0 s
      | EV_L3_STATENQ \<Rightarrow> dss1_l3_tx_status i 0x1E s
      | EV_L3_STATUS \<Rightarrow> ev_status i s
      | EV_L3_HOLD_IND \<Rightarrow> ev_hold_ind i s
      | EV_L3_RETRIEVE_IND \<Rightarrow> ev_retrieve_ind i s
      | EV_L3_HOLD_REQ \<Rightarrow> ev_hold_req i s
      | EV_L3_RETRIEVE_REQ \<Rightarrow> ev_retrieve_req i s
      | EV_L3_RETRIEVE_ACK \<Rightarrow> ev_retrieve_ack i s
      | EV_L3_SETUPRQ \<Rightarrow> ev_setuprq i s
      | EV_L3_INFORQ \<Rightarrow> ev_inforq i s
      | EV_L3_SETUPAK \<Rightarrow> ev_setupak i s
      | EV_L3_CALLPRC \<Rightarrow> ev_callprc i s
      | EV_L3_PROGIND \<Rightarrow> ev_callprc i s
      | EV_L3_ALERT \<Rightarrow> ev_alert i s
      | EV_L3_CONNECT \<Rightarrow> ev_connect i pipe s
      | EV_L3_SETUP \<Rightarrow> ev_setup i s
      | EV_L3_PROCEEDINGRQ \<Rightarrow> ev_proceedingrq i s
      | EV_L3_ALERTRQ \<Rightarrow> ev_alertrq i s
      | EV_L3_PROGRESSRQ \<Rightarrow> ev_progressrq i s
      | EV_L3_SETACRS \<Rightarrow> ev_setacrs i s
      | EV_L3_CONACK \<Rightarrow> (if cd_state (cd_at s i) = ST_L3_U8 then event_connect_ack i s else s)
      | EV_L3_DEFLECTRQ \<Rightarrow> (if nt_mode s then s else dss1_l3_tx_message i 0x62 (L3_TX_HEADER OR L3_TX_DEFLECT) s)
      | EV_L3_MCIDRQ \<Rightarrow> (if nt_mode s then s else dss1_l3_tx_message i 0x62 (L3_TX_HEADER OR L3_TX_MCID_REQ) s)
      | EV_L3_ILL \<Rightarrow> s
      | _ \<Rightarrow> ev_info i s)"

text \<open>A release passes the check of the direction for every call.\<close>

lemma cd_update_release: "cd_update i pipe EV_L3_RELEASE s = cd_set_state i ST_L3_U0 s"
  by (simp add: cd_update_def event_ok_def L3_EVENT_IS_LOCAL_INCOMING_def L3_EVENT_IS_LOCAL_OUTGOING_def
      L3_EVENTS_LOCAL_INCOMING_def L3_EVENTS_LOCAL_OUTGOING_def)


section \<open>Reserving a channel\<close>

lemma alloc_channel_frame:
  "sc_pipe (cd_allocate_channel i s) = sc_pipe s" "N_cdid_end (cd_allocate_channel i s) = N_cdid_end s"
  "sc_fault (cd_allocate_channel i s) = sc_fault s" "L1_auto_activate (cd_allocate_channel i s) = L1_auto_activate s"
  "nt_mode (cd_allocate_channel i s) = nt_mode s" "point_to_point (cd_allocate_channel i s) = point_to_point s"
  "sc_current_pipe (cd_allocate_channel i s) = sc_current_pipe s" "sc_current_mbuf (cd_allocate_channel i s) = sc_current_mbuf s"
  "sc_current_length (cd_allocate_channel i s) = sc_current_length s"
  by (simp_all add: cd_allocate_channel_def cd_allocate_li_def take_channel_def Let_def cd_upd_def split: prod.splits option.splits)

lemma alloc_channel_other: "j \<noteq> i \<Longrightarrow> cd_at (cd_allocate_channel i s) j = cd_at s j"
  by (simp add: cd_allocate_channel_def cd_allocate_li_def take_channel_def Let_def split: prod.splits option.splits)

lemma alloc_channel_keeps:
  fixes s :: l2softc
  assumes "\<And>cd x. P (cd\<lparr>cd_li_data_ptr := x\<rparr>) = P cd" "\<And>cd x. P (cd\<lparr>cd_channel_id := x\<rparr>) = P cd"
    "\<And>cd x. P (cd\<lparr>cd_channel_allocated := x\<rparr>) = P cd"
  shows "P (cd_at (cd_allocate_channel i s) j) = P (cd_at s j)"
proof -
  have both: "P (cd\<lparr>cd_channel_id := x, cd_channel_allocated := y\<rparr>) = P cd" for cd x y
    using assms(2,3) by metis
  have li: "P (cd_at (cd_allocate_li i s) j) = P (cd_at s j)"
    using assms(1) by (simp add: cd_allocate_li_def cd_at_upd_keeps split: prod.splits)
  have take: "P (cd_at (take_channel i c u) j) = P (cd_at u j)" for c and u :: l2softc
    using both by (simp add: take_channel_def cd_at_upd_keeps)
  show ?thesis
    using assms(2,3) li take by (simp add: cd_allocate_channel_def Let_def cd_at_upd_keeps split: option.splits)
qed

lemma alloc_channel_cd:
  "cd_cdid (cd_at (cd_allocate_channel i s) j) = cd_cdid (cd_at s j)" "cd_pipe (cd_at (cd_allocate_channel i s) j) = cd_pipe (cd_at s j)"
  "cd_state (cd_at (cd_allocate_channel i s) j) = cd_state (cd_at s j)"
  "cd_set_state_callout (cd_at (cd_allocate_channel i s) j) = cd_set_state_callout (cd_at s j)"
  "cause_ok (cd_at (cd_allocate_channel i s) j) = cause_ok (cd_at s j)"
  "strings_ok (cd_at (cd_allocate_channel i s) j) = strings_ok (cd_at s j)" for s :: l2softc
  by (rule alloc_channel_keeps; simp add: cause_ok_def strings_ok_def)+

lemma inv_alloc_channel:
  assumes inv: "dss1_inv X Y s" and i: "i < length (N_call_desc s)"
  shows "dss1_inv (insert i X) Y (cd_allocate_channel i s)"
proof -
  let ?t = "cd_allocate_channel i s"
  note at = alloc_channel_cd [of i s]
  have "chan_inv ?t"
    using cd_allocate_channel_inv [OF dss1_invD(4) [OF inv] i] .
  moreover have "unique_cdids ?t"
    using dss1_invD(5) [OF inv] by (simp add: unique_cdids_def at)
  moreover have "calls_on ?t p = calls_on s p" "linked ?t = linked s" for p
    by (simp_all add: calls_on_def linked_def at)
  moreover have "pipe_at ?t p = pipe_at s p" for p
    by (simp add: pipe_at_def alloc_channel_frame)
  ultimately show ?thesis
    using inv alloc_channel_other [of _ i s]
    by (simp add: dss1_inv_def pipe_ok_def adapter_def current_ok_def wf_cdid_range_def alloc_channel_frame)
qed

section \<open>Steps of a live call\<close>

definition live :: "nat \<Rightarrow> l2softc \<Rightarrow> bool" where
  "live i s \<longleftrightarrow> dss1_inv {} {} s \<and> active s i"

named_theorems live_intros \<open>operations that keep the invariant while a call is in use\<close>

lemma live_inv: "live i s \<Longrightarrow> dss1_inv {} {} s"
  by (simp add: live_def)

lemma live_ready: "live i s \<Longrightarrow> ready s i"
  using active_ready(1) [of "{}" "{}" s i] by (simp add: live_def)

lemma live_quiet: "live i s \<Longrightarrow> quiet s t \<Longrightarrow> live i t"
  using quiet_inv [of s t] quiet_active [of s t i] by (simp add: live_def)

lemma live_index: "live i s \<Longrightarrow> i < length (N_call_desc s)"
  by (simp add: live_def active_def)

lemma live_set_state [live_intros]: "live i s \<Longrightarrow> 0 < n \<Longrightarrow> n < 20 \<Longrightarrow> live i (cd_set_state i n s)"
  using cd_set_state_enter [of "{}" "{}" s i n] by (simp add: live_def)

lemma inv_set_state_U0: "live i s \<Longrightarrow> dss1_inv {} {} (cd_set_state i ST_L3_U0 s)"
  using cd_set_state_U0(1) [of "{}" "{}" s i] by (simp add: live_def)

lemma live_free_channel [live_intros]:
  assumes "live i s"
  shows "live i (cd_free_channel i s)"
proof -
  have i: "i < length (N_call_desc s)" and c: "call_ok (cd_at s i)" "cd_cdid (cd_at s i) \<noteq> CDID_UNUSED"
    using assms dss1_invD(7) [of "{}" "{}" s i] by (auto simp: live_def active_def)
  have "call_ok (cd_at (cd_free_channel i s) i)"
    using c by (simp add: call_ok_def free_channel_cd)
  then show ?thesis
    using inv_free_channel [OF live_inv [OF assms] i] dss1_inv_close i c(2)
    by (auto simp: live_def active_def free_channel_cd)
qed

lemma live_alloc_channel [live_intros]:
  assumes "live i s"
  shows "live i (cd_allocate_channel i s)"
proof -
  have i: "i < length (N_call_desc s)" and c: "call_ok (cd_at s i)" "cd_cdid (cd_at s i) \<noteq> CDID_UNUSED"
    using assms dss1_invD(7) [of "{}" "{}" s i] by (auto simp: live_def active_def)
  have "call_ok (cd_at (cd_allocate_channel i s) i)"
    using c by (simp add: call_ok_def alloc_channel_cd)
  then show ?thesis
    using inv_alloc_channel [OF live_inv [OF assms] i] dss1_inv_close i c(2)
    by (auto simp: live_def active_def alloc_channel_cd)
qed

lemma live_set_pipe [live_intros]:
  assumes "live i s" "p < PIPE_MAX"
  shows "live i (cd_set_pipe i (Some p) s)"
proof -
  have inv: "dss1_inv {} {} s" and i: "i < length (N_call_desc s)" and c: "call_ok (cd_at s i)" "cd_cdid (cd_at s i) \<noteq> CDID_UNUSED"
    using assms dss1_invD(7) [of "{}" "{}" s i] by (auto simp: live_def active_def)
  have q: "\<And>q. cd_pipe (cd_at s i) = Some q \<Longrightarrow> q < PIPE_MAX"
    using c by (auto simp: call_ok_def)
  note step = set_pipe_inv [OF inv i assms(2) q inv_calls_ready [OF inv]]
  obtain b where b: "quiet b (cd_set_pipe i (Some p) s)" "length (N_call_desc b) = length (N_call_desc s)"
    "cd_at b i = (cd_at s i)\<lparr>cd_pipe := Some p\<rparr>"
    using step(2) by blast
  have "call_ok (cd_at b i)"
    using c assms(2) by (simp add: b(3) call_ok_def cause_ok_def strings_ok_def)
  then have "call_ok (cd_at (cd_set_pipe i (Some p) s) i)"
    using quiet_cd_fields(6) [OF b(1), of i] b(2) i by simp
  moreover have "active (cd_set_pipe i (Some p) s) i"
    using quiet_active [OF b(1), of i] b(2,3) i c(2) by (simp add: active_def)
  ultimately show ?thesis
    using dss1_inv_close [OF step(1)] by (simp add: live_def)
qed

text \<open>Fields outside the core.\<close>

lemma live_upd [live_intros]:
  assumes "live i s" "\<And>cd. strings_ok cd \<Longrightarrow> cause_ok cd \<Longrightarrow> cd_core (f cd) = cd_core cd"
  shows "live i (cd_upd i f s)"
  using live_ready [OF assms(1)] assms(2) by (intro live_quiet [OF assms(1)] quiet_cd_upd) (simp_all add: ready_def)

lemma live_tx_message [live_intros]: "live i s \<Longrightarrow> live i (dss1_l3_tx_message i mt fl s)"
  using live_quiet [OF _ quiet_tx_message [OF quiet_refl live_ready]] by blast

lemma live_tx_setup [live_intros]: "live i s \<Longrightarrow> live i (dss1_l3_tx_setup i s)"
  using live_quiet [OF _ quiet_tx_setup [OF quiet_refl live_ready]] by blast

lemma live_tx_complement [live_intros]: "live i s \<Longrightarrow> live i (dss1_l3_tx_message_complement i a b mt fl s)"
  using live_quiet [OF _ quiet_tx_message_complement [OF quiet_refl live_ready]] by blast

lemma live_link [live_intros]: "live i s \<Longrightarrow> live i (i4b_link_bchandrvr i b s)"
  by (erule live_quiet, rule quiet_link_bchandrvr [OF quiet_refl])

lemma live_inds [live_intros]:
  assumes "live i s"
  shows "live i (i4b_l4_information_ind i s)" "live i (i4b_l4_alert_ind i s)" "live i (i4b_l4_proceeding_ind i b c s)"
    "live i (i4b_l4_retrieve_ind i s)" "live i (i4b_l4_hold_ind i s)" "live i (i4b_l4_pre_disconnect_ind i s)"
    "live i (i4b_l4_connect_active_ind i s)"
  by (rule live_quiet [OF assms], intro quiet_intros quiet_refl)+

lemma q850_values [simp]: "i4b_make_q850_cause 0 = Some 0" "i4b_make_q850_cause 0x66 = Some 0x66" "i4b_make_q850_cause 0x1E = Some 0x1E"
  "i4b_make_q850_cause 0x62 = Some 0x62" "i4b_make_q850_cause 0x22 = Some 0x22" "i4b_make_q850_cause 0x1A = Some 0x1A"
  "i4b_make_q850_cause 0x13 = Some 0x13"
  by (simp_all add: i4b_make_q850_cause_def Let_def)

lemmas core_defs = cd_core_def cause_ok_def strings_ok_def

lemma live_tx_progress [live_intros]:
  assumes "live i s"
  shows "live i (dss1_l3_tx_setup_acknowledge i a b s)" "live i (dss1_l3_tx_call_proceeding i a b s)" "live i (dss1_l3_tx_connect i a s)"
  using assms by (simp_all add: dss1_l3_tx_setup_acknowledge_def dss1_l3_tx_call_proceeding_def dss1_l3_tx_connect_def live_tx_message)

lemma live_tx_with_cause [live_intros]: "live i s \<Longrightarrow> i4b_make_q850_cause c \<noteq> None \<Longrightarrow> live i (tx_with_cause i mt fl c s)"
  by (auto simp: tx_with_cause_def core_defs intro!: live_intros)

lemma live_rejects [live_intros]:
  assumes "live i s" "i4b_make_q850_cause c \<noteq> None"
  shows "live i (dss1_l3_tx_status i c s)" "live i (dss1_l3_tx_hold_reject i c s)" "live i (dss1_l3_tx_retrieve_reject i c s)"
  using assms by (simp_all add: dss1_l3_tx_status_def dss1_l3_tx_hold_reject_def dss1_l3_tx_retrieve_reject_def live_tx_with_cause)


section \<open>Every event keeps the invariant\<close>

lemma sms_release_inv: "live i s \<Longrightarrow> dss1_inv {} {} (sms_release i s)"
  unfolding sms_release_def by (intro inv_set_state_U0 live_upd) (simp_all add: core_defs)

lemma event_connect_ack_inv: "live i s \<Longrightarrow> dss1_inv {} {} (event_connect_ack i s)"
  unfolding event_connect_ack_def using sms_release_inv [of i s] by (auto intro!: live_inv live_inds live_set_state)

lemma no_channel_available_inv: "live i s \<Longrightarrow> dss1_inv {} {} (no_channel_available i s)"
  unfolding no_channel_available_def Let_def by (intro inv_set_state_U0) (auto simp: core_defs intro!: live_upd)

lemma live_try_channel [live_intros]: "live i s \<Longrightarrow> live i (try_channel i s)"
  by (simp add: try_channel_def live_alloc_channel)

lemma live_hold_channel [live_intros]: "live i s \<Longrightarrow> live i (hold_channel i s)"
  by (auto simp: hold_channel_def core_defs intro!: live_free_channel live_upd live_link)

lemma live_state: "live i s \<Longrightarrow> 0 < cd_state (cd_at s i) \<and> cd_state (cd_at s i) < 20"
  using active_ready(3,4) [of "{}" "{}" s i] by (simp add: live_def)

lemma live_disconnect [live_intros]: "live i s \<Longrightarrow> live i (ev_disconnect i s)"
  by (auto simp: ev_disconnect_def intro!: live_set_state live_inds)

lemma live_status [live_intros]: "live i s \<Longrightarrow> live i (ev_status i s)"
  by (auto simp: ev_status_def Let_def core_defs intro!: live_set_state live_upd)

lemma live_hold_ind [live_intros]: "live i s \<Longrightarrow> live i (ev_hold_ind i s)"
  by (auto simp: ev_hold_ind_def Let_def core_defs intro!: live_upd live_inds live_tx_message live_hold_channel live_rejects)

lemma live_retrieve_ind [live_intros]: "live i s \<Longrightarrow> live i (ev_retrieve_ind i s)"
  by (auto simp: ev_retrieve_ind_def Let_def core_defs
      intro!: live_upd live_inds live_tx_message live_alloc_channel live_rejects live_link)

lemma live_hold_req [live_intros]: "live i s \<Longrightarrow> live i (ev_hold_req i s)"
  by (auto simp: ev_hold_req_def Let_def core_defs intro!: live_upd live_tx_message live_hold_channel)

lemma live_retrieve_req [live_intros]: "live i s \<Longrightarrow> live i (ev_retrieve_req i s)"
  by (auto simp: ev_retrieve_req_def core_defs intro!: live_upd live_tx_message)

lemma live_retrieve_ack [live_intros]: "live i s \<Longrightarrow> live i (ev_retrieve_ack i s)"
  by (auto simp: ev_retrieve_ack_def Let_def core_defs intro!: live_upd live_alloc_channel live_link)

lemma live_info [live_intros]: "live i s \<Longrightarrow> live i (ev_info i s)"
  by (auto simp: ev_info_def intro!: live_inds live_set_state)

lemma live_setuprq [live_intros]: "live i s \<Longrightarrow> live i (ev_setuprq i s)"
  by (auto simp: ev_setuprq_def Let_def core_defs intro!: live_set_state live_upd live_tx_setup)

lemma live_inforq [live_intros]: "live i s \<Longrightarrow> live i (ev_inforq i s)"
  by (auto simp: ev_inforq_def Let_def core_defs intro!: live_set_state live_upd live_tx_message)

lemma live_callprc [live_intros]: "live i s \<Longrightarrow> live i (ev_callprc i s)"
  by (auto simp: ev_callprc_def intro!: live_inds live_try_channel live_set_state)

lemma live_setupak [live_intros]: "live i s \<Longrightarrow> live i (ev_setupak i s)"
  by (auto simp: ev_setupak_def intro!: live_inds live_try_channel live_set_state live_callprc)

lemma ev_alert_inv: "live i s \<Longrightarrow> dss1_inv {} {} (ev_alert i s)"
  using sms_release_inv [of i s] live_inv [of i s]
  by (auto simp: ev_alert_def Let_def intro!: live_inv live_inds live_try_channel live_set_state)

lemma ev_connect_inv:
  assumes "live i s" "p < PIPE_MAX"
  shows "dss1_inv {} {} (ev_connect i (Some p) s)"
proof -
  let ?s1 = "try_channel i s"
  have s1: "live i ?s1"
    using assms(1) by (rule live_try_channel)
  let ?s2 = "cd_upd i (\<lambda>cd. cd\<lparr>cd_cause_out := 0\<rparr>)
      (dss1_l3_tx_message_complement i (cd_pipe (cd_at ?s1 i)) (Some p) 0x5A (L3_TX_HEADER OR L3_TX_CAUSE)
        (cd_upd i (\<lambda>cd. cd\<lparr>cd_cause_out := 0x1A\<rparr>) ?s1))"
  have "live i ?s2"
    using s1 by (intro live_upd live_tx_complement) (simp_all add: core_defs)
  moreover have "dss1_inv {} {} (event_connect_ack i (dss1_l3_tx_message i 0x0F L3_TX_HEADER (cd_set_pipe i (Some p) u)))" if "live i u" for u
    using that assms(2) by (intro event_connect_ack_inv live_tx_message live_set_pipe)
  ultimately show ?thesis
    using s1 sms_release_inv [OF assms(1)] no_channel_available_inv [OF s1] live_inv [OF assms(1)]
    by (simp add: ev_connect_def Let_def)
qed

lemma live_setup_answer [live_intros]: "live i s \<Longrightarrow> live i (setup_answer i b s)"
  by (auto simp: setup_answer_def intro!: live_set_state live_tx_progress)

lemma ev_setup_inv:
  assumes "live i s"
  shows "dss1_inv {} {} (ev_setup i s)"
proof -
  define d where "d = want_dialtone s (cd_at s i)"
  define s1 where "s1 = cd_allocate_channel i
      (if nt_mode s \<or> point_to_point s then cd_upd i (\<lambda>cd. cd\<lparr>cd_need_release := True\<rparr>) s else s)"
  define s2 where "s2 = setup_answer i d s1"
  define s3 where "s3 = (if d then i4b_link_bchandrvr i True (cd_upd i (\<lambda>cd. cd\<lparr>cd_driver_type := 8, cd_driver_unit := 0\<rparr>) s2) else s2)"
  obtain s4 n where ind: "i4b_l4_connect_ind i s3 = (s4, n)"
    by (cases "i4b_l4_connect_ind i s3")
  have s1: "live i s1"
    using assms by (auto simp: s1_def core_defs intro!: live_alloc_channel live_upd)
  have "live i s3"
    using s1 by (auto simp: s3_def s2_def core_defs intro!: live_setup_answer live_link live_upd)
  moreover have "quiet s3 (fst (i4b_l4_connect_ind i s3))"
    by (rule quiet_connect_ind [OF quiet_refl])
  ultimately have "live i s4"
    using live_quiet ind by simp
  then have "live i (cd_upd i (\<lambda>cd. cd\<lparr>cd_connect_ind_count := m\<rparr>) s4)" for m
    by (intro live_upd) (simp_all add: core_defs)
  note live_inv [OF this] sms_release_inv [OF this]
  then show ?thesis
    using no_channel_available_inv [OF s1] live_inv [OF assms]
    by (simp add: ev_setup_def Let_def d_def [symmetric] s1_def [symmetric] s2_def [symmetric] s3_def [symmetric] ind)
qed

lemma live_proceedingrq [live_intros]: "live i s \<Longrightarrow> live i (ev_proceedingrq i s)"
  by (auto simp: ev_proceedingrq_def intro!: live_set_state live_tx_progress)

lemma ev_alertrq_inv: "live i s \<Longrightarrow> dss1_inv {} {} (ev_alertrq i s)"
  using sms_release_inv [of i s] live_inv [of i s]
  by (auto simp: ev_alertrq_def Let_def intro!: live_inv live_set_state live_tx_message live_tx_progress)

lemma live_progressrq [live_intros]: "live i s \<Longrightarrow> live i (ev_progressrq i s)"
  by (simp add: ev_progressrq_def live_tx_message)

lemma ev_setacrs_inv:
  assumes "live i s"
  shows "dss1_inv {} {} (ev_setacrs i s)"
proof -
  define u where "u = cd_set_state i ST_L3_U8 (cd_upd i (\<lambda>cd. cd\<lparr>cd_cause_out := 0, cd_need_release := True\<rparr>)
      (dss1_l3_tx_connect i (nt_mode s)
        (if cd_state (cd_at s i) < ST_L3_U6 then dss1_l3_tx_call_proceeding i (nt_mode s) False s else s)))"
  have "live i u"
    using assms by (auto simp: u_def core_defs intro!: live_set_state live_upd live_tx_progress)
  then show ?thesis
    using sms_release_inv [OF assms] live_inv [OF assms] event_connect_ack_inv [of i u] live_inv [of i u]
    by (simp add: ev_setacrs_def Let_def u_def [symmetric])
qed

lemma cd_update_inv:
  assumes "live i s" "ev = EV_L3_CONNECT \<Longrightarrow> \<exists>p<PIPE_MAX. pipe = Some p"
  shows "dss1_inv {} {} (cd_update i pipe ev s)"
proof -
  have "dss1_inv {} {} s"
    using assms(1) by (rule live_inv)
  moreover have "dss1_inv {} {} (cd_set_state i ST_L3_U0 (cd_upd i (\<lambda>cd. cd\<lparr>cd_need_release := True\<rparr>) s))"
    using assms(1) by (intro inv_set_state_U0 live_upd) (simp_all add: core_defs)
  moreover have "live i (dss1_l3_tx_status i 0x1E s)"
    using assms(1) by (simp add: live_rejects)
  ultimately show ?thesis
    unfolding cd_update_def using assms
    by (cases ev) (auto intro!: inv_set_state_U0 ev_alert_inv ev_connect_inv ev_setup_inv ev_alertrq_inv ev_setacrs_inv
        event_connect_ack_inv intro: live_inv live_intros)
qed


section \<open>Requests of the layer above\<close>

definition n_retrieve_request :: "nat \<Rightarrow> l2softc \<Rightarrow> l2softc" where
  "n_retrieve_request i = cd_update i None EV_L3_RETRIEVE_REQ"

definition n_hold_request :: "nat \<Rightarrow> l2softc \<Rightarrow> l2softc" where
  "n_hold_request i = cd_update i None EV_L3_HOLD_REQ"

definition n_deflect_request :: "nat \<Rightarrow> l2softc \<Rightarrow> l2softc" where
  "n_deflect_request i = cd_update i None EV_L3_DEFLECTRQ"

definition n_mcid_request :: "nat \<Rightarrow> l2softc \<Rightarrow> l2softc" where
  "n_mcid_request i = cd_update i None EV_L3_MCIDRQ"

definition n_connect_request :: "nat \<Rightarrow> l2softc \<Rightarrow> l2softc" where
  "n_connect_request i = cd_update i None EV_L3_SETUPRQ"

definition n_information_request :: "nat \<Rightarrow> l2softc \<Rightarrow> l2softc" where
  "n_information_request i = cd_update i None EV_L3_INFORQ"

text \<open>\<open>SETUP_RESP_REJECT\<close> is 1 and \<open>SETUP_RESP_ACCEPT\<close> is 2; any other response is \<open>SETUP_RESP_DNTCRE\<close>.\<close>

definition n_connect_response :: "nat \<Rightarrow> nat \<Rightarrow> u32 \<Rightarrow> l2softc \<Rightarrow> l2softc" where
  "n_connect_response i response cause s0 =
     (let s = cd_upd i (\<lambda>cd. cd\<lparr>cd_cause_out := cause\<rparr>) s0
      in if response = 2 then cd_update i None EV_L3_SETACRS s
         else if response = 1 then cd_update i None EV_L3_SETRJRS s
         else if cd_connect_ind_count (cd_at s i) < 2 then cd_update i None EV_L3_RELEASE s
         else cd_upd i (\<lambda>cd. cd\<lparr>cd_connect_ind_count := cd_connect_ind_count cd - 1\<rparr>) s)"

definition n_disconnect_request :: "nat \<Rightarrow> u32 \<Rightarrow> l2softc \<Rightarrow> l2softc" where
  "n_disconnect_request i cause s = cd_update i None EV_L3_RELEASE (cd_upd i (\<lambda>cd. cd\<lparr>cd_cause_out := cause\<rparr>) s)"

definition n_alert_request :: "nat \<Rightarrow> nat \<Rightarrow> l2softc \<Rightarrow> l2softc" where
  "n_alert_request i flag = cd_update i None (if odd flag then EV_L3_PROCEEDINGRQ else EV_L3_ALERTRQ)"

definition n_progress_request :: "nat \<Rightarrow> l2softc \<Rightarrow> l2softc" where
  "n_progress_request i = cd_update i None EV_L3_PROGRESSRQ"

text \<open>The argument \<open>crval\<close> matters for incoming calls only.\<close>

definition n_allocate_cd :: "nat option \<Rightarrow> u32 \<Rightarrow> nat \<Rightarrow> nat \<Rightarrow> l2softc \<Rightarrow> l2softc \<times> nat option" where
  "n_allocate_cd pipe crval ai_type ai_ptr s0 =
     (case i4b_allocate_cd s0 of
        (s, None) \<Rightarrow> (s, None)
      | (s, Some i) \<Rightarrow>
          let incoming = (pipe \<noteq> None);
              cr = (if incoming then crval else CDID2CALLREFERENCE (cd_cdid (cd_at s i)));
              s1 = cd_upd i (\<lambda>cd. cd\<lparr>cd_dir_incoming := incoming, cd_channel_id := CHAN_ANY, cd_channel_bprot := BPROT_NONE,
                     cd_cr := cr, cd_dst_telno_ptr := 0\<rparr>) s;
              s2 = cd_set_pipe i (Some (case pipe of None \<Rightarrow> 0 | Some p \<Rightarrow> p)) (cd_set_appl_interface i ai_type ai_ptr s1)
          in (cd_set_state i (if incoming then ST_L3_INCOMING else ST_L3_OUTGOING) s2, Some i))"

text \<open>
  The shorthold check; an idle call is released with \<open>CAUSE_I4B_NORMAL\<close>. States: 0 not started, 1 in
  the early hangup window, 2 check.
\<close>

definition i4b_idle_check :: "nat \<Rightarrow> l2softc \<Rightarrow> l2softc" where
  "i4b_idle_check i s =
     (let cd = cd_at s i; sh = cd_shorthold_data cd
      in if sc_fifo s \<and> cd_cdid cd \<noteq> CDID_UNUSED
         then if cd_idle_state cd = 1 then idle_unit i s
              else if cd_idle_state cd = 2
              then if idle_time sh \<le> 0 \<or> env_second s - cd_last_active_time cd < idle_time sh
                   then if earlyhup_time sh \<le> 0 then idle_unit i s
                        else cd_upd i (\<lambda>cd. cd\<lparr>cd_idle_state := 1, cd_idle_callout := Some (earlyhup_time sh)\<rparr>) s
                   else n_disconnect_request i 0x100 (i4b_l4_idle_timeout_ind i (cd_upd i (\<lambda>cd. cd\<lparr>cd_idle_state := 0\<rparr>) s))
              else s
         else s)"

text \<open>\<open>ptr\<close> is a string of digits; a null \<open>dst_telno_ptr\<close> and one at the start are the same position.\<close>

definition i4b_l3_information_req :: "nat \<Rightarrow> cstring \<Rightarrow> l2softc \<Rightarrow> l2softc" where
  "i4b_l3_information_req i ptr s0 =
     (let digits = take 40 ptr;
          s1 = cd_upd i (\<lambda>cd. cd\<lparr>cd_dst_telno_part := digits\<rparr>) s0;
          s2 = (if cd_dir_incoming (cd_at s1 i) then s1
                else cd_upd i (\<lambda>cd. let dst = min (cd_dst_telno_ptr cd) 40; n = min (length digits) (40 - dst)
                       in cd\<lparr>cd_dst_telno := take dst (cd_dst_telno cd) @ take n digits, cd_dst_telno_ptr := dst + n\<rparr>) s1)
      in n_information_request i s2)"

lemma live_cause_out: "live i s \<Longrightarrow> i4b_make_q850_cause c \<noteq> None \<Longrightarrow> live i (cd_upd i (\<lambda>cd. cd\<lparr>cd_cause_out := c\<rparr>) s)"
  by (auto simp: core_defs intro!: live_upd)

lemma cd_update_inv_None: "live i s \<Longrightarrow> ev \<noteq> EV_L3_CONNECT \<Longrightarrow> dss1_inv {} {} (cd_update i None ev s)"
  by (rule cd_update_inv) simp_all

lemma n_requests_inv:
  assumes "live i s"
  shows "dss1_inv {} {} (n_retrieve_request i s)" "dss1_inv {} {} (n_hold_request i s)" "dss1_inv {} {} (n_deflect_request i s)"
    "dss1_inv {} {} (n_mcid_request i s)" "dss1_inv {} {} (n_connect_request i s)" "dss1_inv {} {} (n_information_request i s)"
    "dss1_inv {} {} (n_alert_request i k s)" "dss1_inv {} {} (n_progress_request i s)"
  unfolding n_retrieve_request_def n_hold_request_def n_deflect_request_def n_mcid_request_def n_connect_request_def
    n_information_request_def n_alert_request_def n_progress_request_def
  by (rule cd_update_inv_None [OF assms]; simp)+

lemma n_cause_requests_inv:
  assumes "live i s" "i4b_make_q850_cause c \<noteq> None"
  shows "dss1_inv {} {} (n_connect_response i r c s)" "dss1_inv {} {} (n_disconnect_request i c s)"
proof -
  let ?t = "cd_upd i (\<lambda>cd. cd\<lparr>cd_cause_out := c\<rparr>) s"
  have t: "live i ?t"
    by (rule live_cause_out [OF assms])
  then have "live i (cd_upd i (\<lambda>cd. cd\<lparr>cd_connect_ind_count := cd_connect_ind_count cd - 1\<rparr>) ?t)"
    by (rule live_upd) (simp_all add: core_defs)
  then show "dss1_inv {} {} (n_connect_response i r c s)" "dss1_inv {} {} (n_disconnect_request i c s)"
    using cd_update_inv_None [OF t] live_inv by (simp_all add: n_connect_response_def n_disconnect_request_def Let_def)
qed

lemma idle_check_inv:
  assumes inv: "dss1_inv {} {} s" and i: "i < length (N_call_desc s)"
  shows "dss1_inv {} {} (i4b_idle_check i s)"
proof (cases "active s i")
  case True
  then have l: "live i s"
    using inv by (simp add: live_def)
  have q: "quiet s (idle_unit i s)" "quiet s (i4b_l4_idle_timeout_ind i (cd_upd i (\<lambda>cd. cd\<lparr>cd_idle_state := 0\<rparr>) s))"
    "quiet s (cd_upd i (\<lambda>cd. cd\<lparr>cd_idle_state := 1, cd_idle_callout := x\<rparr>) s)" for x
    by (auto simp: core_defs i4b_l4_idle_timeout_ind_def intro!: quiet_intros)
  have "i4b_make_q850_cause 0x100 \<noteq> None"
    by (simp add: i4b_make_q850_cause_def Let_def)
  then show ?thesis
    using inv quiet_inv [OF q(1) inv] quiet_inv [OF q(3) inv] n_cause_requests_inv(2) [OF live_quiet [OF l q(2)]]
    by (auto simp: i4b_idle_check_def Let_def)
next
  case False
  then show ?thesis
    using inv i by (simp add: i4b_idle_check_def Let_def active_def)
qed

lemma information_req_inv:
  assumes "live i s"
  shows "dss1_inv {} {} (i4b_l3_information_req i ptr s)"
proof -
  define s1 where "s1 = cd_upd i (\<lambda>cd. cd\<lparr>cd_dst_telno_part := take 40 ptr\<rparr>) s"
  have "live i s1"
    unfolding s1_def using assms by (intro live_upd) (simp_all add: core_defs)
  moreover from this have "live i (cd_upd i (\<lambda>cd. let dst = min (cd_dst_telno_ptr cd) 40; n = min (length (take 40 ptr)) (40 - dst)
      in cd\<lparr>cd_dst_telno := take dst (cd_dst_telno cd) @ take n (take 40 ptr), cd_dst_telno_ptr := dst + n\<rparr>) s1)"
    by (rule live_upd) (auto simp: core_defs Let_def min_def simp flip: length_0_conv)
  ultimately show ?thesis
    by (auto simp: i4b_l3_information_req_def Let_def s1_def [symmetric] intro!: n_requests_inv)
qed


section \<open>A new call\<close>

definition new_cd :: "nat \<Rightarrow> u32 \<Rightarrow> u32 \<Rightarrow> l2softc \<Rightarrow> l2softc" where
  "new_cd i new_cdid c s = cd_upd i (\<lambda>_. cd_zero\<lparr>cd_cdid := new_cdid\<rparr>) (s\<lparr>N_cdid_count := c\<rparr>)"

lemma allocate_cd_form:
  fixes s :: l2softc
  assumes "i4b_allocate_cd s = (s', r)" "wf_cdid_range s"
  shows "r = None \<and> s' = s \<or>
    (\<exists>i n c. i < length (N_call_desc s) \<and> cd_cdid (cd_at s i) = CDID_UNUSED \<and> s' = new_cd i n c s \<and>
      r = (if n = CDID_UNUSED then None else Some i))"
proof (cases "find_index (\<lambda>cd. cd_cdid cd = CDID_UNUSED) (N_call_desc s)")
  case None
  then show ?thesis
    using assms(1) by (simp add: i4b_allocate_cd_def)
next
  case (Some i)
  obtain s1 n where g: "get_cdid (cd_upd i (\<lambda>_. cd_zero) s) = (s1, n)"
    by (cases "get_cdid (cd_upd i (\<lambda>_. cd_zero) s)")
  have i: "i < length (N_call_desc s)" "cd_cdid (cd_at s i) = CDID_UNUSED"
    using find_index_Some [OF Some] by (auto simp: cd_at_def)
  have wf: "wf_cdid_range (cd_upd i (\<lambda>_. cd_zero) s)"
    using assms(2) by (simp add: wf_cdid_range_def)
  define c where "c = N_cdid_count s1"
  have "s1 = (cd_upd i (\<lambda>_. cd_zero) s)\<lparr>N_cdid_end := N_cdid_end s, N_cdid_count := c\<rparr>"
    using get_cdid_pick(2,3) [OF wf g] by (simp add: c_def)
  then have "cd_upd i (\<lambda>cd. cd\<lparr>cd_cdid := n\<rparr>) s1 = new_cd i n c s"
    using i(1) by (simp add: new_cd_def cd_upd_def)
  then have "s' = new_cd i n c s \<and> r = (if n = CDID_UNUSED then None else Some i)"
    using assms(1) Some g by (simp add: i4b_allocate_cd_def Let_def split: if_splits)
  then show ?thesis
    using i by blast
qed

lemma inv_new_cd:
  assumes inv: "dss1_inv X Y s" and i: "i < length (N_call_desc s)" "i \<notin> X" and unused: "cd_cdid (cd_at s i) = CDID_UNUSED"
    and fresh: "n \<noteq> CDID_UNUSED \<Longrightarrow> \<forall>j<length (N_call_desc s). j \<noteq> i \<longrightarrow> cd_cdid (cd_at s j) \<noteq> n"
  shows "dss1_inv (insert i X) Y (new_cd i n c s)"
proof -
  let ?t = "new_cd i n c s"
  have at: "cd_at ?t i = cd_zero\<lparr>cd_cdid := n\<rparr>" "\<And>j. j \<noteq> i \<Longrightarrow> cd_at ?t j = cd_at s j" "length (N_call_desc ?t) = length (N_call_desc s)"
    using i(1) by (simp_all add: new_cd_def cd_upd_def cd_at_def)
  have frame: "sc_pipe ?t = sc_pipe s" "N_channel_utilization ?t = N_channel_utilization s" "L1_channel_end ?t = L1_channel_end s"
    "N_cdid_end ?t = N_cdid_end s" "sc_fault ?t = sc_fault s" "nt_mode ?t = nt_mode s" "point_to_point ?t = point_to_point s"
    "L1_auto_activate ?t = L1_auto_activate s" "sc_current_pipe ?t = sc_current_pipe s" "sc_current_mbuf ?t = sc_current_mbuf s"
    "sc_current_length ?t = sc_current_length s"
    by (simp_all add: new_cd_def cd_upd_def)
  have old: "cd_pipe (cd_at s i) = None" "\<not> cd_channel_allocated (cd_at s i)"
    using dss1_invD(7) [OF inv i] unused by (simp_all add: call_ok_def)
  have pipe: "cd_pipe (cd_at ?t j) = cd_pipe (cd_at s j)" for j
    using old at by (cases "j = i") simp_all
  have "chan_inv ?t"
  proof (rule same_channels_inv [OF _ dss1_invD(4) [OF inv]])
    have "cd_channel_allocated (cd_at ?t j) = cd_channel_allocated (cd_at s j)" for j
      using old at by (cases "j = i") simp_all
    moreover have "cd_channel_allocated (cd_at s j) \<Longrightarrow> cd_channel_id (cd_at ?t j) = cd_channel_id (cd_at s j)" for j
      using old at by (cases "j = i") simp_all
    ultimately show "same_channels s ?t"
      by (simp add: same_channels_def frame at(3))
  qed
  moreover have "unique_cdids ?t"
    unfolding unique_cdids_def
  proof (intro allI impI)
    fix j k
    assume jk: "j < length (N_call_desc ?t)" "k < length (N_call_desc ?t)" "cd_cdid (cd_at ?t j) = cd_cdid (cd_at ?t k)"
      "cd_cdid (cd_at ?t j) \<noteq> CDID_UNUSED"
    have new: "cd_cdid (cd_at ?t i) = n"
      by (simp add: at(1))
    show "j = k"
    proof (cases "j = i \<or> k = i")
      case True
      then show ?thesis
        using jk new fresh at(2) [of j] at(2) [of k] by (cases "j = i"; cases "k = i") (auto simp add: at(3))
    next
      case False
      then show ?thesis
        using jk at(2) [of j] at(2) [of k] dss1_invD(5) [OF inv] by (simp add: unique_cdids_def at(3))
    qed
  qed
  moreover have "calls_on ?t p = calls_on s p" "linked ?t = linked s" for p
    by (simp_all add: calls_on_def linked_def pipe at(3))
  moreover have "pipe_at ?t p = pipe_at s p" for p
    by (simp add: pipe_at_def frame)
  ultimately show ?thesis
    using inv at by (simp add: dss1_inv_def pipe_ok_def adapter_def current_ok_def wf_cdid_range_def frame)
qed

lemma new_cd_zero: "i < length (N_call_desc s) \<Longrightarrow> cd_at (new_cd i n c s) i = cd_zero\<lparr>cd_cdid := n\<rparr>"
  "length (N_call_desc (new_cd i n c s)) = length (N_call_desc s)"
  by (simp_all add: new_cd_def cd_upd_def cd_at_def)

lemma zero_ok: "strings_ok cd_zero" "cause_ok cd_zero"
  by (simp_all add: strings_ok_def cause_ok_def cd_zero_def src_ok_def src_zero_def)


lemma allocate_cd_inv:
  assumes inv: "dss1_inv {} Y s" and al: "i4b_allocate_cd s = (s', r)"
  shows "r = None \<Longrightarrow> dss1_inv {} Y s'"
    "r = Some i \<Longrightarrow> dss1_inv {i} Y s' \<and> i < length (N_call_desc s') \<and> (\<exists>n. n \<noteq> CDID_UNUSED \<and> cd_at s' i = cd_zero\<lparr>cd_cdid := n\<rparr>)"
proof -
  note wf = dss1_invD(6) [OF inv]
  consider "r = None" "s' = s" | i n c where "i < length (N_call_desc s)" "cd_cdid (cd_at s i) = CDID_UNUSED" "s' = new_cd i n c s"
    "r = (if n = CDID_UNUSED then None else Some i)"
    using allocate_cd_form [OF al wf] by blast
  then have "(r = None \<longrightarrow> dss1_inv {} Y s') \<and> (\<forall>i. r = Some i \<longrightarrow> dss1_inv {i} Y s' \<and> i < length (N_call_desc s') \<and>
      (\<exists>n. n \<noteq> CDID_UNUSED \<and> cd_at s' i = cd_zero\<lparr>cd_cdid := n\<rparr>))"
  proof cases
    case 2
    have fresh: "\<forall>j<length (N_call_desc s). j \<noteq> i \<longrightarrow> cd_cdid (cd_at s j) \<noteq> n" if "n \<noteq> CDID_UNUSED"
    proof -
      have "i4b_allocate_cd s = (s', Some i)"
        using al that 2(4) by simp
      then obtain m where m: "cd_at s' i = cd_zero\<lparr>cd_cdid := m\<rparr>" "\<forall>j<length (N_call_desc s). j \<noteq> i \<longrightarrow> cd_cdid (cd_at s j) \<noteq> m"
        using allocate_cd_effect(3) [OF _ wf] by blast
      have "cd_cdid (cd_at s' i) = n"
        using new_cd_zero(1) [OF 2(1)] by (simp add: 2(3))
      then show ?thesis
        using m by simp
    qed
    have inv': "dss1_inv {i} Y s'"
      using inv_new_cd [OF inv 2(1) _ 2(2) fresh] by (simp add: 2(3))
    have "call_ok (cd_at s' i)" if "n = CDID_UNUSED"
      using that new_cd_zero(1) [OF 2(1)] by (simp add: 2(3) call_ok_def)
    then show ?thesis
      using inv' dss1_inv_close [of i "{}" Y s'] new_cd_zero(1) [OF 2(1)] new_cd_zero(2) [of i] 2 by auto
  qed (use inv in simp)
  then show "r = None \<Longrightarrow> dss1_inv {} Y s'"
    "r = Some i \<Longrightarrow> dss1_inv {i} Y s' \<and> i < length (N_call_desc s') \<and> (\<exists>n. n \<noteq> CDID_UNUSED \<and> cd_at s' i = cd_zero\<lparr>cd_cdid := n\<rparr>)"
    by blast+
qed

lemma n_allocate_cd_inv:
  assumes inv: "dss1_inv {} {} s" and pipe: "\<forall>p. pipe = Some p \<longrightarrow> p < PIPE_MAX" and res: "n_allocate_cd pipe crval ty ptr s = (s', r)"
  shows "dss1_inv {} {} s' \<and> (\<forall>i. r = Some i \<longrightarrow> live i s')"
proof (cases "i4b_allocate_cd s")
  case (Pair s0 r0)
  show ?thesis
  proof (cases r0)
    case None
    then show ?thesis
      using allocate_cd_inv(1) [OF inv Pair] res Pair by (simp add: n_allocate_cd_def)
  next
    case (Some i)
    obtain n where inv0: "dss1_inv {i} {} s0" and i: "i < length (N_call_desc s0)" and n: "n \<noteq> CDID_UNUSED"
      and zero: "cd_at s0 i = cd_zero\<lparr>cd_cdid := n\<rparr>"
      using allocate_cd_inv(2) [OF inv Pair Some] by blast
    define p where "p = (case pipe of None \<Rightarrow> 0 | Some p \<Rightarrow> p)"
    define f where "f = (\<lambda>cd :: call_desc. cd\<lparr>cd_dir_incoming := pipe \<noteq> None, cd_channel_id := CHAN_ANY, cd_channel_bprot := BPROT_NONE,
       cd_cr := (if pipe \<noteq> None then crval else CDID2CALLREFERENCE (cd_cdid (cd_at s0 i))), cd_dst_telno_ptr := 0\<rparr>)"
    define s1 where "s1 = cd_set_appl_interface i ty ptr (cd_upd i f s0)"
    define s2 where "s2 = cd_set_pipe i (Some p) s1"
    define st where "st = (if pipe \<noteq> None then ST_L3_INCOMING else ST_L3_OUTGOING)"
    have r: "s' = cd_set_state i st s2" "r = Some i"
      using res Pair Some by (simp_all add: n_allocate_cd_def Let_def s2_def s1_def f_def p_def st_def)
    have p: "p < PIPE_MAX"
      using pipe by (auto simp: p_def PIPE_MAX_def split: option.splits)
    have "quiet s0 (cd_upd i f s0)"
      by (rule quiet_cd_upd) (simp_all add: zero f_def core_defs cd_zero_def)
    then have q1: "quiet s0 s1"
      unfolding s1_def by (rule quiet_appl)
    have inv1: "dss1_inv {i} {} s1"
      by (rule quiet_inv [OF q1 inv0])
    have i1: "i < length (N_call_desc s1)"
      using i quiet_fields(1) [OF q1] by simp
    have core1: "cd_pipe (cd_at s1 i) = None" "cause_ok (cd_at s1 i)" "strings_ok (cd_at s1 i)" "cd_cdid (cd_at s1 i) = n"
      using quiet_cd_fields [OF q1 i] zero zero_ok by (simp_all add: cause_ok_def strings_ok_def)
    have "calls_ready p s1"
      unfolding calls_ready_def
    proof (intro allI impI)
      fix j
      assume j: "j < length (N_call_desc s1)" "cd_cdid (cd_at s1 j) \<noteq> CDID_UNUSED" "cd_pipe (cd_at s1 j) = Some p"
      then have "j \<noteq> i"
        using core1(1) by (cases "j = i") simp_all
      then show "ready s1 j"
        using active_ready(1) [OF inv1, of j] j by (simp add: active_def)
    qed
    note step = set_pipe_inv [OF inv1 i1 p _ this]
    obtain b where b: "quiet b s2" "length (N_call_desc b) = length (N_call_desc s1)" "cd_at b i = (cd_at s1 i)\<lparr>cd_pipe := Some p\<rparr>"
      using step(2) core1(1) unfolding s2_def by auto
    have ib: "i < length (N_call_desc b)"
      using b(2) i1 by simp
    have i2: "cd_pipe (cd_at s2 i) = Some p" "cd_cdid (cd_at s2 i) \<noteq> CDID_UNUSED" "i < length (N_call_desc s2)"
      using quiet_cd_fields [OF b(1) ib] quiet_fields(1) [OF b(1)] b(3) core1 n ib by simp_all
    have "ready b i"
      using core1 ib by (simp add: ready_def b(3) cause_ok_def strings_ok_def)
    then have rdy: "ready s2 i"
      using quiet_ready [OF b(1)] by blast
    have "dss1_inv (insert i {}) {} s2"
      using step(1) core1(1) by (simp add: s2_def)
    from cd_set_state_first [OF this _ _ _ _ rdy i2(1) p, of st] show ?thesis
      using i2 by (simp add: r live_def active_def st_def)
  qed
qed

end
