(* ===== verification/DSS1_Decoder.thy ===== *)
theory DSS1_Decoder
  imports DSS1_L3fsm
begin

unbundle bit_operations_syntax

text \<open>
  Received messages (\<^verbatim>\<open>src/src/sys/i4b/dss1/dss1_l3decoder.h\<close>): the information element loop
  \<open>dss1_decode_ie\<close>, the decoder of an element into a call descriptor and \<open>dss1_pipe_data_ind\<close>, which
  finds or allocates the call and gives the event to the state machine.
\<close>

section \<open>The information element loop\<close>

text \<open>
  The loop advances the offset by the length of each element. Its arithmetic is that of 16 bits, so
  that for a buffer of nearly 64 KiB it need not end; then the result is \<open>None\<close>.
\<close>

definition ie_length :: "dss1_buffer \<Rightarrow> u16" where
  "ie_length buf = (if dss1_get_1 buf 0 AND 0x80 = 0 then ucast (dss1_get_1 buf 1) + 2 else 1)"

definition next_codeset :: "u8 \<Rightarrow> u8 \<times> u8 \<Rightarrow> u8 \<times> u8" where
  "next_codeset msg_type cs =
     (case cs of (codeset, codeset_next) \<Rightarrow>
        if msg_type AND 0xF0 = 0x90
        then let c = msg_type AND 0x07 in (c, if msg_type AND 0x08 \<noteq> 0 then c else codeset)
        else (codeset_next, codeset_next))"

fun decode_ie_loop :: "nat \<Rightarrow> (dss1_buffer \<Rightarrow> 'a \<Rightarrow> 'a) \<Rightarrow> u8 \<times> u8 \<Rightarrow> dss1_buffer \<Rightarrow> 'a \<Rightarrow> 'a option" where
  "decode_ie_loop n q931_func cs buf arg =
     (if dss1_get_valid buf 0
      then case n of
             0 \<Rightarrow> None
           | Suc n \<Rightarrow>
               (case dss1_set_length buf (db_offset buf + ie_length buf) of
                  (elem, old_len) \<Rightarrow>
                    decode_ie_loop n q931_func (next_codeset (dss1_get_1 buf 0) cs)
                      (elem\<lparr>db_offset := db_len elem, db_len := old_len\<rparr>)
                      (if fst cs = 0 then q931_func elem arg else arg))
      else Some arg)"

declare decode_ie_loop.simps [simp del]

definition dss1_decode_ie :: "(dss1_buffer \<Rightarrow> 'a \<Rightarrow> 'a) \<Rightarrow> dss1_buffer \<Rightarrow> 'a \<Rightarrow> 'a option" where
  "dss1_decode_ie q931_func buf arg = decode_ie_loop (unat (db_len buf)) q931_func (0, 0) buf arg"

definition dss1_decode_q931_cs0_ie_restart :: "dss1_buffer \<Rightarrow> u8 \<Rightarrow> u8" where
  "dss1_decode_q931_cs0_ie_restart buf restart_ind =
     (if dss1_get_1 buf 0 = 0x79 then dss1_get_1 buf 2 else restart_ind)"

section \<open>Elements\<close>

definition ie_bearer :: "dss1_buffer \<Rightarrow> call_desc \<Rightarrow> call_desc" where
  "ie_bearer buf cd =
     (if cd_dir_incoming cd
      then let temp = dss1_get_1 buf 2; sub = dss1_get_1 buf 4 AND 0x1F
           in cd\<lparr>cd_channel_bprot := (if temp = 0x90 then BPROT_NONE_3_1_KHZ else if temp = 0x88 then BPROT_RHDLC else BPROT_NONE),
                 cd_channel_bsubprot := (if sub = 2 then 2 else if sub = 3 then 1 else 0)\<rparr>
      else cd)"

text \<open>The channel an element asks for; \<open>None\<close> leaves the choice as it is.\<close>

definition ie_channel :: "l2softc \<Rightarrow> dss1_buffer \<Rightarrow> int option" where
  "ie_channel s buf =
     (let temp = dss1_get_1 buf 2; exclusive = (temp AND 0x08 \<noteq> 0 \<or> \<not> nt_mode s); iid = (temp AND 0x40 \<noteq> 0); ch = temp AND 0x03
      in if temp AND 0x04 \<noteq> 0 then (if exclusive then Some CHAN_D1 else None)
         else if temp AND 0x20 \<noteq> 0
         then if ch = 3 then Some CHAN_ANY
              else if ch = 1
              then if dss1_get_1 buf (if iid then 4 else 3) AND 0x2F = 0x03 \<and> exclusive
                   then Some (env_decode_channel s (int (unat (dss1_get_1 buf (if iid then 5 else 4) AND 0x7F)))) else None
              else if ch = 0 then Some CHAN_NOT_ANY
              else None
         else if ch = 0 then Some CHAN_NOT_ANY
         else if ch = 3 then Some CHAN_ANY
         else if exclusive then Some (if ch = 1 then CHAN_B1 else CHAN_B2)
         else None)"

definition ie_channelid :: "l2softc \<Rightarrow> dss1_buffer \<Rightarrow> call_desc \<Rightarrow> call_desc" where
  "ie_channelid s buf cd =
     (if cd_channel_allocated cd then cd
      else case ie_channel s buf of None \<Rightarrow> cd | Some c \<Rightarrow> cd\<lparr>cd_channel_id := c\<rparr>)"

definition ie_progress :: "dss1_buffer \<Rightarrow> call_desc \<Rightarrow> call_desc" where
  "ie_progress buf cd =
     (let temp = dss1_get_1 buf 3 AND 0x7F
      in if temp = 1 \<or> temp = 2 \<or> temp = 3 then cd\<lparr>cd_not_end_to_end_digital := True\<rparr>
         else if temp = 4 then cd\<lparr>cd_not_end_to_end_digital := False\<rparr> else cd)"

definition ie_datetime :: "l2softc \<Rightarrow> dss1_buffer \<Rightarrow> call_desc \<Rightarrow> call_desc" where
  "ie_datetime s buf cd =
     (if cd_dir_incoming cd \<or> nt_mode s then cd
      else cd\<lparr>cd_idate_time := map (dss1_get_1 buf) [2, 3, 4, 5, 6, 7]\<rparr>)"

text \<open>Type of number: 1 international, 2 national, 0 other.\<close>

definition type_of_number :: "u8 \<Rightarrow> u8" where
  "type_of_number temp =
     (let t = drop_bit 4 (temp AND 0x70) in if t = 1 then 1 else if t = 2 then 2 else 0)"

definition src_apply :: "bool \<Rightarrow> (i4b_src_telno \<Rightarrow> i4b_src_telno) \<Rightarrow> call_desc \<Rightarrow> call_desc" where
  "src_apply second f cd =
     cd\<lparr>cd_src := (if second then (fst (cd_src cd), f (snd (cd_src cd))) else (f (fst (cd_src cd)), snd (cd_src cd)))\<rparr>"

definition calling_number :: "dss1_buffer \<Rightarrow> i4b_src_telno \<Rightarrow> i4b_src_telno" where
  "calling_number buf p_src =
     (let temp = dss1_get_1 buf 2; ind = dss1_get_1 buf 3; p = p_src\<lparr>src_ton := type_of_number temp\<rparr>
      in if temp AND 0x80 \<noteq> 0
         then p\<lparr>src_scr_ind := 0, src_prs_ind := 0, src_telno := multi_string (src_telno p_src) buf 3 41 True\<rparr>
         else p\<lparr>src_scr_ind := (ind AND 0x03) + 1, src_prs_ind := (drop_bit 5 ind AND 0x03) + 1,
                src_telno := multi_string (src_telno p_src) buf 4 41 True\<rparr>)"

definition ie_callingpn :: "dss1_buffer \<Rightarrow> call_desc \<Rightarrow> call_desc" where
  "ie_callingpn buf cd =
     (if \<not> cd_dir_incoming cd then cd
      else if cd_received_src_telno_1 cd
      then src_apply True (calling_number buf) (cd\<lparr>cd_received_src_telno_2 := True\<rparr>)
      else src_apply False (calling_number buf) (cd\<lparr>cd_received_src_telno_1 := True\<rparr>))"

definition ie_callingps :: "dss1_buffer \<Rightarrow> call_desc \<Rightarrow> call_desc" where
  "ie_callingps buf cd =
     (if \<not> cd_dir_incoming cd then cd
      else src_apply (cd_received_src_telno_2 cd) (\<lambda>p. p\<lparr>src_subaddr := multi_string (src_subaddr p) buf 3 21 True\<rparr>) cd)"

text \<open>The called number of an incoming call is appended at \<open>dst_telno_ptr\<close>; \<open>dst_telno\<close> has 41 octets.\<close>

definition ie_calledpn :: "dss1_buffer \<Rightarrow> call_desc \<Rightarrow> call_desc" where
  "ie_calledpn buf cd0 =
     (let cd = (if cd_dir_incoming cd0
                then let n = cd_dst_telno_ptr cd0; room = 41 - n
                     in cd0\<lparr>cd_dst_ton := type_of_number (dss1_get_1 buf 2),
                            cd_dst_telno := take n (cd_dst_telno cd0) @ multi_string (drop n (cd_dst_telno cd0)) buf 3 room True,
                            cd_dst_telno_ptr := n + snd (get_multi_1 buf 3 room True)\<rparr>
                else cd0)
      in cd\<lparr>cd_dst_telno_part := multi_string (cd_dst_telno_part cd) buf 3 41 True\<rparr>)"

text \<open>The size passed for the display text is that of its first element, one octet.\<close>

definition ie_cd :: "l2softc \<Rightarrow> dss1_buffer \<Rightarrow> call_desc \<Rightarrow> call_desc" where
  "ie_cd s buf cd =
     (let ty = dss1_get_1 buf 0; temp = dss1_get_1 buf 2
      in if ty AND 0x80 \<noteq> 0
         then (if ty = 0xA1 \<and> cd_dir_incoming cd then cd\<lparr>cd_sending_complete := True\<rparr> else cd)
         else if ty = 0x04 then ie_bearer buf cd
         else if ty = 0x08
         then cd\<lparr>cd_cause_in := ucast (dss1_get_1 buf (if temp AND 0x80 \<noteq> 0 then 3 else 4) AND 0x7F)\<rparr>
         else if ty = 0x14 then cd\<lparr>cd_call_state := temp AND 0x3F\<rparr>
         else if ty = 0x18 then ie_channelid s buf cd
         else if ty = 0x1E then ie_progress buf cd
         else if ty = 0x28 then cd\<lparr>cd_display := multi_string (cd_display cd) buf 2 1 True\<rparr>
         else if ty = 0x29 then ie_datetime s buf cd
         else if ty = 0x6C then ie_callingpn buf cd
         else if ty = 0x6D then ie_callingps buf cd
         else if ty = 0x70 then ie_calledpn buf cd
         else if ty = 0x71
         then (if cd_dir_incoming cd then cd\<lparr>cd_dst_subaddr := multi_string (cd_dst_subaddr cd) buf 3 21 True\<rparr> else cd)
         else if ty = 0x7E then cd\<lparr>cd_user_user := multi_string (cd_user_user cd) buf 2 129 False\<rparr>
         else cd)"

text \<open>The cases of the channel identification and of the date follow \<open>cd->pipe\<close>.\<close>

definition dss1_decode_q931_cs0_ie_cd :: "nat \<Rightarrow> dss1_buffer \<Rightarrow> l2softc \<Rightarrow> l2softc" where
  "dss1_decode_q931_cs0_ie_cd i buf s =
     (let ty = dss1_get_1 buf 0
      in if cd_pipe (cd_at s i) = None \<and> (ty = 0x29 \<or> ty = 0x18 \<and> \<not> cd_channel_allocated (cd_at s i)) then fault s
         else cd_upd i (ie_cd s buf) s)"

section \<open>Messages\<close>

definition Q931_MESSAGE_TYPES_EVENT :: "(u8 \<times> l3_event) list" where
  "Q931_MESSAGE_TYPES_EVENT =
     [(0x01, EV_L3_ALERT), (0x02, EV_L3_CALLPRC), (0x03, EV_L3_PROGIND), (0x05, EV_L3_SETUP), (0x07, EV_L3_CONNECT),
      (0x0D, EV_L3_SETUPAK), (0x0F, EV_L3_CONACK), (0x24, EV_L3_HOLD_IND), (0x31, EV_L3_RETRIEVE_IND),
      (0x33, EV_L3_RETRIEVE_ACK), (0x45, EV_L3_DISCONNECT), (0x46, EV_L3_RESTART_IND), (0x4D, EV_L3_RELEASE),
      (0x4E, EV_L3_RESTART_ACK), (0x5A, EV_L3_RELEASE), (0x62, EV_L3_FACILITY), (0x75, EV_L3_STATENQ),
      (0x7B, EV_L3_INFO), (0x7D, EV_L3_STATUS)]"

definition message_event :: "u8 \<Rightarrow> l3_event" where
  "message_event mt = (case map_of Q931_MESSAGE_TYPES_EVENT mt of None \<Rightarrow> EV_L3_ILL | Some ev \<Rightarrow> ev)"

text \<open>A message for a call reference nobody has; the descriptor allocated for it, if any.\<close>

definition no_call :: "nat \<Rightarrow> dss1_buffer \<Rightarrow> bool \<Rightarrow> u32 \<Rightarrow> u8 \<Rightarrow> l3_event \<Rightarrow> l2softc \<Rightarrow> l2softc \<times> nat option" where
  "no_call p buf broadcast crval mt ev s =
     (if crval AND 0x80 \<noteq> 0 \<and> ev = EV_L3_SETUP then n_allocate_cd (Some p) crval 0 0 s
      else if crval AND NOT 0x80 = 0
      then case dss1_decode_ie dss1_decode_q931_cs0_ie_restart buf 0 of
             None \<Rightarrow> (fault s, None)
           | Some _ \<Rightarrow>
               (if ev = EV_L3_RESTART_IND
                then dss1_pipe_reset_ind p (dss1_l3_tx_message_by_pipe_cr p crval 0x4E (L3_TX_HEADER OR L3_TX_RESTARTI) 0 7 s)
                else s, None)
      else if nt_mode s \<and> \<not> point_to_point s \<and> L3_EVENT_IS_LOCAL_OUTGOING ev \<and> \<not> L3_EVENT_IS_LOCAL_INCOMING ev \<and>
              crval AND 0x80 = 0
      then (dss1_l3_tx_message_by_pipe_cr p crval 0x5A (L3_TX_HEADER OR L3_TX_CAUSE) 0x51 0 s, None)
      else if \<not> nt_mode s \<and> \<not> broadcast \<and> mt = 0x4D \<and> crval = 0x7F
      then (dss1_l3_tx_message_by_pipe_cr p crval 0x5A (L3_TX_HEADER OR L3_TX_CAUSE) 0x51 0 s, None)
      else (s, None))"

definition call_message :: "nat \<Rightarrow> nat \<Rightarrow> dss1_buffer \<Rightarrow> l3_event \<Rightarrow> l2softc \<Rightarrow> l2softc" where
  "call_message i p buf ev0 s0 =
     (let ev = (if ev0 = EV_L3_DISCONNECT \<and> \<not> cd_want_late_inband (cd_at s0 i) then EV_L3_RELEASE else ev0);
          s1 = cd_upd i (\<lambda>cd. cd\<lparr>cd_idate_time := (if ev = EV_L3_CONNECT then [] else cd_idate_time cd),
                 cd_dst_telno_ptr := (if ev = EV_L3_SETUP then 0 else cd_dst_telno_ptr cd),
                 cd_dst_telno_part := [], cd_peer_responded := True\<rparr>) s0
      in case dss1_decode_ie (dss1_decode_q931_cs0_ie_cd i) buf s1 of
           None \<Rightarrow> fault s1
         | Some s \<Rightarrow>
             if nt_mode s \<and> \<not> point_to_point s \<and>
                (ev = EV_L3_RELEASE \<and> cd_cause_in (cd_at s i) \<noteq> 0x15 \<and> cd_cause_in (cd_at s i) \<noteq> 0x11 \<and> cd_pipe (cd_at s i) = Some 0 \<or>
                 ev = EV_L3_DISCONNECT)
             then s else cd_update i (Some p) ev s)"

definition buf_skip :: "u16 \<Rightarrow> dss1_buffer \<Rightarrow> dss1_buffer" where
  "buf_skip n buf = buf\<lparr>db_offset := db_offset buf + n\<rparr>"

text \<open>
  A call reference has at most four octets. The cast is that of \<open>cr_temp[0] + 1\<close> to the 16 bits of
  the offset.
\<close>

definition read_callreference :: "dss1_buffer \<Rightarrow> u32" where
  "read_callreference buf =
     (let l = dss1_get_1 buf 0 AND 0x0F
      in get_callreference ((if 4 < l then 4 else l) # map (dss1_get_1 buf) [1, 2, 3, 4]) XOR 0x80)"

definition dss1_pipe_data_ind :: "nat \<Rightarrow> dss1_buffer \<Rightarrow> bool \<Rightarrow> l2softc \<Rightarrow> l2softc" where
  "dss1_pipe_data_ind p buf0 broadcast s =
     (if \<not> dss1_get_valid buf0 0 \<or> nt_mode s \<and> broadcast \<or> dss1_get_1 buf0 0 \<noteq> 0x08 then s
      else let buf1 = buf_skip 1 buf0;
               crval = read_callreference buf1;
               buf2 = buf_skip (ucast (dss1_get_1 buf1 0 AND 0x0F) + 1) buf1;
               mt = dss1_get_1 buf2 0 AND 0x7F; ev = message_event mt;
               buf = buf_skip 1 buf2
           in case cd_by_unitcr s p 0 crval of
                Some i \<Rightarrow> call_message i p buf ev s
              | None \<Rightarrow>
                  (case no_call p buf broadcast crval mt ev s of
                     (s, None) \<Rightarrow> s
                   | (s, Some i) \<Rightarrow> call_message i p buf ev s))"


section \<open>The loop ends and sees each element once\<close>

text \<open>The elements of codeset 0 among the octets of a message, each as the octets it consists of.\<close>

fun elements :: "nat \<Rightarrow> u8 \<times> u8 \<Rightarrow> u8 list \<Rightarrow> u8 list list" where
  "elements n cs xs =
     (case n of 0 \<Rightarrow> [] | Suc n \<Rightarrow>
        if xs = [] then []
        else let k = (if hd xs AND 0x80 = 0 then unat (nth0 xs 1) + 2 else 1)
             in (if fst cs = 0 then [take k xs] else []) @ elements n (next_codeset (hd xs) cs) (drop k xs))"

declare elements.simps [simp del]

definition message_elements :: "u8 list \<Rightarrow> u8 list list" where
  "message_elements xs = elements (length xs) (0, 0) xs"

text \<open>A frame short enough for 16-bit arithmetic.\<close>

definition short_buffer :: "dss1_buffer \<Rightarrow> bool" where
  "short_buffer b \<longleftrightarrow> wf_buffer b \<and> unat (db_len b) \<le> 65000"

lemma unat_octet_add: "unat (ucast x + 2 :: u16) = unat x + 2" for x :: u8
proof -
  have small: "unat x < 65536 \<and> unat x + 2 < 65536"
    using unat_u8_less [of x] by linarith
  then have "unat (ucast x :: u16) = unat x"
    by (simp add: unsigned_ucast_eq take_bit_nat_eq_self_iff)
  then show ?thesis
    using small by (simp add: unat_word_ariths(1))
qed

lemma ie_length_range: "1 \<le> unat (ie_length b)" "unat (ie_length b) \<le> 257"
proof -
  have "unat (dss1_get_1 b 1) \<le> 255"
    using unat_u8_less [of "dss1_get_1 b 1"] by linarith
  then show "1 \<le> unat (ie_length b)" "unat (ie_length b) \<le> 257"
    by (simp_all add: ie_length_def unat_octet_add)
qed

lemma ie_length_view:
  assumes "wf_buffer b" "view b \<noteq> []"
  shows "unat (ie_length b) = (if hd (view b) AND 0x80 = 0 then unat (nth0 (view b) 1) + 2 else 1)"
  using assms by (simp add: ie_length_def get_1_view nth0_def hd_conv_nth unat_octet_add)

lemma element_buffer:
  assumes b: "short_buffer b" and v: "view b \<noteq> []" and set: "dss1_set_length b (db_offset b + ie_length b) = (el, old)"
  shows "wf_buffer el" "view el = take (unat (ie_length b)) (view b)"
    "short_buffer (el\<lparr>db_offset := db_len el, db_len := old\<rparr>)"
    "view (el\<lparr>db_offset := db_len el, db_len := old\<rparr>) = drop (unat (ie_length b)) (view b)"
proof -
  have wf: "wf_buffer b"
    using b by (simp add: short_buffer_def)
  have off: "unat (db_offset b) < unat (db_len b)"
    using v length_view [OF wf] by (metis length_greater_0_conv zero_less_diff)
  have sum: "unat (db_offset b + ie_length b) = unat (db_offset b) + unat (ie_length b)"
    using off b ie_length_range(2) [of b] by (simp add: unat_word_ariths(1) short_buffer_def)
  have el: "db_start el = db_start b" "db_offset el = db_offset b" "old = db_len b"
    "unat (db_len el) = min (unat (db_offset b) + unat (ie_length b)) (unat (db_len b))"
    using set sum by (auto simp: dss1_set_length_def word_less_nat_alt split: if_splits)
  show "wf_buffer el"
    using wf el by (simp add: wf_buffer_def)
  show "short_buffer (el\<lparr>db_offset := db_len el, db_len := old\<rparr>)"
    using b el by (simp add: short_buffer_def wf_buffer_def)
  show "view el = take (unat (ie_length b)) (view b)"
    by (simp add: view_def el take_drop min_def add.commute)
  show "view (el\<lparr>db_offset := db_len el, db_len := old\<rparr>) = drop (unat (ie_length b)) (view b)"
    by (simp add: view_def el min_def drop_take add.commute)
qed

lemma decode_ie_loop_elements:
  assumes f: "\<And>b. wf_buffer b \<Longrightarrow> f b = g (view b)" and b: "short_buffer b" and n: "length (view b) \<le> n"
  shows "decode_ie_loop n f cs b arg = Some (fold g (elements n cs (view b)) arg)"
  using b n
proof (induction n arbitrary: cs b arg)
  case 0
  then show ?case
    using get_valid_view [of b 0] by (simp add: decode_ie_loop.simps [of 0] elements.simps [of 0] short_buffer_def)
next
  case (Suc n)
  show ?case
  proof (cases "view b = []")
    case True
    then show ?thesis
      using get_valid_view [of b 0] Suc.prems(1)
      by (simp add: decode_ie_loop.simps [of "Suc n"] elements.simps [of "Suc n"] short_buffer_def)
  next
    case False
    obtain el old where set: "dss1_set_length b (db_offset b + ie_length b) = (el, old)"
      by (cases "dss1_set_length b (db_offset b + ie_length b)")
    note el = element_buffer [OF Suc.prems(1) False set]
    let ?k = "unat (ie_length b)" and ?b = "el\<lparr>db_offset := db_len el, db_len := old\<rparr>"
    have wf: "wf_buffer b"
      using Suc.prems(1) by (simp add: short_buffer_def)
    have k: "?k = (if hd (view b) AND 0x80 = 0 then unat (nth0 (view b) 1) + 2 else 1)"
      by (rule ie_length_view [OF wf False])
    have "length (view ?b) \<le> n"
      using Suc.prems(2) ie_length_range(1) [of b] by (simp add: el(4))
    note IH = Suc.IH [OF el(3) this]
    have hd: "dss1_get_1 b 0 = hd (view b)" "dss1_get_valid b 0"
      using False wf by (simp_all add: get_1_view get_valid_view nth0_def hd_conv_nth)
    have "decode_ie_loop (Suc n) f cs b arg =
        decode_ie_loop n f (next_codeset (hd (view b)) cs) ?b (if fst cs = 0 then f el arg else arg)"
      by (subst decode_ie_loop.simps) (simp add: hd set)
    also have "\<dots> = Some (fold g (elements n (next_codeset (hd (view b)) cs) (drop ?k (view b)))
        (if fst cs = 0 then g (take ?k (view b)) arg else arg))"
      unfolding IH el(4) f [OF el(1)] el(2) ..
    also have "\<dots> = Some (fold g (elements (Suc n) cs (view b)) arg)"
      using False by (simp add: elements.simps [of "Suc n"] k Let_def)
    finally show ?thesis .
  qed
qed

lemma elements_fuel:
  assumes "length xs \<le> n" "length xs \<le> m"
  shows "elements n cs xs = elements m cs xs"
  using assms
proof (induction n arbitrary: m cs xs)
  case 0
  then show ?case
    by (cases m) (simp_all add: elements.simps)
next
  case (Suc n)
  show ?case
  proof (cases m)
    case 0
    then show ?thesis
      using Suc.prems by (simp add: elements.simps)
  next
    case (Suc m')
    show ?thesis
    proof (cases "xs = []")
      case False
      define k where "k = (if hd xs AND 0x80 = 0 then unat (nth0 xs 1) + 2 else 1)"
      have "elements n cs' (drop k xs) = elements m' cs' (drop k xs)" for cs'
        using Suc.prems Suc by (intro Suc.IH) (auto simp: k_def)
      then show ?thesis
        unfolding elements.simps [of "Suc n"] Suc elements.simps [of "Suc m'"] k_def [symmetric] by (simp add: k_def [symmetric])
    qed (simp add: elements.simps Suc)
  qed
qed

lemma decode_ie_elements:
  assumes "short_buffer b" and "\<And>b. wf_buffer b \<Longrightarrow> f b = g (view b)"
  shows "dss1_decode_ie f b arg = Some (fold g (message_elements (view b)) arg)"
proof -
  have wf: "wf_buffer b"
    using assms(1) by (simp add: short_buffer_def)
  have "length (view b) \<le> unat (db_len b)"
    by (simp add: length_view [OF wf])
  then show ?thesis
    unfolding dss1_decode_ie_def message_elements_def
    using decode_ie_loop_elements [where f = f and g = g, OF assms(2,1)] elements_fuel [of "view b" "unat (db_len b)" "length (view b)"]
    by simp
qed


text \<open>Equal octets give equal results.\<close>

definition as_buffer :: "u8 list \<Rightarrow> dss1_buffer" where
  "as_buffer xs = dss1_buf_init xs (of_nat (length xs))"

lemma view_as_buffer:
  assumes "length xs < 65536"
  shows "wf_buffer (as_buffer xs)" "view (as_buffer xs) = xs"
  using assms by (simp_all add: as_buffer_def dss1_buf_init_def wf_buffer_def view_def unat_of_nat)

lemma same_view:
  assumes "wf_buffer a" "wf_buffer b" "view a = view b"
  shows "dss1_get_1 a = dss1_get_1 b" "dss1_get_valid a = dss1_get_valid b" "get_multi_1 a = get_multi_1 b"
    "multi_string old a = multi_string old b"
proof -
  show g: "dss1_get_1 a = dss1_get_1 b" "dss1_get_valid a = dss1_get_valid b"
    using assms by (auto simp: get_1_view get_valid_view fun_eq_iff)
  have "copy_valid a off n = copy_valid b off n" for off n
    by (induction n arbitrary: off) (simp_all add: g)
  then show m: "get_multi_1 a = get_multi_1 b"
    by (simp add: get_multi_1_def fun_eq_iff)
  show "multi_string old a = multi_string old b"
    by (simp add: multi_string_def fun_eq_iff m)
qed

lemma ie_cd_view:
  assumes "wf_buffer a" "wf_buffer b" "view a = view b"
  shows "dss1_decode_q931_cs0_ie_cd i a = dss1_decode_q931_cs0_ie_cd i b"
proof -
  note v = same_view [OF assms]
  have "ie_cd s a = ie_cd s b" for s
    unfolding ie_cd_def ie_bearer_def ie_channelid_def ie_channel_def ie_progress_def ie_datetime_def ie_callingpn_def
      calling_number_def ie_callingps_def ie_calledpn_def v ..
  then have "ie_cd s a = ie_cd s b" for s
    by blast
  then show ?thesis
    unfolding dss1_decode_q931_cs0_ie_cd_def v by presburger
qed

lemma decode_ie_cd_elements:
  assumes "short_buffer b"
  shows "dss1_decode_ie (dss1_decode_q931_cs0_ie_cd i) b s =
    Some (fold (\<lambda>xs. dss1_decode_q931_cs0_ie_cd i (as_buffer xs)) (message_elements (view b)) s)"
proof (rule decode_ie_elements [OF assms])
  fix b :: dss1_buffer
  assume wf: "wf_buffer b"
  have "length (view b) < 65536"
    using length_view [OF wf] unat_u16_less [of "db_len b"] by linarith
  from view_as_buffer [OF this] show "dss1_decode_q931_cs0_ie_cd i b = dss1_decode_q931_cs0_ie_cd i (as_buffer (view b))"
    by (intro ie_cd_view wf) simp_all
qed

text \<open>
  C17: decoding a message into a call descriptor ends, and applies the decoder of an element to exactly
  the elements of codeset 0 of the message, in order, each confined to its own octets: a wrong length
  octet cannot make one element read into the next.
\<close>

theorem decode_ie_refines:
  assumes "short_buffer b"
  shows "dss1_decode_ie (dss1_decode_q931_cs0_ie_cd i) b s =
    Some (fold (\<lambda>xs. dss1_decode_q931_cs0_ie_cd i (as_buffer xs)) (message_elements (view b)) s)"
  using assms by (rule decode_ie_cd_elements)

text \<open>A sending complete, a cause and a truncated called party number.\<close>

definition sample_message :: dss1_buffer where
  "sample_message = \<lparr>db_start = [0xA1, 0x08, 2, 0x80, 0x90, 0x70, 9, 0x81, 49, 50], db_offset = 0, db_len = 10\<rparr>"

theorem decode_ie_refines_witness:
  "\<forall>i s. dss1_decode_ie (dss1_decode_q931_cs0_ie_cd i) sample_message s =
    Some (fold (\<lambda>xs. dss1_decode_q931_cs0_ie_cd i (as_buffer xs)) (message_elements (view sample_message)) s)"
proof (intro allI decode_ie_refines)
  show "short_buffer sample_message"
    by (simp add: short_buffer_def wf_buffer_def sample_message_def)
qed

section \<open>Messages keep the invariant\<close>

lemma ie_strings:
  "length (multi_string old b off 41 fl) \<le> 40" "length (multi_string old b off 21 fl) \<le> 20"
  "length (multi_string old b off 129 fl) \<le> 128" "length (multi_string old b off (Suc 0) fl) = 0"
  using multi_string_bounds [of 41 old b off fl] multi_string_bounds [of 21 old b off fl]
    multi_string_bounds [of 129 old b off fl] multi_string_bounds [of 1 old b off fl] by simp_all

lemma calling_number_ok: "src_ok p \<Longrightarrow> src_ok (calling_number b p)"
  by (simp add: calling_number_def Let_def src_ok_def ie_strings)

lemma core_strings:
  assumes "strings_ok cd" "strings_ok cd'" "cd_cdid cd' = cd_cdid cd" "cd_pipe cd' = cd_pipe cd" "cd_state cd' = cd_state cd"
    "cd_set_state_callout cd' = cd_set_state_callout cd" "cd_channel_allocated cd' = cd_channel_allocated cd"
    "cd_channel_id cd' = cd_channel_id cd" "cd_cause_out cd' = cd_cause_out cd"
  shows "cd_core cd' = cd_core cd"
  using assms by (simp add: cd_core_def cause_ok_def)

lemma core_numbers:
  assumes ok: "strings_ok cd"
  shows "cd_core (ie_callingpn b cd) = cd_core cd" "cd_core (ie_callingps b cd) = cd_core cd"
    "cd_core (ie_calledpn b cd) = cd_core cd"
proof -
  have "strings_ok (ie_callingpn b cd)" "strings_ok (ie_callingps b cd)"
    using ok calling_number_ok [of "fst (cd_src cd)"] calling_number_ok [of "snd (cd_src cd)"]
    by (auto simp: ie_callingpn_def ie_callingps_def src_apply_def strings_ok_def src_ok_def ie_strings)
  then show "cd_core (ie_callingpn b cd) = cd_core cd" "cd_core (ie_callingps b cd) = cd_core cd"
    using ok by (auto intro!: core_strings simp: ie_callingpn_def ie_callingps_def src_apply_def)
  have n: "cd_dst_telno_ptr cd \<le> 40" "cd_dst_telno_ptr cd \<le> length (cd_dst_telno cd)"
    using ok by (simp_all add: strings_ok_def)
  have "strings_ok (ie_calledpn b cd)"
    using ok n multi_string_bounds [of "41 - cd_dst_telno_ptr cd" "drop (cd_dst_telno_ptr cd) (cd_dst_telno cd)" b 3 True]
    by (auto simp: ie_calledpn_def Let_def strings_ok_def ie_strings)
  then show "cd_core (ie_calledpn b cd) = cd_core cd"
    using ok by (auto intro!: core_strings simp: ie_calledpn_def Let_def)
qed

lemma core_ie_cd:
  assumes "strings_ok cd"
  shows "cd_core (ie_cd s b cd) = cd_core cd"
proof -
  have "cd_core (ie_bearer b cd) = cd_core cd" "cd_core (ie_progress b cd) = cd_core cd" "cd_core (ie_datetime s b cd) = cd_core cd"
    by (simp_all add: ie_bearer_def ie_progress_def ie_datetime_def Let_def core_defs)
  moreover have "cd_core (ie_channelid s b cd) = cd_core cd"
    by (simp add: ie_channelid_def core_defs split: option.splits)
  moreover have "cd_core (cd\<lparr>cd_display := multi_string x b off 1 True\<rparr>) = cd_core cd"
    "cd_core (cd\<lparr>cd_dst_subaddr := multi_string x b off 21 True\<rparr>) = cd_core cd"
    "cd_core (cd\<lparr>cd_user_user := multi_string x b off 129 False\<rparr>) = cd_core cd" for x off
    using assms by (simp_all add: core_defs ie_strings)
  moreover have "cd_core (cd\<lparr>cd_sending_complete := True\<rparr>) = cd_core cd" "cd_core (cd\<lparr>cd_cause_in := x\<rparr>) = cd_core cd"
    "cd_core (cd\<lparr>cd_call_state := y\<rparr>) = cd_core cd" for x y
    by (simp_all add: core_defs)
  ultimately show ?thesis
    using core_numbers [OF assms] by (simp add: ie_cd_def Let_def)
qed


lemma quiet_decode_ie:
  assumes b: "short_buffer b" and r: "ready s i"
  shows "\<exists>t. dss1_decode_ie (dss1_decode_q931_cs0_ie_cd i) b s = Some t \<and> quiet s t"
proof -
  have "quiet s (dss1_decode_q931_cs0_ie_cd i e t)" if "quiet s t" for e t
  proof -
    have rt: "ready t i"
      using quiet_ready [OF that] r by blast
    then have "cd_pipe (cd_at t i) \<noteq> None"
      by (auto simp: ready_def)
    then have "dss1_decode_q931_cs0_ie_cd i e t = cd_upd i (ie_cd t e) t"
      by (auto simp: dss1_decode_q931_cs0_ie_cd_def Let_def)
    then show ?thesis
      using quiet_cd_upd [OF that, of i "ie_cd t e"] core_ie_cd [of "cd_at t i"] rt by (simp add: ready_def)
  qed
  then have "quiet s (fold (\<lambda>xs. dss1_decode_q931_cs0_ie_cd i (as_buffer xs)) es t)" if "quiet s t" for es t
    using that by (induction es arbitrary: t) simp_all
  then show ?thesis
    using decode_ie_cd_elements [OF b, of i s] by simp
qed

lemma call_message_inv:
  assumes l: "live i s" and b: "short_buffer b" and p: "p < PIPE_MAX"
  shows "dss1_inv {} {} (call_message i p b ev0 s)"
proof -
  define ev where "ev = (if ev0 = EV_L3_DISCONNECT \<and> \<not> cd_want_late_inband (cd_at s i) then EV_L3_RELEASE else ev0)"
  define s1 where "s1 = cd_upd i (\<lambda>cd. cd\<lparr>cd_idate_time := (if ev = EV_L3_CONNECT then [] else cd_idate_time cd),
      cd_dst_telno_ptr := (if ev = EV_L3_SETUP then 0 else cd_dst_telno_ptr cd), cd_dst_telno_part := [], cd_peer_responded := True\<rparr>) s"
  have l1: "live i s1"
    unfolding s1_def by (rule live_upd [OF l]) (simp add: core_defs)
  obtain t where t: "dss1_decode_ie (dss1_decode_q931_cs0_ie_cd i) b s1 = Some t" "quiet s1 t"
    using quiet_decode_ie [OF b live_ready [OF l1]] by blast
  have "live i t"
    by (rule live_quiet [OF l1 t(2)])
  then show ?thesis
    using cd_update_inv [of i t ev "Some p"] live_inv [of i t] p
    unfolding call_message_def Let_def ev_def [symmetric] s1_def [symmetric] t(1) by auto
qed

lemma decode_restart_total: "short_buffer b \<Longrightarrow> \<exists>r. dss1_decode_ie dss1_decode_q931_cs0_ie_restart b x = Some r"
proof -
  assume b: "short_buffer b"
  have "dss1_decode_q931_cs0_ie_restart c = (\<lambda>xs r. if nth0 xs 0 = 0x79 then nth0 xs 2 else r) (view c)" if "wf_buffer c" for c
    using that by (auto simp: dss1_decode_q931_cs0_ie_restart_def get_1_view)
  from decode_ie_elements [OF b, of dss1_decode_q931_cs0_ie_restart, OF this] show ?thesis
    by blast
qed

lemma no_call_inv:
  assumes inv: "dss1_inv {} {} s" and b: "short_buffer b" and p: "p < PIPE_MAX" and res: "no_call p b bc crval mt ev s = (s', r)"
  shows "dss1_inv {} {} s' \<and> (\<forall>i. r = Some i \<longrightarrow> live i s')"
proof -
  have "quiet s (dss1_l3_tx_message_by_pipe_cr p crval m fl c k s)" for m fl c k
    by (intro quiet_intros quiet_refl)
  then have tx: "dss1_inv {} {} (dss1_l3_tx_message_by_pipe_cr p crval m fl c k s)" for m fl c k
    using quiet_inv inv by blast
  have "dss1_inv {} {} s' \<and> (\<forall>i. r = Some i \<longrightarrow> live i s')" if "n_allocate_cd (Some p) crval 0 0 s = (s', r)"
    using n_allocate_cd_inv [OF inv _ that] p by simp
  then show ?thesis
    using res decode_restart_total [OF b, of 0] inv tx reset_ind_inv(1) [OF tx]
    by (auto simp: no_call_def split: if_splits)
qed

lemma short_buffer_skip [simp]: "short_buffer (buf_skip n b) = short_buffer b"
  by (simp add: short_buffer_def wf_buffer_def buf_skip_def)

lemma data_ind_inv:
  assumes inv: "dss1_inv {} {} s" and b: "short_buffer b" and p: "p < PIPE_MAX"
  shows "dss1_inv {} {} (dss1_pipe_data_ind p b bc s)"
proof -
  define buf1 where "buf1 = buf_skip 1 b"
  define crval where "crval = read_callreference buf1"
  define buf2 where "buf2 = buf_skip (ucast (dss1_get_1 buf1 0 AND 0x0F) + 1) buf1"
  define mt where "mt = dss1_get_1 buf2 0 AND 0x7F"
  define buf where "buf = buf_skip 1 buf2"
  have sb: "short_buffer buf"
    using b by (simp add: buf_def buf2_def buf1_def)
  have "dss1_inv {} {} (call_message i p buf ev s)" if "cd_by_unitcr s p 0 crval = Some i" for i ev
  proof -
    have "live i s"
      using find_index_Some [OF that [unfolded cd_by_unitcr_def]] inv by (auto simp: live_def active_def cd_at_def)
    then show ?thesis
      by (rule call_message_inv [OF _ sb p])
  qed
  moreover obtain s' r where nc: "no_call p buf bc crval mt (message_event mt) s = (s', r)"
    by (cases "no_call p buf bc crval mt (message_event mt) s")
  moreover have "dss1_inv {} {} s'" "\<And>i ev. r = Some i \<Longrightarrow> dss1_inv {} {} (call_message i p buf ev s')"
    using no_call_inv [OF inv sb p nc] call_message_inv [OF _ sb p] by blast+
  ultimately show ?thesis
    using inv unfolding dss1_pipe_data_ind_def Let_def buf1_def [symmetric] crval_def [symmetric] buf2_def [symmetric]
      mt_def [symmetric] buf_def [symmetric] nc
    by (auto split: option.splits)
qed

end
