(* ===== verification/DSS1_TEI.thy ===== *)
theory DSS1_TEI
  imports DSS1_Decoder
begin

unbundle bit_operations_syntax

text \<open>
  Links and TEI values of \<^verbatim>\<open>src/src/sys/i4b/dss1/dss1_l2fsm.c\<close>: the search for an unused link and an
  unused TEI, and the TEI management procedures (\<open>dss1_tei_rx_frame\<close>), with the proof that the search
  for a TEI ends with a value no other link has and that the procedures keep the resource invariant.
\<close>

section \<open>Links and TEI values\<close>

definition unused_pipe :: "l2softc \<Rightarrow> nat \<Rightarrow> bool" where
  "unused_pipe s p \<longleftrightarrow> p_state (pipe_at s p) = ST_L2_PAUSE \<and> p \<noteq> 0"

definition dss1_get_unused_pipe :: "l2softc \<Rightarrow> nat option" where
  "dss1_get_unused_pipe s = find (unused_pipe s) [0..<PIPE_MAX]"

definition dss1_count_unused_pipes :: "l2softc \<Rightarrow> nat" where
  "dss1_count_unused_pipes s = length (filter (unused_pipe s) [0..<PIPE_MAX])"

text \<open>The loop of \<open>dss1_get_unused_TEI\<close>; \<open>None\<close>: not ended within the given number of rounds.\<close>

definition next_TEI :: "u8 \<Rightarrow> u8" where
  "next_TEI t = (t + 1) mod 128 OR 0x80 OR 1"

fun get_TEI_loop :: "nat \<Rightarrow> u8 list \<Rightarrow> u8 \<Rightarrow> u8 option" where
  "get_TEI_loop 0 used t = None"
| "get_TEI_loop (Suc n) used t = (let t' = next_TEI t in if t' \<in> set used then get_TEI_loop n used t' else Some t')"

text \<open>One round per odd value with the top bit is enough.\<close>

definition dss1_get_unused_TEI :: "l2softc \<Rightarrow> l2softc \<times> u8 option" where
  "dss1_get_unused_TEI s =
     (case get_TEI_loop 65 (map tei (sc_pipe s)) (sc_tei_last s) of
        None \<Rightarrow> (fault s, None)
      | Some t \<Rightarrow> (s\<lparr>sc_tei_last := t\<rparr>, Some t))"

section \<open>TEI management\<close>

text \<open>The octets \<open>Ri\<close> as a number.\<close>

definition tei_ri :: "dss1_buffer \<Rightarrow> u16" where
  "tei_ri buf = ucast (dss1_get_1 buf 4) OR push_bit 8 (ucast (dss1_get_1 buf 5))"

definition tei_assign :: "u8 \<Rightarrow> u16 \<Rightarrow> l2softc \<Rightarrow> l2softc" where
  "tei_assign ai ri s0 =
     (if nt_mode s0 then s0
      else let s = (if tei (pipe_at s0 0) = ai then dss1_pipe_set_state 0 ST_L2_PAUSE s0 else s0)
           in if p_state (pipe_at s 0) = ST_L2_SEND_TEI \<and> serial_number (pipe_at s 0) = ri
              then dss1_pipe_set_state 0 ST_L2_SEND_SABME
                     (i4b_l4_teiasg (cn_unit s) ai (pipe_upd 0 (\<lambda>pi. pi\<lparr>tei := ai\<rparr>) s))
              else s)"

definition tei_check_request :: "u8 \<Rightarrow> l2softc \<Rightarrow> l2softc" where
  "tei_check_request ai s0 =
     (let s = (if \<not> nt_mode s0 \<and> serial_number (pipe_at s0 0) < 0x80 then dss1_pipe_activate_req 0 s0 else s0)
      in if L2_STATE_IS_TEI_ASSIGNED (p_state (pipe_at s 0)) \<and> (ai = tei (pipe_at s 0) \<or> ai = TEI_BROADCAST)
         then dss1_tei_tx_frame 0 5 s else s)"

definition tei_remove :: "u8 \<Rightarrow> l2softc \<Rightarrow> l2softc" where
  "tei_remove ai s =
     (if L2_STATE_IS_TEI_ASSIGNED (p_state (pipe_at s 0)) \<and> (ai = tei (pipe_at s 0) \<or> ai = TEI_BROADCAST)
      then dss1_pipe_set_state 0 ST_L2_PAUSE s else s)"

text \<open>The pipe takes \<open>Ri\<close> as its serial number and an unused TEI, which is removed and assigned.\<close>

definition tei_give :: "nat \<Rightarrow> u16 \<Rightarrow> l2softc \<Rightarrow> l2softc" where
  "tei_give p ri s =
     (case dss1_get_unused_TEI (pipe_upd p (\<lambda>pi. pi\<lparr>serial_number := ri\<rparr>) s) of
        (s, None) \<Rightarrow> s
      | (s, Some t) \<Rightarrow>
          dss1_pipe_activate_req p (dss1_tei_tx_frame p 2 (dss1_tei_tx_frame p 6 (dss1_tei_tx_frame p 6
            (pipe_upd p (\<lambda>pi. pi\<lparr>tei := t\<rparr>) s)))))"

definition tei_request :: "u16 \<Rightarrow> l2softc \<Rightarrow> l2softc" where
  "tei_request ri s =
     (if \<not> nt_mode s then s
      else if dss1_count_unused_pipes s \<le> PIPE_MAX div 2 \<and> ID_REQUEST_callout s \<noteq> None then s
      else let s1 = (if dss1_count_unused_pipes s \<le> PIPE_MAX div 2 then s\<lparr>ID_REQUEST_callout := Some 1\<rparr> else s)
           in case dss1_get_unused_pipe s1 of None \<Rightarrow> s1 | Some p \<Rightarrow> tei_give p ri s1)"

definition dss1_tei_rx_frame :: "dss1_buffer \<Rightarrow> l2softc \<Rightarrow> l2softc" where
  "dss1_tei_rx_frame buf s =
     (let mt = dss1_get_1 buf 6; ai = dss1_get_1 buf 7
      in if point_to_point s then s
         else if mt = 2 then tei_assign ai (tei_ri buf) s
         else if mt = 4 then tei_check_request ai s
         else if mt = 6 then tei_remove ai s
         else if mt = 1 then tei_request (tei_ri buf) s
         else s)"

definition ID_REQUEST_timeout :: "l2softc \<Rightarrow> l2softc" where
  "ID_REQUEST_timeout s = s\<lparr>ID_REQUEST_callout := None\<rparr>"

section \<open>The search for a TEI\<close>

definition tei_value :: "nat \<Rightarrow> nat" where
  "tei_value j = 129 + 2 * (j mod 64)"

definition automatic_TEIs :: "u8 set" where
  "automatic_TEIs = {t. 128 \<le> unat t \<and> odd (unat t)}"

lemma nat_or_power: "m < 2 ^ k \<Longrightarrow> m OR 2 ^ k = m + (2 ^ k :: nat)"
proof (induction k arbitrary: m)
  case (Suc k)
  have "m OR 2 ^ Suc k = of_bool (odd m) + 2 * (m div 2 OR 2 ^ k)"
    by (subst or_rec) simp
  also have "\<dots> = of_bool (odd m) + 2 * (m div 2 + 2 ^ k)"
    using Suc.prems by (subst Suc.IH) auto
  also have "\<dots> = m + 2 ^ Suc k"
    by (cases "even m") (auto elim!: evenE oddE)
  finally show ?case .
qed simp

lemma nat_or_129:
  assumes "n < 128"
  shows "(n :: nat) OR 129 = 2 * (n div 2) + 129"
proof -
  have "n OR 129 = 1 + 2 * (n div 2 OR 64)"
    by (subst or_rec) simp
  also have "n div 2 OR 64 = n div 2 + 64"
    using nat_or_power [of "n div 2" 6] assms by simp
  finally show ?thesis
    by simp
qed

lemma unat_next_TEI: "unat (next_TEI t) = 2 * ((unat t + 1) mod 128 div 2) + 129"
proof -
  have "unat ((t + 1) mod 128) = (unat t + 1) mod 128"
  proof -
    have "unat (t + 1) = (unat t + 1) mod 256"
      by (simp add: unat_word_ariths(1))
    then show ?thesis
      by (simp add: unat_mod mod_mod_cancel)
  qed
  moreover have "next_TEI t = (t + 1) mod 128 OR 129"
    by (simp add: next_TEI_def or.assoc)
  ultimately have "unat (next_TEI t) = ((unat t + 1) mod 128) OR 129"
    by (simp add: unsigned_or_eq)
  then show ?thesis
    using nat_or_129 [of "(unat t + 1) mod 128"] by simp
qed

lemma next_TEI_value: "\<exists>j. unat (next_TEI t) = tei_value j"
proof -
  have "unat (next_TEI t) = tei_value ((unat t + 1) mod 128 div 2)"
    by (simp add: unat_next_TEI tei_value_def div_less_iff_less_mult)
  then show ?thesis ..
qed

lemma next_TEI_step: "unat t = tei_value j \<Longrightarrow> unat (next_TEI t) = tei_value (Suc j)"
proof -
  assume t: "unat t = tei_value j"
  define i where "i = j mod 64"
  have i: "i < 64" "Suc j mod 64 = (if i = 63 then 0 else Suc i)"
    by (auto simp: i_def mod_Suc)
  have "(129 + 2 * i + 1) mod 128 div 2 = (if i = 63 then 0 else Suc i)"
    using i(1) by (cases "i = 63") (simp_all add: mod_if)
  then show ?thesis
    by (simp add: unat_next_TEI t tei_value_def i_def [symmetric] i(2))
qed

lemma next_TEI_pow: "unat t = tei_value j \<Longrightarrow> unat ((next_TEI ^^ k) t) = tei_value (j + k)"
  by (induction k) (simp_all add: next_TEI_step)

lemma value_is_automatic: "unat t = tei_value j \<Longrightarrow> t \<in> automatic_TEIs"
  by (simp add: automatic_TEIs_def tei_value_def)

lemma automatic_value:
  assumes "t \<in> automatic_TEIs"
  shows "\<exists>j<64. unat t = tei_value j"
proof -
  obtain b where b: "unat t = 2 * b + 1"
    using assms by (auto simp: automatic_TEIs_def elim!: oddE)
  have "64 \<le> b" "b < 128"
    using assms b unat_u8_less [of t] by (auto simp: automatic_TEIs_def)
  then have "unat t = tei_value (b - 64)"
    using b by (simp add: tei_value_def)
  then show ?thesis
    using \<open>b < 128\<close> by (intro exI [of _ "b - 64"]) simp
qed

lemma get_TEI_loop_Some: "get_TEI_loop n used t = Some t' \<Longrightarrow> t' \<notin> set used \<and> t' \<in> automatic_TEIs"
  using next_TEI_value value_is_automatic
  by (induction n used t rule: get_TEI_loop.induct) (auto simp: Let_def split: if_splits)

lemma get_TEI_loop_None: "get_TEI_loop n used t = None \<Longrightarrow> k < n \<Longrightarrow> (next_TEI ^^ k) (next_TEI t) \<in> set used"
proof (induction n used t arbitrary: k rule: get_TEI_loop.induct)
  case (2 n used t)
  then show ?case
    by (cases k) (auto simp: Let_def funpow_swap1 split: if_splits)
qed simp

lemma get_TEI_loop_full:
  assumes "get_TEI_loop 65 used t = None"
  shows "automatic_TEIs \<subseteq> set used"
proof
  fix x
  assume "x \<in> automatic_TEIs"
  then obtain i j where i: "unat x = tei_value i" and j: "unat (next_TEI t) = tei_value j"
    using automatic_value next_TEI_value by blast
  define k where "k = (i mod 64 + 64 - j mod 64) mod 64"
  have "(j + k) mod 64 = i mod 64"
  proof -
    have "j mod 64 < 64"
      by simp
    then have "j mod 64 + (i mod 64 + 64 - j mod 64) = i mod 64 + 64"
      by linarith
    moreover have "(j + k) mod 64 = (j mod 64 + (i mod 64 + 64 - j mod 64)) mod 64"
      unfolding k_def by (metis mod_add_left_eq mod_add_right_eq)
    ultimately show ?thesis
      by simp
  qed
  then have "unat ((next_TEI ^^ k) (next_TEI t)) = unat x"
    using next_TEI_pow [OF j, of k] i by (simp add: tei_value_def)
  moreover have "k < 65"
    by (simp add: k_def less_Suc_eq_le) 
  ultimately show "x \<in> set used"
    using get_TEI_loop_None [OF assms] by (metis unsigned_word_eqI)
qed

lemma card_automatic: "finite automatic_TEIs" "card automatic_TEIs = 64"
proof -
  have "unat ` automatic_TEIs = tei_value ` {..<64}"
  proof
    show "unat ` automatic_TEIs \<subseteq> tei_value ` {..<64}"
      using automatic_value by blast
    have "tei_value j < 256" for j
      by (simp add: tei_value_def)
    then have "unat (word_of_nat (tei_value j) :: u8) = tei_value j" for j
      by (simp add: unat_of_nat)
    then show "tei_value ` {..<64} \<subseteq> unat ` automatic_TEIs"
      using value_is_automatic by (metis image_iff image_subsetI)
  qed
  moreover have "inj_on unat automatic_TEIs"
    by (simp add: inj_on_def unsigned_word_eqI)
  moreover have "inj_on tei_value {..<64}"
    by (simp add: inj_on_def tei_value_def)
  ultimately show "card automatic_TEIs = 64"
    by (metis card_image card_lessThan)
  then show "finite automatic_TEIs"
    by (simp add: card_ge_0_finite)
qed

interpretation teis: id_allocator "\<lambda>_. automatic_TEIs" "\<lambda>(used, t0). set used" "\<lambda>(used, t0). get_TEI_loop 65 used t0"
  using card_automatic get_TEI_loop_Some get_TEI_loop_full by unfold_locales (auto split: prod.splits)

lemma get_TEI_loop_returns:
  assumes "length used < 64"
  shows "\<exists>t. get_TEI_loop 65 used t0 = Some t"
  using teis.alloc_succeeds [of "(used, t0)"] le_less_trans [OF card_length assms] by (simp add: card_automatic)



text \<open>With sixteen links the search always ends, with an odd value of the upper half that no link has.\<close>

lemma get_unused_TEI_works:
  assumes "length (sc_pipe s) = PIPE_MAX"
  shows "\<exists>t. dss1_get_unused_TEI s = (s\<lparr>sc_tei_last := t\<rparr>, Some t) \<and> t \<in> automatic_TEIs \<and> t \<notin> tei ` set (sc_pipe s)"
proof -
  obtain t where t: "get_TEI_loop 65 (map tei (sc_pipe s)) (sc_tei_last s) = Some t"
    using get_TEI_loop_returns [of "map tei (sc_pipe s)"] assms by (auto simp: PIPE_MAX_def)
  then show ?thesis
    using get_TEI_loop_Some [OF t] by (simp add: dss1_get_unused_TEI_def)
qed

section \<open>TEI management keeps the invariant\<close>

lemma quiet_tei [quiet_intros]: "quiet s t \<Longrightarrow> quiet s (pipe_upd p (\<lambda>pi. pi\<lparr>tei := x\<rparr>) t)"
  by (rule quiet_pipe_upd) (simp_all add: pipe_core_def pipe_kept_same)

lemma quiet_serial [quiet_intros]: "quiet s t \<Longrightarrow> quiet s (pipe_upd p (\<lambda>pi. pi\<lparr>serial_number := x\<rparr>) t)"
  by (rule quiet_pipe_upd) (simp_all add: pipe_core_def pipe_kept_same)

lemma PIPE_MAX_pos [simp]: "0 < PIPE_MAX"
  by (simp add: PIPE_MAX_def)

lemma tei_assign_inv:
  assumes inv: "dss1_inv {} Y s"
  shows "dss1_inv {} Y (tei_assign ai ri s)"
proof (cases "nt_mode s")
  case False
  define s1 where "s1 = (if tei (pipe_at s 0) = ai then dss1_pipe_set_state 0 ST_L2_PAUSE s else s)"
  define s2 where "s2 = i4b_l4_teiasg (cn_unit s1) ai (pipe_upd 0 (\<lambda>pi. pi\<lparr>tei := ai\<rparr>) s1)"
  have s1: "dss1_inv {} Y s1" "same_mode s s1"
    using inv set_state_inv [OF inv, of 0 0] by (simp_all add: s1_def)
  have "quiet s1 s2"
    unfolding s2_def by (intro quiet_intros quiet_refl)
  then have "dss1_inv {} Y s2" "same_mode s s2"
    using s1 quiet_inv quiet_mode same_mode_trans by blast+
  then have "dss1_inv {} Y (dss1_pipe_set_state 0 ST_L2_SEND_SABME s2)"
    using False by (intro set_state_inv) (simp_all add: same_mode_def adapter_def)
  then show ?thesis
    using False s1 unfolding tei_assign_def Let_def s1_def [symmetric] s2_def [symmetric] by simp
qed (use inv in \<open>simp add: tei_assign_def\<close>)

lemma tei_check_request_inv:
  assumes inv: "dss1_inv {} Y s"
  shows "dss1_inv {} Y (tei_check_request ai s)"
proof -
  have "dss1_inv {} Y (dss1_tei_tx_frame 0 5 t)" if "dss1_inv {} Y t" for t
    using quiet_inv [OF quiet_tei_tx_frame that] by simp
  then show ?thesis
    using inv activate_req_inv(1) [OF inv, of 0] by (simp add: tei_check_request_def Let_def)
qed

lemma tei_remove_inv: "dss1_inv {} Y s \<Longrightarrow> dss1_inv {} Y (tei_remove ai s)"
  by (simp add: tei_remove_def set_state_inv)

lemma tei_give_inv:
  assumes inv: "dss1_inv {} Y s" and p: "p < PIPE_MAX"
  shows "dss1_inv {} Y (tei_give p ri s)"
proof -
  define s1 where "s1 = pipe_upd p (\<lambda>pi. pi\<lparr>serial_number := ri\<rparr>) s"
  have "quiet s s1"
    unfolding s1_def by (intro quiet_intros quiet_refl)
  then obtain t where t: "dss1_get_unused_TEI s1 = (s1\<lparr>sc_tei_last := t\<rparr>, Some t)"
    using get_unused_TEI_works [of s1] dss1_invD(1) [OF quiet_inv [OF \<open>quiet s s1\<close> inv]] by blast
  define s2 where "s2 = s1\<lparr>sc_tei_last := t\<rparr>"
  have "quiet s s2"
    unfolding s2_def by (rule quiet_same [OF \<open>quiet s s1\<close>]) simp_all
  then have "dss1_inv {} Y (dss1_tei_tx_frame p 2 (dss1_tei_tx_frame p 6 (dss1_tei_tx_frame p 6 (pipe_upd p (\<lambda>pi. pi\<lparr>tei := t\<rparr>) s2))))"
    by (intro quiet_inv [OF _ inv] quiet_intros)
  then show ?thesis
    using activate_req_inv(1) [OF _ p] t unfolding tei_give_def s1_def [symmetric] by (simp add: s2_def)
qed

lemma unused_pipe_range: "dss1_get_unused_pipe s = Some p \<Longrightarrow> p < PIPE_MAX \<and> p \<noteq> 0 \<and> p_state (pipe_at s p) = ST_L2_PAUSE"
  by (auto simp: dss1_get_unused_pipe_def find_Some_iff unused_pipe_def)

lemma quiet_id_request [quiet_intros]: "quiet s t \<Longrightarrow> quiet s (t\<lparr>ID_REQUEST_callout := x\<rparr>)"
  by (erule quiet_same) simp_all

lemma tei_request_inv:
  assumes inv: "dss1_inv {} Y s"
  shows "dss1_inv {} Y (tei_request ri s)"
proof -
  define s1 where "s1 = (if dss1_count_unused_pipes s \<le> PIPE_MAX div 2 then s\<lparr>ID_REQUEST_callout := Some 1\<rparr> else s)"
  have "quiet s s1"
    unfolding s1_def by (simp add: quiet_id_request)
  then have "dss1_inv {} Y s1"
    using inv by (rule quiet_inv)
  then have "dss1_inv {} Y (case dss1_get_unused_pipe s1 of None \<Rightarrow> s1 | Some p \<Rightarrow> tei_give p ri s1)"
    using tei_give_inv unused_pipe_range by (auto split: option.splits)
  then show ?thesis
    using inv unfolding tei_request_def Let_def s1_def [symmetric] by simp
qed

lemma tei_rx_frame_inv: "dss1_inv {} Y s \<Longrightarrow> dss1_inv {} Y (dss1_tei_rx_frame buf s)"
  by (simp add: dss1_tei_rx_frame_def Let_def tei_assign_inv tei_check_request_inv tei_remove_inv tei_request_inv)

lemma ID_REQUEST_timeout_inv: "dss1_inv X Y s \<Longrightarrow> dss1_inv X Y (ID_REQUEST_timeout s)"
  using quiet_inv [OF quiet_id_request [OF quiet_refl]] by (simp add: ID_REQUEST_timeout_def)

end
