(* ===== verification/DSS1_Receive.thy ===== *)
theory DSS1_Receive
  imports DSS1_TEI
begin

unbundle bit_operations_syntax

text \<open>
  Reception of frames, \<open>dss1_l2_put_mbuf\<close> of \<^verbatim>\<open>src/src/sys/i4b/dss1/dss1_l2fsm.c\<close>: address check, control
  and information frames, acknowledgement, and the proof that no frame breaks the resource invariant.
\<close>

section \<open>Reception\<close>

definition GET_NR :: "u8 \<Rightarrow> u8" where
  "GET_NR octett = drop_bit 1 octett AND 0x7F"

text \<open>The link a frame belongs to: \<open>None\<close> if the frame is dropped.\<close>

definition nt_pipe :: "u8 \<Rightarrow> u8 \<Rightarrow> l2softc \<Rightarrow> l2softc \<times> nat option" where
  "nt_pipe t cntl s0 =
     (case (case find (\<lambda>p. tei (pipe_at s0 p) = t) [0..<PIPE_MAX] of
              Some p \<Rightarrow> (s0, Some p)
            | None \<Rightarrow> (case dss1_get_unused_pipe s0 of
                         None \<Rightarrow> (s0, None)
                       | Some p \<Rightarrow> (pipe_upd p (\<lambda>pi. pi\<lparr>tei := t\<rparr>) s0, Some p))) of
        (s, None) \<Rightarrow> (s, None)
      | (s, Some p) \<Rightarrow>
          if p_state (pipe_at s p) = ST_L2_PAUSE \<and> cntl AND 1 \<noteq> 0 \<and> cntl AND NOT 0x10 \<in> {0x63, 0x0F, 0x43}
          then (s, None) else (dss1_pipe_activate_req p s, Some p))"

definition rx_pipe :: "u8 \<Rightarrow> u8 \<Rightarrow> l2softc \<Rightarrow> l2softc \<times> nat option" where
  "rx_pipe t cntl s =
     (if t = TEI_BROADCAST then (s, Some 0)
      else if point_to_point s
      then (if tei (pipe_at s 0) \<noteq> t then (s, None) else (dss1_pipe_activate_req 0 s, Some 0))
      else if \<not> nt_mode s
      then (if tei (pipe_at s 0) \<noteq> t \<or> \<not> L2_STATE_IS_TEI_ASSIGNED (p_state (pipe_at s 0)) then (s, None) else (s, Some 0))
      else nt_pipe t cntl s)"

definition rx_ui :: "nat \<Rightarrow> bool \<Rightarrow> dss1_buffer \<Rightarrow> l2softc \<Rightarrow> l2softc" where
  "rx_ui p broadcast buf s =
     (let sapi = drop_bit 2 (dss1_get_1 buf 0) AND 0x3F
      in if sapi = 0x3F then (if dss1_get_1 buf 3 = 0x0F then dss1_tei_rx_frame buf s else s)
         else if sapi = 0 then dss1_pipe_data_ind p (buf\<lparr>db_offset := 3\<rparr>) broadcast s
         else s)"

text \<open>S- and U-frames.\<close>

definition rx_control :: "nat \<Rightarrow> bool \<Rightarrow> dss1_buffer \<Rightarrow> l2softc \<Rightarrow> l2softc" where
  "rx_control p broadcast buf s =
     (let cntl = dss1_get_1 buf 2; c = cntl AND NOT 0x10; pf = cntl AND 0x10
      in if c = 0x03 then rx_ui p broadcast buf s
         else if c = 0x6F
         then pipe_upd p (\<lambda>pi. pi\<lparr>rx_nr := 0\<rparr>) (dss1_pipe_set_state p ST_L2_SEND_UA (dss1_cntl_tx_frame p True (0x63 OR pf) s))
         else if c = 0x43 then dss1_pipe_set_state p ST_L2_PAUSE (dss1_cntl_tx_frame p True (0x63 OR pf) s)
         else s)"

text \<open>An I-frame; the flag tells that it has to be rejected.\<close>

definition rx_information :: "nat \<Rightarrow> bool \<Rightarrow> dss1_buffer \<Rightarrow> l2softc \<Rightarrow> l2softc \<times> bool" where
  "rx_information p broadcast buf s =
     (if rx_nr (pipe_at s p) = GET_NR (dss1_get_1 buf 2)
      then (dss1_pipe_data_ind p (buf\<lparr>db_offset := 4\<rparr>) broadcast (pipe_upd p (\<lambda>pi. pi\<lparr>rx_nr := (rx_nr pi + 1) mod 128\<rparr>) s), False)
      else (s, True))"

text \<open>From the label \<open>check_NR\<close>: the acknowledgement.\<close>

definition check_NR :: "nat \<Rightarrow> u8 \<Rightarrow> l2softc \<Rightarrow> l2softc" where
  "check_NR p nr s0 =
     (let diff = (nr - tx_nr (pipe_at s0 p)) mod 128;
          s = pipe_upd p (\<lambda>pi. pi\<lparr>tx_nr := nr\<rparr>) s0
      in if diff = 0 then s
         else if tx_window_length (pipe_at s p) < diff
         then pipe_upd p (\<lambda>pi. pi\<lparr>tx_window_size := 0, tx_window_length := 0\<rparr>) (dss1_pipe_set_state p ST_L2_SINGLE_FRAME s)
         else let s1 = pipe_upd p (\<lambda>pi. pi\<lparr>tx_window_length := tx_window_length pi - diff\<rparr>) (dss1_pipe_set_state p ST_L2_MULTI_FRAME s)
              in if tx_window_length (pipe_at s1 p) = 0 then emit L1_FIFO_START s1 else s1)"

definition rx_response :: "nat \<Rightarrow> bool \<Rightarrow> bool \<Rightarrow> dss1_buffer \<Rightarrow> l2softc \<Rightarrow> l2softc" where
  "rx_response p crbit reject buf s0 =
     (let cntl = dss1_get_1 buf 2; poll = (dss1_get_1 buf 3 AND 1 \<noteq> 0);
          s = (if cntl AND 1 = 0
               then if reject then dss1_cntl_tx_frame p False 0x09 s0
                    else if poll then dss1_cntl_tx_frame p True 0x01 s0
                    else if length (ifq (pipe_at s0 p)) \<le> unat (tx_window_size (pipe_at s0 p)) then dss1_cntl_tx_frame p False 0x01 s0
                    else s0
               else s0)
      in if \<not> crbit \<and> cntl AND 1 \<noteq> 0 \<and> poll then dss1_cntl_tx_frame p True 0x01 s else s)"

text \<open>TE mode inverts the C/R bit of received frames.\<close>

definition dss1_l2_put_mbuf :: "u8 list \<Rightarrow> l2softc \<Rightarrow> l2softc" where
  "dss1_l2_put_mbuf frame s0 =
     (let buf = dss1_buf_init frame (of_nat (length frame));
          s1 = s0\<lparr>sc_received_frame := True\<rparr>;
          crbit = ((dss1_get_1 buf 0 AND 0x02 \<noteq> 0) \<noteq> (\<not> nt_mode s1));
          t = dss1_get_1 buf 1; cntl = dss1_get_1 buf 2; broadcast = (t = TEI_BROADCAST)
      in case rx_pipe t cntl s1 of
           (s, None) \<Rightarrow> s
         | (s, Some p) \<Rightarrow>
             if cntl AND 1 \<noteq> 0
             then let s2 = rx_control p broadcast buf s
                  in if cntl AND 2 = 0 then rx_response p crbit False buf (check_NR p (GET_NR (dss1_get_1 buf 3)) s2) else s2
             else case rx_information p broadcast buf s of
                    (s2, reject) \<Rightarrow> rx_response p crbit reject buf (check_NR p (GET_NR (dss1_get_1 buf 3)) s2))"



section \<open>Frames keep the invariant\<close>

lemma quiet_rx_nr [quiet_intros]: "quiet s t \<Longrightarrow> quiet s (pipe_upd p (\<lambda>pi. pi\<lparr>rx_nr := f pi\<rparr>) t)"
  by (rule quiet_pipe_upd) (simp_all add: pipe_core_def pipe_kept_same)

lemma quiet_tx_nr [quiet_intros]: "quiet s t \<Longrightarrow> quiet s (pipe_upd p (\<lambda>pi. pi\<lparr>tx_nr := x\<rparr>) t)"
  by (rule quiet_pipe_upd) (simp_all add: pipe_core_def pipe_kept_same)

lemma nt_pipe_inv:
  assumes inv: "dss1_inv {} Y s" and res: "nt_pipe t cntl s = (s', r)"
  shows "dss1_inv {} Y s'" "r = Some p \<Longrightarrow> p < PIPE_MAX"
proof -
  have act: "dss1_inv {} Y (dss1_pipe_activate_req q u)" if "quiet s u" "q < PIPE_MAX" for q u
    using activate_req_inv(1) [OF quiet_inv [OF that(1) inv] that(2)] .
  have upd: "quiet s (pipe_upd q (\<lambda>pi. pi\<lparr>tei := t\<rparr>) s)" for q
    by (intro quiet_intros quiet_refl)
  have range: "find (\<lambda>p. tei (pipe_at s p) = t) [0..<PIPE_MAX] = Some q \<Longrightarrow> q < PIPE_MAX" for q
    by (auto simp: find_Some_iff)
  show "dss1_inv {} Y s'"
    using res inv act [OF quiet_refl] act [OF upd] quiet_inv [OF upd inv] range unused_pipe_range [of s]
    by (auto simp: nt_pipe_def split: option.splits if_splits)
  show "p < PIPE_MAX" if "r = Some p"
    using res that range unused_pipe_range [of s] by (auto simp: nt_pipe_def split: option.splits if_splits)
qed

lemma rx_pipe_inv:
  assumes inv: "dss1_inv {} Y s" and res: "rx_pipe t cntl s = (s', r)"
  shows "dss1_inv {} Y s'" "r = Some p \<Longrightarrow> p < PIPE_MAX"
  using res inv activate_req_inv(1) [OF inv, of 0] nt_pipe_inv [OF inv, of t cntl s' r]
  by (auto simp: rx_pipe_def split: if_splits)

lemma rx_ui_inv:
  assumes "dss1_inv {} {} s" "short_buffer buf" "p < PIPE_MAX"
  shows "dss1_inv {} {} (rx_ui p bc buf s)"
proof -
  have "short_buffer (buf\<lparr>db_offset := 3\<rparr>)"
    using assms(2) by (simp add: short_buffer_def wf_buffer_def)
  then show ?thesis
    using assms by (simp add: rx_ui_def Let_def tei_rx_frame_inv data_ind_inv)
qed

lemma rx_control_inv:
  assumes inv: "dss1_inv {} {} s" and b: "short_buffer buf" and p: "p < PIPE_MAX"
  shows "dss1_inv {} {} (rx_control p bc buf s)"
proof -
  have sent: "dss1_inv {} {} (dss1_cntl_tx_frame p True c s)" for c
    using quiet_inv [OF quiet_cntl_tx_frame inv] by simp
  then have "dss1_inv {} {} (dss1_pipe_set_state p st (dss1_cntl_tx_frame p True c s))" if "st \<in> {0, 3}" for c st
    using that by (intro set_state_inv p) auto
  then have ua: "dss1_inv {} {} (dss1_pipe_set_state p 3 (dss1_cntl_tx_frame p True c s))"
    and dm: "dss1_inv {} {} (dss1_pipe_set_state p 0 (dss1_cntl_tx_frame p True c s))" for c
    by simp_all
  have "dss1_inv {} {} (pipe_upd p (\<lambda>pi. pi\<lparr>rx_nr := 0\<rparr>) (dss1_pipe_set_state p 3 (dss1_cntl_tx_frame p True c s)))" for c
    using quiet_inv [OF quiet_rx_nr [OF quiet_refl] ua] .
  then show ?thesis
    using dm inv rx_ui_inv [OF inv b p] by (simp add: rx_control_def Let_def)
qed

lemma rx_information_inv:
  assumes inv: "dss1_inv {} {} s" and b: "short_buffer buf" and p: "p < PIPE_MAX"
  shows "dss1_inv {} {} (fst (rx_information p bc buf s))"
proof -
  have "short_buffer (buf\<lparr>db_offset := 4\<rparr>)"
    using b by (simp add: short_buffer_def wf_buffer_def)
  then have "dss1_inv {} {} (dss1_pipe_data_ind p (buf\<lparr>db_offset := 4\<rparr>) bc (pipe_upd p (\<lambda>pi. pi\<lparr>rx_nr := (rx_nr pi + 1) mod 128\<rparr>) s))"
    by (intro data_ind_inv p quiet_inv [OF _ inv] quiet_intros quiet_refl)
  then show ?thesis
    using inv by (simp add: rx_information_def)
qed

text \<open>An acknowledgement moves the window inside the queue.\<close>

lemma window_inv:
  assumes inv: "dss1_inv X Y s" and p: "p < PIPE_MAX"
    and f: "\<And>pi. refcount (f pi) = refcount pi \<and> p_state (f pi) = p_state pi \<and> ifq (f pi) = ifq pi \<and> ifq_maxlen (f pi) = ifq_maxlen pi"
    and w: "tx_window_length (f (pipe_at s p)) \<le> tx_window_size (f (pipe_at s p))"
      "tx_window_size (f (pipe_at s p)) \<le> tx_window_size (pipe_at s p)"
    and c: "tx_window_length (f (pipe_at s p)) \<noteq> 0 \<Longrightarrow> tx_window_length (pipe_at s p) \<noteq> 0"
  shows "dss1_inv X Y (pipe_upd p f s)"
proof (rule inv_pipe_keep [OF inv p])
  have q: "queue_ok (adapter s p) (pipe_at s p)"
    using dss1_invD(8) [OF inv p] by (simp add: pipe_ok_def)
  show "queue_ok (adapter s p) (f (pipe_at s p))"
    using q f w by (simp add: queue_ok_def backlog_ok_def windows_ok_def word_le_nat_alt)
  have "sc_current_pipe s = p \<Longrightarrow> p < length (sc_pipe s)"
    using p dss1_invD(1) [OF inv] by simp
  then show "current_ok (pipe_upd p f s)"
    using dss1_invD(10) [OF inv] f c by (cases "sc_current_pipe s = p") (auto simp: current_ok_def Let_def)
qed (use f in simp_all)

lemma check_NR_inv:
  assumes inv: "dss1_inv {} Y s" and p: "p < PIPE_MAX"
  shows "dss1_inv {} Y (check_NR p nr s)"
proof -
  define diff where "diff = (nr - tx_nr (pipe_at s p)) mod 128"
  define s1 where "s1 = pipe_upd p (\<lambda>pi. pi\<lparr>tx_nr := nr\<rparr>) s"
  have inv1: "dss1_inv {} Y s1"
    unfolding s1_def by (rule quiet_inv [OF quiet_tx_nr [OF quiet_refl] inv])
  have pl: "p < length (sc_pipe s1)"
    using p dss1_invD(1) [OF inv1] by simp
  define s2 where "s2 = dss1_pipe_set_state p ST_L2_MULTI_FRAME s1"
  have inv2: "dss1_inv {} Y s2"
    unfolding s2_def by (intro set_state_inv inv1 p) simp_all
  have w: "tx_window_length (pipe_at s2 p) = tx_window_length (pipe_at s1 p)"
    unfolding s2_def by (rule set_state_multi [OF pl])
  have wle: "tx_window_length (pipe_at s2 p) \<le> tx_window_size (pipe_at s2 p)"
    using dss1_invD(8) [OF inv2 p] by (simp add: pipe_ok_def queue_ok_def windows_ok_def)
  have single: "dss1_inv {} Y (pipe_upd p (\<lambda>pi. pi\<lparr>tx_window_size := 0, tx_window_length := 0\<rparr>) (dss1_pipe_set_state p ST_L2_SINGLE_FRAME s1))"
    by (rule window_inv [OF set_state_inv(1) [OF inv1 p] p]) simp_all
  define s3 where "s3 = pipe_upd p (\<lambda>pi. pi\<lparr>tx_window_length := tx_window_length pi - diff\<rparr>) s2"
  have "dss1_inv {} Y s3" if "\<not> tx_window_length (pipe_at s1 p) < diff"
  proof -
    have "tx_window_length (pipe_at s2 p) - diff \<le> tx_window_length (pipe_at s2 p)"
      using that w by (simp add: word_sub_le not_less)
    then show ?thesis
      unfolding s3_def using wle that w by (intro window_inv inv2 p) auto
  qed
  moreover from this have "dss1_inv {} Y (emit L1_FIFO_START s3)" if "\<not> tx_window_length (pipe_at s1 p) < diff"
    using that quiet_inv [OF quiet_emit [OF quiet_refl]] by blast
  ultimately show ?thesis
    using inv1 single unfolding check_NR_def Let_def diff_def [symmetric] s1_def [symmetric] s2_def [symmetric] s3_def [symmetric]
    by simp
qed

lemma quiet_rx_response: "quiet s (rx_response p crbit reject buf s)"
  by (auto simp: rx_response_def Let_def intro!: quiet_intros)

lemma short_frame: "length frame \<le> 65000 \<Longrightarrow> short_buffer (dss1_buf_init frame (of_nat (length frame)))"
  by (simp add: short_buffer_def wf_buffer_def dss1_buf_init_def unat_of_nat)

lemma put_mbuf_inv:
  assumes inv: "dss1_inv {} {} s" and len: "length frame \<le> 65000"
  shows "dss1_inv {} {} (dss1_l2_put_mbuf frame s)"
proof -
  define buf where "buf = dss1_buf_init frame (of_nat (length frame))"
  define s1 where "s1 = s\<lparr>sc_received_frame := True\<rparr>"
  define crbit where "crbit = ((dss1_get_1 buf 0 AND 0x02 \<noteq> 0) \<noteq> (\<not> nt_mode s1))"
  have b: "short_buffer buf"
    unfolding buf_def by (rule short_frame [OF len])
  have "quiet s s1"
    unfolding s1_def by (rule quiet_same [OF quiet_refl]) simp_all
  then have inv1: "dss1_inv {} {} s1"
    using inv by (rule quiet_inv)
  obtain u r where pipe: "rx_pipe (dss1_get_1 buf 1) (dss1_get_1 buf 2) s1 = (u, r)"
    by fastforce
  note u = rx_pipe_inv [OF inv1 pipe]
  have rest: "dss1_inv {} {} (rx_response p crbit rej buf (check_NR p n v))" if "dss1_inv {} {} v" "p < PIPE_MAX" for p n rej v
    using quiet_inv [OF quiet_rx_response check_NR_inv [OF that]] .
  show ?thesis
  proof (cases r)
    case None
    then show ?thesis
      using u(1) pipe unfolding dss1_l2_put_mbuf_def Let_def buf_def [symmetric] s1_def [symmetric] by simp
  next
    case (Some p)
    note c = rx_control_inv [OF u(1) b u(2) [OF Some]] and i = rx_information_inv [OF u(1) b u(2) [OF Some]]
    show ?thesis
      using Some pipe c i rest [OF c u(2) [OF Some]] rest [OF i u(2) [OF Some]]
      unfolding dss1_l2_put_mbuf_def Let_def buf_def [symmetric] s1_def [symmetric] crbit_def [symmetric]
      by (simp add: split_beta)
  qed
qed

end
