(* ===== verification/DSS1_Transmit.thy ===== *)
theory DSS1_Transmit
  imports DSS1_TEI
begin

unbundle bit_operations_syntax

text \<open>
  The transmitter, \<open>dss1_l2_get_mbuf\<close> of \<^verbatim>\<open>src/src/sys/i4b/dss1/dss1_l2fsm.c\<close>, with its window and its zero
  length I-frames, and the proof that it keeps the resource invariant.
\<close>

section \<open>Transmission\<close>

definition dss1_l2_get_mbuf_timeout :: "nat \<Rightarrow> l2softc \<Rightarrow> l2softc" where
  "dss1_l2_get_mbuf_timeout p s =
     (if sc_fifo s
      then emit L1_FIFO_START (pipe_upd p (\<lambda>pi. pi\<lparr>tx_window_size := tx_window_size pi - tx_window_length pi, tx_window_length := 0\<rparr>)
             (pipe_upd p (\<lambda>pi. pi\<lparr>get_mbuf_callout := None\<rparr>) s))
      else pipe_upd p (\<lambda>pi. pi\<lparr>get_mbuf_callout := None\<rparr>) s)"

text \<open>
  From the label \<open>insert_second_ZIF\<close>: put zero length I-frames at the head until the second frame is
  one, too; after two of them it is. Running out of rounds would be an endless loop.
\<close>

definition second_is_zif :: "tcp_pipe \<Rightarrow> bool" where
  "second_is_zif pi \<longleftrightarrow> (case ifq pi of _ # m # _ \<Rightarrow> is_zif m | _ \<Rightarrow> False)"

fun insert_second_ZIF :: "nat \<Rightarrow> nat \<Rightarrow> l2softc \<Rightarrow> l2softc" where
  "insert_second_ZIF 0 p s = fault s"
| "insert_second_ZIF (Suc n) p s0 =
     (case i4b_getmbuf I_HEADER_LEN s0 of
        (s, None) \<Rightarrow> s
      | (s, Some m) \<Rightarrow> let s1 = pipe_upd p (\<lambda>pi. pi\<lparr>ifq := m # ifq pi\<rparr>) s
                       in if second_is_zif (pipe_at s1 p) then s1 else insert_second_ZIF n p s1)"

definition add_zifs :: "nat \<Rightarrow> l2softc \<Rightarrow> l2softc" where
  "add_zifs p s =
     (case ifq (pipe_at s p) of
        m # _ \<Rightarrow> if is_zif m \<and> second_is_zif (pipe_at s p) then s else insert_second_ZIF 2 p s
      | [] \<Rightarrow> insert_second_ZIF 2 p s)"

text \<open>The acknowledged frames are freed and a new window is opened.\<close>

definition open_window :: "nat \<Rightarrow> l2softc \<Rightarrow> l2softc" where
  "open_window p s0 =
     (let pi0 = pipe_at s0 p; assigned = L2_STATE_IS_TEI_ASSIGNED (p_state pi0);
          few = (tx_nr pi0 = 0x7F \<or> tx_nr pi0 = 0 \<or> p_state pi0 \<le> ST_L2_SINGLE_FRAME);
          s1 = pipe_upd p (\<lambda>pi. pi\<lparr>ifq := drop (unat (tx_window_size pi - tx_window_length pi)) (ifq pi),
                 tx_window_size := tx_window_length pi\<rparr>) s0;
          s2 = (if assigned \<and> few then add_zifs p s1 else s1);
          nr_length_max = (if \<not> assigned then 0x7F else if few then 2 else 0x7F - tx_nr pi0);
          n = min (unat nr_length_max) (length (ifq (pipe_at s2 p)));
          s3 = pipe_upd p (\<lambda>pi. pi\<lparr>get_mbuf_callout := None, tx_window_length := of_nat n, tx_window_size := of_nat n\<rparr>) s2
      in s3\<lparr>sc_current_mbuf := (case ifq (pipe_at s3 p) of [] \<Rightarrow> None | m # _ \<Rightarrow> Some (m_id m)),
            sc_current_length := of_nat n, sc_current_tx_nr := tx_nr (pipe_at s3 p)\<rparr>)"

text \<open>Stores at \<open>m_data\<close>; outside the storage they are a fault.\<close>

definition put_header :: "u8 list \<Rightarrow> mbuf \<Rightarrow> mbuf" where
  "put_header hdr m = m\<lparr>m_mem := take (m_off m) (m_mem m) @ hdr @ drop (m_off m + length hdr) (m_mem m)\<rparr>"

definition header_fits :: "u8 list \<Rightarrow> mbuf \<Rightarrow> bool" where
  "header_fits hdr m \<longleftrightarrow> m_off m + length hdr \<le> length (m_mem m)"

definition shorten_header :: "mbuf \<Rightarrow> mbuf" where
  "shorten_header m = (if m_proto1 m then m else m\<lparr>m_proto1 := True, m_off := m_off m + 1, m_len := m_len m - 1\<rparr>)"

definition m_copypacket :: "mbuf \<Rightarrow> l2softc \<Rightarrow> l2softc \<times> mbuf option" where
  "m_copypacket m s =
     (case i4b_getmbuf (length (m_mem m)) s of (s, None) \<Rightarrow> (s, None) | (s, Some c) \<Rightarrow> (s, Some (m\<lparr>m_id := m_id c\<rparr>)))"

text \<open>A zero length I-frame is sent with a dummy status enquiry.\<close>

definition zif_copy :: "mbuf \<Rightarrow> l2softc \<Rightarrow> l2softc \<times> mbuf option" where
  "zif_copy m s0 =
     (let len = m_len m mod 256
      in case i4b_getmbuf (len + 16) s0 of
           (s, None) \<Rightarrow> (s, None)
         | (s, Some c) \<Rightarrow>
             let msg = take len (drop (m_off m) (m_mem m)) @
                   (if no_status_enquiry s then [] else [0x08] @ make_callreference (primary_rate s) 0x7F @ [0x75])
             in (s, Some (c\<lparr>m_mem := msg, m_len := length msg\<rparr>)))"

text \<open>The headers of numbered and unnumbered frames.\<close>

definition i_header :: "l2softc \<Rightarrow> tcp_pipe \<Rightarrow> u8 list" where
  "i_header s pi = [MAKE_SAPI 0 False, tei pi, push_bit 1 (sc_current_tx_nr s) AND 0xFE,
     (push_bit 1 (rx_nr pi) AND 0xFE) OR (if sc_current_length s = 1 then 1 else 0)]"

definition ui_header :: "u8 list" where
  "ui_header = [MAKE_SAPI 0 False, TEI_BROADCAST, 0x03]"

text \<open>The frame \<open>sc_current_mbuf\<close> of the queue gets its header and is copied for layer 1.\<close>

definition send_current :: "nat \<Rightarrow> l2softc \<Rightarrow> l2softc \<times> mbuf option" where
  "send_current p s0 =
     (let pi = pipe_at s0 p; assigned = L2_STATE_IS_TEI_ASSIGNED (p_state pi)
      in case find_index (\<lambda>m. Some (m_id m) = sc_current_mbuf s0) (ifq pi) of
           None \<Rightarrow> (fault s0, None)
         | Some k \<Rightarrow>
             let m0 = (if assigned then ifq pi ! k else shorten_header (ifq pi ! k));
                 hdr = (if assigned then i_header s0 pi else ui_header);
                 m = put_header hdr m0;
                 s1 = pipe_upd p (\<lambda>pi. pi\<lparr>ifq := (ifq pi)[k := m],
                        tx_window_length := (if assigned then tx_window_length pi else tx_window_length pi - 1)\<rparr>) s0;
                 s2 = s1\<lparr>sc_current_mbuf := (if Suc k < length (ifq pi) then Some (m_id (ifq pi ! Suc k)) else None),
                         sc_current_length := sc_current_length s0 - 1, sc_current_tx_nr := sc_current_tx_nr s0 + 1\<rparr>
             in if \<not> header_fits hdr m0 then (fault s0, None)
                else if m_len m < (if m_proto1 m then I_HEADER_LEN else I_HEADER_LEN + 1) then zif_copy m s2
                else m_copypacket m s2)"

definition pipe_may_send :: "l2softc \<Rightarrow> nat \<Rightarrow> bool" where
  "pipe_may_send s p \<longleftrightarrow> L2_STATE_IS_TEI_ASSIGNED (p_state (pipe_at s p)) \<or> nt_mode s \<and> \<not> point_to_point s \<and> p = 0"

definition get_from_pipe :: "nat \<Rightarrow> l2softc \<Rightarrow> l2softc \<times> mbuf option" where
  "get_from_pipe p s0 =
     (if pipe_may_send s0 p
      then let s = (if tx_window_length (pipe_at s0 p) = 0 then open_window p s0 else s0)
           in if sc_current_length s \<noteq> 0 then send_current p s else (s, None)
      else (s0, None))"

text \<open>One round over the links, beginning at the current one.\<close>

fun get_from_pipes :: "nat list \<Rightarrow> l2softc \<Rightarrow> l2softc \<times> mbuf option" where
  "get_from_pipes [] s = (s, None)"
| "get_from_pipes (p # ps) s0 =
     (case get_from_pipe p s0 of
        (s, Some m) \<Rightarrow> (s\<lparr>sc_current_pipe := p\<rparr>, Some m)
      | (s, None) \<Rightarrow>
          let s1 = (if ifq (pipe_at s p) \<noteq> [] \<and> get_mbuf_callout (pipe_at s p) = None
                    then pipe_upd p (\<lambda>pi. pi\<lparr>get_mbuf_callout := Some 1\<rparr>) s else s)
          in get_from_pipes ps (s1\<lparr>sc_current_length := 0\<rparr>))"

text \<open>NT mode inverts the C/R bit of the frames it sends.\<close>

definition invert_cr :: "l2softc \<Rightarrow> mbuf \<Rightarrow> mbuf" where
  "invert_cr s m = (if nt_mode s then m\<lparr>m_mem := (m_mem m)[m_off m := nth0 (m_mem m) (m_off m) XOR 0x02]\<rparr> else m)"

definition dss1_l2_get_mbuf :: "l2softc \<Rightarrow> l2softc \<times> mbuf option" where
  "dss1_l2_get_mbuf s0 =
     (case sc_ifq s0 of
        m # ms \<Rightarrow> (s0\<lparr>sc_ifq := ms\<rparr>, Some (invert_cr s0 m))
      | [] \<Rightarrow>
          let start = sc_current_pipe s0
          in case get_from_pipes (map (\<lambda>k. (start + k) mod PIPE_MAX) [0..<PIPE_MAX]) s0 of
               (s, m) \<Rightarrow> (s, map_option (invert_cr s) m))"


section \<open>The invariant while a link is served\<close>

text \<open>
  The loop of \<open>dss1_l2_get_mbuf\<close> stores the link it serves in \<open>sc_current_pipe\<close> only when it ends; in
  between, the invariant holds as if it had.
\<close>

definition inv_at :: "nat \<Rightarrow> l2softc \<Rightarrow> bool" where
  "inv_at p s \<longleftrightarrow> dss1_inv {} {} (s\<lparr>sc_current_pipe := p\<rparr>)"

lemma current_pipe_simps [simp]:
  "pipe_at (s\<lparr>sc_current_pipe := p\<rparr>) q = pipe_at s q" "adapter (s\<lparr>sc_current_pipe := p\<rparr>) q = adapter s q"
  "calls_on (s\<lparr>sc_current_pipe := p\<rparr>) q = calls_on s q"
  by (simp_all add: pipe_at_def adapter_def calls_on_def cd_at_def)

lemma inv_at_quiet:
  assumes "inv_at p s" "quiet s t"
  shows "inv_at p t"
proof -
  have "quiet (s\<lparr>sc_current_pipe := p\<rparr>) (t\<lparr>sc_current_pipe := p\<rparr>)"
    using assms(2) by (simp add: quiet_def)
  then show ?thesis
    using assms(1) quiet_inv unfolding inv_at_def by blast
qed

lemma inv_atD:
  assumes "inv_at p s"
  shows "p < PIPE_MAX" "length (sc_pipe s) = PIPE_MAX" "queue_ok (adapter s p) (pipe_at s p)"
    "adapter s p \<Longrightarrow> p_state (pipe_at s p) \<le> 1" "\<not> sc_fault s"
    "sc_current_length s \<noteq> 0 \<Longrightarrow> tx_window_length (pipe_at s p) \<noteq> 0 \<Longrightarrow>
      \<exists>k. k + unat (sc_current_length s) \<le> length (ifq (pipe_at s p)) \<and> sc_current_mbuf s = Some (m_id (ifq (pipe_at s p) ! k))"
proof -
  let ?t = "s\<lparr>sc_current_pipe := p\<rparr>"
  note inv = assms [unfolded inv_at_def]
  have cur: "current_ok ?t"
    by (rule dss1_invD(10) [OF inv])
  then show p: "p < PIPE_MAX"
    by (simp add: current_ok_def)
  show "length (sc_pipe s) = PIPE_MAX" "\<not> sc_fault s"
    using dss1_invD(1,3) [OF inv] by simp_all
  show "queue_ok (adapter s p) (pipe_at s p)" "adapter s p \<Longrightarrow> p_state (pipe_at s p) \<le> 1"
    using dss1_invD(8) [OF inv p] by (simp_all add: pipe_ok_def)
  show "\<exists>k. k + unat (sc_current_length s) \<le> length (ifq (pipe_at s p)) \<and> sc_current_mbuf s = Some (m_id (ifq (pipe_at s p) ! k))"
    if "sc_current_length s \<noteq> 0" "tx_window_length (pipe_at s p) \<noteq> 0"
    using cur that by (simp add: current_ok_def Let_def)
qed

text \<open>The fields of the transmitter may change as long as the condition on them holds.\<close>

lemma inv_current:
  assumes "dss1_inv X Y s"
    "current_ok (s\<lparr>sc_current_pipe := p, sc_current_mbuf := m, sc_current_length := l, sc_current_tx_nr := n\<rparr>)"
  shows "dss1_inv X Y (s\<lparr>sc_current_pipe := p, sc_current_mbuf := m, sc_current_length := l, sc_current_tx_nr := n\<rparr>)" (is "dss1_inv X Y ?t")
proof -
  have same: "cd_at ?t = cd_at s" "pipe_at ?t = pipe_at s" "calls_on ?t = calls_on s" "linked ?t = linked s" "adapter ?t = adapter s"
    by (simp_all add: fun_eq_iff pipe_at_def calls_on_def linked_def adapter_def cd_at_def)
  have "chan_inv ?t"
    by (rule same_channels_inv [OF _ dss1_invD(4) [OF assms(1)]]) (simp add: same_channels_def same)
  moreover have "unique_cdids ?t" "wf_cdid_range ?t"
    using dss1_invD(5,6) [OF assms(1)] by (simp_all add: unique_cdids_def wf_cdid_range_def same)
  ultimately show ?thesis
    using assms by (simp add: dss1_inv_def pipe_ok_def same)
qed

lemma inv_at_upd:
  assumes inv: "inv_at p s"
    and f: "refcount (f (pipe_at s p)) = refcount (pipe_at s p)" "p_state (f (pipe_at s p)) = p_state (pipe_at s p)"
      "queue_ok (adapter s p) (f (pipe_at s p))"
    and cur: "l \<noteq> 0 \<Longrightarrow> tx_window_length (f (pipe_at s p)) \<noteq> 0 \<Longrightarrow>
      \<exists>k. k + unat l \<le> length (ifq (f (pipe_at s p))) \<and> m = Some (m_id (ifq (f (pipe_at s p)) ! k))"
  shows "inv_at p (pipe_upd p f s\<lparr>sc_current_mbuf := m, sc_current_length := l, sc_current_tx_nr := n\<rparr>)"
proof -
  note p = inv_atD(1) [OF inv] and len = inv_atD(2) [OF inv]
  define u where "u = s\<lparr>sc_current_pipe := p, sc_current_mbuf := m, sc_current_length := 0, sc_current_tx_nr := n\<rparr>"
  have at: "pipe_at u = pipe_at s" "adapter u = adapter s"
    by (simp_all add: u_def pipe_at_def adapter_def fun_eq_iff)
  have "dss1_inv {} {} u"
    using inv_current [OF inv [unfolded inv_at_def], where p = p and m = m and l = 0 and n = n] p by (simp add: u_def current_ok_def)
  moreover have "current_ok (pipe_upd p f u)"
    using p by (simp add: current_ok_def u_def)
  ultimately have inv1: "dss1_inv {} {} (pipe_upd p f u)"
    using f by (intro inv_pipe_keep p) (simp_all add: at)
  let ?t = "pipe_upd p f u\<lparr>sc_current_pipe := p, sc_current_mbuf := m, sc_current_length := l, sc_current_tx_nr := n\<rparr>"
  have "pipe_at ?t p = f (pipe_at s p)"
    using p len by (simp add: pipe_at_def pipe_upd_def u_def)
  then have "current_ok ?t"
    using p cur by (simp add: current_ok_def Let_def)
  moreover have "(pipe_upd p f s\<lparr>sc_current_mbuf := m, sc_current_length := l, sc_current_tx_nr := n\<rparr>)\<lparr>sc_current_pipe := p\<rparr> = ?t"
    by (simp add: pipe_upd_def u_def)
  ultimately show ?thesis
    using inv_current [OF inv1, where p = p and m = m and l = l and n = n] unfolding inv_at_def by simp
qed

lemma inv_at_upd_idle:
  assumes "inv_at p s" "refcount (f (pipe_at s p)) = refcount (pipe_at s p)" "p_state (f (pipe_at s p)) = p_state (pipe_at s p)"
    "queue_ok (adapter s p) (f (pipe_at s p))" "tx_window_length (f (pipe_at s p)) = 0"
  shows "inv_at p (pipe_upd p f s)"
proof -
  have "inv_at p (pipe_upd p f s\<lparr>sc_current_mbuf := sc_current_mbuf s, sc_current_length := sc_current_length s,
      sc_current_tx_nr := sc_current_tx_nr s\<rparr>)"
    using assms by (intro inv_at_upd) simp_all
  then show ?thesis
    by (simp add: pipe_upd_def)
qed

section \<open>Opening a window\<close>

lemma zif_count_drop:
  "length (drop (Suc 0) xs) \<le> n + length (takeWhile P (take 2 (drop (Suc 0) xs)))" if "length xs \<le> n + length (takeWhile P (take 2 xs))" for n
  using that by (cases xs; cases "tl xs") (auto split: if_splits)

lemma zif_count_le: "length (takeWhile P (take 2 xs)) \<le> 2"
  using length_takeWhile_le [of P "take 2 xs"] by simp

lemma backlog_drop:
  assumes "length xs \<le> n + length (takeWhile P (take 2 xs))"
  shows "length (drop d xs) \<le> n + length (takeWhile P (take 2 (drop d xs)))"
proof -
  consider "d = 0" | "d = 1" | "2 \<le> d"
    by linarith
  then show ?thesis
  proof cases
    case 3
    then show ?thesis
      using assms zif_count_le [of P xs] by simp
  qed (use assms zif_count_drop in simp_all)
qed

definition two_zifs :: "tcp_pipe \<Rightarrow> bool" where
  "two_zifs pi \<longleftrightarrow> (case ifq pi of m # _ \<Rightarrow> is_zif m | [] \<Rightarrow> False) \<and> second_is_zif pi"

lemma backlog_cons:
  assumes "backlog_ok pi" "\<not> two_zifs pi" "is_zif m"
  shows "backlog_ok (pi\<lparr>ifq := m # ifq pi\<rparr>)"
  using assms by (cases "ifq pi"; cases "tl (ifq pi)") (auto simp: backlog_ok_def two_zifs_def second_is_zif_def)

text \<open>The link is idle: nothing is sent and not acknowledged.\<close>

definition idle_at :: "nat \<Rightarrow> l2softc \<Rightarrow> bool" where
  "idle_at p s \<longleftrightarrow> inv_at p s \<and> tx_window_length (pipe_at s p) = 0 \<and> tx_window_size (pipe_at s p) = 0"

lemma idle_quiet: "idle_at p s \<Longrightarrow> quiet s t \<Longrightarrow> idle_at p t"
  using inv_at_quiet [of p s t] inv_atD(1,2) [of p s] quiet_kept [of s t p] by (simp add: idle_at_def pipe_kept_def)

lemma zif_frame: "i4b_getmbuf I_HEADER_LEN s = (s1, Some m) \<Longrightarrow> is_zif m \<and> key_ok ad (frame_key m)"
  by (auto simp: i4b_getmbuf_def is_zif_def I_HEADER_LEN_def key_ok_def frame_key_def split: list.splits bool.splits)

lemma idle_insert:
  assumes idle: "idle_at p s" and get: "i4b_getmbuf I_HEADER_LEN s = (s1, Some m)" and z: "\<not> two_zifs (pipe_at s p)"
  shows "idle_at p (pipe_upd p (\<lambda>pi. pi\<lparr>ifq := m # ifq pi\<rparr>) s1)"
    "pipe_at (pipe_upd p (\<lambda>pi. pi\<lparr>ifq := m # ifq pi\<rparr>) s1) p = (pipe_at s p)\<lparr>ifq := m # ifq (pipe_at s p)\<rparr>"
proof -
  have idle1: "idle_at p s1"
    using idle_quiet [OF idle quiet_getmbuf_pair [OF quiet_refl get]] .
  have at: "pipe_at s1 p = pipe_at s p"
    using get by (simp add: pipe_at_def)
  have pl: "p < length (sc_pipe s1)" and q: "queue_ok (adapter s1 p) (pipe_at s1 p)"
    using idle1 inv_atD(1-3) [of p s1] by (simp_all add: idle_at_def)
  have "queue_ok (adapter s1 p) ((pipe_at s1 p)\<lparr>ifq := m # ifq (pipe_at s1 p)\<rparr>)"
    using q backlog_cons [of "pipe_at s1 p" m] zif_frame [OF get] z idle1
    by (simp add: queue_ok_def at windows_ok_def idle_at_def)
  then show "idle_at p (pipe_upd p (\<lambda>pi. pi\<lparr>ifq := m # ifq pi\<rparr>) s1)"
    using idle1 pl by (auto simp: idle_at_def intro!: inv_at_upd_idle)
  show "pipe_at (pipe_upd p (\<lambda>pi. pi\<lparr>ifq := m # ifq pi\<rparr>) s1) p = (pipe_at s p)\<lparr>ifq := m # ifq (pipe_at s p)\<rparr>"
    using pl at by simp
qed

text \<open>Two rounds are enough to have two zero length frames at the head.\<close>

lemma insert_second_ZIF_idle:
  assumes idle: "idle_at p s" and z: "\<not> two_zifs (pipe_at s p)"
  shows "idle_at p (insert_second_ZIF 2 p s)"
proof (cases "i4b_getmbuf I_HEADER_LEN s")
  case (Pair s1 r)
  show ?thesis
  proof (cases r)
    case None
    then show ?thesis
      using Pair idle_quiet [OF idle quiet_getmbuf_pair [OF quiet_refl Pair]] by (simp add: numeral_2_eq_2)
  next
    case (Some m)
    note get = Pair [unfolded Some]
    define s2 where "s2 = pipe_upd p (\<lambda>pi. pi\<lparr>ifq := m # ifq pi\<rparr>) s1"
    note one = idle_insert [OF idle get z, folded s2_def]
    have eq: "insert_second_ZIF 2 p s = (if second_is_zif (pipe_at s2 p) then s2 else insert_second_ZIF (Suc 0) p s2)"
      by (simp add: numeral_2_eq_2 get s2_def Let_def)
    show ?thesis
    proof (cases "second_is_zif (pipe_at s2 p)")
      case False
      obtain s3 r' where get': "i4b_getmbuf I_HEADER_LEN s2 = (s3, r')"
        by fastforce
      show ?thesis
      proof (cases r')
        case None
        then show ?thesis
          using False get' idle_quiet [OF one(1) quiet_getmbuf_pair [OF quiet_refl get']] by (simp add: eq)
      next
        case (Some m')
        have z2: "\<not> two_zifs (pipe_at s2 p)"
          using False by (simp add: two_zifs_def)
        note two = idle_insert [OF one(1) get' [unfolded Some] z2]
        have "second_is_zif (pipe_at (pipe_upd p (\<lambda>pi. pi\<lparr>ifq := m' # ifq pi\<rparr>) s3) p)"
          unfolding two(2) one(2) using zif_frame [OF get] by (simp add: second_is_zif_def)
        then show ?thesis
          using False get' Some two(1) by (simp add: eq Let_def)
      qed
    qed (use one(1) eq in simp)
  qed
qed

lemma add_zifs_idle:
  assumes "idle_at p s"
  shows "idle_at p (add_zifs p s)"
proof -
  have "add_zifs p s = (if two_zifs (pipe_at s p) then s else insert_second_ZIF 2 p s)"
    by (auto simp: add_zifs_def two_zifs_def split: list.splits)
  then show ?thesis
    using assms insert_second_ZIF_idle by simp
qed

definition take_window :: "nat \<Rightarrow> nat \<Rightarrow> l2softc \<Rightarrow> l2softc" where
  "take_window p n s = pipe_upd p (\<lambda>pi. pi\<lparr>get_mbuf_callout := None, tx_window_length := of_nat n, tx_window_size := of_nat n\<rparr>) s
     \<lparr>sc_current_mbuf := (case ifq (pipe_at s p) of [] \<Rightarrow> None | m # _ \<Rightarrow> Some (m_id m)), sc_current_length := of_nat n,
      sc_current_tx_nr := tx_nr (pipe_at s p)\<rparr>"

lemma open_window_inv:
  assumes inv: "inv_at p s" and wl: "tx_window_length (pipe_at s p) = 0"
  shows "inv_at p (open_window p s)" "sc_current_length (open_window p s) = tx_window_length (pipe_at (open_window p s) p)"
proof -
  define pi0 where "pi0 = pipe_at s p"
  define assigned where "assigned = L2_STATE_IS_TEI_ASSIGNED (p_state pi0)"
  define few where "few = (tx_nr pi0 = 0x7F \<or> tx_nr pi0 = 0 \<or> p_state pi0 \<le> ST_L2_SINGLE_FRAME)"
  define s1 where "s1 = pipe_upd p (\<lambda>pi. pi\<lparr>ifq := drop (unat (tx_window_size pi - tx_window_length pi)) (ifq pi),
      tx_window_size := tx_window_length pi\<rparr>) s"
  define s2 where "s2 = (if assigned \<and> few then add_zifs p s1 else s1)"
  define nr where "nr = (if \<not> assigned then 0x7F else if few then 2 else 0x7F - tx_nr pi0)"
  define n where "n = min (unat nr) (length (ifq (pipe_at s2 p)))"
  have pl: "p < length (sc_pipe s)" and q: "queue_ok (adapter s p) (pipe_at s p)"
    using inv_atD(1-3) [OF inv] by simp_all
  have "queue_ok (adapter s p) ((pipe_at s p)\<lparr>ifq := drop d (ifq (pipe_at s p)), tx_window_size := 0\<rparr>)" for d
    using q wl backlog_drop [of "ifq (pipe_at s p)" _ is_zif d]
    by (auto simp: queue_ok_def windows_ok_def backlog_ok_def dest: in_set_dropD)
  then have "inv_at p s1"
    unfolding s1_def by (intro inv_at_upd_idle inv) (simp_all add: wl)
  then have "idle_at p s1"
    using wl pl by (simp add: idle_at_def s1_def)
  then have idle2: "idle_at p s2"
    using add_zifs_idle by (simp add: s2_def)
  then have inv2: "inv_at p s2" and pl2: "p < length (sc_pipe s2)"
    using inv_atD(1,2) [of p s2] by (simp_all add: idle_at_def)
  have n: "n \<le> length (ifq (pipe_at s2 p))" "n < 256"
    by (simp_all add: n_def min_less_iff_disj)
  then have un: "unat (of_nat n :: u8) = n"
    by (simp add: unat_of_nat)
  have eq: "open_window p s = take_window p n s2"
    unfolding open_window_def Let_def pi0_def [symmetric] assigned_def [symmetric] few_def [symmetric] s1_def [symmetric]
      s2_def [symmetric] nr_def [symmetric] n_def [symmetric]
    using pl2 by (simp add: take_window_def)
  show "inv_at p (open_window p s)"
    unfolding eq take_window_def
  proof (rule inv_at_upd [OF inv2])
    have q2: "queue_ok (adapter s2 p) (pipe_at s2 p)"
      by (rule inv_atD(3) [OF inv2])
    then show "queue_ok (adapter s2 p)
        ((pipe_at s2 p)\<lparr>get_mbuf_callout := None, tx_window_length := of_nat n, tx_window_size := of_nat n\<rparr>)"
      using n un by (simp add: queue_ok_def windows_ok_def backlog_ok_def)
    show "\<exists>k. k + unat (of_nat n :: u8) \<le> length (ifq ((pipe_at s2 p)\<lparr>get_mbuf_callout := None, tx_window_length := of_nat n,
          tx_window_size := of_nat n\<rparr>)) \<and>
        (case ifq (pipe_at s2 p) of [] \<Rightarrow> None | m # _ \<Rightarrow> Some (m_id m)) =
        Some (m_id (ifq ((pipe_at s2 p)\<lparr>get_mbuf_callout := None, tx_window_length := of_nat n, tx_window_size := of_nat n\<rparr>) ! k))"
      if l: "(of_nat n :: u8) \<noteq> 0"
    proof -
      have "ifq (pipe_at s2 p) \<noteq> []"
        using l n by auto
      then show ?thesis
        using n un by (intro exI [of _ 0]) (auto split: list.splits)
    qed
  qed simp_all
  show "sc_current_length (open_window p s) = tx_window_length (pipe_at (open_window p s) p)"
    unfolding eq take_window_def using pl2 by (simp add: pipe_at_def pipe_upd_def)
qed

section \<open>Sending a frame\<close>

lemma header_fields: "m_off (put_header h m) = m_off m" "m_len (put_header h m) = m_len m" "m_proto1 (put_header h m) = m_proto1 m"
  "m_id (put_header h m) = m_id m" "header_fits h m \<Longrightarrow> length (m_mem (put_header h m)) = length (m_mem m)"
  by (auto simp: put_header_def header_fits_def)

lemma quiet_zif_copy: "quiet s (fst (zif_copy m s))"
  using quiet_getmbuf [OF quiet_refl, of s "m_len m mod 256 + 16"] by (auto simp: zif_copy_def Let_def split: prod.splits option.splits)

lemma quiet_copypacket: "quiet s (fst (m_copypacket m s))"
  using quiet_getmbuf [OF quiet_refl, of s "length (m_mem m)"] by (auto simp: m_copypacket_def split: prod.splits option.splits)

lemma update_zif_count:
  assumes "k < length xs" "P (xs ! k) \<Longrightarrow> P y"
  shows "length (takeWhile P (take 2 xs)) \<le> length (takeWhile P (take 2 (xs[k := y])))"
proof -
  consider "k = 0" | "k = 1" | "2 \<le> k"
    by linarith
  then show ?thesis
  proof cases
    case 3
    then show ?thesis
      by (simp add: take_update_cancel)
  qed (use assms in \<open>cases xs; cases "tl xs"; auto\<close>)+
qed

lemma queue_update:
  assumes "queue_ok ad pi" "k < length (ifq pi)" "key_ok ad (frame_key m)" "is_zif (ifq pi ! k) \<Longrightarrow> is_zif m" "wl \<le> tx_window_size pi"
  shows "queue_ok ad (pi\<lparr>ifq := (ifq pi)[k := m], tx_window_length := wl\<rparr>)"
proof -
  have "\<forall>x\<in>set ((ifq pi)[k := m]). key_ok ad (frame_key x)"
    using assms(1,3) set_update_subset_insert [of "ifq pi" k m] by (auto simp: queue_ok_def)
  moreover have "backlog_ok (pi\<lparr>ifq := (ifq pi)[k := m], tx_window_length := wl\<rparr>)"
    using assms(1) update_zif_count [of k "ifq pi" is_zif m] assms(2,4) by (simp add: queue_ok_def backlog_ok_def)
  ultimately show ?thesis
    using assms(1,5) by (simp add: queue_ok_def windows_ok_def)
qed

text \<open>What \<open>send_current\<close> writes: the frame with its header.\<close>

definition headed :: "l2softc \<Rightarrow> tcp_pipe \<Rightarrow> mbuf \<Rightarrow> mbuf" where
  "headed s pi m = (if L2_STATE_IS_TEI_ASSIGNED (p_state pi) then put_header (i_header s pi) m
     else put_header ui_header (shorten_header m))"

lemma headed_ok:
  assumes key: "key_ok ad (frame_key m)" and ad: "ad \<longleftrightarrow> \<not> L2_STATE_IS_TEI_ASSIGNED (p_state pi)"
  shows "key_ok ad (frame_key (headed s pi m))" "is_zif m \<Longrightarrow> is_zif (headed s pi m)" "m_id (headed s pi m) = m_id m"
    "L2_STATE_IS_TEI_ASSIGNED (p_state pi) \<Longrightarrow> header_fits (i_header s pi) m"
    "\<not> L2_STATE_IS_TEI_ASSIGNED (p_state pi) \<Longrightarrow> header_fits ui_header (shorten_header m)"
proof -
  show i: "header_fits (i_header s pi) m" if "L2_STATE_IS_TEI_ASSIGNED (p_state pi)"
    using key ad that by (auto simp: header_fits_def i_header_def key_ok_def frame_key_def split: if_splits)
  show u: "header_fits ui_header (shorten_header m)" if "\<not> L2_STATE_IS_TEI_ASSIGNED (p_state pi)"
    using key by (auto simp: header_fits_def ui_header_def key_ok_def frame_key_def shorten_header_def split: if_splits)
  show "key_ok ad (frame_key (headed s pi m))"
    using key ad i u by (auto simp: headed_def header_fields key_ok_def frame_key_def shorten_header_def split: if_splits)
  show "is_zif m \<Longrightarrow> is_zif (headed s pi m)" "m_id (headed s pi m) = m_id m"
    by (auto simp: headed_def header_fields is_zif_def shorten_header_def)
qed

text \<open>The state after the frame at position \<open>k\<close> was sent.\<close>

definition sent :: "nat \<Rightarrow> nat \<Rightarrow> l2softc \<Rightarrow> l2softc" where
  "sent p k s =
     (let pi = pipe_at s p; m = headed s pi (ifq pi ! k); assigned = L2_STATE_IS_TEI_ASSIGNED (p_state pi)
      in pipe_upd p (\<lambda>pi. pi\<lparr>ifq := (ifq pi)[k := m], tx_window_length :=
             (if assigned then tx_window_length pi else tx_window_length pi - 1)\<rparr>) s
         \<lparr>sc_current_mbuf := (if Suc k < length (ifq pi) then Some (m_id (ifq pi ! Suc k)) else None),
          sc_current_length := sc_current_length s - 1, sc_current_tx_nr := sc_current_tx_nr s + 1\<rparr>)"

lemma find_index_first: "n < length xs \<Longrightarrow> P (xs ! n) \<Longrightarrow> \<exists>k. find_index P xs = Some k \<and> k \<le> n"
proof (induction xs arbitrary: n)
  case (Cons x xs)
  show ?case
  proof (cases "P x")
    case False
    then obtain n' where "n = Suc n'" "n' < length xs" "P (xs ! n')"
      using Cons.prems by (cases n) auto
    then show ?thesis
      using Cons.IH [of n'] False by auto
  qed simp
qed simp

lemma unat_pred_u8: "x \<noteq> 0 \<Longrightarrow> unat (x - 1) = unat x - 1" for x :: u8
  by (simp add: unat_sub word_le_nat_alt unat_eq_0 Suc_le_eq flip: unat_eq_0)

lemma send_current_sent:
  assumes inv: "inv_at p s" and may: "pipe_may_send s p" and l: "sc_current_length s \<noteq> 0" "tx_window_length (pipe_at s p) \<noteq> 0"
  obtains k m where "k < length (ifq (pipe_at s p))" "m = headed s (pipe_at s p) (ifq (pipe_at s p) ! k)"
    "k + unat (sc_current_length s) \<le> length (ifq (pipe_at s p))" "inv_at p (sent p k s)"
    "send_current p s = (if m_len m < (if m_proto1 m then I_HEADER_LEN else I_HEADER_LEN + 1)
       then zif_copy m (sent p k s) else m_copypacket m (sent p k s))"
proof -
  let ?pi = "pipe_at s p"
  let ?as = "L2_STATE_IS_TEI_ASSIGNED (p_state ?pi)"
  obtain n where n: "n + unat (sc_current_length s) \<le> length (ifq ?pi)" "sc_current_mbuf s = Some (m_id (ifq ?pi ! n))"
    using inv_atD(6) [OF inv l] by blast
  have pos: "0 < unat (sc_current_length s)"
    using l(1) by (simp add: unat_gt_0)
  then obtain k where k: "find_index (\<lambda>m. Some (m_id m) = sc_current_mbuf s) (ifq ?pi) = Some k" "k \<le> n"
    using find_index_first [of n "ifq ?pi" "\<lambda>m. Some (m_id m) = sc_current_mbuf s"] n by auto
  have kl: "k < length (ifq ?pi)" "k + unat (sc_current_length s) \<le> length (ifq ?pi)"
    using k(2) n(1) pos by linarith+
  have ad: "adapter s p \<longleftrightarrow> \<not> ?as"
    using inv_atD(4) [OF inv] may by (auto simp: pipe_may_send_def adapter_def L2_STATE_IS_TEI_ASSIGNED_def)
  have q: "queue_ok (adapter s p) ?pi"
    by (rule inv_atD(3) [OF inv])
  then have key: "key_ok (adapter s p) (frame_key (ifq ?pi ! k))"
    using kl(1) by (simp add: queue_ok_def)
  note head = headed_ok [OF key ad]
  define m where "m = headed s ?pi (ifq ?pi ! k)"
  have "inv_at p (sent p k s)"
    unfolding sent_def Let_def
  proof (rule inv_at_upd [OF inv])
    have "tx_window_length ?pi - 1 \<le> tx_window_length ?pi"
      using l(2) by (simp add: word_le_nat_alt unat_pred_u8)
    then have "(if ?as then tx_window_length ?pi else tx_window_length ?pi - 1) \<le> tx_window_size ?pi"
      using q by (auto simp: queue_ok_def windows_ok_def)
    then show "queue_ok (adapter s p) (?pi\<lparr>ifq := (ifq ?pi)[k := headed s ?pi (ifq ?pi ! k)], tx_window_length :=
        (if ?as then tx_window_length ?pi else tx_window_length ?pi - 1)\<rparr>)"
      using queue_update [OF q kl(1) head(1,2)] by blast
    assume "sc_current_length s - 1 \<noteq> 0"
    then have "unat (sc_current_length s) \<noteq> 1"
      using unat_pred_u8 [OF l(1)] by (auto simp flip: unat_eq_0)
    then show "\<exists>j. j + unat (sc_current_length s - 1) \<le> length (ifq (?pi\<lparr>ifq := (ifq ?pi)[k := headed s ?pi (ifq ?pi ! k)], tx_window_length :=
        (if ?as then tx_window_length ?pi else tx_window_length ?pi - 1)\<rparr>)) \<and>
        (if Suc k < length (ifq ?pi) then Some (m_id (ifq ?pi ! Suc k)) else None) =
        Some (m_id (ifq (?pi\<lparr>ifq := (ifq ?pi)[k := headed s ?pi (ifq ?pi ! k)], tx_window_length :=
        (if ?as then tx_window_length ?pi else tx_window_length ?pi - 1)\<rparr>) ! j))"
      using kl pos by (intro exI [of _ "Suc k"]) (simp add: unat_pred_u8 l)
  qed simp_all
  moreover have "send_current p s = (if m_len m < (if m_proto1 m then I_HEADER_LEN else I_HEADER_LEN + 1)
       then zif_copy m (sent p k s) else m_copypacket m (sent p k s))"
    unfolding send_current_def Let_def k(1) m_def sent_def headed_def using head(4,5)
    by (cases ?as) (simp_all add: headed_def)
  ultimately show ?thesis
    using that kl m_def by blast
qed

lemma send_current_inv:
  assumes "inv_at p s" "pipe_may_send s p" "sc_current_length s \<noteq> 0" "tx_window_length (pipe_at s p) \<noteq> 0"
  shows "inv_at p (fst (send_current p s))"
proof -
  obtain k m where inv: "inv_at p (sent p k s)"
    and eq: "send_current p s = (if m_len m < (if m_proto1 m then I_HEADER_LEN else I_HEADER_LEN + 1)
       then zif_copy m (sent p k s) else m_copypacket m (sent p k s))"
    using send_current_sent [OF assms] by metis
  show ?thesis
    using inv_at_quiet [OF inv quiet_zif_copy] inv_at_quiet [OF inv quiet_copypacket] by (simp add: eq)
qed

section \<open>Serving the links\<close>

text \<open>What the transmitter does not touch: the address of the current link and the mode.\<close>

definition tx_frame_kept :: "l2softc \<Rightarrow> l2softc \<Rightarrow> bool" where
  "tx_frame_kept s t \<longleftrightarrow> sc_current_pipe t = sc_current_pipe s \<and> nt_mode t = nt_mode s \<and> point_to_point t = point_to_point s \<and>
     map p_state (sc_pipe t) = map p_state (sc_pipe s)"

lemma tx_kept_refl [simp]: "tx_frame_kept s s"
  by (simp add: tx_frame_kept_def)

lemma tx_kept_trans: "tx_frame_kept s t \<Longrightarrow> tx_frame_kept t u \<Longrightarrow> tx_frame_kept s u"
  by (simp add: tx_frame_kept_def)

lemma tx_kept_quiet: "quiet s t \<Longrightarrow> tx_frame_kept s t"
proof -
  assume q: "quiet s t"
  have "map p_state (sc_pipe t) = map p_state (sc_pipe s)"
  proof (rule nth_equalityI)
    fix i
    assume "i < length (map p_state (sc_pipe t))"
    then show "map p_state (sc_pipe t) ! i = map p_state (sc_pipe s) ! i"
      using quiet_p_state [OF q, of i] quiet_fields(5) [OF q] by (simp add: pipe_at_def)
  qed (use quiet_fields(5) [OF q] in simp)
  then show ?thesis
    by (simp add: tx_frame_kept_def quiet_fields [OF q])
qed

lemma tx_kept_upd: "(\<And>pi. p_state (f pi) = p_state pi) \<Longrightarrow> tx_frame_kept s t \<Longrightarrow> tx_frame_kept s (pipe_upd p f t)"
  by (simp add: tx_frame_kept_def pipe_upd_def map_update_same)

lemma tx_kept_current [simp]: "tx_frame_kept s (t\<lparr>sc_current_mbuf := m\<rparr>) = tx_frame_kept s t"
  "tx_frame_kept s (t\<lparr>sc_current_length := l\<rparr>) = tx_frame_kept s t" "tx_frame_kept s (t\<lparr>sc_current_tx_nr := n\<rparr>) = tx_frame_kept s t"
  by (simp_all add: tx_frame_kept_def)

lemma tx_kept_insert: "tx_frame_kept s (insert_second_ZIF n p s)"
proof (induction n p s rule: insert_second_ZIF.induct)
  case (2 n p s)
  obtain s1 r where get: "i4b_getmbuf I_HEADER_LEN s = (s1, r)"
    by fastforce
  have kept: "tx_frame_kept s s1"
    using tx_kept_quiet [OF quiet_getmbuf_pair [OF quiet_refl get]] .
  show ?case
  proof (cases r)
    case (Some m)
    have "tx_frame_kept s (pipe_upd p (\<lambda>pi. pi\<lparr>ifq := m # ifq pi\<rparr>) s1)"
      using kept by (intro tx_kept_upd) simp_all
    then show ?thesis
      using get Some "2.IH" [OF get [symmetric] Some refl] tx_kept_trans by (auto simp: Let_def)
  qed (use kept get in simp)
qed (simp add: tx_frame_kept_def fault_def)

lemma tx_kept_add_zifs: "tx_frame_kept s u \<Longrightarrow> tx_frame_kept s (add_zifs p u)"
  by (auto simp: add_zifs_def split: list.splits intro: tx_kept_trans [OF _ tx_kept_insert])

lemma tx_kept_open: "tx_frame_kept s (open_window p s)"
  unfolding open_window_def Let_def by (auto intro!: tx_kept_upd tx_kept_add_zifs)

lemma may_send_kept: "tx_frame_kept s t \<Longrightarrow> p < length (sc_pipe s) \<Longrightarrow> pipe_may_send t p = pipe_may_send s p"
  using map_eq_nth [of p_state "sc_pipe t" "sc_pipe s" p] by (simp add: tx_frame_kept_def pipe_may_send_def pipe_at_def)

lemma get_from_pipe_inv:
  assumes inv: "inv_at p s"
  shows "inv_at p (fst (get_from_pipe p s))" "tx_frame_kept s (fst (get_from_pipe p s))"
proof -
  define s1 where "s1 = (if tx_window_length (pipe_at s p) = 0 then open_window p s else s)"
  have inv1: "inv_at p s1" and kept1: "tx_frame_kept s s1"
    using inv open_window_inv(1) [OF inv] tx_kept_open by (simp_all add: s1_def)
  have wl: "sc_current_length s1 \<noteq> 0 \<Longrightarrow> tx_window_length (pipe_at s1 p) \<noteq> 0"
    using open_window_inv(2) [OF inv] by (auto simp: s1_def split: if_splits)
  have "inv_at p (fst (send_current p s1)) \<and> tx_frame_kept s (fst (send_current p s1))"
    if may: "pipe_may_send s p" and l: "sc_current_length s1 \<noteq> 0"
  proof -
    have may1: "pipe_may_send s1 p"
      using may may_send_kept [OF kept1, of p] inv_atD(1,2) [OF inv] by simp
    obtain k m where eq: "send_current p s1 = (if m_len m < (if m_proto1 m then I_HEADER_LEN else I_HEADER_LEN + 1)
       then zif_copy m (sent p k s1) else m_copypacket m (sent p k s1))"
      using send_current_sent [OF inv1 may1 l wl [OF l]] by metis
    have "tx_frame_kept s (sent p k s1)"
      unfolding sent_def Let_def using kept1 by (simp add: tx_kept_upd)
    then show ?thesis
      using send_current_inv [OF inv1 may1 l wl [OF l]] tx_kept_trans [OF _ tx_kept_quiet [OF quiet_zif_copy]]
        tx_kept_trans [OF _ tx_kept_quiet [OF quiet_copypacket]] by (auto simp: eq)
  qed
  then show "inv_at p (fst (get_from_pipe p s))" "tx_frame_kept s (fst (get_from_pipe p s))"
    using inv inv1 kept1 unfolding get_from_pipe_def Let_def s1_def [symmetric] by auto
qed

lemma inv_at_next:
  assumes "inv_at p s" "q < PIPE_MAX"
  shows "inv_at q (s\<lparr>sc_current_length := 0\<rparr>)"
proof -
  let ?t = "s\<lparr>sc_current_pipe := p\<rparr>"
  have "dss1_inv {} {} (?t\<lparr>sc_current_pipe := q, sc_current_mbuf := sc_current_mbuf s, sc_current_length := 0,
      sc_current_tx_nr := sc_current_tx_nr s\<rparr>)"
    using assms by (intro inv_current) (simp_all add: inv_at_def current_ok_def)
  moreover have "?t\<lparr>sc_current_pipe := q, sc_current_mbuf := sc_current_mbuf s, sc_current_length := 0,
      sc_current_tx_nr := sc_current_tx_nr s\<rparr> = s\<lparr>sc_current_length := 0, sc_current_pipe := q\<rparr>"
    by (rule l2softc.equality) simp_all
  ultimately show ?thesis
    by (simp only: inv_at_def)
qed

lemma get_from_pipes_step:
  assumes inv: "inv_at p s" and cp: "sc_current_pipe s < PIPE_MAX"
    and rest: "\<And>u. inv_at p u \<Longrightarrow> sc_current_pipe u < PIPE_MAX \<Longrightarrow> dss1_inv {} {} (fst (get_from_pipes ps (u\<lparr>sc_current_length := 0\<rparr>)))"
  shows "dss1_inv {} {} (fst (get_from_pipes (p # ps) s))"
proof -
  obtain t r where get: "get_from_pipe p s = (t, r)"
    by fastforce
  have t: "inv_at p t" "sc_current_pipe t = sc_current_pipe s"
    using get_from_pipe_inv [OF inv] by (simp_all add: get tx_frame_kept_def)
  define u where "u = (if ifq (pipe_at t p) \<noteq> [] \<and> get_mbuf_callout (pipe_at t p) = None
    then pipe_upd p (\<lambda>pi. pi\<lparr>get_mbuf_callout := Some 1\<rparr>) t else t)"
  have "quiet t u"
    unfolding u_def by (auto intro!: quiet_pipe_upd simp: pipe_core_def pipe_kept_same)
  then have "inv_at p u" "sc_current_pipe u = sc_current_pipe s"
    using inv_at_quiet [OF t(1)] quiet_fields(10) t(2) by auto
  then have "dss1_inv {} {} (fst (get_from_pipes ps (u\<lparr>sc_current_length := 0\<rparr>)))"
    using rest cp by simp
  then show ?thesis
    using t(1) by (cases r) (simp_all add: get Let_def u_def [symmetric] inv_at_def)
qed

lemma get_from_pipes_inv:
  assumes "inv_at p s" "\<forall>q\<in>set ps. q < PIPE_MAX" "sc_current_pipe s < PIPE_MAX"
  shows "dss1_inv {} {} (fst (get_from_pipes (p # ps) s))"
  using assms
proof (induction ps arbitrary: p s)
  case Nil
  show ?case
  proof (rule get_from_pipes_step)
    fix u
    assume "inv_at p u" "sc_current_pipe u < PIPE_MAX"
    then have "inv_at (sc_current_pipe u) (u\<lparr>sc_current_length := 0\<rparr>)"
      by (rule inv_at_next)
    then show "dss1_inv {} {} (fst (get_from_pipes [] (u\<lparr>sc_current_length := 0\<rparr>)))"
      by (simp add: inv_at_def)
  qed (use Nil in simp_all)
next
  case (Cons q qs)
  show ?case
  proof (rule get_from_pipes_step)
    fix u
    assume "inv_at p u" "sc_current_pipe u < PIPE_MAX"
    then show "dss1_inv {} {} (fst (get_from_pipes (q # qs) (u\<lparr>sc_current_length := 0\<rparr>)))"
      using Cons.IH [of q "u\<lparr>sc_current_length := 0\<rparr>"] Cons.prems(2) inv_at_next [of p u q] by simp
  qed (use Cons.prems in simp_all)
qed

lemma pipes_from:
  assumes "start < PIPE_MAX"
  shows "\<exists>ps. map (\<lambda>k. (start + k) mod PIPE_MAX) [0..<PIPE_MAX] = start # ps \<and> (\<forall>q\<in>set ps. q < PIPE_MAX)"
proof -
  have "[0..<PIPE_MAX] = 0 # [1..<PIPE_MAX]"
    by (simp add: upt_conv_Cons)
  then show ?thesis
    using assms by auto
qed

lemma quiet_sc_ifq [quiet_intros]: "quiet s t \<Longrightarrow> quiet s (t\<lparr>sc_ifq := x\<rparr>)"
  by (erule quiet_same) simp_all

lemma get_mbuf_inv:
  assumes inv: "dss1_inv {} {} s"
  shows "dss1_inv {} {} (fst (dss1_l2_get_mbuf s))"
proof (cases "sc_ifq s")
  case Nil
  have cp: "sc_current_pipe s < PIPE_MAX"
    using dss1_invD(10) [OF inv] by (simp add: current_ok_def)
  from pipes_from [OF cp] obtain ps where
    "map (\<lambda>k. (sc_current_pipe s + k) mod PIPE_MAX) [0..<PIPE_MAX] = sc_current_pipe s # ps \<and> (\<forall>q\<in>set ps. q < PIPE_MAX)" ..
  note ps = conjunct1 [OF this] conjunct2 [OF this]
  have "dss1_inv {} {} (fst (get_from_pipes (sc_current_pipe s # ps) s))"
    using inv cp ps(2) by (intro get_from_pipes_inv) (simp_all add: inv_at_def)
  then show ?thesis
    unfolding dss1_l2_get_mbuf_def Let_def ps(1) by (simp add: Nil split_beta)
next
  case (Cons m ms)
  then show ?thesis
    using quiet_inv [OF quiet_sc_ifq [OF quiet_refl] inv] by (simp add: dss1_l2_get_mbuf_def)
qed

text \<open>The timeout gives up the frames that are not acknowledged.\<close>

lemma quiet_get_mbuf_callout [quiet_intros]: "quiet s t \<Longrightarrow> quiet s (pipe_upd p (\<lambda>pi. pi\<lparr>get_mbuf_callout := x\<rparr>) t)"
  by (rule quiet_pipe_upd) (simp_all add: pipe_core_def pipe_kept_same)

lemma get_mbuf_timeout_inv:
  assumes inv: "dss1_inv X Y s" and p: "p < PIPE_MAX"
  shows "dss1_inv X Y (dss1_l2_get_mbuf_timeout p s)"
proof -
  define s1 where "s1 = pipe_upd p (\<lambda>pi. pi\<lparr>get_mbuf_callout := None\<rparr>) s"
  have inv1: "dss1_inv X Y s1"
    unfolding s1_def by (rule quiet_inv [OF quiet_get_mbuf_callout [OF quiet_refl] inv])
  define f where "f pi = pi\<lparr>tx_window_size := tx_window_size pi - tx_window_length pi, tx_window_length := 0\<rparr>" for pi :: tcp_pipe
  have q: "queue_ok (adapter s1 p) (pipe_at s1 p)"
    using dss1_invD(8) [OF inv1 p] by (simp add: pipe_ok_def)
  then have "tx_window_size (pipe_at s1 p) - tx_window_length (pipe_at s1 p) \<le> tx_window_size (pipe_at s1 p)"
    by (intro word_sub_le) (simp add: queue_ok_def windows_ok_def)
  then have "queue_ok (adapter s1 p) (f (pipe_at s1 p))"
    using q by (auto simp: queue_ok_def windows_ok_def backlog_ok_def f_def word_le_nat_alt)
  moreover have "current_ok (pipe_upd p f s1)"
    using dss1_invD(1,10) [OF inv1] by (intro current_ok_upd) (simp_all add: f_def)
  ultimately have "dss1_inv X Y (pipe_upd p f s1)"
    by (intro inv_pipe_keep inv1 p) (simp_all add: f_def)
  from quiet_inv [OF quiet_emit [OF quiet_refl] this] have "dss1_inv X Y (emit L1_FIFO_START (pipe_upd p f s1))" .
  then show ?thesis
    using inv1 unfolding dss1_l2_get_mbuf_timeout_def s1_def [symmetric] f_def by simp
qed

section \<open>Progress of the transmitter\<close>

text \<open>Serving one link leaves the queues of the others and the supply of memory alone.\<close>

definition others_kept :: "nat \<Rightarrow> l2softc \<Rightarrow> l2softc \<Rightarrow> bool" where
  "others_kept p s t \<longleftrightarrow> (\<forall>q. q \<noteq> p \<longrightarrow> pipe_at t q = pipe_at s q) \<and> (env_mbuf s = [] \<longrightarrow> env_mbuf t = []) \<and>
     nt_mode t = nt_mode s \<and> point_to_point t = point_to_point s"

lemma others_refl [simp]: "others_kept p s s"
  by (simp add: others_kept_def)

lemma others_trans: "others_kept p s t \<Longrightarrow> others_kept p t u \<Longrightarrow> others_kept p s u"
  by (simp add: others_kept_def)

lemma others_upd [simp]: "others_kept p s (pipe_upd p f t) = others_kept p s t"
  "others_kept p s (t\<lparr>sc_current_mbuf := m\<rparr>) = others_kept p s t" "others_kept p s (t\<lparr>sc_current_length := l\<rparr>) = others_kept p s t"
  "others_kept p s (t\<lparr>sc_current_tx_nr := n\<rparr>) = others_kept p s t"
  by (simp_all add: others_kept_def pipe_at_def pipe_upd_def)

lemma others_fault [simp]: "others_kept p s (fault t) = others_kept p s t"
  by (simp add: others_kept_def pipe_at_def fault_def)

lemma others_getmbuf: "others_kept p s t \<Longrightarrow> i4b_getmbuf n t = (t', r) \<Longrightarrow> others_kept p s t'"
  unfolding others_kept_def i4b_getmbuf_def pipe_at_def by (cases "env_mbuf t"; cases "hd (env_mbuf t)") auto

lemma others_insert: "others_kept p s t \<Longrightarrow> others_kept p s (insert_second_ZIF n p t)"
proof (induction n p t rule: insert_second_ZIF.induct)
  case (2 n p t)
  obtain u r where get: "i4b_getmbuf I_HEADER_LEN t = (u, r)"
    by fastforce
  then show ?case
    using others_getmbuf [OF "2.prems" get] "2.IH" [OF get [symmetric] _ refl] by (cases r) (simp_all add: Let_def)
qed simp

lemma others_open: "others_kept p s (open_window p s)"
proof -
  have "others_kept p s u \<Longrightarrow> others_kept p s (add_zifs p u)" for u
    by (auto simp: add_zifs_def others_insert split: list.splits)
  then show ?thesis
    unfolding open_window_def Let_def by simp
qed

lemma others_send: "others_kept p s t \<Longrightarrow> others_kept p s (fst (send_current p t))"
proof -
  assume t: "others_kept p s t"
  have "others_kept p s u \<Longrightarrow> others_kept p s (fst (zif_copy m u))" "others_kept p s u \<Longrightarrow> others_kept p s (fst (m_copypacket m u))" for m u
    by (auto simp: zif_copy_def m_copypacket_def Let_def split: prod.splits option.splits dest: others_getmbuf)
  then show ?thesis
    using t by (simp add: send_current_def Let_def split: option.splits)
qed

lemma others_get: "others_kept p s (fst (get_from_pipe p s))"
  using others_open [of p s] others_send [OF others_open [of p s]] others_send [of p s s] by (simp add: get_from_pipe_def Let_def)

text \<open>A link with a frame that has not been sent yet, nothing of it being under way.\<close>

definition wants_to_send :: "l2softc \<Rightarrow> nat \<Rightarrow> bool" where
  "wants_to_send s p \<longleftrightarrow> pipe_may_send s p \<and> tx_window_length (pipe_at s p) = 0 \<and>
     unat (tx_window_size (pipe_at s p)) < length (ifq (pipe_at s p))"

lemma getmbuf_works: "env_mbuf s = [] \<Longrightarrow> \<exists>t m. i4b_getmbuf n s = (t, Some m)"
  by (simp add: i4b_getmbuf_def)

lemma insert_nonempty: "ifq (pipe_at s p) \<noteq> [] \<Longrightarrow> p < length (sc_pipe s) \<Longrightarrow> ifq (pipe_at (insert_second_ZIF n p s) p) \<noteq> []"
proof (induction n p s rule: insert_second_ZIF.induct)
  case (1 p s)
  then show ?case
    by (simp add: fault_def pipe_at_def)
next
  case (2 n p s)
  obtain t r where get: "i4b_getmbuf I_HEADER_LEN s = (t, r)"
    by fastforce
  have "sc_pipe t = sc_pipe s"
    using get by simp
  then show ?case
    using get "2.prems" "2.IH" [OF get [symmetric] _ refl] by (cases r) (auto simp: Let_def pipe_at_def pipe_upd_def)
qed

lemma window_opens:
  assumes inv: "inv_at p s" and w: "wants_to_send s p"
  shows "sc_current_length (open_window p s) \<noteq> 0"
proof -
  define pi0 where "pi0 = pipe_at s p"
  define assigned where "assigned = L2_STATE_IS_TEI_ASSIGNED (p_state pi0)"
  define few where "few = (tx_nr pi0 = 0x7F \<or> tx_nr pi0 = 0 \<or> p_state pi0 \<le> ST_L2_SINGLE_FRAME)"
  define s1 where "s1 = pipe_upd p (\<lambda>pi. pi\<lparr>ifq := drop (unat (tx_window_size pi - tx_window_length pi)) (ifq pi),
      tx_window_size := tx_window_length pi\<rparr>) s"
  define s2 where "s2 = (if assigned \<and> few then add_zifs p s1 else s1)"
  define nr where "nr = (if \<not> assigned then 0x7F else if few then 2 else 0x7F - tx_nr pi0)"
  have pl: "p < length (sc_pipe s)"
    using inv_atD(1,2) [OF inv] by simp
  have "ifq (pipe_at s1 p) \<noteq> []"
    using w pl by (simp add: s1_def wants_to_send_def)
  then have q: "ifq (pipe_at s2 p) \<noteq> []"
    using insert_nonempty [of s1 p 2] pl by (auto simp: s2_def add_zifs_def s1_def split: list.splits)
  have "nr \<noteq> 0"
    by (auto simp: nr_def few_def)
  then have "0 < unat nr"
    by (simp add: unat_gt_0)
  then have "0 < min (unat nr) (length (ifq (pipe_at s2 p)))" "min (unat nr) (length (ifq (pipe_at s2 p))) < 256"
    using q by (simp_all add: min_less_iff_disj)
  then have "unat (of_nat (min (unat nr) (length (ifq (pipe_at s2 p)))) :: u8) \<noteq> 0"
    by (simp add: unat_of_nat)
  then have "(of_nat (min (unat nr) (length (ifq (pipe_at s2 p)))) :: u8) \<noteq> 0"
    by (metis unat_0)
  then show ?thesis
    unfolding open_window_def Let_def pi0_def [symmetric] assigned_def [symmetric] few_def [symmetric] s1_def [symmetric]
      s2_def [symmetric] nr_def [symmetric] by simp
qed

lemma get_from_pipe_returns:
  assumes inv: "inv_at p s" and w: "wants_to_send s p" and mem: "env_mbuf s = []"
  shows "\<exists>t m. get_from_pipe p s = (t, Some m)"
proof -
  define s1 where "s1 = open_window p s"
  have inv1: "inv_at p s1" and l: "sc_current_length s1 \<noteq> 0" and wl: "tx_window_length (pipe_at s1 p) \<noteq> 0"
    using open_window_inv [OF inv] window_opens [OF inv w] w by (simp_all add: s1_def wants_to_send_def)
  have may1: "pipe_may_send s1 p"
    using may_send_kept [OF tx_kept_open [of s p], of p] inv_atD(1,2) [OF inv] w by (simp add: s1_def wants_to_send_def)
  obtain k m where eq: "send_current p s1 = (if m_len m < (if m_proto1 m then I_HEADER_LEN else I_HEADER_LEN + 1)
       then zif_copy m (sent p k s1) else m_copypacket m (sent p k s1))"
    using send_current_sent [OF inv1 may1 l wl] by metis
  have "env_mbuf (sent p k s1) = []"
    using others_open [of p s] mem by (simp add: s1_def sent_def Let_def pipe_upd_def others_kept_def)
  then have "\<exists>t m'. zif_copy m (sent p k s1) = (t, Some m')" "\<exists>t m'. m_copypacket m (sent p k s1) = (t, Some m')"
    by (simp_all add: zif_copy_def m_copypacket_def i4b_getmbuf_def Let_def)
  then show ?thesis
    using eq l w by (simp add: get_from_pipe_def Let_def s1_def [symmetric] wants_to_send_def)
qed

lemma get_from_pipes_returns:
  assumes "inv_at (hd ps) s" "\<forall>q\<in>set ps. q < PIPE_MAX" "p \<in> set ps" "wants_to_send s p" "env_mbuf s = []"
  shows "\<exists>t m. get_from_pipes ps s = (t, Some m)"
  using assms
proof (induction ps arbitrary: s)
  case (Cons q qs)
  obtain t r where get: "get_from_pipe q s = (t, r)"
    by fastforce
  show ?case
  proof (cases r)
    case None
    have qp: "q \<noteq> p"
      using get_from_pipe_returns [of q s] Cons.prems get None by auto
    define u where "u = (if ifq (pipe_at t q) \<noteq> [] \<and> get_mbuf_callout (pipe_at t q) = None
      then pipe_upd q (\<lambda>pi. pi\<lparr>get_mbuf_callout := Some 1\<rparr>) t else t)"
    define v where "v = u\<lparr>sc_current_length := 0\<rparr>"
    have kept: "others_kept q s v"
      using others_get [of q s] by (simp add: v_def u_def get)
    then have at: "pipe_at v p = pipe_at s p" "env_mbuf v = []" "nt_mode v = nt_mode s" "point_to_point v = point_to_point s"
      using qp Cons.prems(5) by (simp_all add: others_kept_def)
    then have w: "wants_to_send v p"
      using Cons.prems(4) by (simp add: wants_to_send_def pipe_may_send_def)
    have "quiet t u"
      unfolding u_def by (auto intro!: quiet_pipe_upd simp: pipe_core_def pipe_kept_same)
    then have "inv_at q u"
      using get_from_pipe_inv(1) [of q s] Cons.prems(1) get inv_at_quiet by simp
    then have "inv_at (hd qs) v"
      using Cons.prems(2,3) qp unfolding v_def by (cases qs) (auto intro: inv_at_next)
    then have "\<exists>t m. get_from_pipes qs v = (t, Some m)"
      using Cons.prems(2,3) qp w at(2) by (intro Cons.IH) auto
    then show ?thesis
      using get None by (simp add: u_def [symmetric] v_def [symmetric] Let_def)
  qed (use get in simp)
qed simp

lemma get_mbuf_returns:
  assumes inv: "dss1_inv {} {} s" and p: "p < PIPE_MAX" and w: "wants_to_send s p" and mem: "env_mbuf s = []"
  shows "\<exists>t m. dss1_l2_get_mbuf s = (t, Some m)"
proof (cases "sc_ifq s")
  case Nil
  have cp: "sc_current_pipe s < PIPE_MAX"
    using dss1_invD(10) [OF inv] by (simp add: current_ok_def)
  define ps where "ps = map (\<lambda>k. (sc_current_pipe s + k) mod PIPE_MAX) [0..<PIPE_MAX]"
  have range: "q \<in> set ps" if "q < PIPE_MAX" for q
  proof -
    have "(sc_current_pipe s + (q + PIPE_MAX - sc_current_pipe s) mod PIPE_MAX) mod PIPE_MAX = (q + PIPE_MAX) mod PIPE_MAX"
      using cp by (simp add: mod_add_right_eq)
    then show ?thesis
      using that unfolding ps_def by (auto intro!: image_eqI [of _ _ "(q + PIPE_MAX - sc_current_pipe s) mod PIPE_MAX"])
  qed
  have "hd ps = sc_current_pipe s" "\<forall>q\<in>set ps. q < PIPE_MAX"
    using cp by (auto simp: ps_def hd_map)
  then have "\<exists>t m. get_from_pipes ps s = (t, Some m)"
    using range [OF p] inv w mem by (intro get_from_pipes_returns) (simp_all add: inv_at_def)
  then show ?thesis
    unfolding dss1_l2_get_mbuf_def Let_def ps_def [symmetric] by (auto simp: Nil)
qed (simp add: dss1_l2_get_mbuf_def)

end
