(* ===== verification/I4B_Ioctl.thy ===== *)
theory I4B_Ioctl
  imports DSS1_L3fsm
begin

unbundle bit_operations_syntax

text \<open>
  The requests of the user interface, \<open>i4b_ioctl\<close> of \<^verbatim>\<open>src/src/sys/i4b/layer4/i4b_i4bdrv.c\<close>, for one
  controller: the part between the locking of the controller and its release, for the commands
  that name a call. Commands for the controller itself and the flags of the open file are left out.
\<close>

section \<open>Requests\<close>

record msg_connect_req =
  mcr_channel :: int
  mcr_bprot :: bprot
  mcr_driver :: nat
  mcr_driver_unit :: nat
  mcr_shorthold_data :: msg_shorthold
  mcr_unitlen_method :: nat
  mcr_sending_not_complete :: bool
  mcr_dst_telno :: cstring
  mcr_dst_subaddr :: cstring
  mcr_src_telno :: cstring
  mcr_src_subaddr :: cstring
  mcr_keypad :: cstring

record msg_connect_resp =
  mcrsp_response :: nat
  mcrsp_cause :: u32
  mcrsp_driver :: nat
  mcrsp_driver_unit :: nat
  mcrsp_max_idle_time :: int

datatype i4b_cmd =
    I4B_CDID_REQ
  | I4B_CONNECT_REQ msg_connect_req
  | I4B_INFORMATION_REQ cstring
  | I4B_CONNECT_REPLAY_REQ
  | I4B_CONNECT_RESP msg_connect_resp
  | I4B_LINK_B_CHANNEL_DRIVER_REQ nat nat bool
  | I4B_DISCONNECT_REQ u32
  | I4B_ALERT_REQ bool
  | I4B_TIMEOUT_UPD msg_shorthold

datatype errno = EINVAL | ENXIO | ENOTTY

text \<open>The result: an error, or the descriptor id that \<open>I4B_CDID_REQ\<close> stores for the caller.\<close>

type_synonym ioctl_result = "errno + u32 option"

definition I4B_AI_BROADCAST :: nat where
  "I4B_AI_BROADCAST = 0"

definition I4B_AI_I4B :: nat where
  "I4B_AI_I4B = 1"

text \<open>\<open>strlcpy\<close> into an array of the given size.\<close>

definition strlcpy :: "cstring \<Rightarrow> nat \<Rightarrow> cstring" where
  "strlcpy src n = take (n - 1) src"

section \<open>The handlers\<close>

definition CAUSE_I4B :: "u32 \<Rightarrow> u32 \<Rightarrow> u32" where
  "CAUSE_I4B dest val = (dest AND 0xFFFF0000) OR 0x100 OR val"

definition fill_connect_req :: "msg_connect_req \<Rightarrow> call_desc \<Rightarrow> call_desc" where
  "fill_connect_req mcr cd =
     cd\<lparr>cd_channel_bprot := mcr_bprot mcr, cd_channel_bsubprot := 1, cd_driver_type := mcr_driver mcr,
        cd_driver_unit := mcr_driver_unit mcr, cd_shorthold_data := mcr_shorthold_data mcr,
        cd_aocd_flag := (mcr_unitlen_method mcr = 1), cd_cunits := 0,
        cd_dst_telno := strlcpy (mcr_dst_telno mcr) 41, cd_dst_subaddr := strlcpy (mcr_dst_subaddr mcr) 21,
        cd_src := ((fst (cd_src cd))\<lparr>src_telno := strlcpy (mcr_src_telno mcr) 41, src_subaddr := strlcpy (mcr_src_subaddr mcr) 21\<rparr>,
                   snd (cd_src cd)),
        cd_keypad := strlcpy (mcr_keypad mcr) 35, cd_display := [], cd_cause_in := CAUSE_I4B (cd_cause_in cd) 0\<rparr>"

text \<open>The channel of an outgoing call is reserved at once if it is given, or has to be given.\<close>

definition reserve_channel :: "nat \<Rightarrow> int \<Rightarrow> l2softc \<Rightarrow> l2softc \<times> bool" where
  "reserve_channel i channel s0 =
     (if cd_channel_allocated (cd_at s0 i) then (s0, True)
      else let s = cd_upd i (\<lambda>cd. cd\<lparr>cd_channel_id := channel\<rparr>) s0
           in if nt_mode s \<or> 0 \<le> channel \<and> channel < int (L1_channel_end s) \<or> channel = CHAN_NOT_ANY
              then let s1 = cd_allocate_channel i s in (s1, cd_channel_allocated (cd_at s1 i))
              else (s, True))"

definition connect_req :: "nat \<Rightarrow> msg_connect_req \<Rightarrow> l2softc \<Rightarrow> l2softc" where
  "connect_req i mcr s =
     (case reserve_channel i (mcr_channel mcr) (cd_upd i (fill_connect_req mcr) s) of
        (s, False) \<Rightarrow> n_free_cd i (cd_upd i (\<lambda>cd. cd\<lparr>cd_cause_in := (cd_cause_in cd AND 0xFFFFFF00) OR 2\<rparr>) s)
      | (s, True) \<Rightarrow> n_connect_request i (cd_upd i (\<lambda>cd. cd\<lparr>cd_sending_complete := \<not> mcr_sending_not_complete mcr\<rparr>) s))"

text \<open>A broadcast call becomes a call of the caller; the other interfaces see it disconnected.\<close>

definition take_call :: "nat \<Rightarrow> nat \<Rightarrow> nat \<Rightarrow> nat \<Rightarrow> l2softc \<Rightarrow> l2softc" where
  "take_call i sc driver unit s =
     (if cd_ai_type (cd_at s i) = I4B_AI_BROADCAST
      then cd_upd i (\<lambda>cd. cd\<lparr>cd_driver_type := driver, cd_driver_unit := unit\<rparr>)
             (i4b_l4_disconnect_ind_others i (cd_set_appl_interface i I4B_AI_I4B sc s))
      else s)"

definition connect_resp :: "nat \<Rightarrow> nat \<Rightarrow> msg_connect_resp \<Rightarrow> l2softc \<Rightarrow> l2softc" where
  "connect_resp i sc mcrsp s =
     (if mcrsp_response mcrsp = 0 then n_connect_response i (mcrsp_response mcrsp) (mcrsp_cause mcrsp) s
      else n_connect_response i (mcrsp_response mcrsp) (mcrsp_cause mcrsp)
             (cd_upd i (\<lambda>cd. cd\<lparr>cd_shorthold_data := \<lparr>shorthold_algorithm = 0, unitlen_time = 0,
                        idle_time = mcrsp_max_idle_time mcrsp, earlyhup_time = 0\<rparr>\<rparr>)
                (take_call i sc (mcrsp_driver mcrsp) (mcrsp_driver_unit mcrsp) s)))"

text \<open>
  \<open>failed\<close> is what \<open>i4b_setup_driver\<close> returns; without a channel the B-channel driver cannot be linked.
\<close>

definition link_b_channel :: "nat \<Rightarrow> nat \<Rightarrow> nat \<Rightarrow> nat \<Rightarrow> bool \<Rightarrow> bool \<Rightarrow> l2softc \<Rightarrow> l2softc \<times> ioctl_result" where
  "link_b_channel i sc driver unit activate failed s0 =
     (let s = i4b_link_bchandrvr i activate (take_call i sc driver unit s0);
          ret = (if cd_channel_allocated (cd_at s i) then failed else True)
      in (s, if ret = activate then Inl ENXIO else Inr None))"

definition timeout_upd :: "nat \<Rightarrow> msg_shorthold \<Rightarrow> l2softc \<Rightarrow> l2softc" where
  "timeout_upd i sh s0 =
     (let s = cd_upd i (\<lambda>cd. cd\<lparr>cd_shorthold_data := sh\<rparr>) s0
      in if cd_idle_state (cd_at s i) \<noteq> 0 then i4b_l4_setup_timeout i s else s)"

text \<open>A connect indication again, for the caller alone; nothing is counted.\<close>

definition connect_replay :: "nat \<Rightarrow> nat \<Rightarrow> l2softc \<Rightarrow> l2softc" where
  "connect_replay i sc s =
     (if cd_ai_type (cd_at s i) = I4B_AI_BROADCAST
      then ai_put sc (MSG_CONNECT_IND (cd_cdid (cd_at s i)) (connect_ind_of (cd_at s i))) s else s)"

fun cd_ioctl :: "nat \<Rightarrow> nat \<Rightarrow> bool \<Rightarrow> i4b_cmd \<Rightarrow> l2softc \<Rightarrow> l2softc \<times> ioctl_result" where
  "cd_ioctl i sc failed I4B_CDID_REQ s = (s, Inr (Some (cd_cdid (cd_at s i))))"
| "cd_ioctl i sc failed (I4B_CONNECT_REQ mcr) s = (connect_req i mcr s, Inr None)"
| "cd_ioctl i sc failed (I4B_INFORMATION_REQ digits) s = (i4b_l3_information_req i digits s, Inr None)"
| "cd_ioctl i sc failed I4B_CONNECT_REPLAY_REQ s =
     (if cd_dir_incoming (cd_at s i) then (connect_replay i sc s, Inr None) else (s, Inl EINVAL))"
| "cd_ioctl i sc failed (I4B_CONNECT_RESP mcrsp) s = (connect_resp i sc mcrsp s, Inr None)"
| "cd_ioctl i sc failed (I4B_LINK_B_CHANNEL_DRIVER_REQ driver unit activate) s = link_b_channel i sc driver unit activate failed s"
| "cd_ioctl i sc failed (I4B_DISCONNECT_REQ cause) s =
     (n_disconnect_request i cause (cd_upd i (\<lambda>cd. cd\<lparr>cd_cause_in := cause, cd_cause_out := cause\<rparr>) s), Inr None)"
| "cd_ioctl i sc failed (I4B_ALERT_REQ proceeding) s = (n_alert_request i (if proceeding then 1 else 0) s, Inr None)"
| "cd_ioctl i sc failed (I4B_TIMEOUT_UPD sh) s = (timeout_upd i sh s, Inr None)"

definition owns :: "nat \<Rightarrow> call_desc \<Rightarrow> bool" where
  "owns sc cd \<longleftrightarrow> cd_ai_type cd = I4B_AI_BROADCAST \<or> cd_ai_type cd = I4B_AI_I4B \<and> cd_ai_ptr cd = sc"

text \<open>\<open>sc\<close> is the open file of the caller; \<open>sc_fifo\<close> tells that the controller is connected.\<close>

definition i4b_ioctl :: "nat \<Rightarrow> u32 \<Rightarrow> bool \<Rightarrow> i4b_cmd \<Rightarrow> l2softc \<Rightarrow> l2softc \<times> ioctl_result" where
  "i4b_ioctl sc cdid failed cmd s0 =
     (let found = (if sc_fifo s0 then cd_by_cdid s0 cdid else None)
      in case (if sc_fifo s0 \<and> found = None \<and> cmd = I4B_CDID_REQ then n_allocate_cd None 0 I4B_AI_I4B sc s0 else (s0, found)) of
           (s, None) \<Rightarrow> (s, Inl ENOTTY)
         | (s, Some i) \<Rightarrow> if owns sc (cd_at s i) then cd_ioctl i sc failed cmd s else (s, Inr None))"

section \<open>Requests keep the invariant\<close>

text \<open>
  What the code expects of a request but does not check: a cause of a known type, and that a number
  dialled again is not shorter than the part sent already.
\<close>

fun cmd_ok :: "i4b_cmd \<Rightarrow> call_desc \<Rightarrow> bool" where
  "cmd_ok (I4B_CONNECT_REQ mcr) cd \<longleftrightarrow> cd_dst_telno_ptr cd \<le> length (strlcpy (mcr_dst_telno mcr) 41)"
| "cmd_ok (I4B_CONNECT_RESP mcrsp) cd \<longleftrightarrow> i4b_make_q850_cause (mcrsp_cause mcrsp) \<noteq> None"
| "cmd_ok (I4B_DISCONNECT_REQ cause) cd \<longleftrightarrow> i4b_make_q850_cause cause \<noteq> None"
| "cmd_ok _ cd \<longleftrightarrow> True"

lemma live_upd_at:
  assumes "live i s" "cd_core (f (cd_at s i)) = cd_core (cd_at s i)"
  shows "live i (cd_upd i f s)"
  using assms by (intro live_quiet [OF assms(1)] quiet_cd_upd) simp_all

lemma live_strings: "live i s \<Longrightarrow> strings_ok (cd_at s i)"
  using live_ready by (simp add: ready_def)

lemma fill_connect_req_core:
  assumes "strings_ok cd" "cmd_ok (I4B_CONNECT_REQ mcr) cd"
  shows "cd_core (fill_connect_req mcr cd) = cd_core cd"
proof -
  have "strings_ok (fill_connect_req mcr cd)"
    using assms by (simp add: strings_ok_def src_ok_def fill_connect_req_def strlcpy_def)
  moreover have "cause_ok (fill_connect_req mcr cd) = cause_ok cd"
    by (simp add: cause_ok_def fill_connect_req_def)
  ultimately show ?thesis
    using assms(1) by (simp add: cd_core_def fill_connect_req_def)
qed

lemma live_reserve:
  assumes "live i s" "reserve_channel i ch s = (t, r)"
  shows "live i t"
proof (cases "cd_channel_allocated (cd_at s i)")
  case False
  have "live i (cd_upd i (\<lambda>cd. cd\<lparr>cd_channel_id := ch\<rparr>) s)"
    using False by (intro live_upd_at assms(1)) (simp add: core_defs)
  then show ?thesis
    using assms(2) False live_alloc_channel by (auto simp: reserve_channel_def Let_def split: if_splits)
qed (use assms in \<open>simp add: reserve_channel_def\<close>)

lemma live_free_cd:
  assumes "live i s"
  shows "dss1_inv {} {} (n_free_cd i s)"
proof -
  obtain p where "p < PIPE_MAX" "cd_pipe (cd_at s i) = Some p"
    using active_ready(2) [of "{}" "{}" s i] assms by (auto simp: live_def)
  then show ?thesis
    using n_free_cd_inv(1) [OF dss1_inv_insert [OF live_inv [OF assms]] live_index [OF assms]] by blast
qed

lemma connect_req_inv:
  assumes "live i s" "cmd_ok (I4B_CONNECT_REQ mcr) (cd_at s i)"
  shows "dss1_inv {} {} (connect_req i mcr s)"
proof -
  obtain t r where res: "reserve_channel i (mcr_channel mcr) (cd_upd i (fill_connect_req mcr) s) = (t, r)"
    by fastforce
  have "live i (cd_upd i (fill_connect_req mcr) s)"
    using fill_connect_req_core [OF live_strings [OF assms(1)] assms(2)] by (rule live_upd_at [OF assms(1)])
  then have t: "live i t"
    using res by (rule live_reserve)
  have "live i (cd_upd i (\<lambda>cd. cd\<lparr>cd_cause_in := (cd_cause_in cd AND 0xFFFFFF00) OR 2\<rparr>) t)"
    "live i (cd_upd i (\<lambda>cd. cd\<lparr>cd_sending_complete := b\<rparr>) t)" for b
    by (auto simp: core_defs intro!: live_upd t)
  then show ?thesis
    using live_free_cd n_requests_inv(5) by (cases r) (simp_all add: connect_req_def res)
qed

lemma live_take_call: "live i s \<Longrightarrow> live i (take_call i sc d u s)"
proof -
  assume l: "live i s"
  have "quiet s (i4b_l4_disconnect_ind_others i (cd_set_appl_interface i I4B_AI_I4B sc s))"
    unfolding i4b_l4_disconnect_ind_others_def Let_def
    by (auto split: prod.splits option.splits intro!: quiet_emit quiet_appl intro: quiet_getmbuf_pair [OF quiet_appl [OF quiet_refl]])
  then have "live i (i4b_l4_disconnect_ind_others i (cd_set_appl_interface i I4B_AI_I4B sc s))"
    using l live_quiet by blast
  then show ?thesis
    using l by (auto simp: take_call_def core_defs intro!: live_upd)
qed

lemma connect_resp_inv:
  assumes "live i s" "i4b_make_q850_cause (mcrsp_cause m) \<noteq> None"
  shows "dss1_inv {} {} (connect_resp i sc m s)"
proof -
  have "live i (cd_upd i (\<lambda>cd. cd\<lparr>cd_shorthold_data := sh\<rparr>) (take_call i sc d u s))" for sh d u
    by (intro live_upd live_take_call assms(1)) (simp add: core_defs)
  then show ?thesis
    using n_cause_requests_inv(1) assms by (simp add: connect_resp_def)
qed

lemma cd_ioctl_inv:
  assumes l: "live i s" and ok: "cmd_ok cmd (cd_at s i)"
  shows "dss1_inv {} {} (fst (cd_ioctl i sc failed cmd s))"
proof (cases cmd)
  case (I4B_CONNECT_REQ mcr)
  then show ?thesis
    using connect_req_inv [OF l] ok by simp
next
  case (I4B_CONNECT_RESP m)
  then show ?thesis
    using connect_resp_inv [OF l] ok by simp
next
  case (I4B_DISCONNECT_REQ c)
  have "live i (cd_upd i (\<lambda>cd. cd\<lparr>cd_cause_in := c, cd_cause_out := c\<rparr>) s)"
    using ok I4B_DISCONNECT_REQ by (intro live_upd l) (simp add: core_defs)
  then show ?thesis
    using ok I4B_DISCONNECT_REQ n_cause_requests_inv(2) by simp
next
  case (I4B_LINK_B_CHANNEL_DRIVER_REQ d u a)
  then show ?thesis
    using live_inv [OF live_link [OF live_take_call [OF l]]] by (simp add: link_b_channel_def Let_def)
next
  case (I4B_TIMEOUT_UPD sh)
  have t: "live i (cd_upd i (\<lambda>cd. cd\<lparr>cd_shorthold_data := sh\<rparr>) s)"
    by (intro live_upd l) (simp add: core_defs)
  have "quiet u (i4b_l4_setup_timeout i u)" for u
    by (intro quiet_intros quiet_refl)
  from live_quiet [OF t this] show ?thesis
    using t I4B_TIMEOUT_UPD live_inv by (simp add: timeout_upd_def Let_def)
next
  case I4B_CONNECT_REPLAY_REQ
  then show ?thesis
    using quiet_inv [OF quiet_ai_put [OF quiet_refl] live_inv [OF l]] live_inv [OF l] by (simp add: connect_replay_def)
qed (use information_req_inv [OF l] n_requests_inv(7) [OF l] live_inv [OF l] in simp_all)

text \<open>A request of the user interface on any descriptor id keeps the invariant.\<close>

lemma ioctl_inv:
  assumes inv: "dss1_inv {} {} s" and ok: "\<And>i. active s i \<Longrightarrow> cmd_ok cmd (cd_at s i)"
  shows "dss1_inv {} {} (fst (i4b_ioctl sc cdid failed cmd s))"
proof -
  define found where "found = (if sc_fifo s then cd_by_cdid s cdid else None)"
  have found: "live i s" if "found = Some i" for i
    using that inv find_index_Some [of _ "N_call_desc s" i]
    by (auto simp: found_def cd_by_cdid_def live_def active_def cd_at_def split: if_splits)
  show ?thesis
  proof (cases "sc_fifo s \<and> found = None \<and> cmd = I4B_CDID_REQ")
    case True
    obtain t r where al: "n_allocate_cd None 0 I4B_AI_I4B sc s = (t, r)"
      by fastforce
    have "dss1_inv {} {} t"
      using n_allocate_cd_inv [OF inv _ al] by simp
    then show ?thesis
      using True al unfolding i4b_ioctl_def Let_def found_def [symmetric] by (auto split: option.splits)
  next
    case False
    then have eq: "i4b_ioctl sc cdid failed cmd s = (case found of None \<Rightarrow> (s, Inl ENOTTY)
        | Some i \<Rightarrow> if owns sc (cd_at s i) then cd_ioctl i sc failed cmd s else (s, Inr None))"
      unfolding i4b_ioctl_def Let_def found_def [symmetric] by auto
    show ?thesis
    proof (cases found)
      case (Some i)
      then show ?thesis
        using inv cd_ioctl_inv [OF found [OF Some] ok] found [OF Some] by (simp add: eq live_def)
    qed (use inv in \<open>simp add: eq\<close>)
  qed
qed

end
