(* ===== verification/DSS1_Stack.thy ===== *)
theory DSS1_Stack
  imports DSS1_Receive DSS1_Transmit I4B_Ioctl
begin

unbundle bit_operations_syntax

text \<open>
  Initialisation of the stack by \<open>dss1_setup_ft\<close> of \<^verbatim>\<open>src/src/sys/i4b/dss1/dss1_l2fsm.c\<close> and the stack as
  a whole: a step relation with one rule for everything that can happen to it (a frame arrives, layer
  1 asks for a frame, a timer expires, an application makes a request), and the states it reaches.
\<close>

section \<open>Initialisation\<close>

text \<open>
  The branch of \<open>dss1_setup_ft\<close> that connects the driver; NT mode and point-to-point operation follow
  from the driver type. Pointers to the functions of this driver are not represented.
\<close>

definition setup_pipe :: "bool \<Rightarrow> u16 \<Rightarrow> nat \<Rightarrow> nat \<Rightarrow> tcp_pipe" where
  "setup_pipe p2p serial maxlen n =
     pipe_zero\<lparr>tei := (if p2p \<and> n = 0 then 1 else TEI_BROADCAST), serial_number := (serial + of_nat n) * 2 OR 1,
               ifq_maxlen := maxlen\<rparr>"

definition dss1_connect :: "bool \<Rightarrow> bool \<Rightarrow> bool \<Rightarrow> l2softc \<Rightarrow> l2softc" where
  "dss1_connect nt p2p pri s =
     (let max_channels = max (L1_channel_end s) 3;
          s1 = s\<lparr>N_call_desc := map (\<lambda>_. cd_zero) (N_call_desc s),
                 N_channel_utilization := (map (\<lambda>_. False) (N_channel_utilization s))[nat CHAN_D1 := True],
                 N_cdid_end := 0x7F, sc_tei_last := 0, sc_received_frame := False, L1_deactivate_count := 0, L1_activity := False,
                 L1_auto_activate := 0, nt_mode := nt, primary_rate := pri, point_to_point := p2p,
                 sc_ifq := [], sc_ifq_maxlen := (if nt \<and> \<not> p2p then max_channels * (PIPE_MAX * 16) else max_channels * 16),
                 ID_REQUEST_callout := None, L1_activity_callout := None,
                 sc_pipe := map (setup_pipe p2p (N_serial_number s) (max_channels * 16)) [0..<PIPE_MAX],
                 sc_current_pipe := 0, sc_current_mbuf := None, sc_current_length := 0, sc_current_tx_nr := 0, sc_fifo := True\<rparr>
      in dss1_L1_activity_timeout s1)"

text \<open>
  The branch that disconnects it. The activation count is cleared before the calls are released,
  which count it down.
\<close>

definition stop_pipe :: "nat \<Rightarrow> l2softc \<Rightarrow> l2softc" where
  "stop_pipe p s = pipe_upd p (\<lambda>pi. pi\<lparr>set_state_callout := None, get_mbuf_callout := None\<rparr>) (dss1_pipe_set_state p ST_L2_PAUSE s)"

definition dss1_disconnect :: "l2softc \<Rightarrow> l2softc" where
  "dss1_disconnect s =
     (fold stop_pipe [0..<PIPE_MAX]
        (s\<lparr>sc_fifo := False, L1_activity := False, L1_auto_activate := 0, L1_deactivate_count := 0, sc_current_length := 0,
           ID_REQUEST_callout := None, L1_activity_callout := None\<rparr>))\<lparr>sc_ifq := []\<rparr>"

section \<open>The initial state\<close>

text \<open>What the controller has to provide: storage of the right sizes.\<close>

definition cntl_ready :: "l2softc \<Rightarrow> bool" where
  "cntl_ready s \<longleftrightarrow> \<not> sc_fault s \<and> length (N_call_desc s) < 2 ^ 31 \<and> 0 < length (N_channel_utilization s) \<and>
     L1_channel_end s \<le> length (N_channel_utilization s)"

lemma setup_pipe_ok: "queue_ok ad (setup_pipe p2p n m k)" "refcount (setup_pipe p2p n m k) = 0" "p_state (setup_pipe p2p n m k) = 0"
  by (simp_all add: setup_pipe_def pipe_zero_def queue_ok_def backlog_ok_def windows_ok_def)

lemma connect_inv:
  assumes "cntl_ready s"
  shows "dss1_inv {} {} (dss1_connect nt p2p pri s)"
proof -
  define s1 where "s1 = s\<lparr>N_call_desc := map (\<lambda>_. cd_zero) (N_call_desc s),
     N_channel_utilization := (map (\<lambda>_. False) (N_channel_utilization s))[nat CHAN_D1 := True],
     N_cdid_end := 0x7F, sc_tei_last := 0, sc_received_frame := False, L1_deactivate_count := 0, L1_activity := False,
     L1_auto_activate := 0, nt_mode := nt, primary_rate := pri, point_to_point := p2p,
     sc_ifq := [], sc_ifq_maxlen := (if nt \<and> \<not> p2p then max (L1_channel_end s) 3 * (PIPE_MAX * 16) else max (L1_channel_end s) 3 * 16),
     ID_REQUEST_callout := None, L1_activity_callout := None,
     sc_pipe := map (setup_pipe p2p (N_serial_number s) (max (L1_channel_end s) 3 * 16)) [0..<PIPE_MAX],
     sc_current_pipe := 0, sc_current_mbuf := None, sc_current_length := 0, sc_current_tx_nr := 0, sc_fifo := True\<rparr>"
  have cd: "cd_at s1 i = cd_zero" if "i < length (N_call_desc s1)" for i
    using that by (simp add: s1_def cd_at_def)
  have len: "length (N_call_desc s1) = length (N_call_desc s)"
    by (simp add: s1_def)
  have pipe: "pipe_at s1 p = setup_pipe p2p (N_serial_number s) (max (L1_channel_end s) 3 * 16) p" if "p < PIPE_MAX" for p
    using that by (simp add: s1_def pipe_at_def)
  have none: "calls_on s1 p = {}" "linked s1 = {}" for p
    using cd by (auto simp: calls_on_def linked_def cd_zero_def)
  have "\<not> owns_channel s1 i c" for i c
    using cd by (auto simp: owns_channel_def cd_zero_def)
  moreover have "N_channel_utilization s1 ! c \<Longrightarrow> c < L1_channel_end s1 \<Longrightarrow> c = 0" for c
    using assms by (cases "c = 0") (auto simp: s1_def CHAN_D1_def cntl_ready_def)
  ultimately have "chan_inv s1"
    using assms unfolding chan_inv_def by (auto simp: s1_def cntl_ready_def)
  moreover have "unique_cdids s1"
    using cd by (simp add: unique_cdids_def cd_zero_def CDID_UNUSED_def)
  moreover have "wf_cdid_range s1"
    by (simp add: s1_def wf_cdid_range_def CDID_REF_MAX_def)
  moreover have "call_ok (cd_at s1 i)" if "i < length (N_call_desc s1)" for i
    using cd [OF that] by (simp add: call_ok_def cd_zero_def CDID_UNUSED_def)
  moreover have "pipe_ok {} s1 p" if "p < PIPE_MAX" for p
    using pipe [OF that] by (simp add: pipe_ok_def none setup_pipe_ok)
  moreover have "current_ok s1"
    by (simp add: current_ok_def s1_def)
  moreover have "length (sc_pipe s1) = PIPE_MAX" "L1_auto_activate s1 = 0" "\<not> sc_fault s1"
    using assms by (simp_all add: s1_def cntl_ready_def)
  ultimately have "dss1_inv {} {} s1"
    using assms by (simp add: dss1_inv_def none len cntl_ready_def)
  then have "dss1_inv {} {} (dss1_L1_activity_timeout s1)"
    using quiet_inv [OF quiet_activity_timeout [OF quiet_refl]] by blast
  then show ?thesis
    by (simp add: dss1_connect_def Let_def s1_def)
qed

section \<open>Timers\<close>

lemma call_timeout_inv:
  assumes inv: "dss1_inv {} {} s" and act: "active s i"
  shows "dss1_inv {} {} (cd_set_state_timeout i s)"
proof -
  have l: "live i s"
    using inv act by (simp add: live_def)
  have "length L3_STATES_TIMEOUT_STATE = 20" "\<forall>x\<in>set L3_STATES_TIMEOUT_STATE. x < 20"
    by (simp_all add: L3_STATES_TIMEOUT_STATE_def)
  then have "L3_STATES_TIMEOUT_STATE ! cd_state (cd_at s i) < 20"
    using live_state [OF l] nth_mem by simp
  then have "dss1_inv {} {} (cd_set_state i (L3_STATES_TIMEOUT_STATE ! cd_state (cd_at s i)) s)"
    using live_inv [OF live_set_state [OF l]] inv_set_state_U0 [OF l] by (cases "L3_STATES_TIMEOUT_STATE ! cd_state (cd_at s i) = 0") simp_all
  then show ?thesis
    using inv by (simp add: cd_set_state_timeout_def)
qed

lemma link_timeout_inv:
  assumes inv: "dss1_inv {} {} s" and p: "p < PIPE_MAX"
  shows "dss1_inv {} {} (dss1_pipe_set_state_timeout p s)"
proof -
  have "length L2_STATES_TIMEOUT_STATE = 6" "\<forall>x\<in>set L2_STATES_TIMEOUT_STATE. x < 6 \<and> x \<noteq> 2"
    by (simp_all add: L2_STATES_TIMEOUT_STATE_def)
  then have "L2_STATES_TIMEOUT_STATE ! p_state (pipe_at s p) < 6" "L2_STATES_TIMEOUT_STATE ! p_state (pipe_at s p) \<noteq> 2"
    using dss1_invD(8) [OF inv p] nth_mem by (simp_all add: pipe_ok_def)
  then show ?thesis
    using inv set_state_inv(1) [OF inv p] by (simp add: dss1_pipe_set_state_timeout_def)
qed

section \<open>The stack as a state machine\<close>

text \<open>
  Frames are at most 65000 octets long, which is far more than layer 1 delivers. A timer expires only
  while it is pending. The requests of the applications are those of the user interface and the
  functions of the controller other interfaces call on a descriptor in use. Layer 1 reports its
  activity, time passes.
\<close>

inductive dss1_step :: "l2softc \<Rightarrow> l2softc \<Rightarrow> bool" where
  rx: "length frame \<le> 65000 \<Longrightarrow> dss1_step s (dss1_l2_put_mbuf frame s)"
| tx: "dss1_l2_get_mbuf s = (s', m) \<Longrightarrow> dss1_step s s'"
| tx_timeout: "p < PIPE_MAX \<Longrightarrow> get_mbuf_callout (pipe_at s p) \<noteq> None \<Longrightarrow> dss1_step s (dss1_l2_get_mbuf_timeout p s)"
| link_timeout: "p < PIPE_MAX \<Longrightarrow> set_state_callout (pipe_at s p) \<noteq> None \<Longrightarrow> dss1_step s (dss1_pipe_set_state_timeout p s)"
| call_timeout: "active s i \<Longrightarrow> dss1_step s (cd_set_state_timeout i s)"
| id_timeout: "dss1_step s (ID_REQUEST_timeout s)"
| L1_timeout: "dss1_step s (dss1_L1_activity_timeout s)"
| idle: "i < length (N_call_desc s) \<Longrightarrow> dss1_step s (i4b_idle_check i s)"
| ioctl: "(\<And>i. active s i \<Longrightarrow> cmd_ok cmd (cd_at s i)) \<Longrightarrow> i4b_ioctl sc cdid failed cmd s = (s', r) \<Longrightarrow> dss1_step s s'"
| allocate: "n_allocate_cd None 0 ty ptr s = (s', r) \<Longrightarrow> dss1_step s s'"
| request: "active s i \<Longrightarrow> f \<in> {n_retrieve_request, n_hold_request, n_deflect_request, n_mcid_request, n_connect_request,
     n_information_request, n_progress_request} \<Longrightarrow> dss1_step s (f i s)"
| layer1: "dss1_step s (s\<lparr>L1_activity := b\<rparr>)"
| clock: "dss1_step s (s\<lparr>env_second := t\<rparr>)"

inductive dss1_reachable :: "l2softc \<Rightarrow> bool" where
  start: "cntl_ready s \<Longrightarrow> dss1_reachable (dss1_connect nt p2p pri s)"
| step: "dss1_reachable s \<Longrightarrow> dss1_step s t \<Longrightarrow> dss1_reachable t"

inductive_cases dss1_stepE: "dss1_step s t"

lemma step_inv:
  assumes "dss1_step s t" "dss1_inv {} {} s"
  shows "dss1_inv {} {} t"
  using assms
proof (induction rule: dss1_step.induct)
  case (request s i f)
  then have "live i s"
    by (simp add: live_def)
  then show ?case
    using request(2) n_requests_inv by auto
next
  case (layer1 s b)
  then show ?case
    using quiet_inv [OF quiet_same [OF quiet_refl]] by auto
next
  case (clock s t)
  then show ?case
    using quiet_inv [OF quiet_same [OF quiet_refl]] by auto
next
  case (tx s s' m)
  then show ?case
    using get_mbuf_inv [of s] by simp
next
  case (ioctl s cmd sc cdid failed s' r)
  then show ?case
    using ioctl_inv [of s cmd sc cdid failed] by simp
next
  case (allocate ty ptr s s' r)
  then show ?case
    using n_allocate_cd_inv [of s None 0 ty ptr s' r] by simp
next
  case (L1_timeout s)
  then show ?case
    using quiet_inv [OF quiet_activity_timeout [OF quiet_refl]] by blast
qed (simp_all add: put_mbuf_inv get_mbuf_timeout_inv link_timeout_inv call_timeout_inv ID_REQUEST_timeout_inv idle_check_inv)

lemma reachable_inv: "dss1_reachable s \<Longrightarrow> dss1_inv {} {} s"
  by (induction rule: dss1_reachable.induct) (auto intro: connect_inv step_inv)

end
