(* ===== verification/Isdnd_Entry.thy ===== *)
theory Isdnd_Entry
  imports Call_Desc
begin

unbundle bit_operations_syntax

text \<open>
  The configuration entries of the connection daemon, \<^verbatim>\<open>src/src/usr.sbin/i4b/isdnd\<close>: the structure
  \<^verbatim>\<open>cfg_entry_t\<close> of \<^verbatim>\<open>isdnd.h\<close> and the decisions that need one entry only, the choice of the number
  to dial, the times at which an entry is valid, the calls it answers and the length of a charging unit
  (\<^verbatim>\<open>support.c\<close>, \<^verbatim>\<open>holiday.c\<close>, \<^verbatim>\<open>rates.c\<close>).
\<close>

section \<open>Entries\<close>

datatype cep_state = ST_IDLE | ST_DIAL | ST_DIAL_FAIL | ST_INCOMING | ST_WAIT_CONNECT | ST_CONNECTED

datatype dialin_reaction = REACT_ACCEPT | REACT_REJECT | REACT_IGNORE | REACT_ANSWER | REACT_CALLBACK | REACT_ALERT

datatype rnh = RNH_NEXT | RNH_LAST | RNH_FIRST

datatype direction = DIR_INOUT | DIR_INONLY | DIR_OUTONLY

datatype ulsrc = ULSRC_NONE | ULSRC_CMDL | ULSRC_CONF | ULSRC_RATE | ULSRC_DYN

datatype budget_type = BUDGET_NONE | BUDGET_TYPE_CBACK | BUDGET_TYPE_COUT

record number_t =
  nt_number :: cstring
  nt_subaddr :: cstring
  nt_succ :: bool   \<comment> \<open>\<open>flag == RNF_SUCC\<close>\<close>

definition MAXRNUMBERS :: nat where
  "MAXRNUMBERS = 8"

text \<open>The part filled in from the configuration file, without the options of PPP and of the display.\<close>

record cfg_static =
  cs_isdncontroller :: int
  cs_isdnchannel :: int
  cs_usrdevicename :: int
  cs_usrdeviceunit :: int
  cs_remote_numbers_handling :: rnh
  cs_local_phone_dialout :: number_t
  cs_local_phone_incoming :: number_t
  cs_remote_phone_incoming :: "number_t list"
  cs_dialin_reaction :: dialin_reaction
  cs_bprotocol :: nat
  cs_shorthold_algorithm :: nat
  cs_ratetype :: int
  cs_unitlengthsrc :: ulsrc
  cs_answerprog :: bool        \<comment> \<open>a program is configured\<close>
  cs_disconnectprog :: bool
  cs_callbackwait :: int
  cs_calledbackwait :: int
  cs_dialretries :: int
  cs_recoverytime :: int
  cs_dialrandincr :: bool
  cs_usedown :: bool
  cs_downtime :: int
  cs_calledback :: bool        \<comment> \<open>\<open>dialouttype == DIALOUT_CALLEDBACK\<close>\<close>
  cs_alert :: int
  cs_inout :: direction
  cs_usesubaddr :: bool
  cs_budget_callbackperiod :: int
  cs_budget_callbackncalls :: int
  cs_budget_calloutperiod :: int
  cs_budget_calloutncalls :: int
  cs_day :: u8
  cs_fromhr :: int
  cs_frommin :: int
  cs_tohr :: int
  cs_tomin :: int
  cs_maxconnecttime :: int

text \<open>The whole entry. The numbers to dial are here since a user may set them.\<close>

record cfg_entry =
  ce_conf :: cfg_static
  ce_remote_numbers_count :: int
  ce_remote_numbers :: "number_t list"
  ce_unitlength :: int
  ce_last_set_state_time :: int
  ce_waittime :: int
  ce_waitfunc :: nat
  ce_cdid :: u32
  ce_isdncontrollerused :: int
  ce_isdnchannelused :: int
  ce_state :: cep_state
  ce_disc_cause :: u32
  ce_disc_remote :: bool       \<comment> \<open>\<open>disc_location == DISC_LOCATION_REMOTE\<close>\<close>
  ce_real_phone_incoming :: cstring
  ce_last_remote_number :: int
  ce_remote_phone_dialout :: number_t
  ce_dir_incoming :: bool
  ce_charge :: int
  ce_last_charge :: int
  ce_aoc_last :: int
  ce_aoc_now :: int
  ce_aoc_diff :: int
  ce_aoc_valid :: bool
  ce_dial_count :: int
  ce_answerpid :: int
  ce_budget_callbackperiod_time :: int
  ce_budget_callbackncalls_cnt :: int
  ce_budget_calloutperiod_time :: int
  ce_budget_calloutncalls_cnt :: int
  ce_budget_calltype :: budget_type
  ce_keypad :: cstring

definition CEP_IS_CALLED_BACK :: "cfg_entry \<Rightarrow> bool" where
  "CEP_IS_CALLED_BACK ce \<longleftrightarrow> cs_dialin_reaction (ce_conf ce) = REACT_ACCEPT \<and> cs_calledback (ce_conf ce)"

section \<open>The number to dial\<close>

definition rn_at :: "cfg_entry \<Rightarrow> int \<Rightarrow> number_t" where
  "rn_at ce i = ce_remote_numbers ce ! nat i"

text \<open>Number and subaddress, or the number alone, are copied to the number in use.\<close>

definition use_number :: "int \<Rightarrow> cfg_entry \<Rightarrow> cfg_entry" where
  "use_number i ce = ce\<lparr>ce_remote_phone_dialout := (ce_remote_phone_dialout ce)
     \<lparr>nt_number := nt_number (rn_at ce i), nt_subaddr := nt_subaddr (rn_at ce i)\<rparr>, ce_last_remote_number := i\<rparr>"

definition use_number_only :: "int \<Rightarrow> cfg_entry \<Rightarrow> cfg_entry" where
  "use_number_only i ce = ce\<lparr>ce_remote_phone_dialout := (ce_remote_phone_dialout ce)
     \<lparr>nt_number := nt_number (rn_at ce i)\<rparr>, ce_last_remote_number := i\<rparr>"

definition next_number :: "cfg_entry \<Rightarrow> int \<Rightarrow> int" where
  "next_number ce i = (if ce_remote_numbers_count ce \<le> i + 1 then 0 else i + 1)"

text \<open>The loop over the numbers, from the last one used, with \<open>j\<close> rounds left.\<close>

fun first_dialno_loop :: "nat \<Rightarrow> int \<Rightarrow> cfg_entry \<Rightarrow> cfg_entry" where
  "first_dialno_loop 0 i ce = use_number_only 0 ce"
| "first_dialno_loop (Suc j) i ce =
     (if nt_succ (rn_at ce i)
      then if cs_remote_numbers_handling (ce_conf ce) = RNH_LAST then use_number i ce
           else use_number (next_number ce i) ce
      else first_dialno_loop j (next_number ce i) ce)"

definition select_first_dialno :: "cfg_entry \<Rightarrow> cfg_entry" where
  "select_first_dialno ce =
     (if ce_keypad ce \<noteq> [] then ce
      else if ce_remote_numbers_count ce < 1 then ce
      else if ce_remote_numbers_count ce = 1 then use_number 0 ce
      else if cs_remote_numbers_handling (ce_conf ce) = RNH_FIRST then use_number 0 ce
      else first_dialno_loop (nat (ce_remote_numbers_count ce)) (ce_last_remote_number ce) ce)"

definition rn_flag :: "bool \<Rightarrow> cfg_entry \<Rightarrow> cfg_entry" where
  "rn_flag b ce = (let i = nat (ce_last_remote_number ce)
     in ce\<lparr>ce_remote_numbers := (ce_remote_numbers ce)[i := (ce_remote_numbers ce ! i)\<lparr>nt_succ := b\<rparr>]\<rparr>)"

definition select_next_dialno :: "cfg_entry \<Rightarrow> cfg_entry" where
  "select_next_dialno ce =
     (if ce_remote_numbers_count ce < 1 then ce
      else if ce_remote_numbers_count ce = 1 then use_number 0 ce
      else let ce = rn_flag False ce in use_number_only (next_number ce (ce_last_remote_number ce)) ce)"

definition select_this_dialno :: "cfg_entry \<Rightarrow> cfg_entry" where
  "select_this_dialno ce = rn_flag True ce"

section \<open>Times and holidays\<close>

text \<open>The broken-down local time, and the holidays of the list; year 0 means every year.\<close>

record tm =
  tm_min :: int
  tm_hour :: int
  tm_mday :: int
  tm_mon :: int
  tm_year :: int
  tm_wday :: nat

type_synonym holiday = "int \<times> int \<times> int"

fun isholiday :: "holiday list \<Rightarrow> int \<Rightarrow> int \<Rightarrow> int \<Rightarrow> bool" where
  "isholiday [] d m y \<longleftrightarrow> False"
| "isholiday ((hday, hm, hy) # hs) d m y \<longleftrightarrow> hday = d \<and> hm = m \<and> (hy = 0 \<or> hy = y) \<or> isholiday hs d m y"

definition day_ok :: "holiday list \<Rightarrow> tm \<Rightarrow> u8 \<Rightarrow> bool" where
  "day_ok hs tp day \<longleftrightarrow>
     (day AND 0x80 \<noteq> 0 \<and> isholiday hs (tm_mday tp) (tm_mon tp + 1) (tm_year tp + 1900)) \<or> bit day (tm_wday tp)"

definition isvalidtime :: "holiday list \<Rightarrow> tm \<Rightarrow> cfg_static \<Rightarrow> bool" where
  "isvalidtime hs tp cs \<longleftrightarrow>
     (if cs_day cs = 0 then True
      else if \<not> day_ok hs tp (cs_day cs) then False
      else if cs_fromhr cs = 0 \<and> cs_frommin cs = 0 \<and> cs_tohr cs = 0 \<and> cs_tomin cs = 0 then True
      else if cs_tohr cs < cs_fromhr cs
      then cs_fromhr cs < tm_hour tp \<or> (tm_hour tp = cs_fromhr cs \<and> cs_frommin cs < tm_min tp) \<or>
           tm_hour tp < cs_tohr cs \<or> (tm_hour tp = cs_tohr cs \<and> tm_min tp < cs_tomin cs)
      else if cs_fromhr cs = cs_tohr cs then cs_frommin cs \<le> tm_min tp \<and> tm_min tp < cs_tomin cs
      else (cs_fromhr cs < tm_hour tp \<and> tm_hour tp < cs_tohr cs) \<or>
           (tm_hour tp = cs_fromhr cs \<and> cs_frommin cs \<le> tm_min tp) \<or>
           (tm_hour tp = cs_tohr cs \<and> tm_min tp < cs_tomin cs))"

section \<open>Charging units\<close>

text \<open>The rates of each type and weekday as (start, end, seconds per unit); \<open>None\<close>: no rates file was read.\<close>

type_synonym rates = "(int \<Rightarrow> nat \<Rightarrow> (int \<times> int \<times> int) list) option"

definition NRATES :: int where
  "NRATES = 4"

definition INVALID_RATE :: int where
  "INVALID_RATE = - 1"

definition UNITLENGTH_DEFAULT :: int where
  "UNITLENGTH_DEFAULT = 60"

fun find_rate :: "int \<Rightarrow> (int \<times> int \<times> int) list \<Rightarrow> int" where
  "find_rate t [] = - 1"
| "find_rate t ((b, e, r) # rs) = (if b \<le> t \<and> t < e then r else find_rate t rs)"

definition getrate :: "rates \<Rightarrow> tm \<Rightarrow> int \<Rightarrow> int" where
  "getrate rs tp rate_type =
     (case rs of
        None \<Rightarrow> - 1
      | Some r \<Rightarrow> if NRATES \<le> rate_type \<or> rate_type = INVALID_RATE then - 1
                  else find_rate (tm_hour tp * 60 + tm_min tp) (r rate_type (tm_wday tp)))"

definition get_current_rate :: "int \<Rightarrow> rates \<Rightarrow> tm \<Rightarrow> cfg_entry \<Rightarrow> int" where
  "get_current_rate unit_length rs tp ce =
     (let rt = getrate rs tp (cs_ratetype (ce_conf ce)); rt' = (if rt \<noteq> - 1 then rt else UNITLENGTH_DEFAULT)
      in case cs_unitlengthsrc (ce_conf ce) of
           ULSRC_CMDL \<Rightarrow> unit_length
         | ULSRC_CONF \<Rightarrow> ce_unitlength ce
         | ULSRC_RATE \<Rightarrow> (if rs = None \<or> NRATES \<le> cs_ratetype (ce_conf ce) \<or> cs_ratetype (ce_conf ce) = INVALID_RATE
                          then UNITLENGTH_DEFAULT else rt')
         | ULSRC_DYN \<Rightarrow> rt'
         | ULSRC_NONE \<Rightarrow> UNITLENGTH_DEFAULT)"

section \<open>Incoming calls\<close>

datatype ton = TON_OTHER | TON_INTERNAT | TON_NATIONAL

record msg_connect_ind =
  mci_cdid :: u32
  mci_channel :: int
  mci_bprot :: nat
  mci_dst_telno :: cstring
  mci_dst_subaddr :: cstring
  mci_src_telno :: cstring
  mci_src_subaddr :: cstring
  mci_dst_ton :: ton
  mci_src_ton :: ton

text \<open>\<open>strncmp(a, b, strlen(a)) == 0\<close> and \<open>a[0] == '*'\<close>.\<close>

definition starts_with :: "cstring \<Rightarrow> cstring \<Rightarrow> bool" where
  "starts_with a b \<longleftrightarrow> take (length a) b = a"

definition wildcard :: "cstring \<Rightarrow> bool" where
  "wildcard a \<longleftrightarrow> (case a of [] \<Rightarrow> False | c # _ \<Rightarrow> c = 42)"

definition CDID2CONTROLLER :: "u32 \<Rightarrow> int" where
  "CDID2CONTROLLER cdid = uint (cdid mod 64)"

definition remote_matches :: "cfg_static \<Rightarrow> msg_connect_ind \<Rightarrow> number_t \<Rightarrow> bool" where
  "remote_matches cs mp n \<longleftrightarrow>
     (wildcard (nt_number n) \<or> starts_with (nt_number n) (mci_src_telno mp)) \<and>
     (\<not> cs_usesubaddr cs \<or> wildcard (nt_subaddr n) \<or> starts_with (nt_subaddr n) (mci_src_subaddr mp))"

definition number_matches :: "holiday list \<Rightarrow> tm \<Rightarrow> msg_connect_ind \<Rightarrow> cfg_static \<Rightarrow> bool" where
  "number_matches hs tp mp cs \<longleftrightarrow>
     starts_with (nt_number (cs_local_phone_incoming cs)) (mci_dst_telno mp) \<and>
     (cs_usesubaddr cs \<longrightarrow> starts_with (nt_subaddr (cs_local_phone_incoming cs)) (mci_dst_subaddr mp)) \<and>
     list_ex (remote_matches cs mp) (cs_remote_phone_incoming cs) \<and>
     cs_bprotocol cs = mci_bprot mp \<and> cs_isdncontroller cs = CDID2CONTROLLER (mci_cdid mp) \<and> isvalidtime hs tp cs"

text \<open>
  \<open>add_number_prefix\<close>: the result is cut to 39 characters by \<open>snprintf\<close>. The prefixes are global variables
  of the daemon.
\<close>

definition add_number_prefix :: "cstring \<Rightarrow> cstring \<Rightarrow> ton \<Rightarrow> cstring \<Rightarrow> cstring" where
  "add_number_prefix national international ty number =
     (if ty = TON_OTHER then number
      else let prefix = (if ty = TON_NATIONAL then national else international)
           in if starts_with prefix number then number else take 39 (prefix @ number))"

lemma add_number_prefix_length: "length number \<le> 40 \<Longrightarrow> length (add_number_prefix nat1 int1 ty number) \<le> 40"
  by (auto simp: add_number_prefix_def Let_def)

text \<open>The next number is tried with the subaddress of the one that failed.\<close>

lemma select_next_keeps_subaddr:
  "1 < ce_remote_numbers_count ce \<Longrightarrow>
   nt_subaddr (ce_remote_phone_dialout (select_next_dialno ce)) = nt_subaddr (ce_remote_phone_dialout ce)"
  by (simp add: select_next_dialno_def Let_def use_number_only_def rn_flag_def)

section \<open>The choice of a number stays in range\<close>

definition dialno_ok :: "cfg_entry \<Rightarrow> bool" where
  "dialno_ok ce \<longleftrightarrow> length (ce_remote_numbers ce) = MAXRNUMBERS \<and> ce_remote_numbers_count ce \<le> int MAXRNUMBERS \<and>
     0 \<le> ce_last_remote_number ce \<and> ce_last_remote_number ce < int MAXRNUMBERS \<and>
     (1 < ce_remote_numbers_count ce \<longrightarrow> ce_last_remote_number ce < ce_remote_numbers_count ce)"

definition number_in_range :: "cfg_entry \<Rightarrow> int \<Rightarrow> bool" where
  "number_in_range ce i \<longleftrightarrow> 0 \<le> i \<and> i < max 1 (ce_remote_numbers_count ce)"

lemma dialno_ok_use:
  assumes "dialno_ok ce" "number_in_range ce i"
  shows "dialno_ok (use_number i ce)" "dialno_ok (use_number_only i ce)"
  using assms by (auto simp: dialno_ok_def number_in_range_def use_number_def use_number_only_def MAXRNUMBERS_def)

lemma next_number_range: "0 \<le> i \<Longrightarrow> number_in_range ce (next_number ce i)"
  by (auto simp: next_number_def number_in_range_def)

lemma number_in_range_0 [simp]: "number_in_range ce 0"
  by (simp add: number_in_range_def)

lemma first_dialno_loop_ok: "dialno_ok ce \<Longrightarrow> number_in_range ce i \<Longrightarrow> dialno_ok (first_dialno_loop j i ce)"
proof (induction j arbitrary: i)
  case (Suc j)
  then have "number_in_range ce (next_number ce i)"
    by (intro next_number_range) (simp add: number_in_range_def)
  then show ?case
    using Suc by (simp add: dialno_ok_use)
qed (simp add: dialno_ok_use)

lemma rn_flag_ok: "dialno_ok ce \<Longrightarrow> dialno_ok (rn_flag b ce)"
  by (simp add: dialno_ok_def rn_flag_def Let_def)

lemma select_dialno_ok:
  assumes "dialno_ok ce"
  shows "dialno_ok (select_first_dialno ce)" "dialno_ok (select_next_dialno ce)" "dialno_ok (select_this_dialno ce)"
proof -
  have r: "0 \<le> ce_last_remote_number ce" "1 < ce_remote_numbers_count ce \<Longrightarrow> number_in_range ce (ce_last_remote_number ce)"
    using assms by (simp_all add: dialno_ok_def number_in_range_def)
  then show "dialno_ok (select_first_dialno ce)"
    using assms by (simp add: select_first_dialno_def dialno_ok_use first_dialno_loop_ok)
  have "ce_last_remote_number (rn_flag False ce) = ce_last_remote_number ce"
    by (simp add: rn_flag_def Let_def)
  then show "dialno_ok (select_next_dialno ce)"
    using assms dialno_ok_use(2) [OF rn_flag_ok [OF assms] next_number_range [OF r(1)]]
    by (simp add: select_next_dialno_def Let_def dialno_ok_use)
  show "dialno_ok (select_this_dialno ce)"
    using assms by (simp add: select_this_dialno_def rn_flag_ok)
qed

section \<open>The times of an entry\<close>

text \<open>A sample configuration and a sample time, Thursday at half past twelve.\<close>

definition sample_conf :: cfg_static where
  "sample_conf = \<lparr>cs_isdncontroller = 0, cs_isdnchannel = - 1, cs_usrdevicename = 1, cs_usrdeviceunit = 0,
     cs_remote_numbers_handling = RNH_LAST, cs_local_phone_dialout = \<lparr>nt_number = [49], nt_subaddr = [], nt_succ = False\<rparr>,
     cs_local_phone_incoming = \<lparr>nt_number = [49], nt_subaddr = [], nt_succ = False\<rparr>, cs_remote_phone_incoming = [],
     cs_dialin_reaction = REACT_ALERT, cs_bprotocol = 1, cs_shorthold_algorithm = 0, cs_ratetype = 0, cs_unitlengthsrc = ULSRC_NONE,
     cs_answerprog = False, cs_disconnectprog = False, cs_callbackwait = 1, cs_calledbackwait = 1, cs_dialretries = 3,
     cs_recoverytime = 3, cs_dialrandincr = False, cs_usedown = False, cs_downtime = 60, cs_calledback = False, cs_alert = 0,
     cs_inout = DIR_INOUT, cs_usesubaddr = False, cs_budget_callbackperiod = 0, cs_budget_callbackncalls = 0,
     cs_budget_calloutperiod = 3600, cs_budget_calloutncalls = 2, cs_day = 0, cs_fromhr = 0, cs_frommin = 0, cs_tohr = 0,
     cs_tomin = 0, cs_maxconnecttime = 0\<rparr>"

definition sample_number :: number_t where
  "sample_number = \<lparr>nt_number = [50], nt_subaddr = [], nt_succ = False\<rparr>"

definition sample_tm :: tm where
  "sample_tm = \<lparr>tm_min = 30, tm_hour = 12, tm_mday = 1, tm_mon = 0, tm_year = 104, tm_wday = 4\<rparr>"

text \<open>
  C29: On a day that is listed, an entry with a daytime range \<open>hh:mm-hh:mm\<close> within one day is valid exactly from
  the first time on until just before the second. A range over midnight leaves out the first minute, and in a range
  whose two hours are equal only the minutes are compared, so that it holds in every hour of the day.
\<close>

theorem isvalidtime_window:
  fixes cs :: cfg_static and tp :: tm
  defines "now \<equiv> 60 * tm_hour tp + tm_min tp"
    and "from \<equiv> 60 * cs_fromhr cs + cs_frommin cs" and "until \<equiv> 60 * cs_tohr cs + cs_tomin cs"
  assumes "cs_day cs \<noteq> 0" "day_ok hs tp (cs_day cs)" "from \<noteq> 0 \<or> until \<noteq> 0" "0 \<le> cs_fromhr cs" "0 \<le> cs_tohr cs"
    "cs_frommin cs \<in> {0..59}" "cs_tomin cs \<in> {0..59}" "tm_min tp \<in> {0..59}"
  shows "isvalidtime hs tp cs \<longleftrightarrow>
    (if cs_fromhr cs < cs_tohr cs then from \<le> now \<and> now < until
     else if cs_tohr cs < cs_fromhr cs then from < now \<or> now < until
     else cs_frommin cs \<le> tm_min tp \<and> tm_min tp < cs_tomin cs)"
proof -
  have "\<not> (cs_fromhr cs = 0 \<and> cs_frommin cs = 0 \<and> cs_tohr cs = 0 \<and> cs_tomin cs = 0)"
    using assms(6) by (auto simp: from_def until_def)
  then show ?thesis
    using assms(4,5,9-11) by (auto simp: isvalidtime_def now_def from_def until_def)
qed

theorem isvalidtime_window_witness:
  "isvalidtime [] sample_tm (sample_conf\<lparr>cs_day := 16, cs_fromhr := 9, cs_frommin := 0, cs_tohr := 17, cs_tomin := 0\<rparr>) \<and>
   isvalidtime [] sample_tm (sample_conf\<lparr>cs_day := 16, cs_fromhr := 9, cs_frommin := 0, cs_tohr := 9, cs_tomin := 45\<rparr>)"
proof -
  have d: "day_ok [] sample_tm 16"
    by code_simp
  show ?thesis
    using isvalidtime_window [of "sample_conf\<lparr>cs_day := 16, cs_fromhr := 9, cs_frommin := 0, cs_tohr := 17, cs_tomin := 0\<rparr>" "[]" sample_tm]
      isvalidtime_window [of "sample_conf\<lparr>cs_day := 16, cs_fromhr := 9, cs_frommin := 0, cs_tohr := 9, cs_tomin := 45\<rparr>" "[]" sample_tm] d
    by (simp add: sample_tm_def)
qed

end
