(* ===== verification/Isdnd_Fsm.thy ===== *)
theory Isdnd_Fsm
  imports Isdnd_Entry
begin

unbundle bit_operations_syntax

text \<open>
  The state machine of the connection daemon, \<^verbatim>\<open>src/src/usr.sbin/i4b/isdnd/fsm.c\<close>, with the messages it
  sends (\<^verbatim>\<open>msg_encoder.h\<close>) and receives (\<^verbatim>\<open>msg_decoder.h\<close>). An entry is its index in the table; what the
  daemon tells the kernel, the drivers and other programs is a list of events.
\<close>

section \<open>State\<close>

datatype dstat =
    DSTAT_NOT_CONNECTED | DSTAT_INCOMING_CALL | DSTAT_CONNECTED | DSTAT_BUSY | DSTAT_NOA | DSTAT_TFAIL | DSTAT_PFAIL
  | DSTAT_INONLY | DSTAT_NO_ENTRY

datatype isdnd_event =
    Response_to_user nat dstat u32
  | Response_no_entry int int
  | Send_connect_req nat u32 number_t cstring
  | Send_connect_accept nat u32
  | Send_connect_reject nat u32 u32
  | Send_disconnect_req nat u32 u32
  | Send_alert_req nat u32
  | Link_b_channel_driver u32
  | Timeout_upd nat int
  | Run_disconnect_prog nat
  | Run_answer_prog nat
  | Kill_answer_prog int

text \<open>
  \<open>d_cdids\<close> and \<open>d_connect_fails\<close> are what the kernel answers to the next requests for a descriptor and for a
  call, \<open>d_random\<close> what \<open>random()\<close> returns and \<open>d_pids\<close> what starting a program returns; the local time, the
  holidays and the rates are those of the system. \<open>d_last_time\<close> and \<open>d_last_unit_check\<close> are the static
  variables of \<open>handle_recovery\<close>.
\<close>

record isdnd =
  d_entries :: "cfg_entry list"
  d_ch_state :: "bool list list"
  d_now :: int
  d_tm :: tm
  d_holidays :: "holiday list"
  d_rates :: rates
  d_unit_length :: int
  d_addprefix :: "(cstring \<times> cstring) option"
  d_last_time :: int
  d_last_unit_check :: int
  d_cdids :: "u32 option list"
  d_connect_fails :: "bool list"
  d_random :: "int list"
  d_pids :: "int list"
  d_events :: "isdnd_event list"

definition ce_at :: "isdnd \<Rightarrow> nat \<Rightarrow> cfg_entry" where
  "ce_at s i = d_entries s ! i"

definition ce_upd :: "nat \<Rightarrow> (cfg_entry \<Rightarrow> cfg_entry) \<Rightarrow> isdnd \<Rightarrow> isdnd" where
  "ce_upd i f s = s\<lparr>d_entries := (d_entries s)[i := f (d_entries s ! i)]\<rparr>"

definition d_log :: "isdnd_event \<Rightarrow> isdnd \<Rightarrow> isdnd" where
  "d_log e s = s\<lparr>d_events := d_events s @ [e]\<rparr>"

abbreviation conf_at :: "isdnd \<Rightarrow> nat \<Rightarrow> cfg_static" where
  "conf_at s i \<equiv> ce_conf (ce_at s i)"

abbreviation state_at :: "isdnd \<Rightarrow> nat \<Rightarrow> cep_state" where
  "state_at s i \<equiv> ce_state (ce_at s i)"

definition I4B_CAUSE_NORMAL :: u32 where
  "I4B_CAUSE_NORMAL = 0x100"

definition I4B_CAUSE_REJECT :: u32 where
  "I4B_CAUSE_REJECT = 0x104"

definition TIMEOUT_CONNECT_ACTIVE :: int where
  "TIMEOUT_CONNECT_ACTIVE = 30"

section \<open>Messages and helpers\<close>

definition cep_set_state :: "nat \<Rightarrow> cep_state \<Rightarrow> int \<Rightarrow> nat \<Rightarrow> isdnd \<Rightarrow> isdnd" where
  "cep_set_state i st waittime waitfunc s =
     ce_upd i (\<lambda>ce. ce\<lparr>ce_state := st, ce_last_set_state_time := d_now s, ce_waitfunc := waitfunc, ce_waittime := waittime\<rparr>) s"

definition response_to_user :: "nat \<Rightarrow> dstat \<Rightarrow> isdnd \<Rightarrow> isdnd" where
  "response_to_user i dstat s = d_log (Response_to_user i dstat (ce_disc_cause (ce_at s i))) s"

definition sendm_disconnect_req :: "nat \<Rightarrow> u32 \<Rightarrow> isdnd \<Rightarrow> isdnd" where
  "sendm_disconnect_req i cause s = d_log (Send_disconnect_req i (ce_cdid (ce_at s i)) cause) s"

definition sendm_alert_req :: "nat \<Rightarrow> isdnd \<Rightarrow> isdnd" where
  "sendm_alert_req i s = d_log (Send_alert_req i (ce_cdid (ce_at s i))) s"

definition sendm_connect_accept :: "nat \<Rightarrow> isdnd \<Rightarrow> isdnd" where
  "sendm_connect_accept i s = d_log (Send_connect_accept i (ce_cdid (ce_at s i))) s"

definition sendm_connect_reject :: "nat \<Rightarrow> u32 \<Rightarrow> isdnd \<Rightarrow> isdnd" where
  "sendm_connect_reject i cause s = d_log (Send_connect_reject i (ce_cdid (ce_at s i)) cause) s"

text \<open>\<open>sendm_connect_req\<close>; the flag says that it failed.\<close>

definition sendm_connect_req :: "nat \<Rightarrow> isdnd \<Rightarrow> isdnd \<times> bool" where
  "sendm_connect_req i s0 =
     (case d_cdids s0 of
        Some c # cs \<Rightarrow>
          let s = ce_upd i (\<lambda>ce. ce\<lparr>ce_cdid := c\<rparr>) (s0\<lparr>d_cdids := cs\<rparr>);
              failed = (case d_connect_fails s of [] \<Rightarrow> False | b # _ \<Rightarrow> b);
              s = s\<lparr>d_connect_fails := tl (d_connect_fails s)\<rparr>
          in (d_log (Send_connect_req i c (ce_remote_phone_dialout (ce_at s i)) (ce_keypad (ce_at s i))) s, failed)
      | _ \<Rightarrow> (ce_upd i (\<lambda>ce. ce\<lparr>ce_cdid := CDID_UNUSED\<rparr>) (s0\<lparr>d_cdids := tl (d_cdids s0)\<rparr>), True))"

definition I4B_MAX_CHANNELS :: int where
  "I4B_MAX_CHANNELS = 64"

definition set_channel_state :: "int \<Rightarrow> int \<Rightarrow> bool \<Rightarrow> isdnd \<Rightarrow> isdnd" where
  "set_channel_state controller channel run s =
     (if controller < 0 \<or> int I4B_MAX_CONTROLLERS \<le> controller \<or> channel < 0 \<or> I4B_MAX_CHANNELS \<le> channel then s
      else s\<lparr>d_ch_state := (d_ch_state s)[nat controller := (d_ch_state s ! nat controller)[nat channel := run]]\<rparr>)"

text \<open>\<open>disconnect_code\<close>, without the log and the accounting file.\<close>

definition disconnect_code :: "nat \<Rightarrow> isdnd \<Rightarrow> isdnd" where
  "disconnect_code i s0 =
     (let s = (if cs_disconnectprog (conf_at s0 i) then d_log (Run_disconnect_prog i) s0 else s0);
          s = set_channel_state (ce_isdncontrollerused (ce_at s i)) (ce_isdnchannelused (ce_at s i)) False s;
          pid = ce_answerpid (ce_at s i)
      in if pid \<noteq> 0 \<and> pid \<noteq> - 1 then ce_upd i (\<lambda>ce. ce\<lparr>ce_answerpid := 0\<rparr>) (d_log (Kill_answer_prog pid) s) else s)"

definition take_random :: "isdnd \<Rightarrow> isdnd \<times> int" where
  "take_random s = (s\<lparr>d_random := tl (d_random s)\<rparr>, (case d_random s of [] \<Rightarrow> 0 | r # _ \<Rightarrow> r) AND 0x03)"

section \<open>Dialling\<close>

definition dial_fail_code :: "nat \<Rightarrow> isdnd \<Rightarrow> isdnd" where
  "dial_fail_code i s0 =
     (let s = ce_upd i (\<lambda>ce. ce\<lparr>ce_dial_count := ce_dial_count ce + 1\<rparr>) s0; cs = conf_at s i
      in if ce_dial_count (ce_at s i) < cs_dialretries cs \<or> cs_dialretries cs = - 1
         then let (s, waittime) =
                    (if CEP_IS_CALLED_BACK (ce_at s i) then (s, cs_calledbackwait cs)
                     else if cs_dialrandincr cs then case take_random s of (s, r) \<Rightarrow> (s, cs_recoverytime cs + r)
                     else (s, cs_recoverytime cs))
              in ce_upd i select_next_dialno (cep_set_state i ST_DIAL_FAIL waittime 2 s)
         else if cs_usedown cs
         then cep_set_state i ST_DIAL_FAIL (cs_downtime cs) 1 (response_to_user i DSTAT_PFAIL s)
         else cep_set_state i ST_IDLE 0 0 (response_to_user i DSTAT_TFAIL s))"

definition clear_keypad :: "nat \<Rightarrow> isdnd \<Rightarrow> isdnd" where
  "clear_keypad i = ce_upd i (\<lambda>ce. ce\<lparr>ce_keypad := []\<rparr>)"

definition dial_code :: "nat \<Rightarrow> isdnd \<Rightarrow> isdnd" where
  "dial_code i s0 =
     clear_keypad i
      (if cs_inout (conf_at s0 i) = DIR_INONLY then cep_set_state i ST_IDLE 0 0 (response_to_user i DSTAT_INONLY s0)
       else if \<not> isvalidtime (d_holidays s0) (d_tm s0) (conf_at s0 i)
       then cep_set_state i ST_IDLE 0 0 (response_to_user i DSTAT_NO_ENTRY s0)
       else let s = ce_upd i (\<lambda>ce. ce\<lparr>ce_isdncontrollerused := cs_isdncontroller (ce_conf ce),
                      ce_isdnchannelused := cs_isdnchannel (ce_conf ce), ce_disc_cause := I4B_CAUSE_NORMAL,
                      ce_disc_remote := False, ce_charge := 0, ce_last_charge := 0,
                      ce_unitlength := get_current_rate (d_unit_length s0) (d_rates s0) (d_tm s0) ce,
                      ce_dir_incoming := False\<rparr>) s0
            in case sendm_connect_req i s of
                 (s, True) \<Rightarrow> dial_fail_code i s
               | (s, False) \<Rightarrow> cep_set_state i ST_DIAL 0 0 s)"

text \<open>The budget is asked before the first try of a call.\<close>

definition ev_dial_from_user :: "nat \<Rightarrow> isdnd \<Rightarrow> isdnd" where
  "ev_dial_from_user i s0 =
     (if state_at s0 i \<noteq> ST_IDLE then s0
      else let s = ce_upd i (\<lambda>ce. select_first_dialno (ce\<lparr>ce_budget_calltype := BUDGET_NONE, ce_dial_count := 0\<rparr>)) s0;
               cs = conf_at s i
           in if cs_dialin_reaction cs = REACT_CALLBACK
              then if cs_budget_callbackperiod cs \<noteq> 0 \<and> cs_budget_callbackncalls cs \<noteq> 0
                   then if ce_budget_callbackncalls_cnt (ce_at s i) = 0 then dial_fail_code i s
                        else cep_set_state i ST_DIAL_FAIL (cs_callbackwait cs) 2
                               (ce_upd i (\<lambda>ce. ce\<lparr>ce_budget_calltype := BUDGET_TYPE_CBACK\<rparr>) s)
                   else cep_set_state i ST_DIAL_FAIL (cs_callbackwait cs) 2 s
              else if cs_budget_calloutperiod cs \<noteq> 0 \<and> cs_budget_calloutncalls cs \<noteq> 0
              then if ce_budget_calloutncalls_cnt (ce_at s i) = 0 then dial_fail_code i s
                   else dial_code i (ce_upd i (\<lambda>ce. ce\<lparr>ce_budget_calltype := BUDGET_TYPE_COUT\<rparr>) s)
              else dial_code i s)"

definition ev_dial_from_i4b :: "nat \<Rightarrow> isdnd \<Rightarrow> isdnd" where
  "ev_dial_from_i4b i s = (if state_at s i = ST_DIAL_FAIL then dial_code i s else s)"

section \<open>Disconnecting\<close>

text \<open>The body of the loop of \<open>ev_disconnect_from_i4b\<close>; the tests see the state the previous ones left.\<close>

definition disconnect_entry :: "u32 \<Rightarrow> nat \<Rightarrow> isdnd \<Rightarrow> isdnd" where
  "disconnect_entry cause i s0 =
     (let s = ce_upd i (\<lambda>ce. ce\<lparr>ce_disc_cause := cause, ce_disc_remote := True\<rparr>) s0;
          s = (if state_at s i = ST_DIAL then dial_fail_code i s else s);
          s = (if state_at s i = ST_CONNECTED
               then cep_set_state i ST_IDLE 0 0 (response_to_user i DSTAT_NOT_CONNECTED (disconnect_code i s)) else s);
          s = (if state_at s i = ST_INCOMING \<or> state_at s i = ST_WAIT_CONNECT
               then cep_set_state i ST_IDLE 0 0 (response_to_user i DSTAT_NOT_CONNECTED s) else s)
      in ce_upd i (\<lambda>ce. ce\<lparr>ce_cdid := CDID_UNUSED\<rparr>) s)"

fun disconnect_loop :: "u32 \<Rightarrow> u32 \<Rightarrow> nat option \<Rightarrow> nat list \<Rightarrow> isdnd \<Rightarrow> isdnd" where
  "disconnect_loop cdid cause exc [] s = s"
| "disconnect_loop cdid cause exc (i # is) s =
     disconnect_loop cdid cause exc is
       (if ce_cdid (ce_at s i) = cdid \<and> exc \<noteq> Some i then disconnect_entry cause i s else s)"

definition ev_disconnect_from_i4b :: "u32 \<Rightarrow> u32 \<Rightarrow> nat option \<Rightarrow> isdnd \<Rightarrow> isdnd" where
  "ev_disconnect_from_i4b cdid cause exc s = disconnect_loop cdid cause exc [0..<length (d_entries s)] s"

definition ev_disconnect_from_user :: "nat \<Rightarrow> isdnd \<Rightarrow> isdnd" where
  "ev_disconnect_from_user i s0 =
     (let s = ce_upd i (\<lambda>ce. ce\<lparr>ce_disc_cause := I4B_CAUSE_NORMAL, ce_disc_remote := False\<rparr>) s0;
          s = (if state_at s i = ST_DIAL \<or> state_at s i = ST_WAIT_CONNECT \<or> state_at s i = ST_CONNECTED
               then sendm_disconnect_req i I4B_CAUSE_NORMAL s else s);
          s = (if state_at s i = ST_CONNECTED then disconnect_code i s else s);
          s = cep_set_state i ST_IDLE 0 0 (response_to_user i DSTAT_NOT_CONNECTED s)
      in ce_upd i (\<lambda>ce. ce\<lparr>ce_cdid := CDID_UNUSED\<rparr>) s)"

section \<open>Incoming calls\<close>

definition ev_reject_from_user :: "nat \<Rightarrow> isdnd \<Rightarrow> isdnd" where
  "ev_reject_from_user i s =
     (if state_at s i = ST_INCOMING
      then ev_disconnect_from_i4b (ce_cdid (ce_at s i)) I4B_CAUSE_REJECT None (sendm_connect_reject i I4B_CAUSE_REJECT s)
      else s)"

definition ev_alert_from_user :: "nat \<Rightarrow> isdnd \<Rightarrow> isdnd" where
  "ev_alert_from_user i s = (if state_at s i = ST_INCOMING then sendm_alert_req i s else s)"

definition ev_connect_from_user :: "nat \<Rightarrow> isdnd \<Rightarrow> isdnd" where
  "ev_connect_from_user i s =
     (if state_at s i = ST_INCOMING
      then ev_disconnect_from_i4b (ce_cdid (ce_at s i)) I4B_CAUSE_NORMAL (Some i)
             (cep_set_state i ST_WAIT_CONNECT TIMEOUT_CONNECT_ACTIVE 1 (sendm_connect_accept i s))
      else s)"

definition get_cep_by_cdid :: "isdnd \<Rightarrow> u32 \<Rightarrow> nat option" where
  "get_cep_by_cdid s cdid = find_index (\<lambda>ce. ce_cdid ce = cdid) (d_entries s)"

definition get_cep_by_driver :: "isdnd \<Rightarrow> int \<Rightarrow> int \<Rightarrow> nat option" where
  "get_cep_by_driver s ty unit =
     find_index (\<lambda>ce. cs_usrdevicename (ce_conf ce) = ty \<and> cs_usrdeviceunit (ce_conf ce) = unit) (d_entries s)"

definition exec_answer :: "nat \<Rightarrow> isdnd \<Rightarrow> isdnd" where
  "exec_answer i s =
     (if \<not> cs_answerprog (conf_at s i) then s
      else let pid = (case d_pids s of [] \<Rightarrow> - 1 | p # _ \<Rightarrow> p); s = d_log (Run_answer_prog i) (s\<lparr>d_pids := tl (d_pids s)\<rparr>)
           in if pid \<noteq> 0 \<and> pid \<noteq> - 1 then ce_upd i (\<lambda>ce. ce\<lparr>ce_answerpid := pid\<rparr>) s else s)"

definition charge_budget :: "cfg_entry \<Rightarrow> cfg_entry" where
  "charge_budget ce =
     (case ce_budget_calltype ce of
        BUDGET_NONE \<Rightarrow> ce
      | BUDGET_TYPE_CBACK \<Rightarrow> ce\<lparr>ce_budget_callbackncalls_cnt := ce_budget_callbackncalls_cnt ce - 1, ce_budget_calltype := BUDGET_NONE\<rparr>
      | BUDGET_TYPE_COUT \<Rightarrow> ce\<lparr>ce_budget_calloutncalls_cnt := ce_budget_calloutncalls_cnt ce - 1, ce_budget_calltype := BUDGET_NONE\<rparr>)"

definition connected_code :: "nat \<Rightarrow> u32 \<Rightarrow> int \<Rightarrow> isdnd \<Rightarrow> isdnd" where
  "connected_code i cdid channel s0 =
     (let s = response_to_user i DSTAT_CONNECTED (d_log (Link_b_channel_driver cdid) s0); mct = cs_maxconnecttime (conf_at s i);
          s = cep_set_state i ST_CONNECTED mct (if 0 < mct then 1 else 0) s;
          s = ce_upd i (\<lambda>ce. ce\<lparr>ce_isdncontrollerused := CDID2CONTROLLER cdid, ce_isdnchannelused := channel,
                 ce_aoc_now := d_now s, ce_aoc_last := 0, ce_aoc_diff := 0, ce_aoc_valid := False\<rparr>) s;
          s = set_channel_state (CDID2CONTROLLER cdid) channel True s
      in if ce_dir_incoming (ce_at s i)
         then if cs_dialin_reaction (conf_at s i) = REACT_ANSWER then exec_answer i s else s
         else ce_upd i (\<lambda>ce. select_this_dialno (charge_budget ce)) s)"

definition ev_connect_from_i4b :: "u32 \<Rightarrow> int \<Rightarrow> isdnd \<Rightarrow> isdnd" where
  "ev_connect_from_i4b cdid channel s0 =
     (case get_cep_by_cdid s0 cdid of
        None \<Rightarrow> s0
      | Some i \<Rightarrow>
          let s = (if state_at s0 i = ST_DIAL \<and> CEP_IS_CALLED_BACK (ce_at s0 i) then ev_disconnect_from_user i s0 else s0)
          in if state_at s i = ST_WAIT_CONNECT \<or> state_at s i = ST_DIAL then connected_code i cdid channel s else s)"

text \<open>From the label \<open>connect\<close>; the flag is the \<open>goto done\<close>.\<close>

definition take_incoming :: "msg_connect_ind \<Rightarrow> nat \<Rightarrow> isdnd \<Rightarrow> isdnd" where
  "take_incoming mp i s =
     ce_upd i (\<lambda>ce. ce\<lparr>ce_charge := 0, ce_last_charge := 0, ce_cdid := mci_cdid mp,
        ce_isdncontrollerused := CDID2CONTROLLER (mci_cdid mp), ce_isdnchannelused := mci_channel mp, ce_dir_incoming := True,
        ce_real_phone_incoming := mci_src_telno mp\<rparr>) (cep_set_state i ST_INCOMING (cs_alert (conf_at s i)) 3 s)"

definition incoming_connect :: "msg_connect_ind \<Rightarrow> nat \<Rightarrow> isdnd \<Rightarrow> isdnd \<times> bool" where
  "incoming_connect mp i s0 =
     (let s = take_incoming mp i s0
      in case cs_dialin_reaction (conf_at s i) of
           REACT_ACCEPT \<Rightarrow> (ev_connect_from_user i s, True)
         | REACT_REJECT \<Rightarrow> (ev_reject_from_user i s, True)
         | REACT_ALERT \<Rightarrow> (ev_alert_from_user i (response_to_user i DSTAT_INCOMING_CALL (cep_set_state i ST_INCOMING 0 0 s)), False)
         | REACT_IGNORE \<Rightarrow> (ev_disconnect_from_user i s, False)
         | REACT_ANSWER \<Rightarrow>
             if cs_alert (conf_at s i) \<noteq> 0
             then (ev_alert_from_user i (response_to_user i DSTAT_INCOMING_CALL s), False)
             else (ev_connect_from_user i s, True)
         | REACT_CALLBACK \<Rightarrow> (ev_dial_from_user i (ev_reject_from_user i s), True))"

definition incoming_entry :: "msg_connect_ind \<Rightarrow> nat \<Rightarrow> isdnd \<Rightarrow> isdnd \<times> bool" where
  "incoming_entry mp i s =
     (if cs_inout (conf_at s i) = DIR_OUTONLY then (s, False)
      else if state_at s i = ST_IDLE \<or> state_at s i = ST_DIAL_FAIL
      then if number_matches (d_holidays s) (d_tm s) mp (conf_at s i) then incoming_connect mp i s else (s, False)
      else if CEP_IS_CALLED_BACK (ce_at s i) \<and> number_matches (d_holidays s) (d_tm s) mp (conf_at s i)
      then incoming_connect mp i (ev_disconnect_from_user i s)
      else (s, False))"

fun incoming_loop :: "msg_connect_ind \<Rightarrow> nat list \<Rightarrow> isdnd \<Rightarrow> isdnd" where
  "incoming_loop mp [] s = s"
| "incoming_loop mp (i # is) s = (case incoming_entry mp i s of (s, ready) \<Rightarrow> if ready then s else incoming_loop mp is s)"

definition ev_incoming_from_i4b :: "msg_connect_ind \<Rightarrow> isdnd \<Rightarrow> isdnd" where
  "ev_incoming_from_i4b mp0 s =
     (let mp = (case d_addprefix s of
                  None \<Rightarrow> mp0
                | Some (national, international) \<Rightarrow>
                    mp0\<lparr>mci_src_telno := add_number_prefix national international (mci_src_ton mp0) (mci_src_telno mp0),
                        mci_dst_telno := add_number_prefix national international (mci_dst_ton mp0) (mci_dst_telno mp0)\<rparr>)
      in if mci_channel mp = CHAN_NOT_ANY then s else incoming_loop mp [0..<length (d_entries s)] s)"

section \<open>Requests of the drivers\<close>

text \<open>For each request the first entry of the driver is used; without one the driver is told so.\<close>

definition for_driver :: "int \<Rightarrow> int \<Rightarrow> (nat \<Rightarrow> isdnd \<Rightarrow> isdnd) \<Rightarrow> isdnd \<Rightarrow> isdnd" where
  "for_driver ty unit f s =
     (case get_cep_by_driver s ty unit of None \<Rightarrow> d_log (Response_no_entry ty unit) s | Some i \<Rightarrow> f i s)"

definition msg_dialout :: "int \<Rightarrow> int \<Rightarrow> isdnd \<Rightarrow> isdnd" where
  "msg_dialout ty unit = for_driver ty unit ev_dial_from_user"

definition set_keypad :: "cstring \<Rightarrow> cfg_entry \<Rightarrow> cfg_entry" where
  "set_keypad cmd ce = ce\<lparr>ce_remote_numbers := (ce_remote_numbers ce)[0 := (ce_remote_numbers ce ! 0)\<lparr>nt_number := []\<rparr>],
     ce_remote_numbers_count := 0, ce_remote_phone_dialout := (ce_remote_phone_dialout ce)\<lparr>nt_number := []\<rparr>,
     ce_keypad := cmd\<rparr>"

definition msg_keypad :: "int \<Rightarrow> int \<Rightarrow> cstring \<Rightarrow> isdnd \<Rightarrow> isdnd" where
  "msg_keypad ty unit cmd =
     for_driver ty unit (\<lambda>i s. if state_at s i = ST_IDLE then ev_dial_from_user i (ce_upd i (set_keypad cmd) s) else s)"

definition msg_drvrdisc_req :: "int \<Rightarrow> int \<Rightarrow> isdnd \<Rightarrow> isdnd" where
  "msg_drvrdisc_req ty unit s = (case get_cep_by_driver s ty unit of None \<Rightarrow> s | Some i \<Rightarrow> ev_disconnect_from_user i s)"

definition msg_drvranswer_req :: "int \<Rightarrow> int \<Rightarrow> isdnd \<Rightarrow> isdnd" where
  "msg_drvranswer_req ty unit = for_driver ty unit ev_connect_from_user"

definition msg_drvrreject_req :: "int \<Rightarrow> int \<Rightarrow> isdnd \<Rightarrow> isdnd" where
  "msg_drvrreject_req ty unit = for_driver ty unit ev_reject_from_user"

section \<open>Charging\<close>

text \<open>Algorithms other than \<open>SHA_FIXU\<close> and \<open>SHA_VARU\<close> are only logged.\<close>

definition unitlen_chkupd :: "nat \<Rightarrow> isdnd \<Rightarrow> isdnd" where
  "unitlen_chkupd i s =
     (if cs_shorthold_algorithm (conf_at s i) \<le> 1 then d_log (Timeout_upd i (ce_unitlength (ce_at s i))) s else s)"

definition aoc_times :: "int \<Rightarrow> cfg_entry \<Rightarrow> cfg_entry" where
  "aoc_times now ce =
     (if ce_aoc_last ce = 0 then ce\<lparr>ce_aoc_last := now\<rparr>
      else if ce_aoc_now ce = 0 then ce\<lparr>ce_aoc_now := now\<rparr>
      else ce\<lparr>ce_aoc_last := ce_aoc_now ce, ce_aoc_now := now, ce_aoc_diff := now - ce_aoc_now ce, ce_aoc_valid := True\<rparr>)"

definition handle_charge :: "nat \<Rightarrow> isdnd \<Rightarrow> isdnd" where
  "handle_charge i s0 =
     (let s = ce_upd i (aoc_times (d_now s0)) s0
      in if ce_aoc_valid (ce_at s i) \<and> ce_aoc_diff (ce_at s i) \<noteq> ce_unitlength (ce_at s i)
         then unitlen_chkupd i (ce_upd i (\<lambda>ce. ce\<lparr>ce_unitlength := ce_aoc_diff ce\<rparr>) s) else s)"

definition CHARGE_AOCD :: nat where
  "CHARGE_AOCD = 1"

definition CHARGE_CALC :: nat where
  "CHARGE_CALC = 3"

text \<open>\<open>None\<close>: the daemon exits, for a type of units out of range.\<close>

definition msg_charging_ind :: "u32 \<Rightarrow> nat \<Rightarrow> int \<Rightarrow> isdnd \<Rightarrow> isdnd option" where
  "msg_charging_ind cdid units_type units s =
     (case get_cep_by_cdid s cdid of
        None \<Rightarrow> Some s
      | Some i \<Rightarrow>
          if CHARGE_CALC < units_type then None
          else let s = ce_upd i (\<lambda>ce. ce\<lparr>ce_charge := units\<rparr>) s
               in Some (if units_type = CHARGE_AOCD \<and> cs_unitlengthsrc (conf_at s i) = ULSRC_DYN \<and>
                           ce_charge (ce_at s i) \<noteq> ce_last_charge (ce_at s i)
                        then handle_charge i (ce_upd i (\<lambda>ce. ce\<lparr>ce_last_charge := ce_charge ce\<rparr>) s) else s))"

section \<open>Timeouts\<close>

definition renew_budgets :: "int \<Rightarrow> cfg_entry \<Rightarrow> cfg_entry" where
  "renew_budgets now ce =
     (let cs = ce_conf ce;
          ce = (if cs_budget_callbackperiod cs \<noteq> 0 \<and> cs_budget_callbackncalls cs \<noteq> 0 \<and> ce_budget_callbackperiod_time ce \<le> now
                then ce\<lparr>ce_budget_callbackperiod_time := now + cs_budget_callbackperiod cs,
                        ce_budget_callbackncalls_cnt := cs_budget_callbackncalls cs\<rparr> else ce)
      in if cs_budget_calloutperiod cs \<noteq> 0 \<and> cs_budget_calloutncalls cs \<noteq> 0 \<and> ce_budget_calloutperiod_time ce \<le> now
         then ce\<lparr>ce_budget_calloutperiod_time := now + cs_budget_calloutperiod cs,
                 ce_budget_calloutncalls_cnt := cs_budget_calloutncalls cs\<rparr> else ce)"

definition check_rate :: "nat \<Rightarrow> isdnd \<Rightarrow> isdnd" where
  "check_rate i s =
     (let newrate = get_current_rate (d_unit_length s) (d_rates s) (d_tm s) (ce_at s i)
      in if cs_unitlengthsrc (conf_at s i) = ULSRC_RATE \<and> newrate \<noteq> ce_unitlength (ce_at s i)
         then unitlen_chkupd i (ce_upd i (\<lambda>ce. ce\<lparr>ce_unitlength := newrate\<rparr>) s) else s)"

text \<open>The body of the loop of \<open>handle_recovery\<close>; the flag is the \<open>return\<close> after a disconnect.\<close>

definition recover_entry :: "bool \<Rightarrow> nat \<Rightarrow> isdnd \<Rightarrow> isdnd \<times> bool" where
  "recover_entry check_units i s0 =
     (let s = ce_upd i (renew_budgets (d_now s0)) s0
      in if state_at s i = ST_IDLE then (s, False)
         else let s = (if check_units then check_rate i s else s); ce = ce_at s i
              in if ce_waittime ce < d_now s - ce_last_set_state_time ce
                 then if ce_waitfunc ce = 1 then (ev_disconnect_from_user i s, True)
                      else if ce_waitfunc ce = 2 then (ev_dial_from_i4b i s, False)
                      else if ce_waitfunc ce = 3 then (ev_connect_from_user i s, False)
                      else (s, False)
                 else (s, False))"

fun recovery_loop :: "bool \<Rightarrow> nat list \<Rightarrow> isdnd \<Rightarrow> isdnd" where
  "recovery_loop check_units [] s = s"
| "recovery_loop check_units (i # is) s =
     (case recover_entry check_units i s of (s, ready) \<Rightarrow> if ready then s else recovery_loop check_units is s)"

text \<open>The differences of times are unsigned.\<close>

definition handle_recovery :: "isdnd \<Rightarrow> isdnd" where
  "handle_recovery s0 =
     (if (d_now s0 - d_last_time s0) mod 2 ^ 32 < 1 then s0
      else let s = s0\<lparr>d_last_time := d_now s0\<rparr>; check_units = (10 \<le> (d_now s - d_last_unit_check s) mod 2 ^ 32);
               s = (if check_units then s\<lparr>d_last_unit_check := d_now s\<rparr> else s)
           in recovery_loop check_units [0..<length (d_entries s)] s)"

end
