(* ===== verification/Isdnd_Steps.thy ===== *)
theory Isdnd_Steps
  imports Isdnd_Fsm
begin

unbundle bit_operations_syntax

text \<open>
  What each operation of the daemon's state machine does to the table of entries. \<open>evolves\<close> relates two states
  of the daemon when the second follows from the first by operations that keep the configuration and the
  well-formedness of every entry, take descriptors only from the front of what the kernel hands out, and send
  a response to the user for every entry that becomes idle; \<open>only\<close> says in addition that a single entry is
  touched. Every operation on one entry is shown to be of that kind, with the state it leaves the entry in.
\<close>

section \<open>Access to the entries\<close>

lemma ce_at_upd [simp]: "i < length (d_entries s) \<Longrightarrow> ce_at (ce_upd i f s) i = f (ce_at s i)"
  by (simp add: ce_at_def ce_upd_def)

lemma ce_at_upd_other [simp]: "j \<noteq> i \<Longrightarrow> ce_at (ce_upd i f s) j = ce_at s j"
  by (simp add: ce_at_def ce_upd_def)

lemma length_ce_upd [simp]: "length (d_entries (ce_upd i f s)) = length (d_entries s)"
  by (simp add: ce_upd_def)

lemma ce_upd_fields [simp]:
  "d_cdids (ce_upd i f s) = d_cdids s" "d_events (ce_upd i f s) = d_events s" "d_now (ce_upd i f s) = d_now s"
  "d_connect_fails (ce_upd i f s) = d_connect_fails s"
  by (simp_all add: ce_upd_def)

lemma d_log_fields [simp]:
  "d_entries (d_log e s) = d_entries s" "ce_at (d_log e s) = ce_at s" "d_cdids (d_log e s) = d_cdids s"
  "d_events (d_log e s) = d_events s @ [e]" "d_now (d_log e s) = d_now s"
  by (simp_all add: d_log_def ce_at_def fun_eq_iff)

section \<open>Well-formed entries and steps\<close>

definition budget_ok :: "cfg_entry \<Rightarrow> bool" where
  "budget_ok ce \<longleftrightarrow> 0 \<le> ce_budget_callbackncalls_cnt ce \<and> 0 \<le> ce_budget_calloutncalls_cnt ce \<and>
     (ce_budget_calltype ce = BUDGET_TYPE_CBACK \<longrightarrow> 0 < ce_budget_callbackncalls_cnt ce) \<and>
     (ce_budget_calltype ce = BUDGET_TYPE_COUT \<longrightarrow> 0 < ce_budget_calloutncalls_cnt ce)"

definition conf_ok :: "cfg_static \<Rightarrow> bool" where
  "conf_ok cs \<longleftrightarrow> 0 \<le> cs_budget_callbackncalls cs \<and> 0 \<le> cs_budget_calloutncalls cs"

definition cep_ok :: "cfg_entry \<Rightarrow> bool" where
  "cep_ok ce \<longleftrightarrow> dialno_ok ce \<and> budget_ok ce \<and> conf_ok (ce_conf ce)"

definition told_idle :: "nat \<Rightarrow> isdnd_event list \<Rightarrow> bool" where
  "told_idle i evs \<longleftrightarrow> (\<exists>d c. Response_to_user i d c \<in> set evs \<and> d \<noteq> DSTAT_CONNECTED \<and> d \<noteq> DSTAT_INCOMING_CALL)"

definition evolves :: "isdnd \<Rightarrow> isdnd \<Rightarrow> bool" where
  "evolves s s' \<longleftrightarrow> length (d_entries s') = length (d_entries s) \<and>
     (\<forall>j<length (d_entries s). ce_conf (ce_at s' j) = ce_conf (ce_at s j) \<and> (cep_ok (ce_at s j) \<longrightarrow> cep_ok (ce_at s' j))) \<and>
     (\<exists>k. d_cdids s' = drop k (d_cdids s)) \<and>
     (\<exists>evs. d_events s' = d_events s @ evs \<and>
        (\<forall>j<length (d_entries s). state_at s' j = ST_IDLE \<longrightarrow> state_at s j = ST_IDLE \<or> told_idle j evs))"

lemma evolves_refl: "evolves s s"
  by (auto simp: evolves_def intro!: exI [of _ 0])

lemma evolves_trans:
  assumes "evolves s t" "evolves t u"
  shows "evolves s u"
proof -
  obtain k k' where k: "d_cdids t = drop k (d_cdids s)" "d_cdids u = drop k' (d_cdids t)"
    using assms unfolding evolves_def by blast
  obtain es es' where e: "d_events t = d_events s @ es" "d_events u = d_events t @ es'"
    "\<forall>j<length (d_entries s). state_at t j = ST_IDLE \<longrightarrow> state_at s j = ST_IDLE \<or> told_idle j es"
    "\<forall>j<length (d_entries t). state_at u j = ST_IDLE \<longrightarrow> state_at t j = ST_IDLE \<or> told_idle j es'"
    using assms unfolding evolves_def by blast
  have len: "length (d_entries t) = length (d_entries s)" "length (d_entries u) = length (d_entries s)"
    using assms unfolding evolves_def by simp_all
  have told: "told_idle j (es @ es') \<longleftrightarrow> told_idle j es \<or> told_idle j es'" for j
    by (auto simp: told_idle_def)
  have "\<exists>evs. d_events u = d_events s @ evs \<and>
      (\<forall>j<length (d_entries s). state_at u j = ST_IDLE \<longrightarrow> state_at s j = ST_IDLE \<or> told_idle j evs)"
    using e len by (intro exI [of _ "es @ es'"]) (auto simp: told)
  moreover have "\<exists>k. d_cdids u = drop k (d_cdids s)"
    using k by (intro exI [of _ "k' + k"]) simp
  ultimately show ?thesis
    using assms len unfolding evolves_def by simp
qed

definition only :: "nat \<Rightarrow> isdnd \<Rightarrow> isdnd \<Rightarrow> bool" where
  "only i s s' \<longleftrightarrow> evolves s s' \<and> (\<forall>j<length (d_entries s). j \<noteq> i \<longrightarrow> ce_at s' j = ce_at s j)"

lemma only_refl: "only i s s"
  by (simp add: only_def evolves_refl)

lemma only_trans: "only i s t \<Longrightarrow> only i t u \<Longrightarrow> only i s u"
  using evolves_trans [of s t u] by (auto simp: only_def evolves_def)

lemma only_length: "only i s s' \<Longrightarrow> length (d_entries s') = length (d_entries s)"
  by (simp add: only_def evolves_def)

lemma only_conf: "only i s s' \<Longrightarrow> j < length (d_entries s) \<Longrightarrow> conf_at s' j = conf_at s j"
  by (simp add: only_def evolves_def)

lemma only_upd:
  assumes "i < length (d_entries s)" "ce_conf (f (ce_at s i)) = conf_at s i" "cep_ok (ce_at s i) \<Longrightarrow> cep_ok (f (ce_at s i))"
    "ce_state (f (ce_at s i)) = ST_IDLE \<Longrightarrow> state_at s i = ST_IDLE"
  shows "only i s (ce_upd i f s)"
proof -
  have at: "ce_at (ce_upd i f s) j = (if j = i then f (ce_at s i) else ce_at s j)" for j
    using assms(1) by simp
  have "\<exists>k. d_cdids s = drop k (d_cdids s)"
    by (rule exI [of _ 0]) simp
  then show ?thesis
    using assms by (auto simp: only_def evolves_def at simp del: ce_at_upd ce_at_upd_other split: if_splits)
qed

text \<open>Steps that change no entry.\<close>

lemma only_silent:
  assumes "d_entries s' = d_entries s" "\<exists>k. d_cdids s' = drop k (d_cdids s)" "\<exists>evs. d_events s' = d_events s @ evs"
  shows "only i s s'"
proof -
  have "ce_at s' = ce_at s"
    using assms(1) by (simp add: ce_at_def fun_eq_iff)
  then show ?thesis
    using assms by (auto simp: only_def evolves_def)
qed

lemma only_log: "only i s (d_log e s)"
  by (rule only_silent) (auto intro!: exI [of _ 0])

lemma only_idle:
  assumes "i < length (d_entries s)" "d \<noteq> DSTAT_CONNECTED" "d \<noteq> DSTAT_INCOMING_CALL"
  shows "only i s (cep_set_state i ST_IDLE a b (response_to_user i d s))"
proof -
  let ?s = "cep_set_state i ST_IDLE a b (response_to_user i d s)"
  have at: "ce_at ?s j = (if j = i then (ce_at s i)\<lparr>ce_state := ST_IDLE, ce_last_set_state_time := d_now s, ce_waitfunc := b,
      ce_waittime := a\<rparr> else ce_at s j)" for j
    using assms(1) by (simp add: cep_set_state_def response_to_user_def)
  have "told_idle i [Response_to_user i d (ce_disc_cause (ce_at s i))]"
    using assms(2,3) by (simp add: told_idle_def)
  moreover have "d_events ?s = d_events s @ [Response_to_user i d (ce_disc_cause (ce_at s i))]" "d_cdids ?s = d_cdids s"
    "length (d_entries ?s) = length (d_entries s)"
    by (simp_all add: cep_set_state_def response_to_user_def)
  moreover have "cep_ok (ce_at s i) \<Longrightarrow> cep_ok (ce_at ?s i)"
    by (simp add: at cep_ok_def dialno_ok_def budget_ok_def)
  moreover have "\<exists>k. d_cdids s = drop k (d_cdids s)"
    by (rule exI [of _ 0]) simp
  ultimately show ?thesis
    unfolding only_def evolves_def by (intro conjI) (auto simp: at)
qed

lemmas entry_simps = cep_ok_def dialno_ok_def budget_ok_def

lemma only_set_state: "i < length (d_entries s) \<Longrightarrow> st \<noteq> ST_IDLE \<Longrightarrow> only i s (cep_set_state i st a b s)"
  unfolding cep_set_state_def by (rule only_upd) (simp_all add: entry_simps)

section \<open>The choice of a number\<close>

lemma use_number_fields [simp]:
  "ce_state (use_number n ce) = ce_state ce" "ce_conf (use_number n ce) = ce_conf ce" "ce_cdid (use_number n ce) = ce_cdid ce"
  "ce_state (use_number_only n ce) = ce_state ce" "ce_conf (use_number_only n ce) = ce_conf ce"
  "ce_cdid (use_number_only n ce) = ce_cdid ce" "budget_ok (use_number n ce) = budget_ok ce"
  "budget_ok (use_number_only n ce) = budget_ok ce"
  by (simp_all add: use_number_def use_number_only_def budget_ok_def)

lemma first_dialno_loop_fields [simp]:
  "ce_state (first_dialno_loop j n ce) = ce_state ce" "ce_conf (first_dialno_loop j n ce) = ce_conf ce"
  "ce_cdid (first_dialno_loop j n ce) = ce_cdid ce" "budget_ok (first_dialno_loop j n ce) = budget_ok ce"
  by (induction j arbitrary: n) simp_all

lemma rn_flag_fields [simp]:
  "ce_state (rn_flag b ce) = ce_state ce" "ce_conf (rn_flag b ce) = ce_conf ce" "ce_cdid (rn_flag b ce) = ce_cdid ce"
  "budget_ok (rn_flag b ce) = budget_ok ce"
  by (simp_all add: rn_flag_def Let_def budget_ok_def)

lemma select_fields [simp]:
  "ce_state (select_first_dialno ce) = ce_state ce" "ce_conf (select_first_dialno ce) = ce_conf ce"
  "ce_cdid (select_first_dialno ce) = ce_cdid ce" "budget_ok (select_first_dialno ce) = budget_ok ce"
  "ce_state (select_next_dialno ce) = ce_state ce" "ce_conf (select_next_dialno ce) = ce_conf ce"
  "ce_cdid (select_next_dialno ce) = ce_cdid ce" "budget_ok (select_next_dialno ce) = budget_ok ce"
  "ce_state (select_this_dialno ce) = ce_state ce" "ce_conf (select_this_dialno ce) = ce_conf ce"
  "ce_cdid (select_this_dialno ce) = ce_cdid ce" "budget_ok (select_this_dialno ce) = budget_ok ce"
  by (simp_all add: select_first_dialno_def select_next_dialno_def select_this_dialno_def Let_def)

lemma cep_ok_select: "cep_ok ce \<Longrightarrow> cep_ok (select_first_dialno ce)" "cep_ok ce \<Longrightarrow> cep_ok (select_next_dialno ce)"
  "cep_ok ce \<Longrightarrow> cep_ok (select_this_dialno ce)"
  by (simp_all add: cep_ok_def select_dialno_ok)

section \<open>Disconnecting and failing\<close>

definition quiet_st :: "cep_state \<Rightarrow> bool" where
  "quiet_st st \<longleftrightarrow> st = ST_IDLE \<or> st = ST_DIAL_FAIL"

lemma quiet_st_simps [simp]: "quiet_st ST_IDLE" "quiet_st ST_DIAL_FAIL" "\<not> quiet_st ST_DIAL" "\<not> quiet_st ST_INCOMING"
  "\<not> quiet_st ST_WAIT_CONNECT" "\<not> quiet_st ST_CONNECTED"
  by (simp_all add: quiet_st_def)

lemma set_state_at [simp]: "i < length (d_entries s) \<Longrightarrow> state_at (cep_set_state i st a b s) i = st"
  by (simp add: cep_set_state_def)

lemma length_simps [simp]: "length (d_entries (cep_set_state i st a b s)) = length (d_entries s)"
  "d_entries (response_to_user i d s) = d_entries s" "ce_at (response_to_user i d s) = ce_at s"
  "d_entries (set_channel_state c ch r s) = d_entries s" "ce_at (set_channel_state c ch r s) = ce_at s"
  by (simp_all add: cep_set_state_def response_to_user_def set_channel_state_def ce_at_def fun_eq_iff)

lemma only_channel: "only i s (set_channel_state c ch b s)"
  by (rule only_silent) (auto simp: set_channel_state_def intro!: exI [of _ 0])

lemma disconnect_code_only:
  assumes "i < length (d_entries s)"
  shows "only i s (disconnect_code i s) \<and> ce_state (ce_at (disconnect_code i s) i) = state_at s i \<and>
    ce_cdid (ce_at (disconnect_code i s) i) = ce_cdid (ce_at s i)"
proof -
  define s1 where "s1 = (if cs_disconnectprog (conf_at s i) then d_log (Run_disconnect_prog i) s else s)"
  define s2 where "s2 = set_channel_state (ce_isdncontrollerused (ce_at s1 i)) (ce_isdnchannelused (ce_at s1 i)) False s1"
  have 1: "only i s s1" "ce_at s1 = ce_at s" "d_entries s1 = d_entries s"
    by (simp_all add: s1_def only_log only_refl)
  have 2: "only i s s2" "ce_at s2 = ce_at s" "d_entries s2 = d_entries s"
    using only_trans [OF 1(1) only_channel] 1 by (simp_all add: s2_def)
  define f :: "cfg_entry \<Rightarrow> cfg_entry" where "f = (\<lambda>ce. ce\<lparr>ce_answerpid := 0\<rparr>)"
  have 3: "only i s (ce_upd i f (d_log e s2))" for e
    using 2 assms only_trans [OF 2(1) only_log]
    by (intro only_trans [OF only_trans [OF 2(1) only_log] only_upd]) (simp_all add: f_def entry_simps)
  have "disconnect_code i s = (let pid = ce_answerpid (ce_at s2 i)
      in if pid \<noteq> 0 \<and> pid \<noteq> - 1 then ce_upd i f (d_log (Kill_answer_prog pid) s2) else s2)"
    unfolding disconnect_code_def Let_def s2_def s1_def f_def by simp
  then show ?thesis
    using 2 3 assms by (simp add: Let_def f_def)
qed

lemma only_random: "only i s (fst (take_random s))" "d_entries (fst (take_random s)) = d_entries s" "ce_at (fst (take_random s)) = ce_at s"
  by (rule only_silent) (auto simp: take_random_def ce_at_def intro!: exI [of _ 0])

lemma dial_fail_only:
  assumes i: "i < length (d_entries s)"
  shows "only i s (dial_fail_code i s) \<and> quiet_st (state_at (dial_fail_code i s) i)"
proof -
  define s1 where "s1 = ce_upd i (\<lambda>ce. ce\<lparr>ce_dial_count := ce_dial_count ce + 1\<rparr>) s"
  have 1: "only i s s1" "i < length (d_entries s1)"
    unfolding s1_def by (rule only_upd) (use i in \<open>simp_all add: entry_simps\<close>)
  have retry: "only i s (ce_upd i select_next_dialno (cep_set_state i ST_DIAL_FAIL w 2 t)) \<and>
      quiet_st (state_at (ce_upd i select_next_dialno (cep_set_state i ST_DIAL_FAIL w 2 t)) i)"
    if "only i s1 t" "i < length (d_entries t)" for t w
  proof -
    have "only i s (cep_set_state i ST_DIAL_FAIL w 2 t)"
      using only_trans [OF 1(1) only_trans [OF that(1) only_set_state [OF that(2)]]] by simp
    moreover have "only i (cep_set_state i ST_DIAL_FAIL w 2 t) (ce_upd i select_next_dialno (cep_set_state i ST_DIAL_FAIL w 2 t))"
      by (rule only_upd) (use that(2) in \<open>simp_all add: cep_ok_select\<close>)
    ultimately show ?thesis
      using that(2) only_trans by auto
  qed
  have down: "only i s (cep_set_state i ST_DIAL_FAIL w 1 (response_to_user i d s1))" for w d
  proof -
    have "only i s (response_to_user i d s1)"
      using only_trans [OF 1(1) only_log] by (simp add: response_to_user_def)
    then show ?thesis
      using only_set_state [of i "response_to_user i d s1" ST_DIAL_FAIL] 1(2) only_trans by simp
  qed
  have fail: "only i s (cep_set_state i ST_IDLE 0 0 (response_to_user i DSTAT_TFAIL s1))"
    by (rule only_trans [OF 1(1) only_idle]) (use 1(2) in simp_all)
  obtain s2 q where tr: "take_random s1 = (s2, q)"
    by fastforce
  have r: "only i s1 s2" "i < length (d_entries s2)"
    using only_random(1) [of i s1] only_random(2) [of s1] 1(2) by (simp_all add: tr)
  show ?thesis
    using retry [OF only_refl 1(2)] retry [OF r] down fail 1(2)
    unfolding dial_fail_code_def Let_def s1_def [symmetric] by (simp add: tr)
qed

section \<open>Dialling\<close>

lemma sendm_connect_req_only:
  assumes i: "i < length (d_entries s)" and r: "sendm_connect_req i s = (t, failed)"
  shows "only i s t \<and> state_at t i = state_at s i \<and> (\<not> failed \<longrightarrow> d_cdids s = Some (ce_cdid (ce_at t i)) # d_cdids t)"
proof -
  have upd: "only i s (ce_upd i (\<lambda>ce. ce\<lparr>ce_cdid := c\<rparr>) (s\<lparr>d_cdids := tl (d_cdids s)\<rparr>))" for c
  proof -
    have "only i s (s\<lparr>d_cdids := tl (d_cdids s)\<rparr>)"
      by (rule only_silent) (auto simp: drop_Suc intro!: exI [of _ 1])
    moreover have "only i (s\<lparr>d_cdids := tl (d_cdids s)\<rparr>) (ce_upd i (\<lambda>ce. ce\<lparr>ce_cdid := c\<rparr>) (s\<lparr>d_cdids := tl (d_cdids s)\<rparr>))"
      by (rule only_upd) (use i in \<open>simp_all add: entry_simps\<close>)
    ultimately show ?thesis
      using only_trans by blast
  qed
  show ?thesis
  proof (cases "\<exists>c cs. d_cdids s = Some c # cs")
    case True
    then obtain c cs where c: "d_cdids s = Some c # cs"
      by blast
    define u where "u = ce_upd i (\<lambda>ce. ce\<lparr>ce_cdid := c\<rparr>) (s\<lparr>d_cdids := cs\<rparr>)"
    define v where "v = u\<lparr>d_connect_fails := tl (d_connect_fails s)\<rparr>"
    have v: "d_entries v = d_entries u" "ce_at v = ce_at u" "d_cdids v = cs"
      by (simp_all add: v_def u_def ce_at_def fun_eq_iff)
    have "only i s u"
      using upd [of c] by (simp add: c u_def)
    moreover have "only i u v"
      by (rule only_silent) (auto simp: v_def intro!: exI [of _ 0])
    ultimately have "only i s (d_log e v)" for e
      using only_trans only_log by blast
    moreover have "t = d_log (Send_connect_req i c (ce_remote_phone_dialout (ce_at v i)) (ce_keypad (ce_at v i))) v"
      using r by (simp add: sendm_connect_req_def c Let_def u_def [symmetric] v_def [symmetric])
    moreover have "ce_at u i = (ce_at s i)\<lparr>ce_cdid := c\<rparr>"
      using i by (simp add: u_def ce_at_def ce_upd_def)
    ultimately show ?thesis
      by (simp add: v c)
  next
    case False
    then have "t = ce_upd i (\<lambda>ce. ce\<lparr>ce_cdid := CDID_UNUSED\<rparr>) (s\<lparr>d_cdids := tl (d_cdids s)\<rparr>)" "failed"
      using r by (auto simp: sendm_connect_req_def split: list.splits option.splits)
    moreover from this have "state_at t i = state_at s i"
      using i by (simp add: ce_at_def ce_upd_def)
    ultimately show ?thesis
      using upd by simp
  qed
qed

text \<open>A call is under way with a new descriptor, or the entry rests.\<close>

definition dialled :: "nat \<Rightarrow> isdnd \<Rightarrow> isdnd \<Rightarrow> bool" where
  "dialled i s t \<longleftrightarrow> quiet_st (state_at t i) \<or>
     (state_at t i = ST_DIAL \<and> d_cdids s = Some (ce_cdid (ce_at t i)) # d_cdids t)"

lemma only_keypad: "i < length (d_entries s) \<Longrightarrow> only i s (clear_keypad i s)"
  unfolding clear_keypad_def by (rule only_upd) (simp_all add: entry_simps)

lemma clear_keypad_at [simp]:
  assumes "i < length (d_entries s)"
  shows "state_at (clear_keypad i s) i = state_at s i" "ce_cdid (ce_at (clear_keypad i s) i) = ce_cdid (ce_at s i)"
    "d_cdids (clear_keypad i s) = d_cdids s" "length (d_entries (clear_keypad i s)) = length (d_entries s)"
  using assms by (simp_all add: clear_keypad_def)

lemma dialled_keypad: "i < length (d_entries t) \<Longrightarrow> dialled i s t \<Longrightarrow> dialled i s (clear_keypad i t)"
  by (simp add: dialled_def)

lemma dial_code_only:
  assumes i: "i < length (d_entries s)"
  shows "only i s (dial_code i s) \<and> dialled i s (dial_code i s)"
proof -
  define u where "u = ce_upd i (\<lambda>ce. ce\<lparr>ce_isdncontrollerused := cs_isdncontroller (ce_conf ce),
                      ce_isdnchannelused := cs_isdnchannel (ce_conf ce), ce_disc_cause := I4B_CAUSE_NORMAL,
                      ce_disc_remote := False, ce_charge := 0, ce_last_charge := 0,
                      ce_unitlength := get_current_rate (d_unit_length s) (d_rates s) (d_tm s) ce,
                      ce_dir_incoming := False\<rparr>) s"
  obtain v failed where v: "sendm_connect_req i u = (v, failed)"
    by fastforce
  define w where "w = (if cs_inout (conf_at s i) = DIR_INONLY then cep_set_state i ST_IDLE 0 0 (response_to_user i DSTAT_INONLY s)
       else if \<not> isvalidtime (d_holidays s) (d_tm s) (conf_at s i)
       then cep_set_state i ST_IDLE 0 0 (response_to_user i DSTAT_NO_ENTRY s)
       else if failed then dial_fail_code i v else cep_set_state i ST_DIAL 0 0 v)"
  have code: "dial_code i s = clear_keypad i w"
    unfolding dial_code_def w_def Let_def u_def [symmetric] v by simp
  have u: "only i s u" "i < length (d_entries u)" "d_cdids u = d_cdids s"
    unfolding u_def by (rule only_upd) (use i in \<open>simp_all add: entry_simps\<close>)
  note req = sendm_connect_req_only [OF u(2) v]
  have sv: "only i s v" "i < length (d_entries v)"
    using only_trans [OF u(1)] req u(2) only_length by auto
  have "only i s w \<and> dialled i s w"
  proof -
    have idle: "only i s (cep_set_state i ST_IDLE 0 0 (response_to_user i DSTAT_INONLY s))"
      "only i s (cep_set_state i ST_IDLE 0 0 (response_to_user i DSTAT_NO_ENTRY s))"
      by (rule only_idle; use i in simp)+
    have fail: "only i s (dial_fail_code i v)" "quiet_st (state_at (dial_fail_code i v) i)"
      using only_trans [OF sv(1)] dial_fail_only [OF sv(2)] by blast+
    have dial: "only i s (cep_set_state i ST_DIAL 0 0 v)"
      using only_trans [OF sv(1) only_set_state [OF sv(2)]] by simp
    have cdid: "ce_cdid (ce_at (cep_set_state i ST_DIAL 0 0 v) i) = ce_cdid (ce_at v i)" "d_cdids (cep_set_state i ST_DIAL 0 0 v) = d_cdids v"
      using sv(2) by (simp_all add: cep_set_state_def)
    show ?thesis
      using idle fail dial cdid req u(3) i sv(2) by (simp add: w_def dialled_def)
  qed
  moreover from this have "i < length (d_entries w)"
    using i only_length by metis
  ultimately show ?thesis
    unfolding code using only_trans [OF _ only_keypad] dialled_keypad by blast
qed

lemma ev_dial_from_user_only:
  assumes i: "i < length (d_entries s)"
  shows "only i s (ev_dial_from_user i s) \<and> (ev_dial_from_user i s = s \<or> dialled i s (ev_dial_from_user i s))"
proof (cases "state_at s i = ST_IDLE")
  case False
  then show ?thesis
    by (simp add: ev_dial_from_user_def only_refl)
next
  case True
  define u where "u = ce_upd i (\<lambda>ce. select_first_dialno (ce\<lparr>ce_budget_calltype := BUDGET_NONE, ce_dial_count := 0\<rparr>)) s"
  have "cep_ok ce \<Longrightarrow> cep_ok (select_first_dialno (ce\<lparr>ce_budget_calltype := BUDGET_NONE, ce_dial_count := 0\<rparr>))" for ce
    by (intro cep_ok_select) (simp add: entry_simps)
  then have u: "only i s u" "i < length (d_entries u)" "d_cdids u = d_cdids s"
    unfolding u_def by (intro only_upd) (use i in simp_all)
  have budget: "only i s (ce_upd i (\<lambda>ce. ce\<lparr>ce_budget_calltype := bt\<rparr>) u)"
    if "bt = BUDGET_TYPE_CBACK \<and> ce_budget_callbackncalls_cnt (ce_at u i) \<noteq> 0 \<or>
        bt = BUDGET_TYPE_COUT \<and> ce_budget_calloutncalls_cnt (ce_at u i) \<noteq> 0" for bt
    by (rule only_trans [OF u(1) only_upd]) (use u(2) that in \<open>auto simp: entry_simps\<close>)
  have wait: "only i s (cep_set_state i ST_DIAL_FAIL a b t) \<and> dialled i s (cep_set_state i ST_DIAL_FAIL a b t)"
    if "only i s t" for t a b
    using only_trans [OF that only_set_state] only_length [OF that] i by (simp add: dialled_def)
  have fail: "only i s (dial_fail_code i u) \<and> dialled i s (dial_fail_code i u)"
    using only_trans [OF u(1)] dial_fail_only [OF u(2)] by (auto simp: dialled_def)
  have dial: "only i s (dial_code i t) \<and> dialled i s (dial_code i t)" if "only i s t" "d_cdids t = d_cdids s" for t
    using only_trans [OF that(1)] dial_code_only [of i t] only_length [OF that(1)] i that(2) by (simp add: dialled_def)
  show ?thesis
    using wait [OF u(1)] wait [OF budget] fail dial [OF u(1,3)] dial [OF budget] u(3) True
    unfolding ev_dial_from_user_def Let_def u_def [symmetric] by simp
qed

lemma ev_dial_from_i4b_only:
  assumes i: "i < length (d_entries s)"
  shows "only i s (ev_dial_from_i4b i s) \<and> (ev_dial_from_i4b i s = s \<or> dialled i s (ev_dial_from_i4b i s))"
  using dial_code_only [OF i] by (simp add: ev_dial_from_i4b_def only_refl)

section \<open>The end of a call\<close>

text \<open>Clearing the descriptor does not hide that the entry became idle.\<close>

lemma only_cdid:
  assumes "i < length (d_entries s)"
  shows "only i s (ce_upd i (\<lambda>ce. ce\<lparr>ce_cdid := c\<rparr>) s)"
  by (rule only_upd) (use assms in \<open>simp_all add: entry_simps\<close>)

lemma only_idle_from:
  assumes "only i s t" "i < length (d_entries s)" "d \<noteq> DSTAT_CONNECTED" "d \<noteq> DSTAT_INCOMING_CALL"
  shows "only i s (cep_set_state i ST_IDLE a b (response_to_user i d t))"
  using only_trans [OF assms(1) only_idle] only_length [OF assms(1)] assms(2-4) by simp

lemma disconnect_entry_only:
  assumes i: "i < length (d_entries s)"
  shows "only i s (disconnect_entry cause i s) \<and> quiet_st (state_at (disconnect_entry cause i s) i)"
proof -
  define s1 where "s1 = ce_upd i (\<lambda>ce. ce\<lparr>ce_disc_cause := cause, ce_disc_remote := True\<rparr>) s"
  define s2 where "s2 = (if state_at s1 i = ST_DIAL then dial_fail_code i s1 else s1)"
  define s3 where "s3 = (if state_at s2 i = ST_CONNECTED
     then cep_set_state i ST_IDLE 0 0 (response_to_user i DSTAT_NOT_CONNECTED (disconnect_code i s2)) else s2)"
  define s4 where "s4 = (if state_at s3 i = ST_INCOMING \<or> state_at s3 i = ST_WAIT_CONNECT
     then cep_set_state i ST_IDLE 0 0 (response_to_user i DSTAT_NOT_CONNECTED s3) else s3)"
  have code: "disconnect_entry cause i s = ce_upd i (\<lambda>ce. ce\<lparr>ce_cdid := CDID_UNUSED\<rparr>) s4"
    unfolding disconnect_entry_def Let_def s4_def s3_def s2_def s1_def by simp
  have 1: "only i s s1" "i < length (d_entries s1)"
    unfolding s1_def by (rule only_upd) (use i in \<open>simp_all add: entry_simps\<close>)
  have 2: "only i s s2"
    using dial_fail_only [OF 1(2)] only_trans [OF 1(1)] 1(1) by (simp add: s2_def)
  have l2: "i < length (d_entries s2)"
    using only_length [OF 2] i by simp
  have 3: "only i s s3"
    using only_idle_from [OF only_trans [OF 2] i] disconnect_code_only [OF l2] 2 by (simp add: s3_def)
  have l3: "i < length (d_entries s3)"
    using only_length [OF 3] i by simp
  have 4: "only i s s4"
    using only_idle_from [OF 3 i] 3 by (simp add: s4_def)
  have l4: "i < length (d_entries s4)"
    using only_length [OF 4] i by simp
  have ld: "i < length (d_entries (disconnect_code i s2))"
    using disconnect_code_only [OF l2] only_length l2 by metis
  have "state_at s2 i \<noteq> ST_DIAL"
    using dial_fail_only [OF 1(2)] by (auto simp: s2_def)
  then have "state_at s3 i \<noteq> ST_DIAL" "state_at s3 i \<noteq> ST_CONNECTED"
    using ld by (auto simp: s3_def)
  then have "quiet_st (state_at s4 i)"
    using l3 by (cases "state_at s3 i") (auto simp: s4_def quiet_st_def)
  then show ?thesis
    using only_trans [OF 4 only_cdid [OF l4]] l4 by (simp add: code)
qed

lemma ev_disconnect_from_user_only:
  assumes i: "i < length (d_entries s)"
  shows "only i s (ev_disconnect_from_user i s) \<and> state_at (ev_disconnect_from_user i s) i = ST_IDLE"
proof -
  define s1 where "s1 = ce_upd i (\<lambda>ce. ce\<lparr>ce_disc_cause := I4B_CAUSE_NORMAL, ce_disc_remote := False\<rparr>) s"
  define s2 where "s2 = (if state_at s1 i = ST_DIAL \<or> state_at s1 i = ST_WAIT_CONNECT \<or> state_at s1 i = ST_CONNECTED
               then sendm_disconnect_req i I4B_CAUSE_NORMAL s1 else s1)"
  define s3 where "s3 = (if state_at s2 i = ST_CONNECTED then disconnect_code i s2 else s2)"
  define s4 where "s4 = cep_set_state i ST_IDLE 0 0 (response_to_user i DSTAT_NOT_CONNECTED s3)"
  have code: "ev_disconnect_from_user i s = ce_upd i (\<lambda>ce. ce\<lparr>ce_cdid := CDID_UNUSED\<rparr>) s4"
    unfolding ev_disconnect_from_user_def Let_def s4_def s3_def s2_def s1_def by simp
  have 1: "only i s s1"
    unfolding s1_def by (rule only_upd) (use i in \<open>simp_all add: entry_simps\<close>)
  have 2: "only i s s2"
    using only_trans [OF 1 only_log] 1 by (simp add: s2_def sendm_disconnect_req_def)
  have l2: "i < length (d_entries s2)"
    using only_length [OF 2] i by simp
  have 3: "only i s s3"
    using only_trans [OF 2] disconnect_code_only [OF l2] 2 by (simp add: s3_def)
  have 4: "only i s s4"
    using only_idle_from [OF 3 i] by (simp add: s4_def)
  have l4: "i < length (d_entries s3)" "i < length (d_entries s4)"
    using only_length [OF 3] only_length [OF 4] i by simp_all
  then have "state_at s4 i = ST_IDLE"
    by (simp add: s4_def)
  then show ?thesis
    using only_trans [OF 4 only_cdid [OF l4(2)]] l4 by (simp add: code)
qed

end
