(* ===== verification/Isdnd_Calls.thy ===== *)
theory Isdnd_Calls
  imports Isdnd_Steps
begin

unbundle bit_operations_syntax

text \<open>
  The invariant of the daemon and its preservation by the events of a call: an entry that dials, waits for its
  connection or is connected shares its call descriptor with no other entry that takes part in a call; the
  descriptors the kernel still hands out belong to no entry in a call; every entry is well formed.
\<close>

section \<open>The invariant\<close>

definition live_st :: "cep_state \<Rightarrow> bool" where
  "live_st st \<longleftrightarrow> st = ST_DIAL \<or> st = ST_WAIT_CONNECT \<or> st = ST_CONNECTED"

lemma live_st_simps [simp]: "\<not> live_st ST_IDLE" "\<not> live_st ST_DIAL_FAIL" "live_st ST_DIAL" "\<not> live_st ST_INCOMING"
  "live_st ST_WAIT_CONNECT" "live_st ST_CONNECTED"
  by (simp_all add: live_st_def)

lemma live_not_quiet: "live_st st \<Longrightarrow> \<not> quiet_st st"
  by (auto simp: live_st_def)

definition one_call :: "isdnd \<Rightarrow> bool" where
  "one_call s \<longleftrightarrow> (\<forall>i<length (d_entries s). \<forall>j<length (d_entries s).
     i \<noteq> j \<longrightarrow> ce_cdid (ce_at s i) = ce_cdid (ce_at s j) \<longrightarrow> live_st (state_at s i) \<longrightarrow> quiet_st (state_at s j))"

definition cdids_fresh :: "isdnd \<Rightarrow> bool" where
  "cdids_fresh s \<longleftrightarrow> distinct (filter (\<lambda>x. x \<noteq> None) (d_cdids s)) \<and>
     (\<forall>j<length (d_entries s). \<not> quiet_st (state_at s j) \<longrightarrow> Some (ce_cdid (ce_at s j)) \<notin> set (d_cdids s))"

definition isdnd_inv :: "isdnd \<Rightarrow> bool" where
  "isdnd_inv s \<longleftrightarrow> one_call s \<and> cdids_fresh s \<and> (\<forall>j<length (d_entries s). cep_ok (ce_at s j))"

lemma distinct_filter_drop: "distinct (filter P xs) \<Longrightarrow> distinct (filter P (drop k xs))"
  by (metis append_take_drop_id distinct_append filter_append)

lemma evolvesD:
  assumes "evolves s t"
  shows "length (d_entries t) = length (d_entries s)" "j < length (d_entries s) \<Longrightarrow> conf_at t j = conf_at s j"
    "j < length (d_entries s) \<Longrightarrow> cep_ok (ce_at s j) \<Longrightarrow> cep_ok (ce_at t j)" "set (d_cdids t) \<subseteq> set (d_cdids s)"
    "distinct (filter P (d_cdids s)) \<Longrightarrow> distinct (filter P (d_cdids t))"
  using assms by (auto simp: evolves_def distinct_filter_drop dest: in_set_dropD)

lemma inv_mono:
  assumes "evolves s t" "isdnd_inv s"
    "\<And>j. j < length (d_entries s) \<Longrightarrow> quiet_st (state_at t j) \<or>
       (\<not> quiet_st (state_at s j) \<and> ce_cdid (ce_at t j) = ce_cdid (ce_at s j) \<and> (live_st (state_at t j) \<longrightarrow> live_st (state_at s j)))"
  shows "isdnd_inv t"
proof -
  note e = evolvesD [OF assms(1)]
  have "one_call t"
    unfolding one_call_def e(1)
  proof (intro allI impI)
    fix i j
    assume *: "i < length (d_entries s)" "j < length (d_entries s)" "i \<noteq> j" "ce_cdid (ce_at t i) = ce_cdid (ce_at t j)" "live_st (state_at t i)"
    then have i: "ce_cdid (ce_at t i) = ce_cdid (ce_at s i)" "live_st (state_at s i)"
      using assms(3) live_not_quiet by blast+
    show "quiet_st (state_at t j)"
    proof (rule ccontr)
      assume "\<not> quiet_st (state_at t j)"
      then have "\<not> quiet_st (state_at s j)" "ce_cdid (ce_at t j) = ce_cdid (ce_at s j)"
        using assms(3) *(2) by blast+
      then show False
        using assms(2) i * by (simp add: isdnd_inv_def one_call_def)
    qed
  qed
  moreover have "cdids_fresh t"
    using assms(2,3) e(1,4,5) unfolding isdnd_inv_def cdids_fresh_def by (metis subset_iff)
  ultimately show ?thesis
    using assms(2) e(1,3) by (simp add: isdnd_inv_def)
qed

lemma inv_only:
  assumes "only i s t" "isdnd_inv s"
    "quiet_st (state_at t i) \<or> (\<not> quiet_st (state_at s i) \<and> ce_cdid (ce_at t i) = ce_cdid (ce_at s i) \<and>
       (live_st (state_at t i) \<longrightarrow> live_st (state_at s i)))"
  shows "isdnd_inv t"
proof (rule inv_mono [OF _ assms(2)])
  show "evolves s t"
    using assms(1) by (simp add: only_def)
  fix j
  assume "j < length (d_entries s)"
  then show "quiet_st (state_at t j) \<or> (\<not> quiet_st (state_at s j) \<and> ce_cdid (ce_at t j) = ce_cdid (ce_at s j) \<and>
       (live_st (state_at t j) \<longrightarrow> live_st (state_at s j)))"
    using assms(1,3) unfolding only_def by (cases "j = i") auto
qed

lemma inv_dialled:
  assumes o: "only i s t" and inv: "isdnd_inv s" and i: "i < length (d_entries s)" and d: "dialled i s t"
  shows "isdnd_inv t"
proof (cases "quiet_st (state_at t i)")
  case True
  then show ?thesis
    using inv_only [OF o inv] by blast
next
  case False
  then have t: "state_at t i = ST_DIAL" "d_cdids s = Some (ce_cdid (ce_at t i)) # d_cdids t"
    using d by (auto simp: dialled_def)
  have other: "ce_at t j = ce_at s j" if "j < length (d_entries s)" "j \<noteq> i" for j
    using o that by (simp add: only_def)
  have fresh: "quiet_st (state_at s j)" if "j < length (d_entries s)" "ce_cdid (ce_at s j) = ce_cdid (ce_at t i)" for j
    using inv that t(2) by (auto simp: isdnd_inv_def cdids_fresh_def)
  note len = only_length [OF o]
  have "one_call t"
    unfolding one_call_def len
  proof (intro allI impI)
    fix a b
    assume *: "a < length (d_entries s)" "b < length (d_entries s)" "a \<noteq> b" "ce_cdid (ce_at t a) = ce_cdid (ce_at t b)" "live_st (state_at t a)"
    show "quiet_st (state_at t b)"
    proof (cases "a = i \<or> b = i")
      case True
      then show ?thesis
        using * fresh [of a] fresh [of b] other [of a] other [of b] live_not_quiet by auto
    next
      case False
      then show ?thesis
        using * other inv by (simp add: isdnd_inv_def one_call_def)
    qed
  qed
  moreover have "cdids_fresh t"
    unfolding cdids_fresh_def len
  proof (intro conjI allI impI)
    have d: "distinct (filter (\<lambda>x. x \<noteq> None) (d_cdids s))"
      using inv by (simp add: isdnd_inv_def cdids_fresh_def)
    then show "distinct (filter (\<lambda>x. x \<noteq> None) (d_cdids t))"
      by (simp add: t(2))
    fix j
    assume j: "j < length (d_entries s)" "\<not> quiet_st (state_at t j)"
    show "Some (ce_cdid (ce_at t j)) \<notin> set (d_cdids t)"
    proof (cases "j = i")
      case True
      then show ?thesis
        using d by (auto simp: t(2))
    next
      case False
      then have "Some (ce_cdid (ce_at s j)) \<notin> set (d_cdids s)"
        using j other inv by (simp add: isdnd_inv_def cdids_fresh_def)
      then show ?thesis
        using False j other by (simp add: t(2))
    qed
  qed
  ultimately show ?thesis
    using inv len o by (simp add: isdnd_inv_def only_def evolves_def)
qed

section \<open>Disconnects\<close>

lemma only_evolves: "only i s t \<Longrightarrow> evolves s t"
  by (simp add: only_def)

lemma disconnect_loop_result:
  assumes "distinct is" "set is \<subseteq> {..<length (d_entries s)}"
  shows "evolves s (disconnect_loop cdid cause exc is s) \<and>
    (\<forall>j<length (d_entries s). if j \<in> set is \<and> ce_cdid (ce_at s j) = cdid \<and> exc \<noteq> Some j
       then quiet_st (state_at (disconnect_loop cdid cause exc is s) j)
       else ce_at (disconnect_loop cdid cause exc is s) j = ce_at s j)"
  using assms
proof (induction "is" arbitrary: s)
  case Nil
  then show ?case
    by (simp add: evolves_refl)
next
  case (Cons i "is")
  define t where "t = (if ce_cdid (ce_at s i) = cdid \<and> exc \<noteq> Some i then disconnect_entry cause i s else s)"
  have i: "i < length (d_entries s)"
    using Cons.prems(2) by simp
  have t: "only i s t" "ce_cdid (ce_at s i) = cdid \<Longrightarrow> exc \<noteq> Some i \<Longrightarrow> quiet_st (state_at t i)"
    "\<not> (ce_cdid (ce_at s i) = cdid \<and> exc \<noteq> Some i) \<Longrightarrow> t = s"
    using disconnect_entry_only [OF i, of cause] by (auto simp: t_def only_refl)
  have len: "length (d_entries t) = length (d_entries s)"
    by (rule only_length [OF t(1)])
  have other: "ce_at t j = ce_at s j" if "j < length (d_entries s)" "j \<noteq> i" for j
    using t(1) that by (simp add: only_def)
  let ?u = "disconnect_loop cdid cause exc is t"
  have IH: "evolves t ?u" "\<And>j. j < length (d_entries s) \<Longrightarrow> (if j \<in> set is \<and> ce_cdid (ce_at t j) = cdid \<and> exc \<noteq> Some j
       then quiet_st (state_at ?u j) else ce_at ?u j = ce_at t j)"
    using Cons.IH [of t] Cons.prems len by auto
  have "if j \<in> set (i # is) \<and> ce_cdid (ce_at s j) = cdid \<and> exc \<noteq> Some j then quiet_st (state_at ?u j) else ce_at ?u j = ce_at s j"
    if j: "j < length (d_entries s)" for j
  proof (cases "j = i")
    case True
    then have "ce_at ?u i = ce_at t i"
      using IH(2) [OF i] Cons.prems(1) by simp
    then show ?thesis
      using t True by auto
  next
    case False
    then show ?thesis
      using IH(2) [OF j] other [OF j] by (auto split: if_splits)
  qed
  moreover have "evolves s ?u"
    using evolves_trans [OF only_evolves [OF t(1)] IH(1)] .
  moreover have "disconnect_loop cdid cause exc (i # is) s = ?u"
    by (simp add: t_def)
  ultimately show ?case
    by simp
qed

lemma disconnect_from_i4b_result:
  "evolves s (ev_disconnect_from_i4b cdid cause exc s)"
  "j < length (d_entries s) \<Longrightarrow> ce_cdid (ce_at s j) = cdid \<Longrightarrow> exc \<noteq> Some j \<Longrightarrow> quiet_st (state_at (ev_disconnect_from_i4b cdid cause exc s) j)"
  "j < length (d_entries s) \<Longrightarrow> ce_cdid (ce_at s j) \<noteq> cdid \<or> exc = Some j \<Longrightarrow> ce_at (ev_disconnect_from_i4b cdid cause exc s) j = ce_at s j"
  using disconnect_loop_result [of "[0..<length (d_entries s)]" s cdid cause exc]
  by (auto simp: ev_disconnect_from_i4b_def atLeast0LessThan)

lemma disconnect_from_i4b_inv: "isdnd_inv s \<Longrightarrow> isdnd_inv (ev_disconnect_from_i4b cdid cause exc s)"
proof (rule inv_mono [OF disconnect_from_i4b_result(1)])
  fix j
  let ?t = "ev_disconnect_from_i4b cdid cause exc s"
  assume j: "j < length (d_entries s)"
  show "quiet_st (state_at ?t j) \<or> (\<not> quiet_st (state_at s j) \<and> ce_cdid (ce_at ?t j) = ce_cdid (ce_at s j) \<and>
      (live_st (state_at ?t j) \<longrightarrow> live_st (state_at s j)))"
    using disconnect_from_i4b_result(2,3) [OF j, of cdid exc cause] by metis
qed

section \<open>Connections\<close>

lemma cep_ok_charge: "cep_ok ce \<Longrightarrow> cep_ok (charge_budget ce)"
  by (cases "ce_budget_calltype ce") (auto simp: charge_budget_def entry_simps)

lemma charge_budget_fields [simp]: "ce_state (charge_budget ce) = ce_state ce" "ce_conf (charge_budget ce) = ce_conf ce"
  "ce_cdid (charge_budget ce) = ce_cdid ce"
  by (simp_all add: charge_budget_def split: budget_type.splits)

lemma exec_answer_only:
  assumes i: "i < length (d_entries s)"
  shows "only i s (exec_answer i s) \<and> state_at (exec_answer i s) i = state_at s i \<and> ce_cdid (ce_at (exec_answer i s) i) = ce_cdid (ce_at s i)"
proof -
  define t where "t = d_log (Run_answer_prog i) (s\<lparr>d_pids := tl (d_pids s)\<rparr>)"
  have t: "only i s t" "ce_at t = ce_at s" "d_entries t = d_entries s"
    by (auto simp: t_def d_log_def ce_at_def fun_eq_iff intro!: only_silent exI [of _ 0])
  define f :: "int \<Rightarrow> cfg_entry \<Rightarrow> cfg_entry" where "f = (\<lambda>pid ce. ce\<lparr>ce_answerpid := pid\<rparr>)"
  have "only i s (ce_upd i (f pid) t)" for pid
    by (rule only_trans [OF t(1) only_upd]) (use i t in \<open>simp_all add: f_def entry_simps\<close>)
  moreover have "exec_answer i s = (if \<not> cs_answerprog (conf_at s i) then s
     else let pid = (case d_pids s of [] \<Rightarrow> - 1 | p # _ \<Rightarrow> p) in if pid \<noteq> 0 \<and> pid \<noteq> - 1 then ce_upd i (f pid) t else t)"
    by (simp add: exec_answer_def Let_def t_def f_def)
  ultimately show ?thesis
    using t i by (simp add: Let_def only_refl f_def)
qed

lemma connected_only:
  assumes i: "i < length (d_entries s)"
  shows "only i s (connected_code i cdid channel s) \<and> state_at (connected_code i cdid channel s) i = ST_CONNECTED \<and>
    ce_cdid (ce_at (connected_code i cdid channel s) i) = ce_cdid (ce_at s i)"
proof -
  define s1 where "s1 = response_to_user i DSTAT_CONNECTED (d_log (Link_b_channel_driver cdid) s)"
  define mct where "mct = cs_maxconnecttime (conf_at s1 i)"
  define s2 where "s2 = cep_set_state i ST_CONNECTED mct (if 0 < mct then 1 else 0) s1"
  define s3 where "s3 = ce_upd i (\<lambda>ce. ce\<lparr>ce_isdncontrollerused := CDID2CONTROLLER cdid, ce_isdnchannelused := channel,
                 ce_aoc_now := d_now s2, ce_aoc_last := 0, ce_aoc_diff := 0, ce_aoc_valid := False\<rparr>) s2"
  define s4 where "s4 = set_channel_state (CDID2CONTROLLER cdid) channel True s3"
  have code: "connected_code i cdid channel s = (if ce_dir_incoming (ce_at s4 i)
         then if cs_dialin_reaction (conf_at s4 i) = REACT_ANSWER then exec_answer i s4 else s4
         else ce_upd i (\<lambda>ce. select_this_dialno (charge_budget ce)) s4)"
    unfolding connected_code_def Let_def s4_def s3_def s2_def s1_def mct_def by simp
  have 1: "only i s s1" "d_entries s1 = d_entries s"
    using only_trans [OF only_log only_log] by (simp_all add: s1_def response_to_user_def)
  have 2: "only i s s2" "i < length (d_entries s2)"
    using only_trans [OF 1(1) only_set_state] 1(2) i by (simp_all add: s2_def)
  have 3: "only i s s3"
    unfolding s3_def by (rule only_trans [OF 2(1) only_upd]) (use 2(2) in \<open>simp_all add: entry_simps\<close>)
  have 4: "only i s s4"
    using only_trans [OF 3 only_channel] by (simp add: s4_def)
  have l: "i < length (d_entries s4)"
    using only_length [OF 4] i by simp
  have st: "state_at s4 i = ST_CONNECTED" "ce_cdid (ce_at s4 i) = ce_cdid (ce_at s i)"
    using 2(2) 1(2) i by (simp_all add: s4_def s3_def s2_def s1_def cep_set_state_def)
  have "only i s4 (ce_upd i (\<lambda>ce. select_this_dialno (charge_budget ce)) s4)"
    by (rule only_upd) (use l in \<open>simp_all add: cep_ok_select cep_ok_charge\<close>)
  then show ?thesis
    using exec_answer_only [OF l] 4 st l only_trans [OF 4] by (simp add: code)
qed

lemma connect_from_i4b_inv:
  assumes inv: "isdnd_inv s"
  shows "isdnd_inv (ev_connect_from_i4b cdid channel s) \<and> evolves s (ev_connect_from_i4b cdid channel s)"
proof (cases "get_cep_by_cdid s cdid")
  case None
  then show ?thesis
    using inv by (simp add: ev_connect_from_i4b_def evolves_refl)
next
  case (Some i)
  then have i: "i < length (d_entries s)"
    unfolding get_cep_by_cdid_def by (blast dest: find_index_Some)
  define t where "t = (if state_at s i = ST_DIAL \<and> CEP_IS_CALLED_BACK (ce_at s i) then ev_disconnect_from_user i s else s)"
  have t: "only i s t" "isdnd_inv t"
    using ev_disconnect_from_user_only [OF i] inv inv_only [of i s] by (auto simp: t_def only_refl)
  have l: "i < length (d_entries t)"
    using only_length [OF t(1)] i by simp
  note c = connected_only [OF l, of cdid channel]
  have "isdnd_inv (connected_code i cdid channel t)" if "state_at t i = ST_WAIT_CONNECT \<or> state_at t i = ST_DIAL"
    using inv_only [of i t] c t(2) that by auto
  moreover have "evolves s (connected_code i cdid channel t)" "evolves s t"
    using evolves_trans only_evolves t(1) c by blast+
  ultimately show ?thesis
    using t(2) by (simp add: ev_connect_from_i4b_def Some Let_def t_def [symmetric])
qed

lemma connect_from_user_inv:
  assumes inv: "isdnd_inv s" and i: "i < length (d_entries s)"
  shows "isdnd_inv (ev_connect_from_user i s) \<and> evolves s (ev_connect_from_user i s)"
proof (cases "state_at s i = ST_INCOMING")
  case False
  then show ?thesis
    using inv by (simp add: ev_connect_from_user_def evolves_refl)
next
  case True
  define t where "t = cep_set_state i ST_WAIT_CONNECT TIMEOUT_CONNECT_ACTIVE 1 (sendm_connect_accept i s)"
  define c where "c = ce_cdid (ce_at s i)"
  define u where "u = ev_disconnect_from_i4b c I4B_CAUSE_NORMAL (Some i) t"
  have code: "ev_connect_from_user i s = u"
    using True by (simp add: ev_connect_from_user_def u_def t_def c_def)
  have t: "only i s t"
    using only_trans [OF only_log only_set_state] i by (simp add: t_def sendm_connect_accept_def)
  have ti: "ce_at t i = (ce_at s i)\<lparr>ce_state := ST_WAIT_CONNECT, ce_last_set_state_time := d_now s, ce_waitfunc := 1, ce_waittime := TIMEOUT_CONNECT_ACTIVE\<rparr>"
    using i by (simp add: t_def cep_set_state_def sendm_connect_accept_def)
  have other: "ce_at t j = ce_at s j" if "j < length (d_entries s)" "j \<noteq> i" for j
    using t that by (simp add: only_def)
  note len = only_length [OF t]
  have e: "evolves s u"
    using evolves_trans [OF only_evolves [OF t] disconnect_from_i4b_result(1)] by (simp add: u_def)
  have ui: "ce_at u i = ce_at t i"
    using disconnect_from_i4b_result(3) [of i t c "Some i"] len i by (simp add: u_def)
  have uj: "quiet_st (state_at u j) \<or> ce_cdid (ce_at s j) \<noteq> c \<and> ce_at u j = ce_at s j" if "j < length (d_entries s)" "j \<noteq> i" for j
    using disconnect_from_i4b_result(2,3) [of j t c "Some i" I4B_CAUSE_NORMAL] that len other [OF that] by (auto simp: u_def)
  have "one_call u"
    unfolding one_call_def evolvesD(1) [OF e]
  proof (intro allI impI)
    fix a b
    assume *: "a < length (d_entries s)" "b < length (d_entries s)" "a \<noteq> b" "ce_cdid (ce_at u a) = ce_cdid (ce_at u b)" "live_st (state_at u a)"
    show "quiet_st (state_at u b)"
    proof (cases "a = i \<or> b = i")
      case True
      then show ?thesis
        using * uj [of a] uj [of b] ui ti live_not_quiet by (auto simp: c_def)
    next
      case False
      then show ?thesis
        using * uj [of a] uj [of b] inv live_not_quiet by (auto simp: isdnd_inv_def one_call_def)
    qed
  qed
  moreover have "cdids_fresh u"
    unfolding cdids_fresh_def evolvesD(1) [OF e]
  proof (intro conjI allI impI)
    show "distinct (filter (\<lambda>x. x \<noteq> None) (d_cdids u))"
      using evolvesD(5) [OF e] inv by (simp add: isdnd_inv_def cdids_fresh_def)
    fix j
    assume j: "j < length (d_entries s)" "\<not> quiet_st (state_at u j)"
    then have "\<not> quiet_st (state_at s j)" "ce_cdid (ce_at u j) = ce_cdid (ce_at s j)"
      using uj [of j] ui ti True by (cases "j = i"; auto)+
    then show "Some (ce_cdid (ce_at u j)) \<notin> set (d_cdids u)"
      using inv j(1) evolvesD(4) [OF e] by (auto simp: isdnd_inv_def cdids_fresh_def)
  qed
  ultimately show ?thesis
    using inv e evolvesD(1,3) [OF e] by (simp add: isdnd_inv_def code)
qed

lemma reject_from_user_inv:
  assumes inv: "isdnd_inv s" and i: "i < length (d_entries s)"
  shows "isdnd_inv (ev_reject_from_user i s) \<and> evolves s (ev_reject_from_user i s)"
proof -
  define t where "t = sendm_connect_reject i I4B_CAUSE_REJECT s"
  have t: "only i s t" "ce_at t = ce_at s"
    by (simp_all add: t_def sendm_connect_reject_def only_log)
  have "isdnd_inv t"
    using inv_mono [OF only_evolves [OF t(1)] inv] by (auto simp: t(2))
  then have "isdnd_inv (ev_disconnect_from_i4b c e x t)" "evolves s (ev_disconnect_from_i4b c e x t)" for c e x
    using disconnect_from_i4b_inv evolves_trans [OF only_evolves [OF t(1)] disconnect_from_i4b_result(1)] by blast+
  then show ?thesis
    using inv by (simp add: ev_reject_from_user_def t_def [symmetric] evolves_refl)
qed

lemma dial_inv:
  assumes "isdnd_inv s" "i < length (d_entries s)"
  shows "isdnd_inv (ev_dial_from_user i s) \<and> evolves s (ev_dial_from_user i s)"
    "isdnd_inv (ev_dial_from_i4b i s) \<and> evolves s (ev_dial_from_i4b i s)"
  using ev_dial_from_user_only [OF assms(2)] ev_dial_from_i4b_only [OF assms(2)] inv_dialled [OF _ assms] assms(1) only_evolves
  by metis+

lemma disconnect_from_user_inv:
  assumes "isdnd_inv s" "i < length (d_entries s)"
  shows "isdnd_inv (ev_disconnect_from_user i s) \<and> evolves s (ev_disconnect_from_user i s)"
  using ev_disconnect_from_user_only [OF assms(2)] inv_only [OF _ assms(1), of i "ev_disconnect_from_user i s"] only_evolves
  by (metis quiet_st_simps(1))

section \<open>Incoming calls\<close>

text \<open>The descriptor of a new call is one that no call under way has, and the kernel does not hand it out again.\<close>

definition new_call :: "u32 \<Rightarrow> isdnd \<Rightarrow> bool" where
  "new_call c s \<longleftrightarrow> Some c \<notin> set (d_cdids s) \<and> (\<forall>j<length (d_entries s). ce_cdid (ce_at s j) = c \<longrightarrow> \<not> live_st (state_at s j))"

lemma new_call_evolves:
  assumes "evolves s t" "new_call c s" "\<And>j. j < length (d_entries s) \<Longrightarrow> live_st (state_at t j) \<Longrightarrow> ce_at t j = ce_at s j"
  shows "new_call c t"
proof -
  have "\<not> live_st (state_at t j)" if "j < length (d_entries s)" "ce_cdid (ce_at t j) = c" for j
    using assms(2,3) that unfolding new_call_def by metis
  then show ?thesis
    using evolvesD(1,4) [OF assms(1)] assms(2) by (auto simp: new_call_def)
qed

lemma new_call_only: "only i s t \<Longrightarrow> new_call c s \<Longrightarrow> \<not> live_st (state_at t i) \<Longrightarrow> new_call c t"
  by (rule new_call_evolves [of s]) (auto simp: only_def)

lemma take_incoming_only:
  assumes i: "i < length (d_entries s)"
  shows "only i s (take_incoming mp i s)" "state_at (take_incoming mp i s) i = ST_INCOMING"
    "ce_cdid (ce_at (take_incoming mp i s) i) = mci_cdid mp" "d_cdids (take_incoming mp i s) = d_cdids s"
proof -
  have l: "i < length (d_entries (cep_set_state i ST_INCOMING a b s))" for a b
    using i by simp
  show "only i s (take_incoming mp i s)"
    unfolding take_incoming_def
    by (rule only_trans [OF only_set_state [OF i] only_upd]) (use l in \<open>simp_all add: entry_simps\<close>)
  show "state_at (take_incoming mp i s) i = ST_INCOMING" "ce_cdid (ce_at (take_incoming mp i s) i) = mci_cdid mp"
    "d_cdids (take_incoming mp i s) = d_cdids s"
    using i by (simp_all add: take_incoming_def cep_set_state_def)
qed

lemma take_incoming_inv:
  assumes inv: "isdnd_inv s" and i: "i < length (d_entries s)" and q: "quiet_st (state_at s i)" and new: "new_call (mci_cdid mp) s"
  shows "isdnd_inv (take_incoming mp i s)"
proof -
  define t where "t = take_incoming mp i s"
  note t = take_incoming_only [OF i, of mp, folded t_def]
  have other: "ce_at t j = ce_at s j" if "j < length (d_entries s)" "j \<noteq> i" for j
    using t(1) that by (simp add: only_def)
  note len = only_length [OF t(1)]
  have "one_call t"
    unfolding one_call_def len
  proof (intro allI impI)
    fix a b
    assume *: "a < length (d_entries s)" "b < length (d_entries s)" "a \<noteq> b" "ce_cdid (ce_at t a) = ce_cdid (ce_at t b)" "live_st (state_at t a)"
    then have a: "a \<noteq> i"
      using t(2) by auto
    show "quiet_st (state_at t b)"
    proof (cases "b = i")
      case True
      then show ?thesis
        using new * other [of a] a t(3) by (auto simp: new_call_def)
    next
      case False
      then show ?thesis
        using * other a inv by (simp add: isdnd_inv_def one_call_def)
    qed
  qed
  moreover have "cdids_fresh t"
    using inv other t(3) new unfolding isdnd_inv_def cdids_fresh_def new_call_def len t(4) by metis
  ultimately show ?thesis
    using inv t(1) len unfolding t_def [symmetric] by (simp add: isdnd_inv_def only_def evolves_def)
qed

lemma alert_only: "only i s (ev_alert_from_user i s)" "ce_at (ev_alert_from_user i s) = ce_at s"
  by (simp_all add: ev_alert_from_user_def sendm_alert_req_def only_log only_refl)

lemma incoming_connect_inv:
  assumes inv: "isdnd_inv s" and i: "i < length (d_entries s)" and q: "quiet_st (state_at s i)" and new: "new_call (mci_cdid mp) s"
    and r: "incoming_connect mp i s = (u, ready)"
  shows "isdnd_inv u \<and> evolves s u \<and> (\<not> ready \<longrightarrow> new_call (mci_cdid mp) u)"
proof -
  define t where "t = take_incoming mp i s"
  note t = take_incoming_only [OF i, of mp, folded t_def]
  have inv_t: "isdnd_inv t"
    using take_incoming_inv [OF inv i q new] by (simp add: t_def)
  have i_t: "i < length (d_entries t)"
    using only_length [OF t(1)] i by simp
  have new_t: "new_call (mci_cdid mp) t"
    using new_call_only [OF t(1) new] t(2) by simp
  note e_t = only_evolves [OF t(1)]
  note conn = connect_from_user_inv [OF inv_t i_t]
  note rej = reject_from_user_inv [OF inv_t i_t]
  note ign = disconnect_from_user_inv [OF inv_t i_t] new_call_only [OF _ new_t] ev_disconnect_from_user_only [OF i_t]
  have dial: "isdnd_inv (ev_dial_from_user i (ev_reject_from_user i t)) \<and> evolves s (ev_dial_from_user i (ev_reject_from_user i t))"
    using dial_inv(1) [of "ev_reject_from_user i t" i] rej evolvesD(1) [of t "ev_reject_from_user i t"] i_t evolves_trans e_t by metis
  have alert: "isdnd_inv (ev_alert_from_user i (response_to_user i d v)) \<and> evolves s (ev_alert_from_user i (response_to_user i d v)) \<and>
      new_call (mci_cdid mp) (ev_alert_from_user i (response_to_user i d v))"
    if v: "only i t v" "state_at v i = ST_INCOMING" "ce_cdid (ce_at v i) = mci_cdid mp" for v d
  proof -
    define w where "w = ev_alert_from_user i (response_to_user i d v)"
    have "only i v (response_to_user i d v)"
      by (simp add: response_to_user_def only_log)
    then have w: "only i t w" "ce_at w = ce_at v"
      using only_trans [OF v(1) only_trans] alert_only [of i "response_to_user i d v"] by (simp_all add: w_def)
    have "isdnd_inv w"
      using inv_only [OF w(1) inv_t] v t by (simp add: w(2))
    moreover have "new_call (mci_cdid mp) w"
      using new_call_only [OF w(1) new_t] v by (simp add: w(2))
    ultimately show ?thesis
      using evolves_trans [OF e_t only_evolves [OF w(1)]] by (simp add: w_def)
  qed
  have set: "only i t (cep_set_state i ST_INCOMING 0 0 t)" "ce_cdid (ce_at (cep_set_state i ST_INCOMING 0 0 t) i) = ce_cdid (ce_at t i)"
    using only_set_state [OF i_t] i_t by (simp_all add: cep_set_state_def)
  have ig: "new_call (mci_cdid mp) (ev_disconnect_from_user i t)"
    using ign(2) [of i "ev_disconnect_from_user i t"] ign(3) by simp
  show ?thesis
  proof (cases "cs_dialin_reaction (conf_at t i)")
    case REACT_ALERT
    then show ?thesis
      using r alert [OF set(1)] set(2) t(3) i_t by (auto simp: incoming_connect_def t_def [symmetric])
  next
    case REACT_ANSWER
    then show ?thesis
      using r alert [OF only_refl t(2,3)] conn evolves_trans [OF e_t]
      by (auto simp: incoming_connect_def t_def [symmetric] split: if_splits)
  qed (use r conn rej ign(1) ig dial evolves_trans [OF e_t] in \<open>auto simp: incoming_connect_def t_def [symmetric]\<close>)
qed

lemma incoming_entry_inv:
  assumes inv: "isdnd_inv s" and i: "i < length (d_entries s)" and new: "new_call (mci_cdid mp) s"
    and r: "incoming_entry mp i s = (u, ready)"
  shows "isdnd_inv u \<and> evolves s u \<and> (\<not> ready \<longrightarrow> new_call (mci_cdid mp) u)"
proof -
  define t where "t = ev_disconnect_from_user i s"
  have t: "only i s t" "state_at t i = ST_IDLE" "isdnd_inv t" "i < length (d_entries t)"
    using ev_disconnect_from_user_only [OF i] disconnect_from_user_inv [OF inv i] only_length i by (auto simp: t_def)
  have new_t: "new_call (mci_cdid mp) t"
    using new_call_only [OF t(1) new] t(2) by simp
  have skip: "isdnd_inv s \<and> evolves s s \<and> new_call (mci_cdid mp) s"
    using inv new by (simp add: evolves_refl)
  have 1: "isdnd_inv u \<and> evolves s u \<and> (\<not> ready \<longrightarrow> new_call (mci_cdid mp) u)"
    if "quiet_st (state_at s i)" "incoming_connect mp i s = (u, ready)"
    using incoming_connect_inv [OF inv i that(1) new that(2)] .
  have 2: "isdnd_inv u \<and> evolves s u \<and> (\<not> ready \<longrightarrow> new_call (mci_cdid mp) u)" if "incoming_connect mp i t = (u, ready)"
    using incoming_connect_inv [OF t(3,4) _ new_t that] t(2) evolves_trans [OF only_evolves [OF t(1)]] by auto
  show ?thesis
    using r 1 2 skip unfolding incoming_entry_def t_def [symmetric] by (auto simp: quiet_st_def split: if_splits)
qed

text \<open>
  The daemon works through its table entry by entry and may leave the loop early. The locale is the contract of
  such a loop: its body keeps the invariant and moves the state along a reflexive and transitive relation.
\<close>

locale safe_steps =
  fixes inv :: "'s \<Rightarrow> bool" and rel :: "'s \<Rightarrow> 's \<Rightarrow> bool"
  assumes rel_refl: "rel s s" and rel_trans: "rel s t \<Longrightarrow> rel t u \<Longrightarrow> rel s u"
begin

lemma seq: "inv t \<and> rel s t \<Longrightarrow> (inv t \<Longrightarrow> inv u \<and> rel t u) \<Longrightarrow> inv u \<and> rel s u"
  using rel_trans by blast

lemma loop:
  fixes body :: "'i \<Rightarrow> 's \<Rightarrow> 's \<times> bool"
  assumes rec: "\<And>s. loop [] s = s" "\<And>i is s. loop (i # is) s = (case body i s of (t, ready) \<Rightarrow> if ready then t else loop is t)"
    and ok: "\<And>i s t. ok i s \<Longrightarrow> rel s t \<Longrightarrow> ok i t"
    and body: "\<And>i s t ready. inv s \<Longrightarrow> pre s \<Longrightarrow> ok i s \<Longrightarrow> body i s = (t, ready) \<Longrightarrow> inv t \<and> rel s t \<and> (\<not> ready \<longrightarrow> pre t)"
    and s: "inv s" "pre s" "\<forall>i\<in>set is. ok i s"
  shows "inv (loop is s) \<and> rel s (loop is s)"
  using s
proof (induction "is" arbitrary: s)
  case Nil
  then show ?case
    by (simp add: rec rel_refl)
next
  case (Cons i "is")
  obtain t ready where t: "body i s = (t, ready)"
    by fastforce
  have b: "inv t \<and> rel s t \<and> (\<not> ready \<longrightarrow> pre t)"
    by (rule body [OF Cons.prems(1,2) _ t]) (use Cons.prems(3) in simp)
  then have "\<forall>j\<in>set is. ok j t"
    using Cons.prems(3) ok by (meson list.set_intros(2))
  then show ?case
    using Cons.IH [of t] b rel_trans [of s t "loop is t"] by (simp add: rec t)
qed

end

interpretation entries: safe_steps isdnd_inv evolves
  by unfold_locales (auto intro: evolves_refl evolves_trans)

lemma incoming_inv:
  assumes "isdnd_inv s" "new_call (mci_cdid mp) s"
  shows "isdnd_inv (ev_incoming_from_i4b mp s) \<and> evolves s (ev_incoming_from_i4b mp s)"
proof -
  have "isdnd_inv (incoming_loop m is s) \<and> evolves s (incoming_loop m is s)"
    if "mci_cdid m = mci_cdid mp" "is = [0..<length (d_entries s)]" for m "is"
  proof (rule entries.loop [where body = "incoming_entry m" and pre = "new_call (mci_cdid m)" and ok = "\<lambda>i s. i < length (d_entries s)"])
    show "isdnd_inv t \<and> evolves v t \<and> (\<not> ready \<longrightarrow> new_call (mci_cdid m) t)"
      if "isdnd_inv v" "new_call (mci_cdid m) v" "i < length (d_entries v)" "incoming_entry m i v = (t, ready)" for i v t ready
      using incoming_entry_inv [OF that(1,3,2,4)] .
  qed (use assms that evolvesD(1) in auto)
  then show ?thesis
    using assms(1) evolves_refl [of s] by (auto simp: ev_incoming_from_i4b_def Let_def split: option.splits)
qed

end
