(* ===== verification/Isdnd_Inv.thy ===== *)
theory Isdnd_Inv
  imports Isdnd_Calls
begin

unbundle bit_operations_syntax

text \<open>
  Every step of the connection daemon: the messages of the kernel and of the drivers and the timeouts keep the
  invariant, and the properties of the states the daemon can reach.
\<close>

section \<open>Charging, timeouts and requests\<close>

text \<open>Steps of one entry that keep its state and its descriptor.\<close>

definition tidy :: "nat \<Rightarrow> isdnd \<Rightarrow> isdnd \<Rightarrow> bool" where
  "tidy i s t \<longleftrightarrow> only i s t \<and> state_at t i = state_at s i \<and> ce_cdid (ce_at t i) = ce_cdid (ce_at s i)"

lemma tidy_refl: "tidy i s s"
  by (simp add: tidy_def only_refl)

lemma tidy_trans: "tidy i s t \<Longrightarrow> tidy i t u \<Longrightarrow> tidy i s u"
  by (auto simp: tidy_def intro: only_trans)

lemma tidy_upd:
  assumes "i < length (d_entries s)" "\<And>ce. ce_conf (f ce) = ce_conf ce \<and> ce_state (f ce) = ce_state ce \<and> ce_cdid (f ce) = ce_cdid ce"
    "\<And>ce. cep_ok ce \<Longrightarrow> cep_ok (f ce)"
  shows "tidy i s (ce_upd i f s)"
  unfolding tidy_def using assms by (auto intro!: only_upd)

lemma tidy_log: "tidy i s (d_log e s)"
  by (simp add: tidy_def only_log)

lemma tidy_length: "tidy i s t \<Longrightarrow> length (d_entries t) = length (d_entries s)"
  using only_length by (auto simp: tidy_def)

lemma tidy_inv: "tidy i s t \<Longrightarrow> isdnd_inv s \<Longrightarrow> isdnd_inv t \<and> evolves s t"
  using inv_only [of i s t] by (auto simp: tidy_def only_def)

lemma tidy_unitlen: "tidy i s (unitlen_chkupd i s)"
  by (simp add: unitlen_chkupd_def tidy_log tidy_refl)

lemma tidy_check_rate:
  assumes "i < length (d_entries s)"
  shows "tidy i s (check_rate i s)"
proof -
  have "tidy i s (ce_upd i (\<lambda>ce. ce\<lparr>ce_unitlength := r\<rparr>) s)" for r
    by (rule tidy_upd) (use assms in \<open>simp_all add: entry_simps\<close>)
  then show ?thesis
    using tidy_trans [OF _ tidy_unitlen] by (simp add: check_rate_def Let_def tidy_refl)
qed

lemma tidy_handle_charge:
  assumes "i < length (d_entries s)"
  shows "tidy i s (handle_charge i s)"
proof -
  define t where "t = ce_upd i (aoc_times (d_now s)) s"
  have t: "tidy i s t"
    unfolding t_def by (rule tidy_upd) (use assms in \<open>auto simp: aoc_times_def entry_simps\<close>)
  have "tidy i t (ce_upd i (\<lambda>ce. ce\<lparr>ce_unitlength := ce_aoc_diff ce\<rparr>) t)"
    by (rule tidy_upd) (use tidy_length [OF t] assms in \<open>simp_all add: entry_simps\<close>)
  then show ?thesis
    using t tidy_trans [OF tidy_trans [OF t] tidy_unitlen] by (simp add: handle_charge_def Let_def t_def [symmetric])
qed

lemma charging_inv:
  assumes inv: "isdnd_inv s" and r: "msg_charging_ind cdid ty units s = Some t"
  shows "isdnd_inv t \<and> evolves s t"
proof (cases "get_cep_by_cdid s cdid")
  case None
  then show ?thesis
    using inv r by (simp add: msg_charging_ind_def evolves_refl)
next
  case (Some i)
  then have i: "i < length (d_entries s)"
    unfolding get_cep_by_cdid_def by (blast dest: find_index_Some)
  define u where "u = ce_upd i (\<lambda>ce. ce\<lparr>ce_charge := units\<rparr>) s"
  define v where "v = ce_upd i (\<lambda>ce. ce\<lparr>ce_last_charge := ce_charge ce\<rparr>) u"
  have u: "tidy i s u"
    unfolding u_def by (rule tidy_upd) (use i in \<open>simp_all add: entry_simps\<close>)
  have v: "tidy i u v"
    unfolding v_def by (rule tidy_upd) (use i tidy_length [OF u] in \<open>simp_all add: entry_simps\<close>)
  have "tidy i s (handle_charge i v)"
    using tidy_trans [OF tidy_trans [OF u v] tidy_handle_charge] tidy_length [OF u] tidy_length [OF v] i by simp
  moreover have "t = u \<or> t = handle_charge i v"
    using r by (auto simp: msg_charging_ind_def Some Let_def u_def v_def split: if_splits)
  ultimately show ?thesis
    using u tidy_inv inv by blast
qed

lemma renew_budgets_ok:
  "ce_conf (renew_budgets now ce) = ce_conf ce" "ce_state (renew_budgets now ce) = ce_state ce"
  "ce_cdid (renew_budgets now ce) = ce_cdid ce" "cep_ok ce \<Longrightarrow> cep_ok (renew_budgets now ce)"
  by (auto simp: renew_budgets_def Let_def entry_simps conf_ok_def)

lemma recover_entry_inv:
  assumes inv: "isdnd_inv s" and i: "i < length (d_entries s)" and r: "recover_entry check_units i s = (u, ready)"
  shows "isdnd_inv u \<and> evolves s u"
proof -
  define s1 where "s1 = ce_upd i (renew_budgets (d_now s)) s"
  define s2 where "s2 = (if check_units then check_rate i s1 else s1)"
  have 1: "tidy i s s1"
    unfolding s1_def by (rule tidy_upd) (use i renew_budgets_ok in auto)
  have l1: "i < length (d_entries s1)"
    using tidy_length [OF 1] i by simp
  have 2: "tidy i s s2"
    using tidy_trans [OF 1 tidy_check_rate [OF l1]] 1 by (simp add: s2_def)
  have l2: "i < length (d_entries s2)"
    using tidy_length [OF 2] i by simp
  note i1 = tidy_inv [OF 1 inv]
  note i2 = tidy_inv [OF 2 inv]
  have "isdnd_inv t \<and> evolves s2 t \<Longrightarrow> isdnd_inv t \<and> evolves s t" for t
    using i2 evolves_trans by blast
  moreover have "u \<in> {s1, s2, ev_disconnect_from_user i s2, ev_dial_from_i4b i s2, ev_connect_from_user i s2}"
    using r unfolding recover_entry_def Let_def s1_def [symmetric] s2_def [symmetric] by (auto split: if_splits)
  ultimately show ?thesis
    using i1 i2 disconnect_from_user_inv [of s2 i] dial_inv(2) [of s2 i] connect_from_user_inv [of s2 i] l2 by blast
qed

lemma recovery_loop_inv:
  assumes "isdnd_inv s" "is = [0..<length (d_entries s)]"
  shows "isdnd_inv (recovery_loop check_units is s) \<and> evolves s (recovery_loop check_units is s)"
proof (rule entries.loop [where body = "recover_entry check_units" and pre = "\<lambda>_. True" and ok = "\<lambda>i s. i < length (d_entries s)"])
  show "isdnd_inv t \<and> evolves v t \<and> (\<not> ready \<longrightarrow> True)"
    if "isdnd_inv v" "i < length (d_entries v)" "recover_entry check_units i v = (t, ready)" for i v t ready
    using recover_entry_inv [OF that] by simp
qed (use assms evolvesD(1) in auto)

text \<open>Fields that no entry and no promise depends on.\<close>

lemma inv_silent:
  assumes "d_entries t = d_entries s" "d_cdids t = d_cdids s" "d_events t = d_events s" "isdnd_inv s"
  shows "isdnd_inv t \<and> evolves s t"
proof -
  have o: "only i s t" for i
    by (rule only_silent) (use assms in \<open>auto intro!: exI [of _ 0]\<close>)
  have "ce_at t = ce_at s"
    using assms(1) by (simp add: ce_at_def fun_eq_iff)
  then show ?thesis
    using inv_mono [OF only_evolves [OF o] assms(4)] only_evolves [OF o] by auto
qed

lemma recovery_inv:
  assumes "isdnd_inv s"
  shows "isdnd_inv (handle_recovery s) \<and> evolves s (handle_recovery s)"
proof -
  define t where "t = (let s1 = s\<lparr>d_last_time := d_now s\<rparr> in if 10 \<le> (d_now s1 - d_last_unit_check s1) mod 2 ^ 32
     then s1\<lparr>d_last_unit_check := d_now s1\<rparr> else s1)"
  have t: "d_entries t = d_entries s" "d_cdids t = d_cdids s" "d_events t = d_events s"
    by (simp_all add: t_def Let_def)
  note i = inv_silent [OF t assms]
  have "isdnd_inv (recovery_loop c [0..<length (d_entries t)] t) \<and> evolves s (recovery_loop c [0..<length (d_entries t)] t)" for c
    by (rule entries.seq [OF i recovery_loop_inv]) simp_all
  then show ?thesis
    using assms by (simp add: handle_recovery_def Let_def t_def evolves_refl)
qed

lemma for_driver_inv:
  assumes "isdnd_inv s" "\<And>i. i < length (d_entries s) \<Longrightarrow> isdnd_inv (f i s) \<and> evolves s (f i s)"
  shows "isdnd_inv (for_driver ty unit f s) \<and> evolves s (for_driver ty unit f s)"
proof (cases "get_cep_by_driver s ty unit")
  case None
  have "isdnd_inv (d_log e s) \<and> evolves s (d_log e s)" for e
    using tidy_inv [OF tidy_log assms(1)] .
  then show ?thesis
    by (simp add: for_driver_def None)
next
  case (Some i)
  then have "i < length (d_entries s)"
    unfolding get_cep_by_driver_def by (blast dest: find_index_Some)
  then show ?thesis
    using assms(2) by (simp add: for_driver_def Some)
qed

lemma keypad_inv:
  assumes inv: "isdnd_inv s"
  shows "isdnd_inv (msg_keypad ty unit cmd s) \<and> evolves s (msg_keypad ty unit cmd s)"
  unfolding msg_keypad_def
proof (rule for_driver_inv [OF inv])
  fix i
  assume i: "i < length (d_entries s)"
  define t where "t = ce_upd i (set_keypad cmd) s"
  have t: "tidy i s t"
    unfolding t_def by (rule tidy_upd) (use i in \<open>simp_all add: entry_simps set_keypad_def\<close>)
  have "isdnd_inv (ev_dial_from_user i t) \<and> evolves s (ev_dial_from_user i t)"
    by (rule entries.seq [OF tidy_inv [OF t inv] dial_inv(1)]) (use tidy_length [OF t] i in simp_all)
  then show "isdnd_inv (if state_at s i = ST_IDLE then ev_dial_from_user i (ce_upd i (set_keypad cmd) s) else s) \<and>
      evolves s (if state_at s i = ST_IDLE then ev_dial_from_user i (ce_upd i (set_keypad cmd) s) else s)"
    using inv by (simp add: t_def evolves_refl)
qed

section \<open>Runs of the daemon\<close>

text \<open>
  The outside world moves between two steps: the time passes, and the kernel, the random numbers and the
  programs started answer what they will, but the descriptors the kernel hands out are not in use.
\<close>

definition environment :: "int \<Rightarrow> tm \<Rightarrow> u32 option list \<Rightarrow> bool list \<Rightarrow> int list \<Rightarrow> int list \<Rightarrow> isdnd \<Rightarrow> isdnd" where
  "environment now tp cdids fails rnd pids s =
     s\<lparr>d_now := now, d_tm := tp, d_cdids := cdids, d_connect_fails := fails, d_random := rnd, d_pids := pids\<rparr>"

inductive isdnd_step :: "isdnd \<Rightarrow> isdnd \<Rightarrow> bool" where
  step_env: "cdids_fresh (environment now tp cdids fails rnd pids s) \<Longrightarrow> isdnd_step s (environment now tp cdids fails rnd pids s)"
| step_incoming: "new_call (mci_cdid mp) s \<Longrightarrow> isdnd_step s (ev_incoming_from_i4b mp s)"
| step_connect_active: "isdnd_step s (ev_connect_from_i4b cdid channel s)"
| step_disconnect: "isdnd_step s (ev_disconnect_from_i4b cdid cause None s)"
| step_dialout: "isdnd_step s (msg_dialout ty unit s)"
| step_keypad: "isdnd_step s (msg_keypad ty unit cmd s)"
| step_drvrdisc: "isdnd_step s (msg_drvrdisc_req ty unit s)"
| step_answer: "isdnd_step s (msg_drvranswer_req ty unit s)"
| step_reject: "isdnd_step s (msg_drvrreject_req ty unit s)"
| step_charging: "msg_charging_ind cdid units_type units s = Some t \<Longrightarrow> isdnd_step s t"
| step_recovery: "isdnd_step s (handle_recovery s)"

text \<open>The daemon starts with every entry idle and as the configuration leaves it.\<close>

definition isdnd_start :: "isdnd \<Rightarrow> bool" where
  "isdnd_start s \<longleftrightarrow> (\<forall>i<length (d_entries s). state_at s i = ST_IDLE \<and> cep_ok (ce_at s i)) \<and> d_cdids s = []"

inductive isdnd_reachable :: "isdnd \<Rightarrow> bool" where
  start: "isdnd_start s \<Longrightarrow> isdnd_reachable s"
| step: "isdnd_reachable s \<Longrightarrow> isdnd_step s t \<Longrightarrow> isdnd_reachable t"

lemma start_inv: "isdnd_start s \<Longrightarrow> isdnd_inv s"
  by (simp add: isdnd_start_def isdnd_inv_def one_call_def cdids_fresh_def)

lemma environment_at [simp]: "ce_at (environment now tp cdids fails rnd pids s) = ce_at s"
  "d_entries (environment now tp cdids fails rnd pids s) = d_entries s" "d_events (environment now tp cdids fails rnd pids s) = d_events s"
  by (simp_all add: environment_def ce_at_def fun_eq_iff)

lemma environment_inv: "isdnd_inv s \<Longrightarrow> cdids_fresh (environment now tp cdids fails rnd pids s) \<Longrightarrow> isdnd_inv (environment now tp cdids fails rnd pids s)"
  by (simp add: isdnd_inv_def one_call_def)

lemma drvrdisc_inv: "isdnd_inv s \<Longrightarrow> isdnd_inv (msg_drvrdisc_req ty unit s) \<and> evolves s (msg_drvrdisc_req ty unit s)"
proof (cases "get_cep_by_driver s ty unit")
  case (Some i)
  then have "i < length (d_entries s)"
    unfolding get_cep_by_driver_def by (blast dest: find_index_Some)
  then show "isdnd_inv s \<Longrightarrow> ?thesis"
    using disconnect_from_user_inv by (simp add: msg_drvrdisc_req_def Some)
qed (simp add: msg_drvrdisc_req_def evolves_refl)

text \<open>An entry that becomes idle during a step was reported to its user in that step.\<close>

definition reports :: "isdnd \<Rightarrow> isdnd \<Rightarrow> bool" where
  "reports s t \<longleftrightarrow> length (d_entries t) = length (d_entries s) \<and> (\<exists>evs. d_events t = d_events s @ evs \<and>
     (\<forall>j<length (d_entries s). state_at t j = ST_IDLE \<longrightarrow> state_at s j = ST_IDLE \<or> told_idle j evs))"

lemma evolves_reports: "evolves s t \<Longrightarrow> reports s t"
  by (simp add: evolves_def reports_def)

lemma requests_inv:
  assumes "isdnd_inv s"
  shows "isdnd_inv (msg_dialout ty unit s) \<and> evolves s (msg_dialout ty unit s)"
    "isdnd_inv (msg_drvranswer_req ty unit s) \<and> evolves s (msg_drvranswer_req ty unit s)"
    "isdnd_inv (msg_drvrreject_req ty unit s) \<and> evolves s (msg_drvrreject_req ty unit s)"
  unfolding msg_dialout_def msg_drvranswer_req_def msg_drvrreject_req_def
  by (rule for_driver_inv [OF assms]; use assms dial_inv(1) connect_from_user_inv reject_from_user_inv in blast)+

lemma isdnd_step_inv:
  assumes "isdnd_step s t" "isdnd_inv s"
  shows "isdnd_inv t \<and> reports s t"
proof -
  have ev: "isdnd_inv t \<and> evolves s t \<Longrightarrow> ?thesis"
    using evolves_reports by blast
  show ?thesis
    using assms(1)
  proof cases
    case (step_env now tp cdids fails rnd pids)
    then show ?thesis
      using environment_inv [OF assms(2)] by (simp add: reports_def)
  next
    case (step_incoming mp)
    then show ?thesis
      using incoming_inv [OF assms(2)] by (intro ev) simp
  next
    case (step_connect_active cdid channel)
    then show ?thesis
      using connect_from_i4b_inv [OF assms(2)] by (intro ev) simp
  next
    case (step_disconnect cdid cause)
    then show ?thesis
      using disconnect_from_i4b_inv [OF assms(2)] disconnect_from_i4b_result(1) by (intro ev) simp
  next
    case (step_dialout ty unit)
    then show ?thesis
      using requests_inv(1) [OF assms(2)] by (intro ev) simp
  next
    case (step_keypad ty unit cmd)
    then show ?thesis
      using keypad_inv [OF assms(2)] by (intro ev) simp
  next
    case (step_drvrdisc ty unit)
    then show ?thesis
      using drvrdisc_inv [OF assms(2)] by (intro ev) simp
  next
    case (step_answer ty unit)
    then show ?thesis
      using requests_inv(2) [OF assms(2)] by (intro ev) simp
  next
    case (step_reject ty unit)
    then show ?thesis
      using requests_inv(3) [OF assms(2)] by (intro ev) simp
  next
    case (step_charging cdid units_type units)
    then show ?thesis
      using charging_inv [OF assms(2)] by (intro ev) simp
  next
    case step_recovery
    then show ?thesis
      using recovery_inv [OF assms(2)] by (intro ev) simp
  qed
qed

lemma isdnd_reachable_inv: "isdnd_reachable s \<Longrightarrow> isdnd_inv s"
  by (induction rule: isdnd_reachable.induct) (use start_inv isdnd_step_inv in blast)+

section \<open>A sample run\<close>

text \<open>
  Two entries on controller 0: a network interface that dials out within a budget of two calls, and a telephone
  that rings. The first is dialled and gets descriptor 64; then a call with descriptor 128 comes in.
\<close>

definition sample_entry :: "cfg_static \<Rightarrow> cfg_entry" where
  "sample_entry cs = \<lparr>ce_conf = cs, ce_remote_numbers_count = 1, ce_remote_numbers = replicate MAXRNUMBERS sample_number,
     ce_unitlength = 0, ce_last_set_state_time = 0, ce_waittime = 0, ce_waitfunc = 0, ce_cdid = 0, ce_isdncontrollerused = 0,
     ce_isdnchannelused = 0, ce_state = ST_IDLE, ce_disc_cause = 0, ce_disc_remote = False, ce_real_phone_incoming = [],
     ce_last_remote_number = 0, ce_remote_phone_dialout = sample_number, ce_dir_incoming = False, ce_charge = 0,
     ce_last_charge = 0, ce_aoc_last = 0, ce_aoc_now = 0, ce_aoc_diff = 0, ce_aoc_valid = False, ce_dial_count = 0,
     ce_answerpid = 0, ce_budget_callbackperiod_time = 0, ce_budget_callbackncalls_cnt = 0, ce_budget_calloutperiod_time = 0,
     ce_budget_calloutncalls_cnt = 2, ce_budget_calltype = BUDGET_NONE, ce_keypad = []\<rparr>"

definition sample_daemon :: isdnd where
  "sample_daemon = \<lparr>d_entries = [sample_entry sample_conf,
       sample_entry (sample_conf\<lparr>cs_usrdevicename := 2, cs_remote_phone_incoming := [\<lparr>nt_number = [42], nt_subaddr = [], nt_succ = False\<rparr>]\<rparr>)],
     d_ch_state = [], d_now = 1, d_tm = sample_tm, d_holidays = [], d_rates = None, d_unit_length = 0, d_addprefix = None,
     d_last_time = 0, d_last_unit_check = 0, d_cdids = [], d_connect_fails = [], d_random = [], d_pids = [], d_events = []\<rparr>"

definition sample_ind :: msg_connect_ind where
  "sample_ind = \<lparr>mci_cdid = 128, mci_channel = 1, mci_bprot = 1, mci_dst_telno = [49], mci_dst_subaddr = [],
     mci_src_telno = [51], mci_src_subaddr = [], mci_dst_ton = TON_OTHER, mci_src_ton = TON_OTHER\<rparr>"

definition sample_dialled :: isdnd where
  "sample_dialled = msg_dialout 1 0 (environment 10 sample_tm [Some 64] [] [] [] sample_daemon)"

definition sample_ringing :: isdnd where
  "sample_ringing = ev_incoming_from_i4b sample_ind sample_dialled"

lemma sample_start: "isdnd_start sample_daemon"
  by code_simp

lemma sample_fresh: "cdids_fresh (environment 10 sample_tm [Some 64] [] [] [] sample_daemon)"
  by code_simp

lemma sample_new: "new_call (mci_cdid sample_ind) sample_dialled"
  by code_simp

lemma sample_reachable: "isdnd_reachable sample_ringing"
proof -
  have "isdnd_reachable (environment 10 sample_tm [Some 64] [] [] [] sample_daemon)"
    by (rule step [OF start [OF sample_start] step_env [OF sample_fresh]])
  then have "isdnd_reachable sample_dialled"
    unfolding sample_dialled_def by (rule step [OF _ step_dialout])
  then show ?thesis
    unfolding sample_ringing_def by (rule step [OF _ step_incoming [OF sample_new]])
qed

lemma sample_states: "length (d_entries sample_ringing) = 2" "state_at sample_ringing 0 = ST_DIAL" "state_at sample_ringing 1 = ST_INCOMING"
  "state_at (ev_disconnect_from_i4b 128 I4B_CAUSE_NORMAL None sample_ringing) 1 = ST_IDLE"
  "ce_budget_calltype (ce_at sample_ringing 0) = BUDGET_TYPE_COUT"
  by code_simp+

section \<open>The properties\<close>

text \<open>
  C26: In every state the connection daemon can reach, an entry that is dialling, waiting for its connection or
  connected shares its call descriptor with no other entry that takes part in a call: more than one entry may
  ring for an incoming call, but only one connects. The kernel is assumed to hand out descriptors that no entry
  in a call has, and to announce a new call under a descriptor that no entry dials or is connected with.
\<close>

theorem one_entry_per_call:
  assumes "isdnd_reachable s" "i < length (d_entries s)" "j < length (d_entries s)" "i \<noteq> j"
    "state_at s i \<in> {ST_DIAL, ST_WAIT_CONNECT, ST_CONNECTED}" "state_at s j \<notin> {ST_IDLE, ST_DIAL_FAIL}"
  shows "ce_cdid (ce_at s i) \<noteq> ce_cdid (ce_at s j)"
  using isdnd_reachable_inv [OF assms(1)] assms(2-6) by (auto simp: isdnd_inv_def one_call_def live_st_def quiet_st_def)

theorem one_entry_per_call_witness:
  "state_at sample_ringing 0 = ST_DIAL \<and> state_at sample_ringing 1 = ST_INCOMING \<and>
   ce_cdid (ce_at sample_ringing 0) \<noteq> ce_cdid (ce_at sample_ringing 1)"
  using one_entry_per_call [of sample_ringing 0 1] sample_reachable sample_states by simp

text \<open>
  C28: In every state the connection daemon can reach, the index of the number last dialled lies inside the table
  of numbers of the entry, and so do all the numbers configured; no budget of calls is overdrawn, and a call that
  will be charged to a budget is only under way while that budget has a call left.
\<close>

theorem entries_in_bounds:
  assumes "isdnd_reachable s" "i < length (d_entries s)"
  defines "ce \<equiv> ce_at s i"
  shows "0 \<le> ce_last_remote_number ce \<and> nat (ce_last_remote_number ce) < length (ce_remote_numbers ce) \<and>
     ce_remote_numbers_count ce \<le> int (length (ce_remote_numbers ce)) \<and>
     0 \<le> ce_budget_callbackncalls_cnt ce \<and> 0 \<le> ce_budget_calloutncalls_cnt ce \<and>
     (ce_budget_calltype ce = BUDGET_TYPE_CBACK \<longrightarrow> 0 < ce_budget_callbackncalls_cnt ce) \<and>
     (ce_budget_calltype ce = BUDGET_TYPE_COUT \<longrightarrow> 0 < ce_budget_calloutncalls_cnt ce)"
  using isdnd_reachable_inv [OF assms(1)] assms(2) by (simp add: isdnd_inv_def entry_simps ce_def nat_less_iff)

theorem entries_in_bounds_witness:
  "ce_budget_calltype (ce_at sample_ringing 0) = BUDGET_TYPE_COUT \<and> 0 < ce_budget_calloutncalls_cnt (ce_at sample_ringing 0)"
  using entries_in_bounds [of sample_ringing 0] sample_reachable sample_states by simp

text \<open>
  C27: Whenever a step of the connection daemon makes an entry idle, the daemon sends in that step a response to
  the user of the entry which says that it is not connected or why the call failed, as the note at
  \<open>cep_set_state\<close> demands.
\<close>

theorem idle_is_reported:
  assumes "isdnd_reachable s" "isdnd_step s t" "j < length (d_entries s)" "state_at s j \<noteq> ST_IDLE" "state_at t j = ST_IDLE"
  shows "\<exists>evs d c. d_events t = d_events s @ evs \<and> Response_to_user j d c \<in> set evs \<and> d \<notin> {DSTAT_CONNECTED, DSTAT_INCOMING_CALL}"
  using isdnd_step_inv [OF assms(2) isdnd_reachable_inv [OF assms(1)]] assms(3-5) by (fastforce simp: reports_def told_idle_def)


theorem idle_is_reported_witness:
  "\<exists>evs d c. d_events (ev_disconnect_from_i4b 128 I4B_CAUSE_NORMAL None sample_ringing) = d_events sample_ringing @ evs \<and>
     Response_to_user 1 d c \<in> set evs \<and> d \<notin> {DSTAT_CONNECTED, DSTAT_INCOMING_CALL}"
  using idle_is_reported [OF sample_reachable step_disconnect [of _ 128 I4B_CAUSE_NORMAL], of 1] sample_states by simp

end
