(* ===== verification/Voice_G711.thy ===== *)
theory Voice_G711
  imports I4B_Prelude
begin

unbundle bit_operations_syntax

text \<open>
  Speech samples on a B-channel, \<^verbatim>\<open>layer1/i4b_convert_xlaw.c\<close>: the tables between the octets of the line, whose
  bits are in reverse order, and signed samples, and the conversion of a buffer. The tables are shown to be those
  of ITU-T G.711, given by its segments and steps.
\<close>

section \<open>The tables\<close>

definition i4b_reverse_bits :: "u8 list" where
  "i4b_reverse_bits =
    [0x00, 0x80, 0x40, 0xc0, 0x20, 0xa0, 0x60, 0xe0, 0x10, 0x90, 0x50, 0xd0, 0x30, 0xb0, 0x70, 0xf0,
     0x08, 0x88, 0x48, 0xc8, 0x28, 0xa8, 0x68, 0xe8, 0x18, 0x98, 0x58, 0xd8, 0x38, 0xb8, 0x78, 0xf8,
     0x04, 0x84, 0x44, 0xc4, 0x24, 0xa4, 0x64, 0xe4, 0x14, 0x94, 0x54, 0xd4, 0x34, 0xb4, 0x74, 0xf4,
     0x0c, 0x8c, 0x4c, 0xcc, 0x2c, 0xac, 0x6c, 0xec, 0x1c, 0x9c, 0x5c, 0xdc, 0x3c, 0xbc, 0x7c, 0xfc,
     0x02, 0x82, 0x42, 0xc2, 0x22, 0xa2, 0x62, 0xe2, 0x12, 0x92, 0x52, 0xd2, 0x32, 0xb2, 0x72, 0xf2,
     0x0a, 0x8a, 0x4a, 0xca, 0x2a, 0xaa, 0x6a, 0xea, 0x1a, 0x9a, 0x5a, 0xda, 0x3a, 0xba, 0x7a, 0xfa,
     0x06, 0x86, 0x46, 0xc6, 0x26, 0xa6, 0x66, 0xe6, 0x16, 0x96, 0x56, 0xd6, 0x36, 0xb6, 0x76, 0xf6,
     0x0e, 0x8e, 0x4e, 0xce, 0x2e, 0xae, 0x6e, 0xee, 0x1e, 0x9e, 0x5e, 0xde, 0x3e, 0xbe, 0x7e, 0xfe,
     0x01, 0x81, 0x41, 0xc1, 0x21, 0xa1, 0x61, 0xe1, 0x11, 0x91, 0x51, 0xd1, 0x31, 0xb1, 0x71, 0xf1,
     0x09, 0x89, 0x49, 0xc9, 0x29, 0xa9, 0x69, 0xe9, 0x19, 0x99, 0x59, 0xd9, 0x39, 0xb9, 0x79, 0xf9,
     0x05, 0x85, 0x45, 0xc5, 0x25, 0xa5, 0x65, 0xe5, 0x15, 0x95, 0x55, 0xd5, 0x35, 0xb5, 0x75, 0xf5,
     0x0d, 0x8d, 0x4d, 0xcd, 0x2d, 0xad, 0x6d, 0xed, 0x1d, 0x9d, 0x5d, 0xdd, 0x3d, 0xbd, 0x7d, 0xfd,
     0x03, 0x83, 0x43, 0xc3, 0x23, 0xa3, 0x63, 0xe3, 0x13, 0x93, 0x53, 0xd3, 0x33, 0xb3, 0x73, 0xf3,
     0x0b, 0x8b, 0x4b, 0xcb, 0x2b, 0xab, 0x6b, 0xeb, 0x1b, 0x9b, 0x5b, 0xdb, 0x3b, 0xbb, 0x7b, 0xfb,
     0x07, 0x87, 0x47, 0xc7, 0x27, 0xa7, 0x67, 0xe7, 0x17, 0x97, 0x57, 0xd7, 0x37, 0xb7, 0x77, 0xf7,
     0x0f, 0x8f, 0x4f, 0xcf, 0x2f, 0xaf, 0x6f, 0xef, 0x1f, 0x9f, 0x5f, 0xdf, 0x3f, 0xbf, 0x7f, 0xff]"

text \<open>Entries are read as signed 16 bit numbers.\<close>

definition i4b_ulaw_to_signed :: "u16 list" where
  "i4b_ulaw_to_signed =
    [0x8284, 0x7d7c, 0xf8a4, 0x075c, 0xe104, 0x1efc, 0xfe8c, 0x0174, 0xc184, 0x3e7c, 0xfc94, 0x036c, 0xf0c4, 0x0f3c, 0xff88, 0x0078,
     0xa284, 0x5d7c, 0xfaa4, 0x055c, 0xe904, 0x16fc, 0xff0c, 0x00f4, 0xd184, 0x2e7c, 0xfd94, 0x026c, 0xf4c4, 0x0b3c, 0xffc8, 0x0038,
     0x9284, 0x6d7c, 0xf9a4, 0x065c, 0xe504, 0x1afc, 0xfecc, 0x0134, 0xc984, 0x367c, 0xfd14, 0x02ec, 0xf2c4, 0x0d3c, 0xffa8, 0x0058,
     0xb284, 0x4d7c, 0xfba4, 0x045c, 0xed04, 0x12fc, 0xff4c, 0x00b4, 0xd984, 0x267c, 0xfe14, 0x01ec, 0xf6c4, 0x093c, 0xffe8, 0x0018,
     0x8a84, 0x757c, 0xf924, 0x06dc, 0xe304, 0x1cfc, 0xfeac, 0x0154, 0xc584, 0x3a7c, 0xfcd4, 0x032c, 0xf1c4, 0x0e3c, 0xff98, 0x0068,
     0xaa84, 0x557c, 0xfb24, 0x04dc, 0xeb04, 0x14fc, 0xff2c, 0x00d4, 0xd584, 0x2a7c, 0xfdd4, 0x022c, 0xf5c4, 0x0a3c, 0xffd8, 0x0028,
     0x9a84, 0x657c, 0xfa24, 0x05dc, 0xe704, 0x18fc, 0xfeec, 0x0114, 0xcd84, 0x327c, 0xfd54, 0x02ac, 0xf3c4, 0x0c3c, 0xffb8, 0x0048,
     0xba84, 0x457c, 0xfc24, 0x03dc, 0xef04, 0x10fc, 0xff6c, 0x0094, 0xdd84, 0x227c, 0xfe54, 0x01ac, 0xf7c4, 0x083c, 0xfff8, 0x0008,
     0x8684, 0x797c, 0xf8e4, 0x071c, 0xe204, 0x1dfc, 0xfe9c, 0x0164, 0xc384, 0x3c7c, 0xfcb4, 0x034c, 0xf144, 0x0ebc, 0xff90, 0x0070,
     0xa684, 0x597c, 0xfae4, 0x051c, 0xea04, 0x15fc, 0xff1c, 0x00e4, 0xd384, 0x2c7c, 0xfdb4, 0x024c, 0xf544, 0x0abc, 0xffd0, 0x0030,
     0x9684, 0x697c, 0xf9e4, 0x061c, 0xe604, 0x19fc, 0xfedc, 0x0124, 0xcb84, 0x347c, 0xfd34, 0x02cc, 0xf344, 0x0cbc, 0xffb0, 0x0050,
     0xb684, 0x497c, 0xfbe4, 0x041c, 0xee04, 0x11fc, 0xff5c, 0x00a4, 0xdb84, 0x247c, 0xfe34, 0x01cc, 0xf744, 0x08bc, 0xfff0, 0x0010,
     0x8e84, 0x717c, 0xf964, 0x069c, 0xe404, 0x1bfc, 0xfebc, 0x0144, 0xc784, 0x387c, 0xfcf4, 0x030c, 0xf244, 0x0dbc, 0xffa0, 0x0060,
     0xae84, 0x517c, 0xfb64, 0x049c, 0xec04, 0x13fc, 0xff3c, 0x00c4, 0xd784, 0x287c, 0xfdf4, 0x020c, 0xf644, 0x09bc, 0xffe0, 0x0020,
     0x9e84, 0x617c, 0xfa64, 0x059c, 0xe804, 0x17fc, 0xfefc, 0x0104, 0xcf84, 0x307c, 0xfd74, 0x028c, 0xf444, 0x0bbc, 0xffc0, 0x0040,
     0xbe84, 0x417c, 0xfc64, 0x039c, 0xf004, 0x0ffc, 0xff7c, 0x0084, 0xdf84, 0x207c, 0xfe74, 0x018c, 0xf844, 0x07bc, 0x0000, 0x0000]"

definition i4b_alaw_to_signed :: "u16 list" where
  "i4b_alaw_to_signed =
    [0xea80, 0x1580, 0xfea8, 0x0158, 0xaa00, 0x5600, 0xfaa0, 0x0560, 0xf540, 0x0ac0, 0xffa8, 0x0058, 0xd500, 0x2b00, 0xfd50, 0x02b0,
     0xe280, 0x1d80, 0xfe28, 0x01d8, 0x8a00, 0x7600, 0xf8a0, 0x0760, 0xf140, 0x0ec0, 0xff28, 0x00d8, 0xc500, 0x3b00, 0xfc50, 0x03b0,
     0xee80, 0x1180, 0xfee8, 0x0118, 0xba00, 0x4600, 0xfba0, 0x0460, 0xf740, 0x08c0, 0xffe8, 0x0018, 0xdd00, 0x2300, 0xfdd0, 0x0230,
     0xe680, 0x1980, 0xfe68, 0x0198, 0x9a00, 0x6600, 0xf9a0, 0x0660, 0xf340, 0x0cc0, 0xff68, 0x0098, 0xcd00, 0x3300, 0xfcd0, 0x0330,
     0xe880, 0x1780, 0xfe88, 0x0178, 0xa200, 0x5e00, 0xfa20, 0x05e0, 0xf440, 0x0bc0, 0xff88, 0x0078, 0xd100, 0x2f00, 0xfd10, 0x02f0,
     0xe080, 0x1f80, 0xfe08, 0x01f8, 0x8200, 0x7e00, 0xf820, 0x07e0, 0xf040, 0x0fc0, 0xff08, 0x00f8, 0xc100, 0x3f00, 0xfc10, 0x03f0,
     0xec80, 0x1380, 0xfec8, 0x0138, 0xb200, 0x4e00, 0xfb20, 0x04e0, 0xf640, 0x09c0, 0xffc8, 0x0038, 0xd900, 0x2700, 0xfd90, 0x0270,
     0xe480, 0x1b80, 0xfe48, 0x01b8, 0x9200, 0x6e00, 0xf920, 0x06e0, 0xf240, 0x0dc0, 0xff48, 0x00b8, 0xc900, 0x3700, 0xfc90, 0x0370,
     0xeb80, 0x1480, 0xfeb8, 0x0148, 0xae00, 0x5200, 0xfae0, 0x0520, 0xf5c0, 0x0a40, 0xffb8, 0x0048, 0xd700, 0x2900, 0xfd70, 0x0290,
     0xe380, 0x1c80, 0xfe38, 0x01c8, 0x8e00, 0x7200, 0xf8e0, 0x0720, 0xf1c0, 0x0e40, 0xff38, 0x00c8, 0xc700, 0x3900, 0xfc70, 0x0390,
     0xef80, 0x1080, 0xfef8, 0x0108, 0xbe00, 0x4200, 0xfbe0, 0x0420, 0xf7c0, 0x0840, 0xfff8, 0x0008, 0xdf00, 0x2100, 0xfdf0, 0x0210,
     0xe780, 0x1880, 0xfe78, 0x0188, 0x9e00, 0x6200, 0xf9e0, 0x0620, 0xf3c0, 0x0c40, 0xff78, 0x0088, 0xcf00, 0x3100, 0xfcf0, 0x0310,
     0xe980, 0x1680, 0xfe98, 0x0168, 0xa600, 0x5a00, 0xfa60, 0x05a0, 0xf4c0, 0x0b40, 0xff98, 0x0068, 0xd300, 0x2d00, 0xfd30, 0x02d0,
     0xe180, 0x1e80, 0xfe18, 0x01e8, 0x8600, 0x7a00, 0xf860, 0x07a0, 0xf0c0, 0x0f40, 0xff18, 0x00e8, 0xc300, 0x3d00, 0xfc30, 0x03d0,
     0xed80, 0x1280, 0xfed8, 0x0128, 0xb600, 0x4a00, 0xfb60, 0x04a0, 0xf6c0, 0x0940, 0xffd8, 0x0028, 0xdb00, 0x2500, 0xfdb0, 0x0250,
     0xe580, 0x1a80, 0xfe58, 0x01a8, 0x9600, 0x6a00, 0xf960, 0x06a0, 0xf2c0, 0x0d40, 0xff58, 0x00a8, 0xcb00, 0x3500, 0xfcb0, 0x0350]"

text \<open>
  The two large tables hold long runs of equal octets; a pair is the length of a run and its octet. The first half of
  a table is for samples from zero on, the second for negative ones.
\<close>

definition expand_runs :: "(nat \<times> 'a) list \<Rightarrow> 'a list" where
  "expand_runs rs = concat (map (\<lambda>(n, c). replicate n c) rs)"

definition signed_to_ulaw_pos :: "(nat \<times> u8) list" where
  "signed_to_ulaw_pos =
    [(1, 0xff), (2, 0x7f), (2, 0xbf), (2, 0x3f), (2, 0xdf), (2, 0x5f), (2, 0x9f), (2, 0x1f),
     (2, 0xef), (2, 0x6f), (2, 0xaf), (2, 0x2f), (2, 0xcf), (2, 0x4f), (2, 0x8f), (2, 0x0f),
     (4, 0xf7), (4, 0x77), (4, 0xb7), (4, 0x37), (4, 0xd7), (4, 0x57), (4, 0x97), (4, 0x17),
     (4, 0xe7), (4, 0x67), (4, 0xa7), (4, 0x27), (4, 0xc7), (4, 0x47), (4, 0x87), (4, 0x07),
     (8, 0xfb), (8, 0x7b), (8, 0xbb), (8, 0x3b), (8, 0xdb), (8, 0x5b), (8, 0x9b), (8, 0x1b),
     (8, 0xeb), (8, 0x6b), (8, 0xab), (8, 0x2b), (8, 0xcb), (8, 0x4b), (8, 0x8b), (8, 0x0b),
     (16, 0xf3), (16, 0x73), (16, 0xb3), (16, 0x33), (16, 0xd3), (16, 0x53), (16, 0x93), (16, 0x13),
     (16, 0xe3), (16, 0x63), (16, 0xa3), (16, 0x23), (16, 0xc3), (16, 0x43), (16, 0x83), (16, 0x03),
     (32, 0xfd), (32, 0x7d), (32, 0xbd), (32, 0x3d), (32, 0xdd), (32, 0x5d), (32, 0x9d), (32, 0x1d),
     (32, 0xed), (32, 0x6d), (32, 0xad), (32, 0x2d), (32, 0xcd), (32, 0x4d), (32, 0x8d), (32, 0x0d),
     (64, 0xf5), (64, 0x75), (64, 0xb5), (64, 0x35), (64, 0xd5), (64, 0x55), (64, 0x95), (64, 0x15),
     (64, 0xe5), (64, 0x65), (64, 0xa5), (64, 0x25), (64, 0xc5), (64, 0x45), (64, 0x85), (64, 0x05),
     (128, 0xf9), (128, 0x79), (128, 0xb9), (128, 0x39), (128, 0xd9), (128, 0x59), (128, 0x99), (128, 0x19),
     (128, 0xe9), (128, 0x69), (128, 0xa9), (128, 0x29), (128, 0xc9), (128, 0x49), (128, 0x89), (128, 0x09),
     (256, 0xf1), (256, 0x71), (256, 0xb1), (256, 0x31), (256, 0xd1), (256, 0x51), (256, 0x91), (256, 0x11),
     (256, 0xe1), (256, 0x61), (256, 0xa1), (256, 0x21), (256, 0xc1), (256, 0x41), (256, 0x81), (289, 0x01)]"

definition signed_to_ulaw_neg :: "(nat \<times> u8) list" where
  "signed_to_ulaw_neg =
    [(290, 0x00), (256, 0x80), (256, 0x40), (256, 0xc0), (256, 0x20), (256, 0xa0), (256, 0x60), (256, 0xe0),
     (256, 0x10), (256, 0x90), (256, 0x50), (256, 0xd0), (256, 0x30), (256, 0xb0), (256, 0x70), (256, 0xf0),
     (128, 0x08), (128, 0x88), (128, 0x48), (128, 0xc8), (128, 0x28), (128, 0xa8), (128, 0x68), (128, 0xe8),
     (128, 0x18), (128, 0x98), (128, 0x58), (128, 0xd8), (128, 0x38), (128, 0xb8), (128, 0x78), (128, 0xf8),
     (64, 0x04), (64, 0x84), (64, 0x44), (64, 0xc4), (64, 0x24), (64, 0xa4), (64, 0x64), (64, 0xe4),
     (64, 0x14), (64, 0x94), (64, 0x54), (64, 0xd4), (64, 0x34), (64, 0xb4), (64, 0x74), (64, 0xf4),
     (32, 0x0c), (32, 0x8c), (32, 0x4c), (32, 0xcc), (32, 0x2c), (32, 0xac), (32, 0x6c), (32, 0xec),
     (32, 0x1c), (32, 0x9c), (32, 0x5c), (32, 0xdc), (32, 0x3c), (32, 0xbc), (32, 0x7c), (32, 0xfc),
     (16, 0x02), (16, 0x82), (16, 0x42), (16, 0xc2), (16, 0x22), (16, 0xa2), (16, 0x62), (16, 0xe2),
     (16, 0x12), (16, 0x92), (16, 0x52), (16, 0xd2), (16, 0x32), (16, 0xb2), (16, 0x72), (16, 0xf2),
     (8, 0x0a), (8, 0x8a), (8, 0x4a), (8, 0xca), (8, 0x2a), (8, 0xaa), (8, 0x6a), (8, 0xea),
     (8, 0x1a), (8, 0x9a), (8, 0x5a), (8, 0xda), (8, 0x3a), (8, 0xba), (8, 0x7a), (8, 0xfa),
     (4, 0x06), (4, 0x86), (4, 0x46), (4, 0xc6), (4, 0x26), (4, 0xa6), (4, 0x66), (4, 0xe6),
     (4, 0x16), (4, 0x96), (4, 0x56), (4, 0xd6), (4, 0x36), (4, 0xb6), (4, 0x76), (4, 0xf6),
     (2, 0x0e), (2, 0x8e), (2, 0x4e), (2, 0xce), (2, 0x2e), (2, 0xae), (2, 0x6e), (2, 0xee),
     (2, 0x1e), (2, 0x9e), (2, 0x5e), (2, 0xde), (2, 0x3e), (2, 0xbe), (2, 0x7e)]"

definition signed_to_ulaw_tab :: "u8 list" where
  "signed_to_ulaw_tab = expand_runs (signed_to_ulaw_pos @ signed_to_ulaw_neg)"

definition signed_to_alaw_pos :: "(nat \<times> u8) list" where
  "signed_to_alaw_pos =
    [(2, 0xab), (2, 0x2b), (2, 0xeb), (2, 0x6b), (2, 0x8b), (2, 0x0b), (2, 0xcb), (2, 0x4b),
     (2, 0xbb), (2, 0x3b), (2, 0xfb), (2, 0x7b), (2, 0x9b), (2, 0x1b), (2, 0xdb), (2, 0x5b),
     (2, 0xa3), (2, 0x23), (2, 0xe3), (2, 0x63), (2, 0x83), (2, 0x03), (2, 0xc3), (2, 0x43),
     (2, 0xb3), (2, 0x33), (2, 0xf3), (2, 0x73), (2, 0x93), (2, 0x13), (2, 0xd3), (2, 0x53),
     (4, 0xaf), (4, 0x2f), (4, 0xef), (4, 0x6f), (4, 0x8f), (4, 0x0f), (4, 0xcf), (4, 0x4f),
     (4, 0xbf), (4, 0x3f), (4, 0xff), (4, 0x7f), (4, 0x9f), (4, 0x1f), (4, 0xdf), (4, 0x5f),
     (8, 0xa7), (8, 0x27), (8, 0xe7), (8, 0x67), (8, 0x87), (8, 0x07), (8, 0xc7), (8, 0x47),
     (8, 0xb7), (8, 0x37), (8, 0xf7), (8, 0x77), (8, 0x97), (8, 0x17), (8, 0xd7), (8, 0x57),
     (16, 0xa9), (16, 0x29), (16, 0xe9), (16, 0x69), (16, 0x89), (16, 0x09), (16, 0xc9), (16, 0x49),
     (16, 0xb9), (16, 0x39), (16, 0xf9), (16, 0x79), (16, 0x99), (16, 0x19), (16, 0xd9), (16, 0x59),
     (32, 0xa1), (32, 0x21), (32, 0xe1), (32, 0x61), (32, 0x81), (32, 0x01), (32, 0xc1), (32, 0x41),
     (32, 0xb1), (32, 0x31), (32, 0xf1), (32, 0x71), (32, 0x91), (32, 0x11), (32, 0xd1), (32, 0x51),
     (64, 0xad), (64, 0x2d), (64, 0xed), (64, 0x6d), (64, 0x8d), (64, 0x0d), (64, 0xcd), (64, 0x4d),
     (64, 0xbd), (64, 0x3d), (64, 0xfd), (64, 0x7d), (64, 0x9d), (64, 0x1d), (64, 0xdd), (64, 0x5d),
     (128, 0xa5), (128, 0x25), (128, 0xe5), (128, 0x65), (128, 0x85), (128, 0x05), (128, 0xc5), (128, 0x45),
     (128, 0xb5), (128, 0x35), (128, 0xf5), (128, 0x75), (128, 0x95), (128, 0x15), (128, 0xd5), (128, 0x55)]"

definition signed_to_alaw_neg :: "(nat \<times> u8) list" where
  "signed_to_alaw_neg =
    [(128, 0x54), (128, 0xd4), (128, 0x14), (128, 0x94), (128, 0x74), (128, 0xf4), (128, 0x34), (128, 0xb4),
     (128, 0x44), (128, 0xc4), (128, 0x04), (128, 0x84), (128, 0x64), (128, 0xe4), (128, 0x24), (128, 0xa4),
     (64, 0x5c), (64, 0xdc), (64, 0x1c), (64, 0x9c), (64, 0x7c), (64, 0xfc), (64, 0x3c), (64, 0xbc),
     (64, 0x4c), (64, 0xcc), (64, 0x0c), (64, 0x8c), (64, 0x6c), (64, 0xec), (64, 0x2c), (64, 0xac),
     (32, 0x50), (32, 0xd0), (32, 0x10), (32, 0x90), (32, 0x70), (32, 0xf0), (32, 0x30), (32, 0xb0),
     (32, 0x40), (32, 0xc0), (32, 0x00), (32, 0x80), (32, 0x60), (32, 0xe0), (32, 0x20), (32, 0xa0),
     (16, 0x58), (16, 0xd8), (16, 0x18), (16, 0x98), (16, 0x78), (16, 0xf8), (16, 0x38), (16, 0xb8),
     (16, 0x48), (16, 0xc8), (16, 0x08), (16, 0x88), (16, 0x68), (16, 0xe8), (16, 0x28), (16, 0xa8),
     (8, 0x56), (8, 0xd6), (8, 0x16), (8, 0x96), (8, 0x76), (8, 0xf6), (8, 0x36), (8, 0xb6),
     (8, 0x46), (8, 0xc6), (8, 0x06), (8, 0x86), (8, 0x66), (8, 0xe6), (8, 0x26), (8, 0xa6),
     (4, 0x5e), (4, 0xde), (4, 0x1e), (4, 0x9e), (4, 0x7e), (4, 0xfe), (4, 0x3e), (4, 0xbe),
     (4, 0x4e), (4, 0xce), (4, 0x0e), (4, 0x8e), (4, 0x6e), (4, 0xee), (4, 0x2e), (4, 0xae),
     (2, 0x52), (2, 0xd2), (2, 0x12), (2, 0x92), (2, 0x72), (2, 0xf2), (2, 0x32), (2, 0xb2),
     (2, 0x42), (2, 0xc2), (2, 0x02), (2, 0x82), (2, 0x62), (2, 0xe2), (2, 0x22), (2, 0xa2),
     (2, 0x5a), (2, 0xda), (2, 0x1a), (2, 0x9a), (2, 0x7a), (2, 0xfa), (2, 0x3a), (2, 0xba),
     (2, 0x4a), (2, 0xca), (2, 0x0a), (2, 0x8a), (2, 0x6a), (2, 0xea), (2, 0x2a), (2, 0xaa)]"

definition signed_to_alaw_tab :: "u8 list" where
  "signed_to_alaw_tab = expand_runs (signed_to_alaw_pos @ signed_to_alaw_neg)"

section \<open>Encoding a sample\<close>

definition clip16 :: "int \<Rightarrow> int" where
  "clip16 t = (if 0x7FFF < t then 0x7FFF else if t < - 0x7FFF then - 0x7FFF else t)"

definition i4b_signed_to_ulaw :: "int \<Rightarrow> u8" where
  "i4b_signed_to_ulaw t = signed_to_ulaw_tab ! nat (drop_bit 2 (clip16 t) AND 0x3FFF)"

definition i4b_signed_to_alaw :: "int \<Rightarrow> u8" where
  "i4b_signed_to_alaw t = signed_to_alaw_tab ! nat (drop_bit 3 (clip16 t) AND 0x1FFF)"

section \<open>The law of G.711\<close>

text \<open>
  A sample of 14 (mu-law) or 13 bits (A-law) is coded by its sign, the segment its magnitude lies in and one of 16
  steps within the segment; the width of the steps doubles from segment to segment.
\<close>

definition segment :: "int list \<Rightarrow> int \<Rightarrow> nat" where
  "segment bs m = length (takeWhile (\<lambda>b. b \<le> m) bs)"

definition ulaw_level :: "int \<Rightarrow> int" where
  "ulaw_level v = (let m = min 8158 \<bar>v\<bar> + 33; s = segment [64, 128, 256, 512, 1024, 2048, 4096] m
     in 16 * int s + m div 2 ^ (s + 1) mod 16)"

definition ulaw_number :: "int \<Rightarrow> int" where
  "ulaw_number v = (if v < 0 then 128 else 0) + ulaw_level v"

definition ulaw_code :: "int \<Rightarrow> u8" where
  "ulaw_code v = word_of_int (255 - ulaw_number v)"

definition alaw_level :: "int \<Rightarrow> int" where
  "alaw_level v = (let m = (if v < 0 then - v - 1 else v); s = segment [32, 64, 128, 256, 512, 1024, 2048] m
     in 16 * int s + m div 2 ^ max 1 s mod 16)"

definition alaw_number :: "int \<Rightarrow> int" where
  "alaw_number v = (if v < 0 then 0 else 128) + alaw_level v"

definition alaw_code :: "int \<Rightarrow> u8" where
  "alaw_code v = word_of_int (alaw_number v) XOR 0x55"

definition reverse_order :: "nat list" where
  "reverse_order = [7, 6, 5, 4, 3, 2, 1, 0]"

definition reverse8 :: "int \<Rightarrow> int" where
  "reverse8 n = horner_sum of_bool 2 (map (bit n) reverse_order)"

definition reverse_octet :: "u8 \<Rightarrow> u8" where
  "reverse_octet c = word_of_int (reverse8 (uint c))"

text \<open>Runs that start at sample \<open>a\<close>, end before \<open>b\<close> and agree with a law at the ends of each run.\<close>

fun runs_from :: "(int \<Rightarrow> int) \<Rightarrow> (int \<Rightarrow> u8) \<Rightarrow> int \<Rightarrow> int \<Rightarrow> (nat \<times> u8) list \<Rightarrow> bool" where
  "runs_from level out a b [] \<longleftrightarrow> a = b"
| "runs_from level out a b ((n, c) # rs) \<longleftrightarrow>
     0 < n \<and> out a = c \<and> level a = level (a + int n - 1) \<and> (a < 0) = (a + int n - 1 < 0) \<and> runs_from level out (a + int n) b rs"

text \<open>The value of every run is close to the samples at the ends of the run; a table step is \<open>w\<close> samples.\<close>

definition near_sample :: "int \<Rightarrow> int \<Rightarrow> bool" where
  "near_sample d t \<longleftrightarrow> 32 * \<bar>d - t\<bar> \<le> \<bar>t\<bar> + 256"

fun runs_close :: "(u8 \<Rightarrow> int) \<Rightarrow> int \<Rightarrow> int \<Rightarrow> (nat \<times> u8) list \<Rightarrow> bool" where
  "runs_close value w a [] \<longleftrightarrow> True"
| "runs_close value w a ((n, c) # rs) \<longleftrightarrow>
     near_sample (value c) (w * a) \<and> near_sample (value c) (w * (a + int n) - 1) \<and> runs_close value w (a + int n) rs"

section \<open>Tables of runs\<close>

text \<open>
  A quantiser is monotone in the magnitude of a sample on both sides of zero, so that a run of a table need only be
  checked at its ends.
\<close>

lemma expand_runs_Cons [simp]: "expand_runs ((n, c) # rs) = replicate n c @ expand_runs rs"
  by (simp add: expand_runs_def)

lemma expand_runs_Nil [simp]: "expand_runs [] = []"
  by (simp add: expand_runs_def)

lemma length_runs: "runs_from level out a b rs \<Longrightarrow> a + int (length (expand_runs rs)) = b"
  by (induction rs arbitrary: a) (auto simp: add.assoc [symmetric])

lemma near_sample_between: "near_sample d a \<Longrightarrow> near_sample d b \<Longrightarrow> a \<le> t \<Longrightarrow> t \<le> b \<Longrightarrow> (a < 0) = (b < 0) \<Longrightarrow> near_sample d t"
  by (auto simp: near_sample_def abs_if split: if_splits)

locale run_quantiser =
  fixes h :: nat and level :: "int \<Rightarrow> int" and out :: "int \<Rightarrow> u8"
  assumes level_mono: "0 \<le> v \<Longrightarrow> v \<le> w \<Longrightarrow> w < int h \<Longrightarrow> level v \<le> level w"
    and level_antimono: "- int h \<le> v \<Longrightarrow> v \<le> w \<Longrightarrow> w < 0 \<Longrightarrow> level w \<le> level v"
    and out_level: "level v = level w \<Longrightarrow> (v < 0) = (w < 0) \<Longrightarrow> out v = out w"
begin

lemma level_between:
  assumes "- int h \<le> v" "v \<le> u" "u \<le> w" "w < int h" "level v = level w" "(v < 0) = (w < 0)"
  shows "out u = out v"
proof (cases "w < 0")
  case True
  then have "level u = level v"
    using assms level_antimono [of v u] level_antimono [of u w] by simp
  then show ?thesis
    using assms True by (intro out_level) auto
next
  case False
  then have "level u = level v"
    using assms level_mono [of v u] level_mono [of u w] by simp
  then show ?thesis
    using assms False by (intro out_level) auto
qed

lemma runs_nth:
  assumes "runs_from level out a b rs" "i < length (expand_runs rs)" "- int h \<le> a" "b \<le> int h"
  shows "expand_runs rs ! i = out (a + int i)"
  using assms
proof (induction rs arbitrary: a i)
  case (Cons r rs)
  obtain n c where r: "r = (n, c)"
    by fastforce
  have c: "0 < n" "out a = c" "level a = level (a + int n - 1)" "(a < 0) = (a + int n - 1 < 0)" "runs_from level out (a + int n) b rs"
    using Cons.prems(1) by (simp_all add: r)
  have "a + int n \<le> b"
    using length_runs [OF c(5)] by linarith
  note c = c this
  show ?case
  proof (cases "i < n")
    case True
    then have "out (a + int i) = c"
      using level_between [of a "a + int i" "a + int n - 1"] c Cons.prems(3,4) by (simp add: r)
    then show ?thesis
      using True by (simp add: r nth_append)
  next
    case False
    then have "expand_runs rs ! (i - n) = out (a + int n + int (i - n))"
      using Cons.prems(2-4) by (intro Cons.IH [OF c(5)]) (simp_all add: r)
    then show ?thesis
      using False by (simp add: r nth_append of_nat_diff algebra_simps)
  qed
qed simp

lemma table_nth:
  assumes "runs_from level out 0 (int h) rs" "runs_from level out (- int h) 0 rs'" "- int h \<le> v" "v < int h"
  shows "expand_runs (rs @ rs') ! nat (v mod int (2 * h)) = out v"
proof (cases "v < 0")
  have len: "length (expand_runs rs) = h" "length (expand_runs rs') = h"
    using length_runs [OF assms(1)] length_runs [OF assms(2)] by simp_all
  case False
  then have "v mod int (2 * h) = v"
    using assms by simp
  then show ?thesis
    using runs_nth [OF assms(1), of "nat v"] False len assms(4) by (simp add: expand_runs_def nth_append nat_less_iff)
next
  have len: "length (expand_runs rs) = h" "length (expand_runs rs') = h"
    using length_runs [OF assms(1)] length_runs [OF assms(2)] by simp_all
  case True
  have "(v + int (2 * h)) mod int (2 * h) = v + int (2 * h)"
    using assms True by (intro mod_pos_pos_trivial) simp_all
  then have "nat (v mod int (2 * h)) = h + nat (v + int h)" "nat (v + int h) < h"
    using assms(3) True by (auto simp: nat_add_distrib [symmetric] nat_less_iff)
  then show ?thesis
    using runs_nth [OF assms(2), of "nat (v + int h)"] len assms(3) True by (simp add: expand_runs_def nth_append)
qed

lemma runs_close_value:
  assumes "runs_from level out a b rs" "runs_close value w a rs" "- int h \<le> a" "b \<le> int h" "a \<le> v" "v < b"
    and t: "w * v \<le> t" "t < w * (v + 1)" and w: "0 < w"
  shows "near_sample (value (out v)) t"
  using assms(1-6)
proof (induction rs arbitrary: a)
  case (Cons r rs)
  obtain n c where r: "r = (n, c)"
    by fastforce
  have c: "0 < n" "out a = c" "level a = level (a + int n - 1)" "(a < 0) = (a + int n - 1 < 0)" "runs_from level out (a + int n) b rs"
    using Cons.prems(1) by (simp_all add: r)
  have "a + int n \<le> b"
    using length_runs [OF c(5)] by linarith
  show ?case
  proof (cases "v < a + int n")
    case True
    have "out v = c"
      using level_between [of a v "a + int n - 1"] c True Cons.prems(3-5) \<open>a + int n \<le> b\<close> by simp
    moreover have "w * a \<le> w * v" "w * (v + 1) \<le> w * (a + int n)"
      using w Cons.prems(5) True by (auto intro!: mult_left_mono)
    then have "w * a \<le> t" "t \<le> w * (a + int n) - 1"
      using t by linarith+
    moreover have "(w * a < 0) = (w * (a + int n) - 1 < 0)"
      using c(4) w mult_less_0_iff [of w a] mult_le_0_iff [of w "a + int n"] by auto
    ultimately show ?thesis
      using Cons.prems(2) near_sample_between [of "value c" "w * a" "w * (a + int n) - 1" t] by (simp add: r)
  next
    case False
    then show ?thesis
      using Cons.IH [OF c(5)] Cons.prems(2-6) by (simp add: r)
  qed
qed simp

lemma table_close:
  assumes "runs_from level out 0 (int h) rs" "runs_from level out (- int h) 0 rs'" "runs_close value w 0 rs"
    "runs_close value w (- int h) rs'" "- int h \<le> v" "v < int h" "w * v \<le> t" "t < w * (v + 1)" "0 < w"
  shows "near_sample (value (out v)) t"
  using runs_close_value [OF assms(1,3), of v t] runs_close_value [OF assms(2,4), of v t] assms(5-9) by (cases "v < 0") simp_all

end

lemma segment_mono: "m \<le> m' \<Longrightarrow> segment bs m \<le> segment bs m'"
  unfolding segment_def by (induction bs) auto

lemma segment_Cons [simp]: "segment (b # bs) m = (if b \<le> m then Suc (segment bs m) else 0)" "segment [] m = 0"
  by (simp_all add: segment_def)

text \<open>Two magnitudes of one segment lie in the same group of 16 steps.\<close>

lemma steps_mono:
  fixes x y :: int
  assumes "x \<le> y" "x div 16 = y div 16"
  shows "x mod 16 \<le> y mod 16"
  using assms by (simp add: minus_mult_div_eq_mod [symmetric])

lemma levels_mono:
  fixes m m' :: int
  assumes "m \<le> m'" "segment bs m = segment bs m' \<Longrightarrow> m div 2 ^ w (segment bs m) div 16 = m' div 2 ^ w (segment bs m) div 16"
  shows "16 * int (segment bs m) + m div 2 ^ w (segment bs m) mod 16 \<le> 16 * int (segment bs m') + m' div 2 ^ w (segment bs m') mod 16"
proof (cases "segment bs m = segment bs m'")
  case True
  have "m div 2 ^ w (segment bs m) \<le> m' div 2 ^ w (segment bs m)"
    using assms(1) by (intro zdiv_mono1) simp_all
  then show ?thesis
    using steps_mono [OF _ assms(2) [OF True]] True by simp
next
  case False
  then have "16 * int (segment bs m) + 16 \<le> 16 * int (segment bs m')"
    using segment_mono [OF assms(1), of bs] by simp
  moreover have "m div 2 ^ w (segment bs m) mod 16 < 16" "0 \<le> m' div 2 ^ w (segment bs m') mod 16"
    by simp_all
  ultimately show ?thesis
    by linarith
qed

abbreviation ulaw_bounds :: "int list" where
  "ulaw_bounds \<equiv> [64, 128, 256, 512, 1024, 2048, 4096]"

abbreviation alaw_bounds :: "int list" where
  "alaw_bounds \<equiv> [32, 64, 128, 256, 512, 1024, 2048]"

lemma ulaw_group: "33 \<le> m \<Longrightarrow> m < 8192 \<Longrightarrow> m div 2 ^ (segment ulaw_bounds m + 1) div 16 = 1"
  by auto

lemma alaw_group: "0 \<le> m \<Longrightarrow> m < 4096 \<Longrightarrow> m div 2 ^ max 1 (segment alaw_bounds m) div 16 = (if segment alaw_bounds m = 0 then 0 else 1)"
  by auto


interpretation ulaw: run_quantiser 8192 ulaw_level "\<lambda>v. reverse_octet (ulaw_code v)"
proof
  show "ulaw_level v \<le> ulaw_level w" if "0 \<le> v" "v \<le> w" "w < int 8192" for v w
    using that ulaw_group [of "min 8158 \<bar>v\<bar> + 33"] ulaw_group [of "min 8158 \<bar>w\<bar> + 33"]
    unfolding ulaw_level_def Let_def by (intro levels_mono) (simp_all del: segment_Cons)
  show "ulaw_level w \<le> ulaw_level v" if "- int 8192 \<le> v" "v \<le> w" "w < 0" for v w
    using that ulaw_group [of "min 8158 \<bar>v\<bar> + 33"] ulaw_group [of "min 8158 \<bar>w\<bar> + 33"]
    unfolding ulaw_level_def Let_def by (intro levels_mono) (simp_all del: segment_Cons)
qed (simp add: ulaw_code_def ulaw_number_def)

interpretation alaw: run_quantiser 4096 alaw_level "\<lambda>v. reverse_octet (alaw_code v)"
proof
  show "alaw_level v \<le> alaw_level w" if "0 \<le> v" "v \<le> w" "w < int 4096" for v w
    using that alaw_group [of v] alaw_group [of w]
    unfolding alaw_level_def Let_def by (auto intro!: levels_mono simp del: segment_Cons)
  show "alaw_level w \<le> alaw_level v" if "- int 4096 \<le> v" "v \<le> w" "w < 0" for v w
    using that alaw_group [of "- v - 1"] alaw_group [of "- w - 1"]
    unfolding alaw_level_def Let_def by (auto intro!: levels_mono simp del: segment_Cons)
qed (simp add: alaw_code_def alaw_number_def)

section \<open>The tables are the law\<close>

lemma ulaw_runs:
  "runs_from ulaw_level (\<lambda>v. reverse_octet (ulaw_code v)) 0 8192 signed_to_ulaw_pos"
  "runs_from ulaw_level (\<lambda>v. reverse_octet (ulaw_code v)) (- 8192) 0 signed_to_ulaw_neg"
  by code_simp+

lemma alaw_runs:
  "runs_from alaw_level (\<lambda>v. reverse_octet (alaw_code v)) 0 4096 signed_to_alaw_pos"
  "runs_from alaw_level (\<lambda>v. reverse_octet (alaw_code v)) (- 4096) 0 signed_to_alaw_neg"
  by code_simp+

lemma clip16_range: "- 0x7FFF \<le> clip16 t" "clip16 t \<le> 0x7FFF"
  by (simp_all add: clip16_def)

lemma signed_to_ulaw_law: "i4b_signed_to_ulaw t = reverse_octet (ulaw_code (clip16 t div 4))"
proof -
  have "drop_bit 2 (clip16 t) AND mask 14 = (clip16 t div 4) mod int (2 * 8192)"
    unfolding take_bit_eq_mask [symmetric] by (simp add: drop_bit_eq_div take_bit_eq_mod)
  then have "drop_bit 2 (clip16 t) AND 0x3FFF = (clip16 t div 4) mod int (2 * 8192)"
    by (simp add: mask_eq_exp_minus_1)
  then show ?thesis
    using ulaw.table_nth [of signed_to_ulaw_pos signed_to_ulaw_neg "clip16 t div 4"] ulaw_runs clip16_range [of t]
    by (simp add: i4b_signed_to_ulaw_def signed_to_ulaw_tab_def)
qed

lemma signed_to_alaw_law: "i4b_signed_to_alaw t = reverse_octet (alaw_code (clip16 t div 8))"
proof -
  have "drop_bit 3 (clip16 t) AND mask 13 = (clip16 t div 8) mod int (2 * 4096)"
    unfolding take_bit_eq_mask [symmetric] by (simp add: drop_bit_eq_div take_bit_eq_mod)
  then have "drop_bit 3 (clip16 t) AND 0x1FFF = (clip16 t div 8) mod int (2 * 4096)"
    by (simp add: mask_eq_exp_minus_1)
  then show ?thesis
    using alaw.table_nth [of signed_to_alaw_pos signed_to_alaw_neg "clip16 t div 8"] alaw_runs clip16_range [of t]
    by (simp add: i4b_signed_to_alaw_def signed_to_alaw_tab_def)
qed

lemma octet_range: "0 \<le> uint (c :: u8)" "uint (c :: u8) \<le> 255"
proof -
  have "uint c < 2 ^ LENGTH(8)"
    by (rule uint_lt2p)
  then show "uint c \<le> 255"
    by simp
qed simp

lemma nth_map_upto: "0 \<le> k \<Longrightarrow> k \<le> b \<Longrightarrow> map f [0..b] ! nat k = f k"
  by (subst nth_map) (simp_all add: nth_upto)

lemma octet_nth: "map f [0..255] ! unat (c :: u8) = f (uint c)"
  using nth_map_upto [OF octet_range, of f c] by (simp only: unat_eq_nat_uint)

lemma reverse_order_nth: "length reverse_order = 8" "i < 8 \<Longrightarrow> reverse_order ! i = 7 - i"
proof -
  have "list_all (\<lambda>i. reverse_order ! i = 7 - i) [0..<8]"
    by code_simp
  then show "i < 8 \<Longrightarrow> reverse_order ! i = 7 - i"
    by (simp add: list_all_iff)
qed (simp add: reverse_order_def)

lemma bit_picked: "bit (horner_sum of_bool 2 (map (bit n) xs) :: int) i \<longleftrightarrow> i < length xs \<and> bit n (xs ! i)"
  by (auto simp: bit_horner_sum_bit_iff)

lemma bit_reverse_octet: "bit (reverse_octet c) i \<longleftrightarrow> i < 8 \<and> bit c (7 - i)"
proof -
  have "bit (reverse8 (uint c)) i \<longleftrightarrow> i < 8 \<and> bit c (7 - i)"
    unfolding reverse8_def bit_picked by (auto simp: reverse_order_nth bit_uint_iff)
  then show ?thesis
    by (simp add: reverse_octet_def bit_word_of_int_iff)
qed

lemma reverse_octet_involution [simp]: "reverse_octet (reverse_octet c) = c"
  by (rule bit_word_eqI) (auto simp: bit_reverse_octet)

lemma reverse_bits_law: "i4b_reverse_bits ! unat c = reverse_octet c"
proof -
  have "i4b_reverse_bits = map (\<lambda>n. word_of_int (reverse8 n)) [0..255]"
    by code_simp
  then show ?thesis
    by (metis octet_nth reverse_octet_def)
qed

text \<open>The value of a code.\<close>

definition ulaw_number_value :: "int \<Rightarrow> int" where
  "ulaw_number_value n = (let m = (8 * (n mod 16) + 132) * 2 ^ nat (n div 16 mod 8) - 132 in if 128 \<le> n then - m else m)"

definition ulaw_value :: "u8 \<Rightarrow> int" where
  "ulaw_value c = ulaw_number_value (255 - uint c)"

definition alaw_number_value :: "int \<Rightarrow> int" where
  "alaw_number_value n = (let e = n div 16 mod 8; m = 16 * (n mod 16) + 8; m' = (if e = 0 then m else (m + 256) * 2 ^ nat (e - 1))
     in if 128 \<le> n then m' else - m')"

definition alaw_value :: "u8 \<Rightarrow> int" where
  "alaw_value c = alaw_number_value (uint (c XOR 0x55))"

lemma ulaw_to_signed_law: "sint (i4b_ulaw_to_signed ! unat c) = ulaw_value (reverse_octet c)"
proof -
  have "map sint i4b_ulaw_to_signed = map (\<lambda>n. ulaw_value (word_of_int (reverse8 n))) [0..255]" "length i4b_ulaw_to_signed = 256"
    by code_simp+
  then show ?thesis
    by (metis length_map nth_map octet_nth reverse_octet_def unat_u8_less)
qed

lemma alaw_to_signed_law: "sint (i4b_alaw_to_signed ! unat c) = alaw_value (reverse_octet c)"
proof -
  have "map sint i4b_alaw_to_signed = map (\<lambda>n. alaw_value (word_of_int (reverse8 n))) [0..255]" "length i4b_alaw_to_signed = 256"
    by code_simp+
  then show ?thesis
    by (metis length_map nth_map octet_nth reverse_octet_def unat_u8_less)
qed

text \<open>The value of a code is coded by it. Only mu-law has a negative zero, which is coded as zero.\<close>

lemma ulaw_number_value_number: "list_all (\<lambda>n. n = 128 \<or> ulaw_number (clip16 (ulaw_number_value n) div 4) = n) [0..255]"
  by code_simp

lemma alaw_number_value_number: "list_all (\<lambda>n. alaw_number (clip16 (alaw_number_value n) div 8) = n) [0..255]"
  by code_simp

lemma ulaw_code_value:
  assumes "c \<noteq> 0x7F"
  shows "ulaw_code (clip16 (ulaw_value c) div 4) = c"
proof -
  have "uint c \<noteq> 127"
    using assms by (metis word_of_int_uint of_int_numeral)
  then have "ulaw_number (clip16 (ulaw_value c) div 4) = 255 - uint c"
    using bspec [OF ulaw_number_value_number [unfolded list_all_iff], of "255 - uint c"] octet_range [of c]
    by (simp add: ulaw_value_def)
  then show ?thesis
    by (simp add: ulaw_code_def)
qed

lemma alaw_code_value: "alaw_code (clip16 (alaw_value c) div 8) = c"
proof -
  have "alaw_number (clip16 (alaw_value c) div 8) = uint (c XOR 0x55)"
    using bspec [OF alaw_number_value_number [unfolded list_all_iff], of "uint (c XOR 0x55)"] octet_range [of "c XOR 0x55"]
    by (simp add: alaw_value_def)
  then show ?thesis
    by (simp add: alaw_code_def xor.assoc)
qed

text \<open>What is lost by coding a sample is at most a 32nd part of it and a few units.\<close>

lemma ulaw_close:
  "runs_close (\<lambda>c. ulaw_value (reverse_octet c)) 4 0 signed_to_ulaw_pos"
  "runs_close (\<lambda>c. ulaw_value (reverse_octet c)) 4 (- 8192) signed_to_ulaw_neg"
  by code_simp+

lemma alaw_close:
  "runs_close (\<lambda>c. alaw_value (reverse_octet c)) 8 0 signed_to_alaw_pos"
  "runs_close (\<lambda>c. alaw_value (reverse_octet c)) 8 (- 4096) signed_to_alaw_neg"
  by code_simp+

lemma signed_to_ulaw_close: "near_sample (sint (i4b_ulaw_to_signed ! unat (i4b_signed_to_ulaw t))) (clip16 t)"
proof -
  have "4 * (clip16 t div 4) \<le> clip16 t" "clip16 t < 4 * (clip16 t div 4 + 1)"
    by simp_all
  then show ?thesis
    using ulaw.table_close [of signed_to_ulaw_pos signed_to_ulaw_neg "\<lambda>c. ulaw_value (reverse_octet c)" 4 "clip16 t div 4" "clip16 t"]
      ulaw_runs ulaw_close clip16_range [of t]
    by (simp add: ulaw_to_signed_law signed_to_ulaw_law)
qed

lemma signed_to_alaw_close: "near_sample (sint (i4b_alaw_to_signed ! unat (i4b_signed_to_alaw t))) (clip16 t)"
proof -
  have "8 * (clip16 t div 8) \<le> clip16 t" "clip16 t < 8 * (clip16 t div 8 + 1)"
    by simp_all
  then show ?thesis
    using alaw.table_close [of signed_to_alaw_pos signed_to_alaw_neg "\<lambda>c. alaw_value (reverse_octet c)" 8 "clip16 t div 8" "clip16 t"]
      alaw_runs alaw_close clip16_range [of t]
    by (simp add: alaw_to_signed_law signed_to_alaw_law)
qed

section \<open>Converting a buffer\<close>

datatype bsubprot =
    BSUBPROT_UNKNOWN | BSUBPROT_G711_ALAW | BSUBPROT_G711_ULAW | BSUBPROT_PLAIN_ALAW | BSUBPROT_PLAIN_ULAW
  | BSUBPROT_SIGNED_8BIT | BSUBPROT_MUTED

text \<open>Division of the C language, and the value of a signed 32 bit result that has wrapped.\<close>

definition cdivide :: "int \<Rightarrow> int \<Rightarrow> int" where
  "cdivide a b = sgn a * sgn b * (\<bar>a\<bar> div \<bar>b\<bar>)"

definition wrap32 :: "int \<Rightarrow> int" where
  "wrap32 x = (x + 0x80000000) mod 0x100000000 - 0x80000000"

lemma wrap32_id [simp]: "- 0x80000000 \<le> x \<Longrightarrow> x < 0x80000000 \<Longrightarrow> wrap32 x = x"
  by (simp add: wrap32_def)

definition octet_to_signed :: "bsubprot \<Rightarrow> u8 \<Rightarrow> int" where
  "octet_to_signed prot c =
     (case prot of
        BSUBPROT_SIGNED_8BIT \<Rightarrow> sint c * 256
      | BSUBPROT_G711_ULAW \<Rightarrow> sint (i4b_ulaw_to_signed ! unat c)
      | BSUBPROT_PLAIN_ULAW \<Rightarrow> sint (i4b_ulaw_to_signed ! unat (i4b_reverse_bits ! unat c))
      | BSUBPROT_G711_ALAW \<Rightarrow> sint (i4b_alaw_to_signed ! unat c)
      | BSUBPROT_PLAIN_ALAW \<Rightarrow> sint (i4b_alaw_to_signed ! unat (i4b_reverse_bits ! unat c))
      | _ \<Rightarrow> 0)"

definition signed_to_octet :: "bsubprot \<Rightarrow> int \<Rightarrow> u8" where
  "signed_to_octet prot t =
     (case prot of
        BSUBPROT_SIGNED_8BIT \<Rightarrow> word_of_int (cdivide (clip16 t) 256)
      | BSUBPROT_G711_ULAW \<Rightarrow> i4b_signed_to_ulaw t
      | BSUBPROT_PLAIN_ULAW \<Rightarrow> i4b_reverse_bits ! unat (i4b_signed_to_ulaw t)
      | BSUBPROT_G711_ALAW \<Rightarrow> i4b_signed_to_alaw t
      | BSUBPROT_PLAIN_ALAW \<Rightarrow> i4b_reverse_bits ! unat (i4b_signed_to_alaw t)
      | _ \<Rightarrow> 0xFF)"

definition same_law :: "bsubprot \<Rightarrow> bsubprot \<Rightarrow> bool" where
  "same_law p q \<longleftrightarrow> (p, q) \<in> {(BSUBPROT_G711_ULAW, BSUBPROT_PLAIN_ULAW), (BSUBPROT_PLAIN_ULAW, BSUBPROT_G711_ULAW),
     (BSUBPROT_G711_ALAW, BSUBPROT_PLAIN_ALAW), (BSUBPROT_PLAIN_ALAW, BSUBPROT_G711_ALAW)}"

definition scale_sample :: "int \<Rightarrow> int \<Rightarrow> int \<Rightarrow> int" where
  "scale_sample factor divisor t = (if factor \<noteq> divisor then wrap32 (cdivide (wrap32 (t * factor)) divisor) else t)"

text \<open>\<open>None\<close>: a division by zero.\<close>

definition i4b_convert_bsubprot :: "u8 list \<Rightarrow> int \<Rightarrow> int \<Rightarrow> bsubprot \<Rightarrow> bsubprot \<Rightarrow> u8 list option" where
  "i4b_convert_bsubprot ptr factor divisor in_prot out_prot =
     (if factor = divisor \<and> in_prot = out_prot then Some ptr
      else if factor = divisor \<and> same_law in_prot out_prot then Some (map (\<lambda>c. i4b_reverse_bits ! unat c) ptr)
      else if factor \<noteq> divisor \<and> divisor = 0 \<and> ptr \<noteq> [] then None
      else Some (map (\<lambda>c. signed_to_octet out_prot (scale_sample factor divisor (octet_to_signed in_prot c))) ptr))"

text \<open>
  C39: The tables are those of G.711: a signed sample, clipped to 16 bits, is coded by the law on its upper 14 (mu-law)
  or 13 bits (A-law), and an octet stands for the value the law gives it, with the bits of an octet in reverse order.
\<close>

theorem tables_are_g711:
  "i4b_signed_to_ulaw t = reverse_octet (ulaw_code (clip16 t div 4)) \<and>
   i4b_signed_to_alaw t = reverse_octet (alaw_code (clip16 t div 8)) \<and>
   sint (i4b_ulaw_to_signed ! unat c) = ulaw_value (reverse_octet c) \<and>
   sint (i4b_alaw_to_signed ! unat c) = alaw_value (reverse_octet c) \<and>
   i4b_reverse_bits ! unat c = reverse_octet c"
  by (simp add: signed_to_ulaw_law signed_to_alaw_law ulaw_to_signed_law alaw_to_signed_law reverse_bits_law)

lemma ulaw_octet_round_trip:
  assumes "c \<noteq> 0xFE"
  shows "i4b_signed_to_ulaw (sint (i4b_ulaw_to_signed ! unat c)) = c"
proof -
  have "reverse_octet c \<noteq> 0x7F"
  proof
    assume "reverse_octet c = 0x7F"
    then have "c = reverse_octet 0x7F"
      using reverse_octet_involution [of c] by simp
    also have "reverse_octet 0x7F = 0xFE"
      by code_simp
    finally show False
      using assms by simp
  qed
  then show ?thesis
    by (simp add: signed_to_ulaw_law ulaw_to_signed_law ulaw_code_value)
qed

lemma alaw_octet_round_trip: "i4b_signed_to_alaw (sint (i4b_alaw_to_signed ! unat c)) = c"
  by (simp add: signed_to_alaw_law alaw_to_signed_law alaw_code_value)

text \<open>
  C40: An octet decoded to a sample and coded again is the same octet, but for the negative zero of mu-law; a sample
  coded and decoded again differs from the clipped sample by at most a 32nd part of it and eight units.
\<close>

theorem g711_round_trip:
  "(c \<noteq> 0xFE \<longrightarrow> i4b_signed_to_ulaw (sint (i4b_ulaw_to_signed ! unat c)) = c) \<and>
   i4b_signed_to_alaw (sint (i4b_alaw_to_signed ! unat c)) = c \<and>
   32 * \<bar>sint (i4b_ulaw_to_signed ! unat (i4b_signed_to_ulaw t)) - clip16 t\<bar> \<le> \<bar>clip16 t\<bar> + 256 \<and>
   32 * \<bar>sint (i4b_alaw_to_signed ! unat (i4b_signed_to_alaw t)) - clip16 t\<bar> \<le> \<bar>clip16 t\<bar> + 256"
  using ulaw_octet_round_trip [of c] alaw_octet_round_trip [of c] signed_to_ulaw_close [of t] signed_to_alaw_close [of t]
  by (simp add: near_sample_def)

theorem g711_round_trip_witness:
  "i4b_signed_to_ulaw (sint (i4b_ulaw_to_signed ! unat (0x35 :: u8))) = 0x35 \<and>
   32 * \<bar>sint (i4b_alaw_to_signed ! unat (i4b_signed_to_alaw 40000)) - 32767\<bar> \<le> 33023"
  using g711_round_trip [of "0x35" 40000] by (simp add: clip16_def)

text \<open>Between the two bit orders of one law a buffer is converted without decoding; that is a shortcut only.\<close>

lemma convert_shortcut:
  assumes "same_law p q" "p = BSUBPROT_G711_ULAW \<Longrightarrow> c \<noteq> 0xFE" "p = BSUBPROT_PLAIN_ULAW \<Longrightarrow> c \<noteq> 0x7F"
  shows "signed_to_octet q (octet_to_signed p c) = i4b_reverse_bits ! unat c"
proof -
  have "reverse_octet 0xFE = 0x7F"
    by code_simp
  then have "c \<noteq> 0x7F \<Longrightarrow> reverse_octet c \<noteq> 0xFE"
    by (metis reverse_octet_involution)
  then show ?thesis
    using assms ulaw_octet_round_trip alaw_octet_round_trip
    by (auto simp: same_law_def signed_to_octet_def octet_to_signed_def reverse_bits_law)
qed

end
