(* ===== verification/Voice_Tx.thy ===== *)
theory Voice_Tx
  imports Voice_G711 Voice_Sine
begin

text \<open>
  Sending the tones of the telephone keys, \<^verbatim>\<open>layer1/i4b_dtmf.c\<close>: \<open>i4b_dtmf_queue_digit\<close> puts a tone and a gap into a ring
  of 32 entries, \<open>i4b_dtmf_generate\<close> writes the samples of the entries into the buffers of the channel. The ring is
  shown to be a queue of tones and the buffers to carry the signal of the queue without a break.
\<close>

section \<open>The transmitter\<close>

text \<open>Unsigned fields are natural numbers; where an operation could leave the range of its type, the remainder is written out.\<close>

record i4b_dtmf_info_tx =
  freq0 :: "nat list"
  freq1 :: "nat list"
  duration :: "nat list"
  omega0 :: nat
  omega1 :: nat
  input_pos :: nat
  output_pos :: nat
  tx_bsubprot :: bsubprot

abbreviation I4B_DTMF_N_DIGITS :: nat where
  "I4B_DTMF_N_DIGITS \<equiv> 32"

definition dtmf_to_freq :: "(nat \<times> nat \<times> nat) list" where
  "dtmf_to_freq =
    [(941, 1477, of_char CHR ''#''),
     (941, 1209, of_char CHR ''*''),
     (941, 1336, of_char CHR ''0''),
     (697, 1209, of_char CHR ''1''),
     (697, 1336, of_char CHR ''2''),
     (697, 1477, of_char CHR ''3''),
     (770, 1209, of_char CHR ''4''),
     (770, 1336, of_char CHR ''5''),
     (770, 1477, of_char CHR ''6''),
     (852, 1209, of_char CHR ''7''),
     (852, 1336, of_char CHR ''8''),
     (852, 1477, of_char CHR ''9''),
     (697, 1633, of_char CHR ''A''),
     (770, 1633, of_char CHR ''B''),
     (852, 1633, of_char CHR ''C''),
     (941, 1633, of_char CHR ''D''),
     (0, 0, 0)]"

definition i4b_dtmf_init_tx :: "bsubprot \<Rightarrow> i4b_dtmf_info_tx" where
  "i4b_dtmf_init_tx prot =
     \<lparr>freq0 = replicate I4B_DTMF_N_DIGITS 0, freq1 = replicate I4B_DTMF_N_DIGITS 0, duration = replicate I4B_DTMF_N_DIGITS 0,
      omega0 = 0, omega1 = 0, input_pos = 0, output_pos = 0, tx_bsubprot = prot\<rparr>"

text \<open>The search in \<open>dtmf_to_freq\<close> has no bound of its own; \<open>None\<close> stands for one that leaves the table.\<close>

fun find_key :: "nat \<Rightarrow> (nat \<times> nat \<times> nat) list \<Rightarrow> (nat \<times> nat) option" where
  "find_key dig [] = None"
| "find_key dig ((f0, f1, key) # fs) = (if key = dig \<or> key = 0 then Some (f0, f1) else find_key dig fs)"

definition to_samples :: "nat \<Rightarrow> nat" where
  "to_samples ms = (let ms = (if ms > 0x1FFF then 0x1FFF else ms); ms = (if ms = 0 then 40 else ms) in (ms * 8) mod 0x10000)"

text \<open>The second result says whether the transmitter is started (\<open>L1_FIFO_START\<close>).\<close>

definition i4b_dtmf_queue_digit :: "i4b_dtmf_info_tx \<Rightarrow> nat \<Rightarrow> nat \<Rightarrow> nat \<Rightarrow> (i4b_dtmf_info_tx \<times> bool) option" where
  "i4b_dtmf_queue_digit tx dig tone_duration gap_duration =
     (let next_pos0 = (output_pos tx + 1) mod I4B_DTMF_N_DIGITS; next_pos1 = (next_pos0 + 1) mod I4B_DTMF_N_DIGITS; i = output_pos tx
      in if next_pos0 = input_pos tx \<or> next_pos1 = input_pos tx then Some (tx, False)
         else if i \<ge> I4B_DTMF_N_DIGITS then None
         else case find_key dig dtmf_to_freq of
             None \<Rightarrow> None
           | Some (f0, f1) \<Rightarrow>
               Some (tx\<lparr>freq0 := (freq0 tx)[i := f0, next_pos0 := 0], freq1 := (freq1 tx)[i := f1, next_pos0 := 0],
                        duration := (duration tx)[i := to_samples tone_duration, next_pos0 := to_samples gap_duration],
                        output_pos := next_pos1\<rparr>, True))"

text \<open>The octet for the two phases.\<close>

definition tone_octet :: "bsubprot \<Rightarrow> nat \<Rightarrow> nat \<Rightarrow> u8" where
  "tone_octet prot a b =
     (let temp = cdivide (i4b_sine_to_signed ! a + i4b_sine_to_signed ! b) 4
      in if prot = BSUBPROT_G711_ULAW then i4b_signed_to_ulaw temp else i4b_signed_to_alaw temp)"

definition next_phase :: "nat \<Rightarrow> nat \<Rightarrow> nat" where
  "next_phase a f = (let a = (a + f) mod 0x10000 in if a \<ge> 8000 then a - 8000 else a)"

text \<open>One octet of the loop: the sample for entry \<open>i\<close> and the phases after it; \<open>None\<close> is an access outside an array.\<close>

definition generate_sample :: "i4b_dtmf_info_tx \<Rightarrow> nat \<Rightarrow> (i4b_dtmf_info_tx \<times> u8) option" where
  "generate_sample tx i =
     (if omega0 tx < length i4b_sine_to_signed \<and> omega1 tx < length i4b_sine_to_signed \<and> i < I4B_DTMF_N_DIGITS
      then Some (tx\<lparr>omega0 := next_phase (omega0 tx) (freq0 tx ! i), omega1 := next_phase (omega1 tx) (freq1 tx ! i)\<rparr>,
                 tone_octet (tx_bsubprot tx) (omega0 tx) (omega1 tx))
      else None)"

text \<open>
  The statements \<open>*ptr = silence; while (len--) *ptr++ = silence;\<close> on the octets from \<open>ptr\<close> on; \<open>len\<close> is already one
  less than their number.
\<close>

fun fill_silence :: "u8 \<Rightarrow> u8 list \<Rightarrow> u8 list" where
  "fill_silence s [] = []"
| "fill_silence s (c # cs) = (let buf = s # cs; len = length cs in replicate len s @ drop len buf)"

text \<open>
  The loop over the octets from \<open>ptr\<close> on, with their contents before it as a list; \<open>silence\<close> is present when the buffer
  has been allocated here.
\<close>

fun generate_loop :: "u8 option \<Rightarrow> i4b_dtmf_info_tx \<Rightarrow> nat \<Rightarrow> u8 list \<Rightarrow> (i4b_dtmf_info_tx \<times> u8 list) option" where
  "generate_loop silence tx i [] = Some (tx, [])"
| "generate_loop silence tx i (c # cs) =
     (if i \<ge> I4B_DTMF_N_DIGITS then None
      else if duration tx ! i = 0
      then let i = (if i + 1 \<ge> I4B_DTMF_N_DIGITS then 0 else i + 1); tx = tx\<lparr>omega0 := 0, omega1 := 0, input_pos := i\<rparr>
           in if i = output_pos tx then Some (tx, case silence of None \<Rightarrow> c # cs | Some s \<Rightarrow> fill_silence s (c # cs))
              else case generate_sample tx i of
                  None \<Rightarrow> None
                | Some (tx, v) \<Rightarrow> map_option (apsnd ((#) v)) (generate_loop silence tx i cs)
      else case generate_sample (tx\<lparr>duration := (duration tx)[i := duration tx ! i - 1]\<rparr>) i of
             None \<Rightarrow> None
           | Some (tx, v) \<Rightarrow> map_option (apsnd ((#) v)) (generate_loop silence tx i cs))"

text \<open>
  The buffer is the chain's first one, \<open>None\<close> for the null pointer; \<open>getmbuf\<close> is the outcome of \<open>i4b_getmbuf(800)\<close>, a
  buffer with whatever its memory held.
\<close>

definition silence_of :: "bsubprot \<Rightarrow> u8" where
  "silence_of prot = (if prot = BSUBPROT_G711_ULAW then i4b_signed_to_ulaw 0 else i4b_signed_to_alaw 0)"

definition i4b_dtmf_generate :: "i4b_dtmf_info_tx \<Rightarrow> u8 list option \<Rightarrow> u8 list option \<Rightarrow> (i4b_dtmf_info_tx \<times> u8 list option) option" where
  "i4b_dtmf_generate tx m getmbuf =
     (if input_pos tx = output_pos tx then Some (tx, m)
      else case m of
          Some buf \<Rightarrow> map_option (apsnd Some) (generate_loop None tx (input_pos tx) buf)
        | None \<Rightarrow>
            (case getmbuf of
               None \<Rightarrow> Some (tx, None)
             | Some buf \<Rightarrow> map_option (apsnd Some) (generate_loop (Some (silence_of (tx_bsubprot tx))) tx (input_pos tx) buf)))"

section \<open>The ring as a queue of tones\<close>

definition tx_ok :: "i4b_dtmf_info_tx \<Rightarrow> bool" where
  "tx_ok tx \<longleftrightarrow> length (freq0 tx) = 32 \<and> length (freq1 tx) = 32 \<and> length (duration tx) = 32 \<and>
     input_pos tx < 32 \<and> output_pos tx < 32 \<and> omega0 tx < 8000 \<and> omega1 tx < 8000 \<and>
     (\<forall>i<32. freq0 tx ! i < 8000 \<and> freq1 tx ! i < 8000)"

definition ring_used :: "i4b_dtmf_info_tx \<Rightarrow> nat" where
  "ring_used tx = (output_pos tx + 32 - input_pos tx) mod 32"

definition tone_at :: "i4b_dtmf_info_tx \<Rightarrow> nat \<Rightarrow> nat \<times> nat \<times> nat" where
  "tone_at tx i = (freq0 tx ! i, freq1 tx ! i, duration tx ! i)"

definition tx_tones :: "i4b_dtmf_info_tx \<Rightarrow> (nat \<times> nat \<times> nat) list" where
  "tx_tones tx = map (\<lambda>k. tone_at tx ((input_pos tx + k) mod 32)) [0..<ring_used tx]"

text \<open>The samples of a tone from given phases on, and the signal of a queue of tones.\<close>

definition tone_samples :: "bsubprot \<Rightarrow> nat \<Rightarrow> nat \<Rightarrow> nat \<Rightarrow> nat \<Rightarrow> nat \<Rightarrow> u8 list" where
  "tone_samples prot a b f0 f1 n = map (\<lambda>k. tone_octet prot ((a + k * f0) mod 8000) ((b + k * f1) mod 8000)) [0..<n]"

text \<open>A tone that follows another one is a sample longer than its duration, since the switch to it does not count.\<close>

fun signal :: "bsubprot \<Rightarrow> nat \<Rightarrow> nat \<Rightarrow> (nat \<times> nat \<times> nat) list \<Rightarrow> u8 list" where
  "signal prot a b [] = []"
| "signal prot a b ((f0, f1, d) # ts) =
     tone_samples prot a b f0 f1 d @ concat (map (\<lambda>(f0, f1, d). tone_samples prot 0 0 f0 f1 (Suc d)) ts)"

definition tx_signal :: "i4b_dtmf_info_tx \<Rightarrow> u8 list" where
  "tx_signal tx = signal (tx_bsubprot tx) (omega0 tx) (omega1 tx) (tx_tones tx)"

lemma tx_okD [dest]:
  assumes "tx_ok tx"
  shows "input_pos tx < 32" "output_pos tx < 32" "omega0 tx < 8000" "omega1 tx < 8000"
    "length (freq0 tx) = 32" "length (freq1 tx) = 32" "length (duration tx) = 32"
    "\<And>i. i < 32 \<Longrightarrow> freq0 tx ! i < 8000" "\<And>i. i < 32 \<Longrightarrow> freq1 tx ! i < 8000"
  using assms by (auto simp: tx_ok_def)

lemma init_tx_ok: "tx_ok (i4b_dtmf_init_tx prot)" "tx_tones (i4b_dtmf_init_tx prot) = []"
  by (simp_all add: tx_ok_def i4b_dtmf_init_tx_def tx_tones_def ring_used_def)

lemma ring_mod: "x < 64 \<Longrightarrow> x mod 32 = (if x < 32 then x else x - 32)" for x :: nat
  by (simp add: mod_if)

lemma ring_0:
  fixes a b :: nat
  assumes "a < 32" "b < 32"
  shows "(b + 32 - a) mod 32 = 0 \<longleftrightarrow> a = b"
  using assms by (simp add: ring_mod; arith)

lemma ring_step:
  fixes a b :: nat
  assumes "a < 32" "b < 32" "a \<noteq> b"
  shows "(b + 32 - a) mod 32 = Suc ((b + 32 - (a + 1) mod 32) mod 32)"
  using assms by (simp add: ring_mod split: if_splits; arith)

lemma ring_grow:
  fixes a b :: nat
  assumes "a < 32" "b < 32" "(b + 32 - a) mod 32 < 30"
  shows "(((b + 1) mod 32 + 1) mod 32 + 32 - a) mod 32 = Suc (Suc ((b + 32 - a) mod 32))" 
proof -
  have "((b + 1) mod 32 + 1) mod 32 = (b + 2) mod 32"
    by (simp add: mod_simps)
  then show ?thesis
    using assms by (simp add: ring_mod split: if_splits; arith)
qed

lemma ring_full:
  fixes a b :: nat
  assumes "a < 32" "b < 32"
  shows "(b + 1) mod 32 = a \<or> ((b + 1) mod 32 + 1) mod 32 = a \<longleftrightarrow> 30 \<le> (b + 32 - a) mod 32" 
  using assms by (simp add: ring_mod; arith)

lemma ring_end:
  fixes a b :: nat
  assumes "a < 32" "b < 32"
  shows "(a + (b + 32 - a) mod 32) mod 32 = b" 
  using assms by (simp add: ring_mod)

lemma ring_inside:
  fixes a b :: nat
  assumes "a < 32" "b < 32" "k < (b + 32 - a) mod 32"
  shows "(a + k) mod 32 \<noteq> b"
  using assms by (simp add: ring_mod split: if_splits; arith)

lemma ring_inside_1:
  fixes a b :: nat
  assumes "a < 32" "b < 32" "k < (b + 32 - a) mod 32" "(b + 32 - a) mod 32 < 30" 
  shows "(a + k) mod 32 \<noteq> (b + 1) mod 32" 
  using assms by (simp add: ring_mod split: if_splits; arith)
lemma ring_used_range: "ring_used tx < 32"
  by (simp add: ring_used_def)

lemma ring_used_0: "tx_ok tx \<Longrightarrow> ring_used tx = 0 \<longleftrightarrow> input_pos tx = output_pos tx"
  by (auto simp: tx_ok_def ring_used_def ring_0)

lemma ring_behind:
  fixes a k :: nat
  assumes "a < 32" "k < 31"
  shows "((a + 1) mod 32 + k) mod 32 \<noteq> a"
  using assms by (simp add: ring_mod split: if_splits; arith)

lemma tx_tones_Cons:
  assumes "tx_ok tx" "input_pos tx \<noteq> output_pos tx"
  shows "tx_tones tx = tone_at tx (input_pos tx) # tx_tones (tx\<lparr>input_pos := (input_pos tx + 1) mod 32\<rparr>)"
proof -
  have "input_pos tx < 32" "output_pos tx < 32"
    using assms(1) by auto
  then have "ring_used tx = Suc (ring_used (tx\<lparr>input_pos := (input_pos tx + 1) mod 32\<rparr>))"
    using assms(2) ring_step by (simp add: ring_used_def)
  then show ?thesis
    using \<open>input_pos tx < 32\<close>
    by (simp add: tx_tones_def upt_conv_Cons map_Suc_upt [symmetric] mod_simps tone_at_def del: upt_Suc map_Suc_upt)
qed

lemma tx_tones_cong:
  assumes "freq0 tx = freq0 tx'" "freq1 tx = freq1 tx'" "duration tx = duration tx'" "input_pos tx = input_pos tx'" "output_pos tx = output_pos tx'"
  shows "tx_tones tx = tx_tones tx'"
  using assms by (simp add: tx_tones_def ring_used_def tone_at_def)

lemma length_tx_tones [simp]: "length (tx_tones tx) = ring_used tx"
  by (simp add: tx_tones_def)

subsection \<open>Queueing a key\<close>

text \<open>The frequencies of a key of the table; any other octet is a silent tone.\<close>

definition key_tone :: "nat \<Rightarrow> nat \<times> nat" where
  "key_tone dig = (case map_of (map (\<lambda>(f0, f1, key). (key, (f0, f1))) (butlast dtmf_to_freq)) dig of Some f \<Rightarrow> f | None \<Rightarrow> (0, 0))"

lemma find_key_tone: "find_key dig dtmf_to_freq = Some (key_tone dig)" "fst (key_tone dig) < 8000" "snd (key_tone dig) < 8000"
  by (simp_all add: dtmf_to_freq_def key_tone_def)

lemma to_samples_exact: "to_samples ms = 8 * (if ms = 0 then 40 else min ms 0x1FFF)"
  by (auto simp: to_samples_def Let_def min_def)

lemma queue_digit_ok:
  assumes "tx_ok tx"
  shows "i4b_dtmf_queue_digit tx dig t g =
    Some (if 30 \<le> ring_used tx then (tx, False)
          else (tx\<lparr>freq0 := (freq0 tx)[output_pos tx := fst (key_tone dig), (output_pos tx + 1) mod 32 := 0],
                   freq1 := (freq1 tx)[output_pos tx := snd (key_tone dig), (output_pos tx + 1) mod 32 := 0],
                   duration := (duration tx)[output_pos tx := to_samples t, (output_pos tx + 1) mod 32 := to_samples g],
                   output_pos := ((output_pos tx + 1) mod 32 + 1) mod 32\<rparr>, True))"
  using ring_full [OF tx_okD(1,2) [OF assms]] tx_okD(2) [OF assms]
  by (auto simp: i4b_dtmf_queue_digit_def Let_def find_key_tone ring_used_def split: prod.splits)

lemma tx_tones_grow:
  assumes "tx_ok tx" "ring_used tx < 30" "o0 = output_pos tx" "o1 = (output_pos tx + 1) mod 32"
  shows "tx_tones (tx\<lparr>freq0 := (freq0 tx)[o0 := f0, o1 := g0], freq1 := (freq1 tx)[o0 := f1, o1 := g1],
      duration := (duration tx)[o0 := d, o1 := e], output_pos := (o1 + 1) mod 32\<rparr>) = tx_tones tx @ [(f0, f1, d), (g0, g1, e)]"
    (is "tx_tones ?tx = _")
proof -
  have ab: "input_pos tx < 32" "output_pos tx < 32" and u: "(output_pos tx + 32 - input_pos tx) mod 32 < 30"
    using assms(1,2) by (auto simp: ring_used_def)
  have used: "ring_used ?tx = Suc (Suc (ring_used tx))"
    using ring_grow [OF ab u] by (simp add: ring_used_def assms(4))
  have e0: "(input_pos tx + ring_used tx) mod 32 = o0"
    using ring_end [OF ab] by (simp add: ring_used_def assms(3))
  have "(input_pos tx + Suc (ring_used tx)) mod 32 = ((input_pos tx + ring_used tx) mod 32 + 1) mod 32"
    by (simp add: mod_simps)
  then have e1: "(input_pos tx + Suc (ring_used tx)) mod 32 = o1"
    unfolding e0 by (simp add: assms(3,4))
  have other: "tone_at ?tx ((input_pos tx + k) mod 32) = tone_at tx ((input_pos tx + k) mod 32)" if "k < ring_used tx" for k
  proof -
    have "(input_pos tx + k) mod 32 \<noteq> o0" "(input_pos tx + k) mod 32 \<noteq> o1"
      using ring_inside [OF ab] ring_inside_1 [OF ab _ u] that by (simp_all add: ring_used_def assms(3,4))
    then show ?thesis
      by (simp add: tone_at_def)
  qed
  have "o0 < 32" "o1 < 32" "o0 \<noteq> o1"
    using ab by (auto simp: assms(3,4) mod_if)
  then have "tone_at ?tx o0 = (f0, f1, d)" "tone_at ?tx o1 = (g0, g1, e)"
    using assms(1) by (simp_all add: tone_at_def tx_ok_def)
  then show ?thesis
    using other by (simp add: tx_tones_def used [simplified] e0 e1 [simplified])
qed

lemma queue_digit_keeps_ok:
  assumes "tx_ok tx" "i4b_dtmf_queue_digit tx dig t g = Some (tx', started)"
  shows "tx_ok tx'"
  using assms(2) unfolding queue_digit_ok [OF assms(1)] using assms(1)
  by (auto simp: tx_ok_def nth_list_update find_key_tone split: if_splits)

lemma queue_digit_tones:
  assumes "tx_ok tx"
  shows "\<exists>tx'. i4b_dtmf_queue_digit tx dig t g = Some (tx', length (tx_tones tx) < 30) \<and> tx_ok tx' \<and>
    tx_tones tx' = tx_tones tx @ (if length (tx_tones tx) < 30
      then [(fst (key_tone dig), snd (key_tone dig), 8 * (if t = 0 then 40 else min t 0x1FFF)), (0, 0, 8 * (if g = 0 then 40 else min g 0x1FFF))]
      else [])"
proof (cases "30 \<le> ring_used tx")
  case True
  then show ?thesis
    using assms by (simp add: queue_digit_ok)
next
  case False
  then show ?thesis
    using assms queue_digit_keeps_ok [OF assms, of dig t g] tx_tones_grow [OF assms _ refl refl]
    by (simp add: queue_digit_ok to_samples_exact)
qed

text \<open>
  C36: The transmitter is a queue of tones. A key is refused exactly when 30 tones are waiting; otherwise the tone of the
  key and a gap, in samples at 8 kHz, join the end of the queue and the tones before them are untouched.
\<close>

theorem queue_digit_refines:
  assumes "tx_ok tx"
  shows "\<exists>tx'. i4b_dtmf_queue_digit tx dig t g = Some (tx', length (tx_tones tx) < 30) \<and> tx_ok tx' \<and>
    tx_tones tx' = tx_tones tx @ (if length (tx_tones tx) < 30
      then [(fst (key_tone dig), snd (key_tone dig), 8 * (if t = 0 then 40 else min t 0x1FFF)), (0, 0, 8 * (if g = 0 then 40 else min g 0x1FFF))]
      else [])"
  by (rule queue_digit_tones [OF assms])

theorem queue_digit_refines_witness:
  "\<exists>tx. i4b_dtmf_queue_digit (i4b_dtmf_init_tx BSUBPROT_G711_ALAW) 53 0 100 = Some (tx, True) \<and> tx_tones tx = [(770, 1336, 320), (0, 0, 800)]"
  using queue_digit_refines [OF init_tx_ok(1), of BSUBPROT_G711_ALAW 53 0 100] length_tx_tones [of "i4b_dtmf_init_tx BSUBPROT_G711_ALAW"]
  by (auto simp: init_tx_ok key_tone_def dtmf_to_freq_def)

section \<open>The signal\<close>

lemma next_phase_mod: "a < 8000 \<Longrightarrow> f < 8000 \<Longrightarrow> next_phase a f = (a + f) mod 8000"
  by (simp add: next_phase_def Let_def mod_if)

lemma tone_samples_Suc:
  assumes "a < 8000" "b < 8000"
  shows "tone_samples prot a b f0 f1 (Suc n) = tone_octet prot a b # tone_samples prot ((a + f0) mod 8000) ((b + f1) mod 8000) f0 f1 n"
  using assms
  by (simp add: tone_samples_def upt_conv_Cons map_Suc_upt [symmetric] mod_simps add.assoc del: upt_Suc map_Suc_upt)

lemma generate_sample_ok:
  assumes "tx_ok tx" "i < 32"
  shows "generate_sample tx i =
      Some (tx\<lparr>omega0 := (omega0 tx + freq0 tx ! i) mod 8000, omega1 := (omega1 tx + freq1 tx ! i) mod 8000\<rparr>,
            tone_octet (tx_bsubprot tx) (omega0 tx) (omega1 tx))"
  using tx_okD [OF assms(1)] assms(2) by (simp add: generate_sample_def length_sine next_phase_mod)

lemma tone_samples_0 [simp]: "tone_samples prot a b f0 f1 0 = []"
  by (simp add: tone_samples_def)

lemma signal_play:
  "a < 8000 \<Longrightarrow> b < 8000 \<Longrightarrow> signal prot a b ((f0, f1, Suc d) # ts) =
     tone_octet prot a b # signal prot ((a + f0) mod 8000) ((b + f1) mod 8000) ((f0, f1, d) # ts)"
  by (simp add: tone_samples_Suc)

lemma signal_switch:
  "signal prot a b ((f0, f1, 0) # (g0, g1, e) # ts) = tone_octet prot 0 0 # signal prot (g0 mod 8000) (g1 mod 8000) ((g0, g1, e) # ts)"
  by (simp add: tone_samples_Suc)

lemma fill_silence_gap: "fill_silence s cs = (if length cs \<le> 1 then map (\<lambda>_. s) cs else replicate (length cs - 1) s @ [last cs])"
proof (cases cs rule: rev_cases)
  case (snoc ds d)
  then show ?thesis
    by (cases ds) simp_all
qed simp

text \<open>One octet of the loop, on the signal.\<close>

lemma tx_tones_tail:
  assumes "tx_ok tx" "i = input_pos tx"
  shows "tx_tones (tx\<lparr>duration := (duration tx)[i := d], input_pos := (i + 1) mod 32\<rparr>) = tx_tones (tx\<lparr>input_pos := (i + 1) mod 32\<rparr>)"
    (is "tx_tones ?a = tx_tones ?b")
proof -
  have "tone_at ?a ((input_pos ?a + k) mod 32) = tone_at ?b ((input_pos ?b + k) mod 32)" if "k < ring_used ?b" for k
  proof -
    have "k < 31"
      using that ring_used_range [of ?b] by linarith
    then have "((i + 1) mod 32 + k) mod 32 \<noteq> i"
      using assms(2) tx_okD(1) [OF assms(1)] by (intro ring_behind) simp_all
    then show ?thesis
      by (simp add: tone_at_def)
  qed
  moreover have "ring_used ?a = ring_used ?b"
    by (simp add: ring_used_def)
  ultimately show ?thesis
    unfolding tx_tones_def by (intro map_cong) simp_all
qed

lemma tx_signal_play:
  assumes "tx_ok tx" "input_pos tx \<noteq> output_pos tx" "duration tx ! input_pos tx = Suc d"
  shows "\<exists>tx' v. generate_sample (tx\<lparr>duration := (duration tx)[input_pos tx := d]\<rparr>) (input_pos tx) =
      Some (tx', v) \<and> tx_ok tx' \<and> tx_signal tx = v # tx_signal tx' \<and>
      input_pos tx' = input_pos tx \<and> output_pos tx' = output_pos tx \<and> tx_bsubprot tx' = tx_bsubprot tx"
proof -
  let ?i = "input_pos tx"
  let ?tx = "tx\<lparr>duration := (duration tx)[?i := d]\<rparr>"
  let ?a = "(omega0 tx + freq0 tx ! ?i) mod 8000" and ?b = "(omega1 tx + freq1 tx ! ?i) mod 8000"
  note ok = tx_okD [OF assms(1)]
  have ok': "tx_ok ?tx" "tx_ok (?tx\<lparr>omega0 := ?a, omega1 := ?b\<rparr>)"
    using assms(1) by (simp_all add: tx_ok_def)
  have "tx_tones (?tx\<lparr>omega0 := ?a, omega1 := ?b\<rparr>) = tx_tones ?tx"
    by (rule tx_tones_cong) simp_all
  then have "tx_tones (?tx\<lparr>omega0 := ?a, omega1 := ?b\<rparr>) = (freq0 tx ! ?i, freq1 tx ! ?i, d) # tx_tones (tx\<lparr>input_pos := (?i + 1) mod 32\<rparr>)"
    using tx_tones_Cons [OF ok'(1)] tx_tones_tail [OF assms(1) refl, of d] assms(2) ok(1,7) by (simp add: tone_at_def)
  moreover have "tx_tones tx = (freq0 tx ! ?i, freq1 tx ! ?i, Suc d) # tx_tones (tx\<lparr>input_pos := (?i + 1) mod 32\<rparr>)"
    using tx_tones_Cons [OF assms(1,2)] assms(3) by (simp add: tone_at_def)
  ultimately show ?thesis
    using ok(1,3,4) ok' by (simp add: generate_sample_ok tx_signal_def signal_play del: signal.simps)
qed

text \<open>A tone that is over: its entry leaves the ring, and the next tone gives its first sample at once.\<close>

lemma tx_signal_switch:
  assumes "tx_ok tx" "input_pos tx \<noteq> output_pos tx" "duration tx ! input_pos tx = 0"
    and tx1: "tx1 = tx\<lparr>omega0 := 0, omega1 := 0, input_pos := (input_pos tx + 1) mod 32\<rparr>"
  shows "tx_ok tx1" "input_pos tx1 = output_pos tx \<Longrightarrow> tx_signal tx = []"
    "input_pos tx1 \<noteq> output_pos tx \<Longrightarrow> \<exists>tx' v. generate_sample tx1 (input_pos tx1) =
      Some (tx', v) \<and> tx_ok tx' \<and> tx_signal tx = v # tx_signal tx' \<and>
      input_pos tx' = input_pos tx1 \<and> output_pos tx' = output_pos tx \<and> tx_bsubprot tx' = tx_bsubprot tx"
proof -
  let ?i = "input_pos tx1"
  show ok: "tx_ok tx1"
    using assms(1) by (simp add: tx1 tx_ok_def)
  have tones: "tx_tones tx = (freq0 tx ! input_pos tx, freq1 tx ! input_pos tx, 0) # tx_tones tx1"
    using tx_tones_Cons [OF assms(1,2)] assms(3) tx_tones_cong [of tx1 "tx\<lparr>input_pos := (input_pos tx + 1) mod 32\<rparr>"]
    by (simp add: tone_at_def tx1)
  show "tx_signal tx = []" if "?i = output_pos tx"
    using that ring_used_0 [OF ok] tones by (simp add: tx_signal_def tx1 flip: length_tx_tones)
  show "\<exists>tx' v. generate_sample tx1 ?i =
      Some (tx', v) \<and> tx_ok tx' \<and> tx_signal tx = v # tx_signal tx' \<and>
      input_pos tx' = ?i \<and> output_pos tx' = output_pos tx \<and> tx_bsubprot tx' = tx_bsubprot tx" if "?i \<noteq> output_pos tx"
  proof -
    let ?tx = "tx1\<lparr>omega0 := freq0 tx ! ?i mod 8000, omega1 := freq1 tx ! ?i mod 8000\<rparr>"
    have "tx_tones tx1 = tone_at tx1 ?i # tx_tones (tx1\<lparr>input_pos := (?i + 1) mod 32\<rparr>)"
      using that by (intro tx_tones_Cons [OF ok]) (simp add: tx1)
    then have "tx_tones tx1 = (freq0 tx ! ?i, freq1 tx ! ?i, duration tx ! ?i) # tx_tones (tx1\<lparr>input_pos := (?i + 1) mod 32\<rparr>)"
      by (simp add: tone_at_def tx1)
    moreover have "tx_tones ?tx = tx_tones tx1"
      by (rule tx_tones_cong) simp_all
    moreover have same: "tx_bsubprot tx1 = tx_bsubprot tx" "output_pos tx1 = output_pos tx" "freq0 tx1 = freq0 tx" "freq1 tx1 = freq1 tx"
        "omega0 tx1 = 0" "omega1 tx1 = 0"
      by (simp_all add: tx1)
    ultimately have "tx_signal tx = tone_octet (tx_bsubprot tx) 0 0 # tx_signal ?tx"
      by (simp add: tx_signal_def tones signal_switch del: signal.simps)
    moreover have "tx_ok ?tx"
      using ok by (simp add: tx_ok_def)
    ultimately show ?thesis
      using generate_sample_ok [OF ok tx_okD(1) [OF ok]] same by simp
  qed
qed

definition gen_tail :: "u8 option \<Rightarrow> u8 list \<Rightarrow> u8 list" where
  "gen_tail silence cs = (case silence of None \<Rightarrow> cs | Some s \<Rightarrow> fill_silence s cs)"

lemma gen_tail_Nil [simp]: "gen_tail silence [] = []"
  by (simp add: gen_tail_def split: option.splits)

text \<open>The loop writes the signal into the buffer, and the transmitter keeps what of it is left.\<close>

lemma generate_loop_signal:
  assumes "tx_ok tx" "input_pos tx \<noteq> output_pos tx"
  shows "\<exists>tx'. generate_loop silence tx (input_pos tx) buf =
      Some (tx', take (length buf) (tx_signal tx) @ gen_tail silence (drop (length (tx_signal tx)) buf)) \<and>
    tx_ok tx' \<and> tx_signal tx' = drop (length buf) (tx_signal tx) \<and> tx_bsubprot tx' = tx_bsubprot tx"
  using assms
proof (induction buf arbitrary: tx)
  case Nil
  then show ?case
    by simp
next
  case (Cons c cs)
  note ok = tx_okD [OF Cons.prems(1)]
  show ?case
  proof (cases "duration tx ! input_pos tx")
    case 0
    let ?tx1 = "tx\<lparr>omega0 := 0, omega1 := 0, input_pos := (input_pos tx + 1) mod 32\<rparr>"
    have i: "(if 32 \<le> input_pos tx + 1 then 0 else input_pos tx + 1) = (input_pos tx + 1) mod 32"
      using ok(1) by (simp add: mod_if)
    note switch = tx_signal_switch [OF Cons.prems 0 refl]
    show ?thesis
    proof (cases "input_pos ?tx1 = output_pos tx")
      case True
      then have "tx_tones ?tx1 = []"
        using ring_used_0 [OF switch(1)] by (simp flip: length_tx_tones)
      then show ?thesis
        using switch(1) switch(2) [OF True] 0 ok(1) True
        by (simp add: i [simplified] Let_def tx_signal_def gen_tail_def)
    next
      case False
      from switch(3) [OF this] obtain tx' v where tx': "generate_sample ?tx1 (input_pos ?tx1) = Some (tx', v)" "tx_ok tx'"
        "tx_signal tx = v # tx_signal tx'" "input_pos tx' = input_pos ?tx1" "output_pos tx' = output_pos tx" "tx_bsubprot tx' = tx_bsubprot tx"
        by blast
      then show ?thesis
        using Cons.IH [OF tx'(2)] False 0 ok(1) by (auto simp: i [simplified] Let_def)
    qed
  next
    case (Suc d)
    from tx_signal_play [OF Cons.prems Suc] obtain tx' v where tx':
      "generate_sample (tx\<lparr>duration := (duration tx)[input_pos tx := d]\<rparr>) (input_pos tx) = Some (tx', v)" "tx_ok tx'"
      "tx_signal tx = v # tx_signal tx'" "input_pos tx' = input_pos tx" "output_pos tx' = output_pos tx" "tx_bsubprot tx' = tx_bsubprot tx"
      by blast
    then show ?thesis
      using Cons.IH [OF tx'(2)] Suc Cons.prems(2) ok(1) by auto
  qed
qed

lemma tx_signal_empty: "tx_ok tx \<Longrightarrow> input_pos tx = output_pos tx \<Longrightarrow> tx_signal tx = []"
  using ring_used_0 [of tx] by (simp add: tx_signal_def flip: length_tx_tones)

lemma generate_given:
  assumes "tx_ok tx"
  shows "\<exists>tx'. i4b_dtmf_generate tx (Some buf) getmbuf = Some (tx', Some (take (length buf) (tx_signal tx) @ drop (length (tx_signal tx)) buf)) \<and>
    tx_ok tx' \<and> tx_signal tx' = drop (length buf) (tx_signal tx) \<and> tx_bsubprot tx' = tx_bsubprot tx"
proof (cases "input_pos tx = output_pos tx")
  case True
  then show ?thesis
    using assms tx_signal_empty by (simp add: i4b_dtmf_generate_def)
next
  case False
  then show ?thesis
    using generate_loop_signal [OF assms False, of None buf] by (auto simp: i4b_dtmf_generate_def gen_tail_def)
qed

lemma generate_allocated:
  assumes "tx_ok tx" "tx_tones tx \<noteq> []"
  shows "\<exists>tx'. i4b_dtmf_generate tx None (Some buf) = Some (tx', Some (take (length buf) (tx_signal tx) @
      fill_silence (silence_of (tx_bsubprot tx)) (drop (length (tx_signal tx)) buf))) \<and>
    tx_ok tx' \<and> tx_signal tx' = drop (length buf) (tx_signal tx) \<and> tx_bsubprot tx' = tx_bsubprot tx"
proof -
  have "input_pos tx \<noteq> output_pos tx"
    using assms ring_used_0 [of tx] by (simp flip: length_tx_tones)
  then show ?thesis
    using generate_loop_signal [OF assms(1), of "Some (silence_of (tx_bsubprot tx))" buf] by (auto simp: i4b_dtmf_generate_def gen_tail_def)
qed

text \<open>The buffers of the channel, one after the other.\<close>

fun generate_all :: "i4b_dtmf_info_tx \<Rightarrow> u8 list list \<Rightarrow> (i4b_dtmf_info_tx \<times> u8 list) option" where
  "generate_all tx [] = Some (tx, [])"
| "generate_all tx (m # ms) =
     (case i4b_dtmf_generate tx (Some m) None of
        Some (tx, Some m) \<Rightarrow> map_option (apsnd ((@) m)) (generate_all tx ms)
      | _ \<Rightarrow> None)"

text \<open>
  C35: The tones reach the line without a break. However the octets of the channel are cut into buffers, they are
  overwritten, in order, by the signal of the queued tones, and from its end on they are left as they were; no array
  is accessed outside its bounds, and the transmitter keeps the part of the signal that is not sent yet.
\<close>

theorem generate_stream:
  assumes "tx_ok tx"
  shows "\<exists>tx'. generate_all tx ms = Some (tx', take (length (concat ms)) (tx_signal tx) @ drop (length (tx_signal tx)) (concat ms)) \<and>
    tx_ok tx' \<and> tx_signal tx' = drop (length (concat ms)) (tx_signal tx)"
  using assms
proof (induction ms arbitrary: tx)
  case (Cons m ms)
  obtain tx' where tx': "i4b_dtmf_generate tx (Some m) None = Some (tx', Some (take (length m) (tx_signal tx) @ drop (length (tx_signal tx)) m))"
    "tx_ok tx'" "tx_signal tx' = drop (length m) (tx_signal tx)"
    using generate_given [OF Cons.prems] by blast
  show ?case
    using Cons.IH [OF tx'(2)] tx'(1,3) by (cases "length m \<le> length (tx_signal tx)") (auto simp: take_add add.commute)
qed simp

theorem generate_stream_witness:
  "\<exists>tx tx'. i4b_dtmf_queue_digit (i4b_dtmf_init_tx BSUBPROT_G711_ALAW) 53 1 1 = Some (tx, True) \<and>
     generate_all tx [replicate 6 0, [1, 2, 3]] = Some (tx', take 9 (tx_signal tx) @ drop (length (tx_signal tx)) (replicate 6 0 @ [1, 2, 3]))"
proof -
  obtain tx where "i4b_dtmf_queue_digit (i4b_dtmf_init_tx BSUBPROT_G711_ALAW) 53 1 1 = Some (tx, True)" "tx_ok tx"
    using queue_digit_tones [OF init_tx_ok(1), of BSUBPROT_G711_ALAW 53 1 1] length_tx_tones [of "i4b_dtmf_init_tx BSUBPROT_G711_ALAW"]
    by (auto simp: init_tx_ok)
  then show ?thesis
    using generate_stream [of tx "[replicate 6 0, [1, 2, 3]]"] by auto
qed



end
