(* ===== verification/Voice_Sqrt.thy ===== *)
theory Voice_Sqrt
  imports I4B_Prelude
begin

unbundle bit_operations_syntax

text \<open>
  The integer square root of \<^verbatim>\<open>layer1/i4b_dtmf.c\<close>, which finds one binary digit of the root per turn of its loop, and
  that it is the root rounded down for every 32 bit number.
\<close>

section \<open>The loop\<close>

text \<open>
  The first argument of \<open>sqrt_loop\<close> bounds the number of turns; \<open>None\<close> stands for a loop that has not ended by then.
\<close>

fun sqrt_loop :: "nat \<Rightarrow> u32 \<Rightarrow> u32 \<Rightarrow> u32 \<Rightarrow> u32 option" where
  "sqrt_loop 0 a b x = None"
| "sqrt_loop (Suc k) a b x =
     (if b \<le> a
      then if b AND 1 \<noteq> 0 then Some (drop_bit 1 b OR x)
           else sqrt_loop k (a - b) ((drop_bit 1 b OR x) XOR drop_bit 1 x XOR drop_bit 1 (drop_bit 1 x)) (drop_bit 1 (drop_bit 1 x))
      else if b AND 1 \<noteq> 0 then Some (drop_bit 1 b)
           else sqrt_loop k a (drop_bit 1 b XOR drop_bit 1 x XOR drop_bit 1 (drop_bit 1 x)) (drop_bit 1 (drop_bit 1 x)))"

definition i4b_sqrt_32 :: "u32 \<Rightarrow> u16 option" where
  "i4b_sqrt_32 a = map_option ucast (sqrt_loop 16 a 0x40000000 0x40000000)"

section \<open>The digits still to find\<close>

text \<open>
  With \<open>j\<close> binary digits still to find, \<open>x\<close> is \<open>4 ^ j\<close> and \<open>b\<close> is the same bit joined to \<open>p\<close>, whose lower bits
  are clear; \<open>p\<close> is the part \<open>r\<close> of the root that is known, shifted by \<open>j + 1\<close> places.
\<close>

definition low_clear :: "nat \<Rightarrow> u32 \<Rightarrow> bool" where
  "low_clear n p \<longleftrightarrow> (\<forall>i<n. \<not> bit p i)"

definition root_digit :: "nat \<Rightarrow> u32" where
  "root_digit j = push_bit (2 * j) 1"

lemma bit_root_digit [simp]: "bit (root_digit j) i \<longleftrightarrow> i = 2 * j \<and> i < 32"
  by (auto simp: root_digit_def bit_simps)

lemma root_digit_0 [simp]: "root_digit 0 = 1"
  by (simp add: root_digit_def)

lemma unat_root_digit: "j < 16 \<Longrightarrow> unat (root_digit j) = 4 ^ j"
proof -
  assume "j < 16"
  then have "4 ^ j < (4 :: nat) ^ 16"
    by (intro power_strict_increasing) simp_all
  moreover have "root_digit j = word_of_nat (4 ^ j)"
    by (simp add: root_digit_def push_bit_eq_mult power_mult)
  ultimately show ?thesis
    by (simp only: unat_of_nat) simp
qed

lemma root_digit_drop: "drop_bit 1 (drop_bit 1 (root_digit (Suc j))) = root_digit j" if "Suc j < 16"
  using that by (intro bit_word_eqI) (auto simp: bit_simps)

lemma next_taken:
  assumes "low_clear (2 * Suc j + 2) p" "Suc j < 16"
  shows "(drop_bit 1 (p OR root_digit (Suc j)) OR root_digit (Suc j)) XOR drop_bit 1 (root_digit (Suc j)) XOR root_digit j = (drop_bit 1 p OR root_digit (Suc j)) OR root_digit j"
    "low_clear (2 * j + 2) (drop_bit 1 p OR root_digit (Suc j))"
  using assms by (auto simp: low_clear_def bit_simps intro!: bit_word_eqI)

lemma next_left:
  assumes "low_clear (2 * Suc j + 2) p" "Suc j < 16"
  shows "drop_bit 1 (p OR root_digit (Suc j)) XOR drop_bit 1 (root_digit (Suc j)) XOR root_digit j = drop_bit 1 p OR root_digit j"
    "low_clear (2 * j + 2) (drop_bit 1 p)"
  using assms by (auto simp: low_clear_def bit_simps intro!: bit_word_eqI)

lemma low_clear_or: "low_clear (2 * j + 2) p \<Longrightarrow> p OR root_digit j = p + root_digit j"
  "low_clear (2 * j + 2) p \<Longrightarrow> drop_bit 1 p OR root_digit j = drop_bit 1 p + root_digit j"
proof -
  assume "low_clear (2 * j + 2) p"
  then have "p AND root_digit j = 0" "drop_bit 1 p AND root_digit j = 0"
    by (auto intro!: bit_word_eqI simp: low_clear_def bit_simps)
  then show "p OR root_digit j = p + root_digit j" "drop_bit 1 p OR root_digit j = drop_bit 1 p + root_digit j"
    by (simp_all add: disjunctive_add_eq_or)
qed

lemma root_digit_odd: "(p OR root_digit j) AND 1 \<noteq> 0 \<longleftrightarrow> bit p 0 \<or> j = 0"
proof -
  have "w AND 1 \<noteq> 0 \<longleftrightarrow> bit w 0" for w :: u32
    by (simp add: and_one_eq bit_0 odd_iff_mod_2_eq_one)
  then show ?thesis
    by (auto simp: bit_simps)
qed

text \<open>The nat view of a state of the loop, for the root of \<open>n\<close>.\<close>

definition sqrt_state :: "nat \<Rightarrow> nat \<Rightarrow> u32 \<Rightarrow> u32 \<Rightarrow> nat \<Rightarrow> bool" where
  "sqrt_state n j a p r \<longleftrightarrow> low_clear (2 * j + 2) p \<and> unat p = r * 2 ^ (j + 1) \<and> unat a + r\<^sup>2 = n \<and>
     n < (r + 2 ^ (j + 1))\<^sup>2 \<and> r + 2 ^ (j + 1) \<le> 2 ^ 16"

lemma sqrt_sum:
  assumes "sqrt_state n j a p r" "j < 16"
  shows "unat (p OR root_digit j) = r * 2 ^ (j + 1) + 4 ^ j" "p OR root_digit j \<le> a \<longleftrightarrow> (r + 2 ^ j)\<^sup>2 \<le> n"
proof -
  have *: "low_clear (2 * j + 2) p" "unat p = r * 2 ^ (j + 1)" "unat a + r\<^sup>2 = n" "r + 2 ^ (j + 1) \<le> 2 ^ 16"
    using assms(1) by (simp_all add: sqrt_state_def)
  have "4 ^ j < 2 ^ (j + 1) * (2 :: nat) ^ (j + 1)"
    by (simp add: power_mult_distrib [symmetric])
  then have "r * 2 ^ (j + 1) + 4 ^ j < (r + 2 ^ (j + 1)) * 2 ^ (j + 1)"
    by (simp add: add_mult_distrib)
  also have "\<dots> \<le> 2 ^ 16 * 2 ^ 16"
    using *(4) by (intro mult_mono) simp_all
  finally have "r * 2 ^ (j + 1) + 4 ^ j < 2 ^ 32"
    by simp
  then show s: "unat (p OR root_digit j) = r * 2 ^ (j + 1) + 4 ^ j"
    using * assms(2) by (simp add: low_clear_or unat_word_ariths unat_root_digit)
  have "(r + 2 ^ j)\<^sup>2 = r\<^sup>2 + r * 2 ^ (j + 1) + 4 ^ j"
    by (simp add: power2_sum power_mult_distrib [symmetric] power_mult [symmetric] mult.commute algebra_simps power2_eq_square flip: power_add)
  then show "p OR root_digit j \<le> a \<longleftrightarrow> (r + 2 ^ j)\<^sup>2 \<le> n"
    unfolding word_le_nat_alt s using *(3) by linarith
qed

lemma sqrt_next:
  assumes "sqrt_state n (Suc j) a p r" "Suc j < 16"
  shows "p OR root_digit (Suc j) \<le> a \<Longrightarrow> sqrt_state n j (a - (p OR root_digit (Suc j))) (drop_bit 1 p OR root_digit (Suc j)) (r + 2 ^ Suc j)"
    "\<not> p OR root_digit (Suc j) \<le> a \<Longrightarrow> sqrt_state n j a (drop_bit 1 p) r"
proof -
  have *: "low_clear (2 * Suc j + 2) p" "unat p = r * 2 ^ (Suc j + 1)" "unat a + r\<^sup>2 = n" "n < (r + 2 ^ (Suc j + 1))\<^sup>2"
    "r + 2 ^ (Suc j + 1) \<le> 2 ^ 16"
    using assms(1) by (simp_all add: sqrt_state_def)
  note sum = sqrt_sum [OF assms]
  have half: "unat (drop_bit 1 p) = r * 2 ^ (j + 1)"
    using *(2) by (simp add: unat_drop_bit_div)
  have sq: "(r + 2 ^ Suc j)\<^sup>2 = r\<^sup>2 + r * 2 ^ (Suc j + 1) + 4 ^ Suc j"
    by (simp add: power2_sum power2_eq_square power_mult_distrib [symmetric] algebra_simps)
  show "sqrt_state n j a (drop_bit 1 p) r" if "\<not> p OR root_digit (Suc j) \<le> a"
    using that sum(2) * half next_left(2) [OF *(1) assms(2)] by (simp add: sqrt_state_def)
  show "sqrt_state n j (a - (p OR root_digit (Suc j))) (drop_bit 1 p OR root_digit (Suc j)) (r + 2 ^ Suc j)" if le: "p OR root_digit (Suc j) \<le> a"
  proof -
    have "unat (a - (p OR root_digit (Suc j))) = unat a - (r * 2 ^ (Suc j + 1) + 4 ^ Suc j)"
      using le sum(1) by (simp add: unat_sub)
    then have "unat (a - (p OR root_digit (Suc j))) + (r + 2 ^ Suc j)\<^sup>2 = n"
      using le *(3) sum sq by (simp add: word_le_nat_alt)
    moreover have "unat (drop_bit 1 p OR root_digit (Suc j)) = (r + 2 ^ Suc j) * 2 ^ (j + 1)"
    proof -
      have "r * 2 ^ (j + 1) + 4 ^ Suc j = (r + 2 ^ Suc j) * 2 ^ (j + 1)"
        by (simp add: add_mult_distrib power_mult_distrib [symmetric])
      moreover have "(r + 2 ^ Suc j) * 2 ^ (j + 1) < 2 ^ 32"
      proof -
        have "(0 :: nat) < 2 ^ j"
          by simp
        then have "r + 2 ^ Suc j < 2 ^ 16" "2 ^ (j + 1) < (2 :: nat) ^ 16"
          using *(5) unfolding power_Suc power_add power_one_right by linarith+
        then have "(r + 2 ^ Suc j) * 2 ^ (j + 1) < 2 ^ 16 * 2 ^ 16"
          by (intro mult_strict_mono) simp_all
        then show ?thesis
          by simp
      qed
      ultimately show ?thesis
        unfolding low_clear_or(2) [OF *(1)] unat_word_ariths half unat_root_digit [OF assms(2)] by simp
    qed
    moreover have "n < (4 * 2 ^ j + r)\<^sup>2"
      using *(4) by (simp add: add.commute)
    ultimately show ?thesis
      using * next_taken(2) [OF *(1) assms(2)] by (simp add: sqrt_state_def)
  qed
qed

lemma sqrt_loop_root:
  assumes "sqrt_state n j a p r" "j < 16"
  shows "\<exists>b. sqrt_loop (Suc j) a (p OR root_digit j) (root_digit j) = Some b \<and> (unat b)\<^sup>2 \<le> n \<and> n < (unat b + 1)\<^sup>2 \<and> unat b < 2 ^ 16"
  using assms
proof (induction j arbitrary: a p r)
  case 0
  note s = sqrt_sum [OF 0]
  have *: "unat p = r * 2" "unat a + r\<^sup>2 = n" "n < (r + 2)\<^sup>2" "r + 2 \<le> 2 ^ 16" "low_clear 2 p"
    using 0(1) by (simp_all add: sqrt_state_def numeral_2_eq_2)
  have d: "drop_bit 1 (p OR 1) = drop_bit 1 p"
    using *(5) by (intro bit_word_eqI) (auto simp: low_clear_def bit_simps)
  have o: "drop_bit 1 p OR 1 = drop_bit 1 p + 1"
    using low_clear_or(2) [of 0 p] *(5) by (simp add: numeral_2_eq_2)
  have "unat (drop_bit 1 p) = r"
    using *(1) by (simp add: unat_drop_bit_div)
  moreover from this have "unat (drop_bit 1 p + 1) = r + 1"
    using *(4) by (simp add: unat_word_ariths)
  ultimately show ?case
    using s(2) * root_digit_odd [of p 0] by (auto simp: d [simplified] o [simplified])
next
  case (Suc j)
  have clear: "low_clear (2 * Suc j + 2) p"
    using Suc.prems(1) by (simp add: sqrt_state_def)
  then have even: "\<not> ((p OR root_digit (Suc j)) AND 1 \<noteq> 0)"
    unfolding root_digit_odd by (simp add: low_clear_def)
  show ?case
  proof (cases "p OR root_digit (Suc j) \<le> a")
    case True
    then show ?thesis
      using Suc.IH [OF sqrt_next(1) [OF Suc.prems True]] Suc.prems(2) even next_taken(1) [OF clear Suc.prems(2)] root_digit_drop [OF Suc.prems(2)]
      by (simp del: sqrt_loop.simps add: sqrt_loop.simps(2) [of "Suc j"])
  next
    case False
    then show ?thesis
      using Suc.IH [OF sqrt_next(2) [OF Suc.prems False]] Suc.prems(2) even next_left(1) [OF clear Suc.prems(2)] root_digit_drop [OF Suc.prems(2)]
      by (simp del: sqrt_loop.simps add: sqrt_loop.simps(2) [of "Suc j"])
  qed
qed

lemma sqrt_32_root:
  "\<exists>r. i4b_sqrt_32 a = Some r \<and> (unat r)\<^sup>2 \<le> unat a \<and> unat a < (unat r + 1)\<^sup>2"
proof -
  have "unat a < 2 ^ 32"
    using unsigned_less [of a] by simp
  then have "sqrt_state (unat a) 15 a 0 0"
    by (simp add: sqrt_state_def low_clear_def)
  then obtain b where b: "sqrt_loop (Suc 15) a (0 OR root_digit 15) (root_digit 15) = Some b" "(unat b)\<^sup>2 \<le> unat a" "unat a < (unat b + 1)\<^sup>2" "unat b < 2 ^ 16"
    using sqrt_loop_root by fastforce
  have "root_digit 15 = 0x40000000"
    by (simp add: root_digit_def)
  then have "i4b_sqrt_32 a = Some (ucast b)"
    using b(1) by (simp add: i4b_sqrt_32_def del: sqrt_loop.simps)
  moreover have "unat (ucast b :: u16) = unat b"
    using b(4) by (simp add: unsigned_ucast_eq take_bit_nat_eq_self_iff)
  ultimately show ?thesis
    using b(2,3) by auto
qed

text \<open>
  C38: The square root returns for every 32 bit number, within the sixteen turns of a 16 bit result, and the result is
  the root rounded down.
\<close>

theorem sqrt_32_correct:
  "\<exists>r. i4b_sqrt_32 a = Some r \<and> (unat r)\<^sup>2 \<le> unat a \<and> unat a < (unat r + 1)\<^sup>2"
  by (rule sqrt_32_root)

end
