(* ===== verification/Voice_Rx.thy ===== *)
theory Voice_Rx
  imports Voice_G711 Voice_Sqrt
begin

unbundle bit_operations_syntax

text \<open>
  Recognising the tones of the telephone keys and of a fax, \<^verbatim>\<open>layer1/i4b_dtmf.c\<close>: \<open>i4b_dtmf_detect\<close> collects blocks of 102
  octets, filters each block for 18 frequencies, reads the key from the strongest ones and reports a key that is
  held for two blocks. Natural numbers stand for the unsigned fields, integers with \<open>wrap32\<close> for \<open>int32_t\<close>.
\<close>

section \<open>The receiver\<close>

record i4b_dtmf_info_rx =
  rx_w0 :: "int list"
  rx_w1 :: "int list"
  rx_buffer :: "u8 list"
  rx_count :: nat
  rx_code :: nat
  rx_code_count :: nat
  rx_no_code_count :: nat
  rx_bsubprot :: bsubprot
  detected_fax_or_modem :: bool

abbreviation I4B_DTMF_N_SAMPLES :: nat where
  "I4B_DTMF_N_SAMPLES \<equiv> 102"

definition dtmf_K :: "int list" where
  "dtmf_K = [27980, 26956, 25701, 24219, 19073, 16325, 13085, 9315,
    14739, 11221, 7549, 3032, - 10565, - 16503, - 22318, - 27472,
    21281, - 2571]"

definition code_to_ascii :: "nat list" where
  "code_to_ascii = map of_char
    [CHR ''1'', CHR ''4'', CHR ''7'', CHR ''*'',
     CHR ''2'', CHR ''5'', CHR ''8'', CHR ''0'',
     CHR ''3'', CHR ''6'', CHR ''9'', CHR ''#'',
     CHR ''A'', CHR ''B'', CHR ''C'', CHR ''D'']"

definition i4b_dtmf_init_rx :: "bsubprot \<Rightarrow> i4b_dtmf_info_rx" where
  "i4b_dtmf_init_rx prot =
     \<lparr>rx_w0 = replicate 18 0, rx_w1 = replicate 18 0, rx_buffer = replicate I4B_DTMF_N_SAMPLES 0, rx_count = 0, rx_code = 0,
      rx_code_count = 0, rx_no_code_count = 0, rx_bsubprot = prot, detected_fax_or_modem = False\<rparr>"

subsection \<open>The samples\<close>

definition rx_sample :: "bsubprot \<Rightarrow> u8 \<Rightarrow> int" where
  "rx_sample prot c = (if prot = BSUBPROT_G711_ALAW then sint (i4b_alaw_to_signed ! unat c) else sint (i4b_ulaw_to_signed ! unat c))"

definition agc_step :: "int \<Rightarrow> int \<Rightarrow> int" where
  "agc_step max_gain t =
     (let t = (if t < 0 then - t else t)
      in if t > max_gain then (if t > 0x7FFF then 0x7FFF else t) else max_gain)"

definition agc_gain :: "int list \<Rightarrow> int" where
  "agc_gain ts = foldl agc_step 0x1000 ts"

definition normalise :: "int \<Rightarrow> int \<Rightarrow> int" where
  "normalise max_gain t =
     (let t = cdivide (wrap32 (wrap32 (t * 0x8000) - t)) max_gain
      in if t > 0x7FFF then 0x7FFF else if t < - 0x7FFF then - 0x7FFF else t)"

definition rx_samples :: "bsubprot \<Rightarrow> u8 list \<Rightarrow> int list" where
  "rx_samples prot buf = (let ts = map (rx_sample prot) buf in map (normalise (agc_gain ts)) ts)"

subsection \<open>The filters\<close>

definition goertzel :: "int \<Rightarrow> int \<Rightarrow> int \<Rightarrow> int \<Rightarrow> int" where
  "goertzel k t w0 w1 = wrap32 (wrap32 (cdivide (wrap32 (k * cdivide w1 128)) 128 - w0) + t)"

text \<open>A sample goes through all filters; the results are the new \<open>w0\<close> and \<open>w1\<close>.\<close>

definition filter_sample :: "int list \<times> int list \<Rightarrow> int \<Rightarrow> int list \<times> int list" where
  "filter_sample w t = (snd w, map (\<lambda>(k, w0, w1). goertzel k t w0 w1) (zip dtmf_K (zip (fst w) (snd w))))"

definition filter_block :: "int list \<Rightarrow> int list \<times> int list" where
  "filter_block ts = foldl filter_sample (replicate 18 0, replicate 18 0) ts"

definition tone_power :: "int \<Rightarrow> int \<Rightarrow> int \<Rightarrow> u32" where
  "tone_power k w0 w1 = word_of_int (wrap32 (wrap32 (wrap32 (w0 * w0) + wrap32 (w1 * w1)) -
     wrap32 (cdivide (wrap32 (k * w0)) 128 * cdivide w1 128)))"

text \<open>The values \<open>w0\<close> and \<open>w1\<close> scaled down, and the strengths of the frequencies; \<open>None\<close> is a square root that does not return.\<close>

definition scale_down :: "int list \<Rightarrow> int list" where
  "scale_down w = map (\<lambda>x. cdivide x 128) w"

definition tone_strengths :: "int list \<Rightarrow> int list \<Rightarrow> int list option" where
  "tone_strengths w0 w1 = those (map (\<lambda>(k, a, b). map_option uint (i4b_sqrt_32 (tone_power k a b))) (zip dtmf_K (zip w0 w1)))"

subsection \<open>The tones that are present\<close>

definition three_highest :: "int \<times> int \<times> int \<Rightarrow> int \<Rightarrow> int \<times> int \<times> int" where
  "three_highest = (\<lambda>(max0, max1, max2) w.
     if max0 < w then (w, max0, max1)
     else if max1 < w then (max0, w, max1)
     else if max2 < w then (max0, max1, w)
     else (max0, max1, max2))"

definition found_bits :: "(int \<Rightarrow> bool) \<Rightarrow> int list \<Rightarrow> u32" where
  "found_bits p w2 = foldl (\<lambda>found n. found OR push_bit n (of_bool (p (w2 ! n)))) 0 [0..<18]"

definition found_tones :: "int list \<Rightarrow> u32" where
  "found_tones w2 =
     (case foldl three_highest (0, 0, 0) w2 of (max0, max1, max2) \<Rightarrow>
        if max0 \<ge> 5000 \<and> max1 \<ge> cdivide max0 2 \<and> max2 < cdivide max0 2 then found_bits (\<lambda>w. w \<ge> max1) w2
        else if max0 \<ge> 10000 \<and> max1 < cdivide max0 2 then found_bits (\<lambda>w. w = max0) w2
        else 0)"

text \<open>The position of the only bit of a group of four that is set.\<close>

definition one_of_four :: "u32 \<Rightarrow> nat option" where
  "one_of_four temp = (if temp = 1 then Some 0 else if temp = 2 then Some 1 else if temp = 4 then Some 2 else if temp = 8 then Some 3 else None)"

definition tone_code :: "bool \<Rightarrow> u32 \<Rightarrow> nat" where
  "tone_code detected found =
     (if found = 0x10000 then (if detected then 0 else of_char CHR ''X'')
      else if found = 0x20000 then (if detected then 0 else of_char CHR ''Y'')
      else case one_of_four (found AND 0xF) of
          None \<Rightarrow> 0
        | Some row \<Rightarrow>
            if found AND 0xFFFFFF00 \<noteq> 0 then 0
            else (case one_of_four (drop_bit 4 found AND 0xF) of None \<Rightarrow> 0 | Some col \<Rightarrow> code_to_ascii ! (row + 4 * col)))"

subsection \<open>Reporting a key\<close>

text \<open>The statements from the label \<open>done\<close> on; the second result is what goes to \<open>L5_PUT_DTMF\<close>.\<close>

definition report_code :: "i4b_dtmf_info_rx \<Rightarrow> nat \<Rightarrow> i4b_dtmf_info_rx \<times> nat list" where
  "report_code rx code =
     (let jitter = (code = 0 \<and> rx_no_code_count rx < 2);
          code = (if jitter then rx_code rx else code);
          rx = rx\<lparr>rx_no_code_count := (if jitter then rx_no_code_count rx + 1 else 0)\<rparr>;
          rx = (if code \<noteq> rx_code rx then rx\<lparr>rx_code := code, rx_code_count := 0\<rparr> else rx);
          n = rx_code_count rx;
          more = (if n \<noteq> 255 then n + 1 else n)
      in if code = of_char CHR ''X'' \<or> code = of_char CHR ''Y''
         then (rx\<lparr>detected_fax_or_modem := (detected_fax_or_modem rx \<or> n = 14), rx_code_count := more\<rparr>, if n = 14 then [code] else [])
         else if code \<noteq> 0 then (rx\<lparr>rx_code_count := more\<rparr>, if n = 1 then [code] else [])
         else (rx, []))"

text \<open>A full buffer.\<close>

definition detect_block :: "i4b_dtmf_info_rx \<Rightarrow> (i4b_dtmf_info_rx \<times> nat list) option" where
  "detect_block rx =
     (let (w0, w1) = filter_block (rx_samples (rx_bsubprot rx) (rx_buffer rx));
          rx = rx\<lparr>rx_count := 0, rx_w0 := scale_down w0, rx_w1 := scale_down w1\<rparr>
      in map_option (\<lambda>w2. report_code rx (tone_code (detected_fax_or_modem rx) (found_tones w2))) (tone_strengths (rx_w0 rx) (rx_w1 rx)))"

text \<open>The \<open>memcpy\<close> of the loop; \<open>None\<close> is a write beyond the end of the buffer.\<close>

definition collect :: "i4b_dtmf_info_rx \<Rightarrow> u8 list \<Rightarrow> (i4b_dtmf_info_rx \<times> u8 list) option" where
  "collect rx data =
     (if rx_count rx > I4B_DTMF_N_SAMPLES then None
      else let delta = (if I4B_DTMF_N_SAMPLES - rx_count rx > length data then length data else I4B_DTMF_N_SAMPLES - rx_count rx);
               buf = take (rx_count rx) (rx_buffer rx) @ take delta data @ drop (rx_count rx + delta) (rx_buffer rx)
           in Some (rx\<lparr>rx_buffer := buf, rx_count := rx_count rx + delta\<rparr>, drop delta data))"

lemma report_code_count: "rx_count (fst (report_code rx code)) = rx_count rx"
  by (simp add: report_code_def Let_def)

lemma detect_block_count: "detect_block rx = Some (rx', ks) \<Longrightarrow> rx_count rx' = 0"
  by (auto simp: detect_block_def split: prod.splits dest!: arg_cong [of _ _ fst] simp: report_code_count)

lemma collect_data:
  "collect rx data = Some (rx', rest) \<Longrightarrow> length data = (rx_count rx' - rx_count rx) + length rest \<and> rx_count rx \<le> I4B_DTMF_N_SAMPLES"
  by (auto simp: collect_def Let_def split: if_splits)

function detect_loop :: "i4b_dtmf_info_rx \<Rightarrow> u8 list \<Rightarrow> (i4b_dtmf_info_rx \<times> nat list) option" where
  "detect_loop rx data =
     (case collect rx data of
        None \<Rightarrow> None
      | Some (rx, data) \<Rightarrow>
          if rx_count rx \<noteq> I4B_DTMF_N_SAMPLES then Some (rx, [])
          else case detect_block rx of
              None \<Rightarrow> None
            | Some (rx, ks) \<Rightarrow> map_option (apsnd ((@) ks)) (detect_loop rx data))"
  by pat_completeness auto
termination
proof (relation "measure (\<lambda>(rx, data). 2 * length data + (if rx_count rx = I4B_DTMF_N_SAMPLES then 1 else 0))", goal_cases)
  case (2 rx data x rx1 rest y rx2 ks)
  have "length data = (rx_count rx1 - rx_count rx) + length rest" "rx_count rx \<le> I4B_DTMF_N_SAMPLES" "rx_count rx2 = 0"
    using 2 collect_data detect_block_count by auto
  then show ?case
    using 2 by auto
qed simp

text \<open>\<open>put\<close>: whether anybody listens, \<open>L5_PUT_DTMF\<close> is not the null pointer.\<close>

definition i4b_dtmf_detect :: "bool \<Rightarrow> i4b_dtmf_info_rx \<Rightarrow> u8 list \<Rightarrow> (i4b_dtmf_info_rx \<times> nat list) option" where
  "i4b_dtmf_detect put rx data = (if \<not> put then Some (rx, []) else detect_loop rx data)"

section \<open>The stream of blocks\<close>

definition rx_ok :: "i4b_dtmf_info_rx \<Rightarrow> bool" where
  "rx_ok rx \<longleftrightarrow> length (rx_buffer rx) = 102 \<and> rx_count rx < 102"

definition rx_held :: "i4b_dtmf_info_rx \<Rightarrow> u8 list" where
  "rx_held rx = take (rx_count rx) (rx_buffer rx)"

fun full_blocks :: "'a list \<Rightarrow> 'a list list" where
  "full_blocks xs = (if length xs < 102 then [] else take 102 xs # full_blocks (drop 102 xs))"

fun last_part :: "'a list \<Rightarrow> 'a list" where
  "last_part xs = (if length xs < 102 then xs else last_part (drop 102 xs))"

declare full_blocks.simps [simp del] last_part.simps [simp del] detect_loop.simps [simp del]

lemma full_blocks_simps [simp]:
  "length xs < 102 \<Longrightarrow> full_blocks xs = []" "length xs = 102 \<Longrightarrow> full_blocks (xs @ ys) = xs # full_blocks ys"
  "length xs < 102 \<Longrightarrow> last_part xs = xs" "length xs = 102 \<Longrightarrow> last_part (xs @ ys) = last_part ys"
  by (simp_all add: full_blocks.simps [of xs] full_blocks.simps [of "xs @ ys"] last_part.simps [of xs] last_part.simps [of "xs @ ys"])

lemma full_blocks_append: "full_blocks (xs @ ys) = full_blocks xs @ full_blocks (last_part xs @ ys) \<and> last_part (xs @ ys) = last_part (last_part xs @ ys)"
proof (induction xs rule: full_blocks.induct)
  case (1 xs)
  show ?case
  proof (cases "length xs < 102")
    case False
    define a b where "a = take 102 xs" "b = drop 102 xs"
    then have "xs = a @ b" "length a = 102"
      using False by simp_all
    then show ?thesis
      using 1 False by (simp add: a_b_def(2) [symmetric])
  qed simp
qed

text \<open>What the receiver does with a block, whatever is left in its buffer and filters.\<close>

definition block_strengths :: "bsubprot \<Rightarrow> u8 list \<Rightarrow> int list" where
  "block_strengths prot buf =
     (let (w0, w1) = filter_block (rx_samples prot buf)
      in map (\<lambda>(k, a, b). uint (the (i4b_sqrt_32 (tone_power k a b)))) (zip dtmf_K (zip (scale_down w0) (scale_down w1))))"

definition hear :: "i4b_dtmf_info_rx \<Rightarrow> u8 list \<Rightarrow> i4b_dtmf_info_rx \<times> nat list" where
  "hear rx buf = report_code rx (tone_code (detected_fax_or_modem rx) (found_tones (block_strengths (rx_bsubprot rx) buf)))"

fun hear_all :: "i4b_dtmf_info_rx \<Rightarrow> u8 list list \<Rightarrow> i4b_dtmf_info_rx \<times> nat list" where
  "hear_all rx [] = (rx, [])"
| "hear_all rx (buf # bufs) = (let (rx, ks) = hear rx buf; (rx, ks') = hear_all rx bufs in (rx, ks @ ks'))"

definition key_state :: "i4b_dtmf_info_rx \<Rightarrow> nat \<times> nat \<times> nat \<times> bsubprot \<times> bool" where
  "key_state rx = (rx_code rx, rx_code_count rx, rx_no_code_count rx, rx_bsubprot rx, detected_fax_or_modem rx)"

text \<open>The key logic on the fields it needs: the key, how long it is held, the empty blocks in between, and whether a fax was heard.\<close>

definition press_key :: "nat \<Rightarrow> nat \<Rightarrow> nat \<Rightarrow> bool \<Rightarrow> (nat \<times> nat \<times> nat \<times> bool) \<times> nat list" where
  "press_key code n z fax =
     (let report = (if code = of_char CHR ''X'' \<or> code = of_char CHR ''Y'' then n = 14 else code \<noteq> 0 \<and> n = 1)
      in ((code, if code \<noteq> 0 \<and> n \<noteq> 255 then n + 1 else n, z, fax \<or> report \<and> (code = of_char CHR ''X'' \<or> code = of_char CHR ''Y'')),
          if report then [code] else []))"

definition press :: "nat \<times> nat \<times> nat \<times> bool \<Rightarrow> nat \<Rightarrow> (nat \<times> nat \<times> nat \<times> bool) \<times> nat list" where
  "press = (\<lambda>(code, n, z, fax) c.
     if c = 0 \<and> z < 2 then press_key code n (z + 1) fax
     else press_key c (if c = code then n else 0) 0 fax)"

definition pressed :: "i4b_dtmf_info_rx \<Rightarrow> nat \<times> nat \<times> nat \<times> bool" where
  "pressed rx = (rx_code rx, rx_code_count rx, rx_no_code_count rx, detected_fax_or_modem rx)"

lemma report_code_press:
  "report_code rx c = (case press (pressed rx) c of ((code, n, z, fax), ks) \<Rightarrow>
     (rx\<lparr>rx_code := code, rx_code_count := n, rx_no_code_count := z, detected_fax_or_modem := fax\<rparr>, ks))"
  by (cases rx) (simp add: report_code_def press_def press_key_def pressed_def Let_def)

lemma report_code_frame:
  "rx_bsubprot (fst (report_code rx c)) = rx_bsubprot rx" "rx_count (fst (report_code rx c)) = rx_count rx" "rx_buffer (fst (report_code rx c)) = rx_buffer rx"
  "pressed (fst (report_code rx c)) = fst (press (pressed rx) c)" "snd (report_code rx c) = snd (press (pressed rx) c)"
  by (simp_all add: report_code_press pressed_def split: prod.splits)

lemma key_state_pressed: "key_state rx = key_state rx' \<longleftrightarrow> pressed rx = pressed rx' \<and> rx_bsubprot rx = rx_bsubprot rx'"
  by (auto simp: key_state_def pressed_def)

lemma report_code_cong:
  assumes "key_state rx = key_state rx'"
  shows "key_state (fst (report_code rx c)) = key_state (fst (report_code rx' c)) \<and> snd (report_code rx c) = snd (report_code rx' c)"
  using assms by (simp add: key_state_pressed report_code_frame)

lemma hear_all_cong:
  assumes "key_state rx = key_state rx'"
  shows "key_state (fst (hear_all rx bufs)) = key_state (fst (hear_all rx' bufs)) \<and> snd (hear_all rx bufs) = snd (hear_all rx' bufs)"
  using assms
proof (induction bufs arbitrary: rx rx')
  case (Cons buf bufs)
  have "key_state (fst (hear rx buf)) = key_state (fst (hear rx' buf)) \<and> snd (hear rx buf) = snd (hear rx' buf)"
    using Cons.prems report_code_cong [OF Cons.prems] by (simp add: hear_def key_state_def)
  then show ?case
    using Cons.IH [of "fst (hear rx buf)" "fst (hear rx' buf)"] by (simp add: split_beta Let_def)
qed simp

lemma hear_all_append: "hear_all rx (as @ bs) = (let (rx, ks) = hear_all rx as; (rx, ks') = hear_all rx bs in (rx, ks @ ks'))"
  by (induction as arbitrary: rx) (simp_all add: split_beta Let_def)

lemma those_Some: "(\<And>x. x \<in> set xs \<Longrightarrow> f x \<noteq> None) \<Longrightarrow> those (map f xs) = Some (map (the \<circ> f) xs)"
proof (induction xs)
  case (Cons x xs)
  then obtain y where "f x = Some y"
    by auto
  then show ?case
    using Cons by simp
qed simp

lemma tone_strengths_total:
  "tone_strengths w0 w1 = Some (map (\<lambda>(k, a, b). uint (the (i4b_sqrt_32 (tone_power k a b)))) (zip dtmf_K (zip w0 w1)))"
proof -
  have root: "\<exists>r. i4b_sqrt_32 a = Some r" for a
    using sqrt_32_root [of a] by blast
  have "map_option uint (i4b_sqrt_32 (tone_power k a b)) \<noteq> None" for k a b
    using root [of "tone_power k a b"] by auto
  moreover have "the (map_option uint (i4b_sqrt_32 a)) = uint (the (i4b_sqrt_32 a))" for a
    using root [of a] by auto
  ultimately show ?thesis
    unfolding tone_strengths_def by (subst those_Some) auto
qed

lemma detect_block_hear:
  assumes "length (rx_buffer rx) = 102"
  shows "\<exists>rx'. detect_block rx = Some (rx', snd (hear rx (rx_buffer rx))) \<and> key_state rx' = key_state (fst (hear rx (rx_buffer rx))) \<and>
    rx_count rx' = 0 \<and> length (rx_buffer rx') = 102"
proof -
  obtain w0 w1 where w: "filter_block (rx_samples (rx_bsubprot rx) (rx_buffer rx)) = (w0, w1)"
    by fastforce
  let ?rx = "rx\<lparr>rx_count := 0, rx_w0 := scale_down w0, rx_w1 := scale_down w1\<rparr>"
  define c where "c = tone_code (detected_fax_or_modem rx) (found_tones (block_strengths (rx_bsubprot rx) (rx_buffer rx)))"
  have "detect_block rx = Some (report_code ?rx c)"
    by (simp add: detect_block_def w tone_strengths_total c_def block_strengths_def)
  moreover have "key_state ?rx = key_state rx"
    by (simp add: key_state_def)
  ultimately show ?thesis
    using report_code_cong [of ?rx rx c] assms
    by (intro exI [of _ "fst (report_code ?rx c)"]) (simp add: hear_def report_code_frame prod_eq_iff flip: c_def)
qed

lemma collect_held:
  assumes "rx_ok rx"
  shows "\<exists>rx' rest. collect rx data = Some (rx', rest) \<and> key_state rx' = key_state rx \<and> length (rx_buffer rx') = 102 \<and>
    rx_count rx' = min 102 (rx_count rx + length data) \<and> rx_held rx' @ rest = rx_held rx @ data \<and> (rx_count rx' \<noteq> 102 \<longrightarrow> rest = [])"
  using assms by (auto simp: collect_def rx_ok_def rx_held_def key_state_def Let_def)

lemma detect_loop_blocks:
  assumes "rx_ok rx"
  shows "\<exists>rx'. detect_loop rx data = Some (rx', snd (hear_all rx (full_blocks (rx_held rx @ data)))) \<and>
    key_state rx' = key_state (fst (hear_all rx (full_blocks (rx_held rx @ data)))) \<and>
    rx_ok rx' \<and> rx_held rx' = last_part (rx_held rx @ data)"
  using assms
proof (induction rx data rule: detect_loop.induct)
  case (1 rx data)
  obtain rx1 rest where c: "collect rx data = Some (rx1, rest)" "key_state rx1 = key_state rx" "length (rx_buffer rx1) = 102"
    "rx_count rx1 = min 102 (rx_count rx + length data)" "rx_held rx1 @ rest = rx_held rx @ data" "rx_count rx1 \<noteq> 102 \<longrightarrow> rest = []"
    using collect_held [OF 1(2)] by blast
  show ?case
  proof (cases "rx_count rx1 = 102")
    case False
    then have "rx_ok rx1" "rx_held rx1 = rx_held rx @ data" "length (rx_held rx @ data) < 102"
      using c by (auto simp: rx_ok_def rx_held_def)
    then show ?thesis
      using False c(1,2) by (simp add: detect_loop.simps)
  next
    case True
    then have held: "rx_held rx1 = rx_buffer rx1"
      using c(3) by (simp add: rx_held_def)
    obtain rx2 where d: "detect_block rx1 = Some (rx2, snd (hear rx1 (rx_buffer rx1)))" "key_state rx2 = key_state (fst (hear rx1 (rx_buffer rx1)))"
      "rx_ok rx2" "rx_held rx2 = []"
      using detect_block_hear [OF c(3)] by (auto simp: rx_ok_def rx_held_def)
    let ?bs = "full_blocks rest"
    obtain rx3 where e: "detect_loop rx2 rest = Some (rx3, snd (hear_all rx2 ?bs))" "key_state rx3 = key_state (fst (hear_all rx2 ?bs))"
      "rx_ok rx3" "rx_held rx3 = last_part rest"
      using 1(1) [OF c(1) _ _ d(1) _ d(3)] True d(4) by auto
    have "full_blocks (rx_held rx @ data) = rx_buffer rx1 # ?bs" "last_part (rx_held rx @ data) = last_part rest"
      using c(3) by (simp_all flip: c(5) add: held)
    then show ?thesis
      using True c(1) d(1) e hear_all_cong [OF d(2), of ?bs] hear_all_cong [OF c(2), of "rx_buffer rx1 # ?bs"]
      by (simp add: detect_loop.simps [of rx] split_beta Let_def)
  qed
qed

text \<open>The octets of the channel arrive in buffers of any length.\<close>

fun detect_all :: "i4b_dtmf_info_rx \<Rightarrow> u8 list list \<Rightarrow> (i4b_dtmf_info_rx \<times> nat list) option" where
  "detect_all rx [] = Some (rx, [])"
| "detect_all rx (d # ds) =
     (case i4b_dtmf_detect True rx d of
        None \<Rightarrow> None
      | Some (rx, ks) \<Rightarrow> map_option (apsnd ((@) ks)) (detect_all rx ds))"

lemma init_rx_ok: "rx_ok (i4b_dtmf_init_rx prot)" "rx_held (i4b_dtmf_init_rx prot) = []"
  by (simp_all add: rx_ok_def rx_held_def i4b_dtmf_init_rx_def)

text \<open>
  C33: The detector always returns, never writes outside its buffer, and does not depend on how the octets of the
  channel are cut into buffers: the keys it reports are those of the consecutive blocks of 102 octets, heard one
  after the other, and it holds the octets that do not fill a block yet.
\<close>

theorem detect_stream:
  assumes "rx_ok rx"
  shows "\<exists>rx'. detect_all rx ds = Some (rx', snd (hear_all rx (full_blocks (rx_held rx @ concat ds)))) \<and>
    rx_ok rx' \<and> rx_held rx' = last_part (rx_held rx @ concat ds)"
  using assms
proof (induction ds arbitrary: rx)
  case Nil
  then show ?case
    by (simp add: rx_ok_def rx_held_def)
next
  case (Cons d ds)
  let ?a = "full_blocks (rx_held rx @ d)" and ?b = "full_blocks (last_part (rx_held rx @ d) @ concat ds)"
  obtain rx1 where 1: "detect_loop rx d = Some (rx1, snd (hear_all rx ?a))" "key_state rx1 = key_state (fst (hear_all rx ?a))"
    "rx_ok rx1" "rx_held rx1 = last_part (rx_held rx @ d)"
    using detect_loop_blocks [OF Cons.prems] by blast
  have "full_blocks (rx_held rx @ concat (d # ds)) = ?a @ ?b"
    "last_part (rx_held rx @ concat (d # ds)) = last_part (last_part (rx_held rx @ d) @ concat ds)"
    using full_blocks_append [of "rx_held rx @ d" "concat ds"] by simp_all
  then show ?case
    using Cons.IH [OF 1(3)] 1 hear_all_cong [OF 1(2), of ?b]
    by (auto simp: i4b_dtmf_detect_def hear_all_append split_beta Let_def)
qed

theorem detect_stream_witness:
  "\<exists>rx. detect_all (i4b_dtmf_init_rx BSUBPROT_G711_ALAW) [replicate 60 0x2B, [], replicate 41 0xAB] = Some (rx, []) \<and>
     rx_held rx = replicate 60 0x2B @ replicate 41 0xAB"
  using detect_stream [OF init_rx_ok(1), of BSUBPROT_G711_ALAW "[replicate 60 0x2B, [], replicate 41 0xAB]"]
  by (auto simp: init_rx_ok)

section \<open>Keys that are held\<close>

fun report_all :: "i4b_dtmf_info_rx \<Rightarrow> nat list \<Rightarrow> i4b_dtmf_info_rx \<times> nat list" where
  "report_all rx [] = (rx, [])"
| "report_all rx (c # cs) = (let (rx, ks) = report_code rx c; (rx, ks') = report_all rx cs in (rx, ks @ ks'))"

fun press_all :: "nat \<times> nat \<times> nat \<times> bool \<Rightarrow> nat list \<Rightarrow> (nat \<times> nat \<times> nat \<times> bool) \<times> nat list" where
  "press_all st [] = (st, [])"
| "press_all st (c # cs) = (let (st, ks) = press st c; (st, ks') = press_all st cs in (st, ks @ ks'))"

lemma report_all_press:
  "pressed (fst (report_all rx cs)) = fst (press_all (pressed rx) cs)" "snd (report_all rx cs) = snd (press_all (pressed rx) cs)"
  by (induction cs arbitrary: rx) (simp_all add: split_beta Let_def report_code_frame)

lemma press_all_append: "press_all st (as @ bs) = (let (st, ks) = press_all st as; (st, ks') = press_all st bs in (st, ks @ ks'))"
  by (induction as arbitrary: st) (simp_all add: split_beta Let_def)

text \<open>Blocks in which the key is heard, with at most two in a row in which it is not; \<open>z\<close> counts the latter before them.\<close>

fun steady :: "nat \<Rightarrow> nat \<Rightarrow> nat list \<Rightarrow> bool" where
  "steady c z [] \<longleftrightarrow> True"
| "steady c z (x # xs) \<longleftrightarrow> (x = c \<and> steady c 0 xs) \<or> (x = 0 \<and> z < 2 \<and> steady c (z + 1) xs)"

definition is_key :: "nat \<Rightarrow> bool" where
  "is_key c \<longleftrightarrow> c \<noteq> 0 \<and> c \<noteq> of_char CHR ''X'' \<and> c \<noteq> of_char CHR ''Y''"

lemma press_held:
  assumes "is_key c" "2 \<le> n" "z \<le> 2" "steady c z xs"
  shows "\<exists>n' z'. press_all (c, n, z, fax) xs = ((c, n', z', fax), []) \<and> 2 \<le> n' \<and> z' \<le> 2"
  using assms(2-)
proof (induction xs arbitrary: n z)
  case (Cons x xs)
  define n1 z1 where "n1 = (if n \<noteq> 255 then n + 1 else n)" "z1 = (if x = c then 0 else z + 1)"
  have "press (c, n, z, fax) x = ((c, n1, z1, fax), [])"
    using assms(1) Cons.prems by (auto simp: press_def press_key_def is_key_def n1_z1_def)
  moreover have "2 \<le> n1" "z1 \<le> 2" "steady c z1 xs"
    using assms(1) Cons.prems by (auto simp: is_key_def n1_z1_def)
  ultimately show ?case
    using Cons.IH [of n1 z1] by auto
qed simp

lemma press_release:
  assumes "is_key c" "2 \<le> n" "z \<le> 2"
  shows "\<exists>n' z'. press_all (c, n, z, fax) [0, 0, 0] = ((0, n', z', fax), []) \<and> z' \<le> 2"
proof -
  have "z = 0 \<or> z = 1 \<or> z = 2"
    using assms(3) by auto
  then show ?thesis
    using assms(1,2) by (auto simp: press_def press_key_def is_key_def Let_def)
qed

lemma press_once:
  assumes "is_key c" "z \<le> 2" "steady c 0 xs" "xs \<noteq> []"
  shows "\<exists>n' z'. press_all (0, n, z, fax) (c # xs @ [0, 0, 0]) = ((0, n', z', fax), [c]) \<and> z' \<le> 2"
proof -
  obtain x ys where xs: "xs = x # ys"
    using assms(4) by (cases xs) auto
  have first: "press (0, n, z, fax) c = ((c, 1, 0, fax), [])"
    using assms(1) by (auto simp: press_def press_key_def is_key_def)
  have second: "press (c, 1, 0, fax) x = ((c, 2, if x = c then 0 else 1, fax), [c])"
    using assms(1,3) by (auto simp: press_def press_key_def is_key_def xs)
  have "steady c (if x = c then 0 else 1) ys"
    using assms(1,3) by (auto simp: xs is_key_def)
  then obtain n1 z1 where held: "press_all (c, 2, if x = c then 0 else 1, fax) ys = ((c, n1, z1, fax), [])" "2 \<le> n1" "z1 \<le> 2"
    using press_held [OF assms(1), of 2 "if x = c then 0 else 1" ys fax] by (auto split: if_splits)
  from press_release [OF assms(1) this(2,3), of fax] obtain n2 z2 where
    release: "press_all (c, n1, z1, fax) [0, 0, 0] = ((0, n2, z2, fax), [])" "z2 \<le> 2"
    by blast
  have "press_all (c, 2, if x = c then 0 else 1, fax) (ys @ [0, 0, 0]) = ((0, n2, z2, fax), [])"
    unfolding press_all_append held(1) by (simp add: release(1) del: press_all.simps)
  then show ?thesis
    using release(2) by (simp add: xs first [simplified] second [simplified])
qed

text \<open>
  C34: Keys are reported as they are pressed. When every key is heard in at least two blocks, is lost in at most two
  blocks in a row, and is followed by three blocks in which no key is heard, each key is reported once and in order,
  however long it is held.
\<close>

theorem keys_reported_once:
  assumes "\<forall>(c, xs)\<in>set ps. is_key c \<and> xs \<noteq> [] \<and> steady c 0 xs"
  shows "snd (report_all (i4b_dtmf_init_rx prot) (concat (map (\<lambda>(c, xs). c # xs @ [0, 0, 0]) ps))) = map fst ps"
proof -
  have "z \<le> 2 \<Longrightarrow> snd (press_all (0, n, z, fax) (concat (map (\<lambda>(c, xs). c # xs @ [0, 0, 0]) ps))) = map fst ps" for n z fax
    using assms
  proof (induction ps arbitrary: n z)
    case (Cons p ps)
    obtain c xs where p: "p = (c, xs)"
      by fastforce
    from press_once [of c z xs n fax] obtain n' z' where once: "press_all (0, n, z, fax) (c # xs @ [0, 0, 0]) = ((0, n', z', fax), [c])" "z' \<le> 2"
      using Cons.prems by (auto simp: p)
    have "snd (press_all (0, n', z', fax) (concat (map (\<lambda>(c, xs). c # xs @ [0, 0, 0]) ps))) = map fst ps"
      using once(2) Cons.prems(2) by (intro Cons.IH) simp_all
    moreover have "concat (map (\<lambda>(c, xs). c # xs @ [0, 0, 0]) (p # ps)) = (c # xs @ [0, 0, 0]) @ concat (map (\<lambda>(c, xs). c # xs @ [0, 0, 0]) ps)"
      by (simp add: p)
    ultimately show ?case
      by (simp only: press_all_append once(1)) (auto simp: p split: prod.splits)
  qed simp
  then show ?thesis
    by (simp add: report_all_press pressed_def i4b_dtmf_init_rx_def)
qed

theorem keys_reported_once_witness:
  "snd (report_all (i4b_dtmf_init_rx BSUBPROT_G711_ALAW) [49, 49, 0, 49, 0, 0, 49, 0, 0, 0, 35, 0, 0, 35, 0, 0, 0, 49, 49, 0, 0, 0]) = [49, 35, 49]"
  using keys_reported_once [of "[(49, [49, 0, 49, 0, 0, 49]), (35, [0, 0, 35]), (49, [49])]" BSUBPROT_G711_ALAW] by (simp add: is_key_def)

end
