(* ===== verification/Voice_Filter.thy ===== *)
theory Voice_Filter
  imports Voice_Rx Complex_Main
begin

text \<open>
  The arithmetic of the tone detector: whatever the 102 octets of a block are, the recursive filters stay within 32
  bits, so that the strengths computed with the machine's integers are those of the integers. The proof follows the
  energy of a filter, a quadratic form in its two values that a sample raises by a bounded amount only.
\<close>

section \<open>Division that truncates\<close>

lemma cdivide_pos: "0 < b \<Longrightarrow> cdivide a b = (if 0 \<le> a then a div b else - ((- a) div b))"
  by (auto simp: cdivide_def sgn_if)

lemma cdivide_rem:
  assumes "0 < b"
  shows "\<bar>a - b * cdivide a b\<bar> < b" "b * \<bar>cdivide a b\<bar> \<le> \<bar>a\<bar>"
proof -
  have q: "0 \<le> x div b \<and> 0 \<le> x - b * (x div b) \<and> x - b * (x div b) < b" if "0 \<le> x" for x
    using assms that by (simp add: pos_imp_zdiv_nonneg_iff minus_mult_div_eq_mod)
  have "\<bar>a - b * cdivide a b\<bar> < b \<and> b * \<bar>cdivide a b\<bar> \<le> \<bar>a\<bar>"
  proof (cases "0 \<le> a")
    case True
    then show ?thesis
      using q [OF True] by (simp only: cdivide_pos [OF assms] if_True abs_of_nonneg) simp
  next
    case False
    then have "0 \<le> - a"
      by simp
    from q [OF this] False show ?thesis
      by (simp only: cdivide_pos [OF assms] if_False abs_minus_cancel abs_of_nonneg mult_minus_right) linarith
  qed
  then show "\<bar>a - b * cdivide a b\<bar> < b" "b * \<bar>cdivide a b\<bar> \<le> \<bar>a\<bar>"
    by simp_all
qed

lemma cdivide_bound: "0 < b \<Longrightarrow> \<bar>a\<bar> \<le> b * m \<Longrightarrow> \<bar>cdivide a b\<bar> \<le> m"
  using cdivide_rem(2) [of b a] by (smt (verit) mult_less_cancel_left_pos)

section \<open>The filter on integers\<close>

definition goertzel_exact :: "int \<Rightarrow> int \<Rightarrow> int \<Rightarrow> int \<Rightarrow> int" where
  "goertzel_exact k t w0 w1 = cdivide (k * cdivide w1 128) 128 - w0 + t"

definition filter_exact :: "int \<Rightarrow> int list \<Rightarrow> int \<times> int" where
  "filter_exact k ts = foldl (\<lambda>(w0, w1) t. (w1, goertzel_exact k t w0 w1)) (0, 0) ts"

definition power_exact :: "int \<Rightarrow> int \<Rightarrow> int \<Rightarrow> int" where
  "power_exact k a b = a * a + b * b - cdivide (k * a) 128 * cdivide b 128"

lemma goertzel_no_wrap:
  assumes "\<bar>k\<bar> \<le> 27980" "\<bar>w0\<bar> \<le> 6500000" "\<bar>w1\<bar> \<le> 6500000" "\<bar>t\<bar> \<le> 32767"
  shows "goertzel k t w0 w1 = goertzel_exact k t w0 w1"
proof -
  have "\<bar>cdivide w1 128\<bar> \<le> 50782"
    using assms(3) by (intro cdivide_bound) simp_all
  then have "\<bar>k * cdivide w1 128\<bar> \<le> 27980 * 50782"
    unfolding abs_mult using assms(1) by (intro mult_mono) simp_all
  moreover from this have "\<bar>cdivide (k * cdivide w1 128) 128\<bar> \<le> 11100628"
    by (intro cdivide_bound) simp_all
  ultimately show ?thesis
    using assms by (simp add: goertzel_def goertzel_exact_def)
qed

section \<open>The energy of a filter\<close>

definition energy :: "real \<Rightarrow> real \<Rightarrow> real \<Rightarrow> real" where
  "energy c x y = x\<^sup>2 - c * x * y + y\<^sup>2"

lemma energy_square: "energy c x y = (y - c * x / 2)\<^sup>2 + (1 - c\<^sup>2 / 4) * x\<^sup>2"
  by (simp add: energy_def power2_eq_square field_simps)

lemma energy_sym: "energy c x y = energy c y x"
  by (simp add: energy_def)

lemma energy_step:
  assumes "energy c w0 w1 \<le> m\<^sup>2" "0 \<le> m" "\<bar>u\<bar> \<le> d" "c\<^sup>2 \<le> 4"
  shows "energy c w1 (c * w1 - w0 + u) \<le> (m + d)\<^sup>2"
proof -
  let ?v = "c * w1 - w0" and ?r = "c * w1 / 2 - w0"
  have "?r\<^sup>2 \<le> energy c w1 w0"
    using assms(4) by (simp add: energy_square power2_commute [of "c * w1 / 2"])
  then have "?r\<^sup>2 \<le> m\<^sup>2"
    using assms(1) energy_sym by (metis order_trans)
  then have r: "\<bar>?r\<bar> \<le> m"
    using assms(2) abs_le_square_iff [of ?r m] by simp
  have "energy c w1 (?v + u) = energy c w0 w1 + 2 * u * ?r + u\<^sup>2"
    by (simp add: energy_def power2_eq_square algebra_simps)
  moreover have "2 * u * ?r \<le> 2 * d * m"
  proof -
    have "u * ?r \<le> \<bar>u\<bar> * \<bar>?r\<bar>"
      unfolding abs_mult [symmetric] by (rule abs_ge_self)
    also have "\<dots> \<le> d * m"
      using assms(3) r by (intro mult_mono) auto
    finally show ?thesis
      by simp
  qed
  moreover have "u\<^sup>2 \<le> d\<^sup>2"
    using assms(3) by (simp add: abs_le_square_iff [symmetric])
  ultimately show ?thesis
    using assms(1) by (simp add: power2_sum algebra_simps)
qed

text \<open>The rounding of a step is a disturbance of the sample by less than 218.\<close>

lemma goertzel_real:
  assumes "\<bar>k\<bar> \<le> 27980" "\<bar>t\<bar> \<le> 32767"
  shows "\<exists>u. \<bar>u\<bar> \<le> 32985 \<and> real_of_int (goertzel_exact k t w0 w1) = (k / 16384) * w1 - w0 + u"
proof -
  define q p where "q = cdivide w1 128" "p = cdivide (k * q) 128"
  let ?r = "w1 - 128 * q" and ?s = "k * q - 128 * p"
  have rs: "\<bar>?r\<bar> \<le> 127" "\<bar>?s\<bar> \<le> 127"
    using cdivide_rem(1) [of 128 w1] cdivide_rem(1) [of 128 "k * q"] by (simp_all add: q_p_def)
  have "\<bar>k * ?r + 128 * ?s\<bar> \<le> \<bar>k\<bar> * \<bar>?r\<bar> + 128 * \<bar>?s\<bar>"
    by (metis abs_mult abs_numeral abs_triangle_ineq)
  also have "\<dots> \<le> 27980 * 127 + 128 * 127"
    using rs assms(1) by (intro add_mono mult_mono) simp_all
  finally have "\<bar>k * ?r + 128 * ?s\<bar> \<le> 16384 * 218"
    by simp
  then have e: "\<bar>real_of_int (k * ?r + 128 * ?s)\<bar> \<le> 16384 * 218"
    by linarith
  let ?u = "t - real_of_int (k * ?r + 128 * ?s) / 16384"
  have "\<bar>t' - x / 16384\<bar> \<le> 32985" if "\<bar>x\<bar> \<le> 16384 * 218" "\<bar>t'\<bar> \<le> 32767" for x t' :: real
    using that by linarith
  from this [OF e] have "\<bar>?u\<bar> \<le> 32985"
    using assms(2) by simp
  moreover have "real_of_int (goertzel_exact k t w0 w1) = (k / 16384) * w1 - w0 + ?u"
    by (simp add: goertzel_exact_def q_p_def [symmetric] field_simps)
  ultimately show ?thesis
    by blast
qed

lemma filter_energy:
  assumes "\<bar>k\<bar> \<le> 27980" "\<forall>t\<in>set ts. \<bar>t\<bar> \<le> 32767"
  shows "case filter_exact k ts of (w0, w1) \<Rightarrow> energy (k / 16384) w0 w1 \<le> (real (length ts) * 32985)\<^sup>2"
  using assms(2)
proof (induction ts rule: rev_induct)
  case (snoc t ts)
  obtain w0 w1 where w: "filter_exact k ts = (w0, w1)"
    by fastforce
  have "\<bar>t\<bar> \<le> 32767"
    using snoc.prems by simp
  then obtain u where u: "\<bar>u\<bar> \<le> 32985" "real_of_int (goertzel_exact k t w0 w1) = (k / 16384) * w1 - w0 + u"
    using goertzel_real [OF assms(1)] by blast
  have "\<bar>real_of_int k\<bar> \<le> 32768"
    using assms(1) by linarith
  then have "(k / 16384)\<^sup>2 \<le> (4 :: real)"
    using abs_le_square_iff [of "k / 16384" "2 :: real"] by simp
  then have "energy (k / 16384) w1 ((k / 16384) * w1 - w0 + u) \<le> (real (length ts) * 32985 + 32985)\<^sup>2"
    using snoc w u(1) by (intro energy_step) auto
  moreover have "filter_exact k (ts @ [t]) = (w1, goertzel_exact k t w0 w1)"
    using w by (simp add: filter_exact_def)
  ultimately show ?case
    by (simp add: u(2) algebra_simps)
qed (simp add: filter_exact_def energy_def)

lemma filter_bounds:
  assumes "\<bar>k\<bar> \<le> 27980" "\<forall>t\<in>set ts. \<bar>t\<bar> \<le> 32767" "length ts \<le> 102" "filter_exact k ts = (w0, w1)"
  shows "\<bar>w0\<bar> \<le> 6500000" "\<bar>w1\<bar> \<le> 6500000" "energy (k / 16384) w0 w1 \<le> 3364470\<^sup>2"
proof -
  let ?c = "k / 16384 :: real"
  have "energy ?c w0 w1 \<le> (real (length ts) * 32985)\<^sup>2"
    using filter_energy [OF assms(1,2)] assms(4) by simp
  also have "\<dots> \<le> 3364470\<^sup>2"
    using assms(3) by (intro power_mono) auto
  finally show e: "energy ?c w0 w1 \<le> 3364470\<^sup>2" .
  have "\<bar>real_of_int k\<bar> \<le> 27980"
    using assms(1) by linarith
  then have "k\<^sup>2 \<le> (27980 :: real)\<^sup>2"
    using abs_le_square_iff [of "real_of_int k" 27980] by simp
  then have c: "27 / 100 \<le> 1 - ?c\<^sup>2 / 4"
    by (simp add: power_divide)
  have "\<bar>x\<bar> \<le> 6500000" if "energy ?c (real_of_int x) y \<le> 3364470\<^sup>2" for x y
  proof -
    have "27 / 100 * (real_of_int x)\<^sup>2 \<le> (1 - ?c\<^sup>2 / 4) * (real_of_int x)\<^sup>2"
      using c by (intro mult_right_mono) auto
    also have "\<dots> \<le> energy ?c x y"
      by (simp add: energy_square)
    finally have "(real_of_int x)\<^sup>2 \<le> 6500000\<^sup>2"
      using that by simp
    then have "\<bar>real_of_int x\<bar> \<le> 6500000"
      using abs_le_square_iff [of "real_of_int x" 6500000] by simp
    then show ?thesis
      by linarith
  qed
  from this [OF e] this [of w1 w0] show "\<bar>w0\<bar> \<le> 6500000" "\<bar>w1\<bar> \<le> 6500000"
    using e energy_sym [of ?c w0 w1] by simp_all
qed

lemma length_dtmf_K: "length dtmf_K = 18"
  by (simp add: dtmf_K_def)

lemma dtmf_K_bound: "k \<in> set dtmf_K \<Longrightarrow> \<bar>k\<bar> \<le> 27980"
  by (auto simp: dtmf_K_def)

lemma zip_map_both: "zip ks (zip (map f ks) (map g ks)) = map (\<lambda>k. (k, f k, g k)) ks"
  by (induction ks) simp_all

lemma filter_block_exact:
  assumes "\<forall>t\<in>set ts. \<bar>t\<bar> \<le> 32767" "length ts \<le> 102"
  shows "filter_block ts = (map (\<lambda>k. fst (filter_exact k ts)) dtmf_K, map (\<lambda>k. snd (filter_exact k ts)) dtmf_K)"
  using assms
proof (induction ts rule: rev_induct)
  case Nil
  then show ?case
    by (simp add: filter_block_def filter_exact_def dtmf_K_def numeral_eq_Suc)
next
  case (snoc t ts)
  have step: "filter_exact k (ts @ [t]) = (snd (filter_exact k ts), goertzel_exact k t (fst (filter_exact k ts)) (snd (filter_exact k ts)))" for k
    by (simp add: filter_exact_def split_beta)
  have "goertzel k t (fst (filter_exact k ts)) (snd (filter_exact k ts)) = goertzel_exact k t (fst (filter_exact k ts)) (snd (filter_exact k ts))"
    if "k \<in> set dtmf_K" for k
    using filter_bounds [OF dtmf_K_bound [OF that], of ts] snoc.prems by (intro goertzel_no_wrap dtmf_K_bound [OF that]) (auto simp: prod_eq_iff)
  moreover have "filter_block (ts @ [t]) = filter_sample (filter_block ts) t"
    by (simp add: filter_block_def)
  ultimately show ?case
    using snoc by (simp add: step filter_sample_def zip_map_both split_beta)
qed

section \<open>The strength of a tone\<close>

lemma wrap32_word: "(word_of_int (wrap32 x) :: u32) = word_of_int x"
proof -
  have "wrap32 x mod 2 ^ 32 = x mod 2 ^ 32"
    by (simp add: wrap32_def mod_simps)
  then show ?thesis
    by (simp add: word_of_int_eq_iff take_bit_eq_mod)
qed

lemma tone_power_wrap:
  assumes "\<bar>k * a\<bar> < 0x80000000"
  shows "tone_power k a b = word_of_int (power_exact k a b)"
  using assms by (simp add: tone_power_def power_exact_def wrap32_word)

lemma energy_diff: "c\<^sup>2 \<le> 4 \<Longrightarrow> energy c (x - f) (y - g) \<le> 2 * energy c x y + 2 * energy c f g"
proof -
  assume "c\<^sup>2 \<le> 4"
  then have "0 \<le> energy c (x + f) (y + g)"
    by (simp add: energy_square)
  moreover have "energy c (x - f) (y - g) + energy c (x + f) (y + g) = 2 * energy c x y + 2 * energy c f g"
    by (simp add: energy_def power2_eq_square algebra_simps)
  ultimately show ?thesis
    by linarith
qed

text \<open>Truncation takes the mixed term towards zero.\<close>

lemma power_nonneg:
  assumes "\<bar>k\<bar> \<le> 32768"
  shows "0 \<le> power_exact k a b"
proof -
  let ?c = "\<bar>cdivide (k * a) 128\<bar>" and ?d = "\<bar>cdivide b 128\<bar>"
  have "(128 * ?c) * (128 * ?d) \<le> \<bar>k * a\<bar> * \<bar>b\<bar>"
    using cdivide_rem(2) [of 128 "k * a"] cdivide_rem(2) [of 128 b] by (intro mult_mono) simp_all
  also have "\<dots> = \<bar>k\<bar> * (\<bar>a\<bar> * \<bar>b\<bar>)"
    by (simp add: abs_mult)
  also have "\<dots> \<le> 32768 * (\<bar>a\<bar> * \<bar>b\<bar>)"
    using assms by (intro mult_right_mono) simp_all
  finally have "?c * ?d \<le> 2 * (\<bar>a\<bar> * \<bar>b\<bar>)"
    by (simp add: mult.commute)
  moreover have "cdivide (k * a) 128 * cdivide b 128 \<le> ?c * ?d"
    unfolding abs_mult [symmetric] by (rule abs_ge_self)
  moreover have "2 * (\<bar>a\<bar> * \<bar>b\<bar>) \<le> a * a + b * b"
    using zero_le_square [of "\<bar>a\<bar> - \<bar>b\<bar>"] by (simp add: algebra_simps)
  ultimately show ?thesis
    unfolding power_exact_def by linarith
qed

lemma energy_small:
  assumes "\<bar>c\<bar> \<le> 2" "\<bar>f\<bar> \<le> 1" "\<bar>g\<bar> \<le> 1"
  shows "energy c f g \<le> 4"
proof -
  have "\<bar>c\<bar> * \<bar>f\<bar> * \<bar>g\<bar> \<le> 2 * 1 * 1"
    using assms by (intro mult_mono) simp_all
  then have "\<bar>c * f * g\<bar> \<le> 2"
    by (simp add: abs_mult)
  moreover have "f\<^sup>2 \<le> 1" "g\<^sup>2 \<le> 1"
    using assms by (simp_all add: abs_square_le_1)
  ultimately show ?thesis
    unfolding energy_def by linarith
qed

lemma power_energy:
  assumes "\<bar>k\<bar> \<le> 27980" "\<bar>a\<bar> \<le> 50782" "\<bar>b\<bar> \<le> 50782"
  shows "real_of_int (power_exact k a b) \<le> energy (k / 16384) a b + 11020000"
proof -
  define p d where "p = cdivide (k * a) 128" "d = cdivide b 128"
  let ?s = "k * a - 128 * p" and ?r = "b - 128 * d"
  have rs: "\<bar>?s\<bar> \<le> 127" "\<bar>?r\<bar> \<le> 127"
    using cdivide_rem(1) [of 128 "k * a"] cdivide_rem(1) [of 128 b] by (simp_all add: p_d_def)
  have "\<bar>k * a * ?r\<bar> \<le> 27980 * 50782 * 127" "\<bar>?s * (b - ?r)\<bar> \<le> 127 * 50909"
    unfolding abs_mult using assms rs by (intro mult_mono; linarith?; simp?)+
  then have "k * a * ?r + ?s * (b - ?r) \<le> 16384 * 11020000"
    by linarith
  moreover have "16384 * power_exact k a b = 16384 * (a * a + b * b) - k * a * b + (k * a * ?r + ?s * (b - ?r))"
    unfolding power_exact_def p_d_def [symmetric] by (simp add: algebra_simps)
  ultimately have "16384 * power_exact k a b \<le> 16384 * (a * a + b * b) - k * a * b + 16384 * 11020000"
    by linarith
  then have "real_of_int (16384 * power_exact k a b) \<le> real_of_int (16384 * (a * a + b * b) - k * a * b + 16384 * 11020000)"
    by (simp only: of_int_le_iff)
  then show ?thesis
    by (simp add: energy_def power2_eq_square field_simps)
qed

lemma power_upper:
  assumes "\<bar>k\<bar> \<le> 27980" "\<bar>w0\<bar> \<le> 6500000" "\<bar>w1\<bar> \<le> 6500000" "energy (k / 16384) w0 w1 \<le> 3364470\<^sup>2"
  shows "power_exact k (cdivide w0 128) (cdivide w1 128) < 0x80000000"
proof -
  let ?c = "k / 16384 :: real"
  define a b where "a = cdivide w0 128" "b = cdivide w1 128"
  define f g where "f = real_of_int (w0 - 128 * a) / 128" "g = real_of_int (w1 - 128 * b) / 128"
  have c: "\<bar>?c\<bar> \<le> 2"
    using assms(1) by linarith
  then have c4: "?c\<^sup>2 \<le> 4"
    using abs_le_square_iff [of ?c 2] by simp
  have "\<bar>w0 - 128 * a\<bar> \<le> 128" "\<bar>w1 - 128 * b\<bar> \<le> 128"
    using cdivide_rem(1) [of 128 w0] cdivide_rem(1) [of 128 w1] by (simp_all add: a_b_def)
  moreover have "\<bar>real_of_int x / 128\<bar> \<le> 1" if "\<bar>x\<bar> \<le> 128" for x
    using that by linarith
  ultimately have fg: "\<bar>f\<bar> \<le> 1" "\<bar>g\<bar> \<le> 1"
    by (simp_all only: f_g_def)
  have "energy ?c (w0 / 128) (w1 / 128) = energy ?c w0 w1 / 16384"
    by (simp add: energy_def power2_eq_square field_simps)
  moreover have "real_of_int a = w0 / 128 - f" "real_of_int b = w1 / 128 - g"
    by (simp_all add: f_g_def field_simps)
  ultimately have "energy ?c a b \<le> 2 * (energy ?c w0 w1 / 16384) + 2 * energy ?c f g"
    using energy_diff [OF c4, of "w0 / 128" f "w1 / 128" g] by simp
  also have "\<dots> \<le> 2 * (3364470\<^sup>2 / 16384) + 2 * 4"
    using assms(4) energy_small [OF c fg] by simp
  finally have "energy ?c a b \<le> 1382000000"
    by simp
  moreover have "\<bar>a\<bar> \<le> 50782" "\<bar>b\<bar> \<le> 50782"
    unfolding a_b_def using assms(2,3) by (intro cdivide_bound; simp)+
  ultimately have "real_of_int (power_exact k a b) \<le> 1393020000"
    using power_energy [OF assms(1)] by fastforce
  then show ?thesis
    unfolding a_b_def [symmetric] by linarith
qed

section \<open>A block\<close>

text \<open>The samples of a block, scaled to the loudest one, with integers that do not wrap.\<close>

definition samples_exact :: "bsubprot \<Rightarrow> u8 list \<Rightarrow> int list" where
  "samples_exact prot buf =
     (let ts = map (rx_sample prot) buf in map (\<lambda>t. max (- 0x7FFF) (min 0x7FFF (cdivide (0x7FFF * t) (agc_gain ts)))) ts)"

lemma rx_sample_range: "- 0x8000 \<le> rx_sample prot c" "rx_sample prot c \<le> 0x7FFF"
proof -
  have "- 0x8000 \<le> sint w \<and> sint w \<le> 0x7FFF" for w :: u16
    using sint_greater_eq [of w] sint_less [of w] by simp
  then show "- 0x8000 \<le> rx_sample prot c" "rx_sample prot c \<le> 0x7FFF"
    by (simp_all add: rx_sample_def)
qed

lemma normalise_exact:
  assumes "- 0x8000 \<le> t" "t \<le> 0x7FFF"
  shows "normalise g t = max (- 0x7FFF) (min 0x7FFF (cdivide (0x7FFF * t) g))"
proof -
  have "wrap32 (wrap32 (t * 0x8000) - t) = 0x7FFF * t"
    using assms by simp
  then show ?thesis
    by (simp add: normalise_def Let_def)
qed

lemma rx_samples_exact: "rx_samples prot buf = samples_exact prot buf"
  using rx_sample_range by (simp add: rx_samples_def samples_exact_def Let_def normalise_exact)

lemma samples_exact_bound: "\<forall>t\<in>set (samples_exact prot buf). \<bar>t\<bar> \<le> 32767" "length (samples_exact prot buf) = length buf"
  by (auto simp: samples_exact_def Let_def)

lemma tone_strength_root:
  assumes "0 \<le> p" "p < 0x80000000"
  shows "\<exists>r. map_option uint (i4b_sqrt_32 (word_of_int p)) = Some r \<and> r * r \<le> p \<and> p < (r + 1) * (r + 1)"
proof -
  have "uint (word_of_int p :: u32) = p"
    using assms by (simp add: uint_word_of_int)
  then have u: "int (unat (word_of_int p :: u32)) = p"
    by simp
  obtain r where r: "i4b_sqrt_32 (word_of_int p) = Some r" "(unat r)\<^sup>2 \<le> unat (word_of_int p :: u32)" "unat (word_of_int p :: u32) < (unat r + 1)\<^sup>2"
    using sqrt_32_root by blast
  then have "int ((unat r)\<^sup>2) \<le> p" "p < int ((unat r + 1)\<^sup>2)"
    using u by linarith+
  then show ?thesis
    using r(1) by (simp add: power2_eq_square algebra_simps)
qed

lemma block_strength:
  assumes "length buf = 102" "k \<in> set dtmf_K" "filter_exact k (samples_exact prot buf) = (w0, w1)"
  shows "\<bar>w0\<bar> \<le> 6500000" "\<bar>w1\<bar> \<le> 6500000"
    "\<exists>r. map_option uint (i4b_sqrt_32 (tone_power k (cdivide w0 128) (cdivide w1 128))) = Some r \<and>
       r * r \<le> power_exact k (cdivide w0 128) (cdivide w1 128) \<and> power_exact k (cdivide w0 128) (cdivide w1 128) < (r + 1) * (r + 1)"
proof -
  note k = dtmf_K_bound [OF assms(2)]
  have l: "length (samples_exact prot buf) \<le> 102"
    using assms(1) by (simp add: samples_exact_bound)
  note b = filter_bounds [OF k samples_exact_bound(1) l assms(3)]
  then show "\<bar>w0\<bar> \<le> 6500000" "\<bar>w1\<bar> \<le> 6500000"
    by simp_all
  have "\<bar>cdivide w0 128\<bar> \<le> 50782"
    using b(1) by (intro cdivide_bound) simp_all
  then have "\<bar>k * cdivide w0 128\<bar> \<le> 27980 * 50782"
    unfolding abs_mult using k by (intro mult_mono) simp_all
  then have "tone_power k (cdivide w0 128) (cdivide w1 128) = word_of_int (power_exact k (cdivide w0 128) (cdivide w1 128))"
    by (intro tone_power_wrap) simp
  moreover have "0 \<le> power_exact k (cdivide w0 128) (cdivide w1 128)"
    using k by (intro power_nonneg) simp
  ultimately show "\<exists>r. map_option uint (i4b_sqrt_32 (tone_power k (cdivide w0 128) (cdivide w1 128))) = Some r \<and>
       r * r \<le> power_exact k (cdivide w0 128) (cdivide w1 128) \<and> power_exact k (cdivide w0 128) (cdivide w1 128) < (r + 1) * (r + 1)"
    using tone_strength_root power_upper [OF k b] by simp
qed

text \<open>
  C32: The tone detector does not overflow. For every block of 102 octets, the samples, the 18 filters and the strengths
  computed with 32 bit integers are those of the exact integers: the strength of a frequency is the root, rounded down,
  of the power of its exact filter, and all filter values stay below 6.5 million.
\<close>

theorem strengths_exact:
  assumes "length buf = 102"
  shows "\<exists>w2. tone_strengths (scale_down (fst (filter_block (rx_samples prot buf)))) (scale_down (snd (filter_block (rx_samples prot buf)))) = Some w2 \<and>
    length w2 = 18 \<and>
    (\<forall>n<18. case filter_exact (dtmf_K ! n) (samples_exact prot buf) of (w0, w1) \<Rightarrow>
       \<bar>w0\<bar> \<le> 6500000 \<and> \<bar>w1\<bar> \<le> 6500000 \<and>
       w2 ! n * w2 ! n \<le> power_exact (dtmf_K ! n) (cdivide w0 128) (cdivide w1 128) \<and>
       power_exact (dtmf_K ! n) (cdivide w0 128) (cdivide w1 128) < (w2 ! n + 1) * (w2 ! n + 1))"
proof -
  let ?ts = "samples_exact prot buf"
  let ?f = "\<lambda>k. filter_exact k ?ts"
  let ?h = "\<lambda>k. map_option uint (i4b_sqrt_32 (tone_power k (cdivide (fst (?f k)) 128) (cdivide (snd (?f k)) 128)))"
  have "filter_block ?ts = (map (\<lambda>k. fst (?f k)) dtmf_K, map (\<lambda>k. snd (?f k)) dtmf_K)"
    using assms by (intro filter_block_exact samples_exact_bound) (simp add: samples_exact_bound)
  then have "tone_strengths (scale_down (fst (filter_block ?ts))) (scale_down (snd (filter_block ?ts))) = those (map ?h dtmf_K)"
    by (simp add: tone_strengths_def scale_down_def zip_map_both comp_def)
  also have "\<dots> = Some (map (the \<circ> ?h) dtmf_K)"
    using block_strength(3) [OF assms _ surjective_pairing] by (intro those_Some) fastforce
  finally have strengths: "tone_strengths (scale_down (fst (filter_block ?ts))) (scale_down (snd (filter_block ?ts))) = Some (map (the \<circ> ?h) dtmf_K)" .
  have "case ?f (dtmf_K ! n) of (w0, w1) \<Rightarrow> \<bar>w0\<bar> \<le> 6500000 \<and> \<bar>w1\<bar> \<le> 6500000 \<and>
       map (the \<circ> ?h) dtmf_K ! n * map (the \<circ> ?h) dtmf_K ! n \<le> power_exact (dtmf_K ! n) (cdivide w0 128) (cdivide w1 128) \<and>
       power_exact (dtmf_K ! n) (cdivide w0 128) (cdivide w1 128) < (map (the \<circ> ?h) dtmf_K ! n + 1) * (map (the \<circ> ?h) dtmf_K ! n + 1)"
    if "n < 18" for n
  proof -
    obtain w0 w1 where w: "?f (dtmf_K ! n) = (w0, w1)"
      by fastforce
    have "dtmf_K ! n \<in> set dtmf_K"
      using that by (simp add: length_dtmf_K)
    from block_strength [OF assms this w] show ?thesis
      using that by (auto simp: w length_dtmf_K)
  qed
  then show ?thesis
    unfolding rx_samples_exact strengths
    by (intro exI [of _ "map (the \<circ> ?h) dtmf_K"] conjI allI impI refl) (simp_all only: length_map length_dtmf_K)
qed

lemma filter_exact_silence: "filter_exact k (replicate n 0) = (0, 0)"
  by (induction n) (simp_all add: filter_exact_def goertzel_exact_def cdivide_def flip: replicate_append_same)

theorem strengths_exact_witness:
  "\<exists>w2. tone_strengths (scale_down (fst (filter_block (rx_samples BSUBPROT_G711_ULAW (replicate 102 0xFF)))))
      (scale_down (snd (filter_block (rx_samples BSUBPROT_G711_ULAW (replicate 102 0xFF))))) = Some w2 \<and> w2 ! 17 * w2 ! 17 \<le> 0"
proof -
  have "rx_sample BSUBPROT_G711_ULAW 0xFF = 0"
    by code_simp
  then have "samples_exact BSUBPROT_G711_ULAW (replicate 102 0xFF) = replicate 102 0"
    by (simp add: samples_exact_def cdivide_def)
  then show ?thesis
    using strengths_exact [of "replicate 102 0xFF" BSUBPROT_G711_ULAW]
    by (fastforce simp: filter_exact_silence power_exact_def cdivide_def)
qed

end
