(* ===== verification/Echo_FFT.thy ===== *)
theory Echo_FFT
  imports Voice_G711 "HOL-Library.Monad_Syntax"
begin

text \<open>
  The integer Fourier transform of \<^verbatim>\<open>layer1/i4b_echo_cancel.c\<close>, in the size the sources configure, 1024 points: the swaps
  of its bit reversal table, the first pass on groups of four, the further passes with their factors. No access
  leaves an array, and the swaps put every point at the index whose binary digits are reversed.
\<close>

section \<open>Arithmetic and arrays\<close>

type_synonym cplx = "int \<times> int"

text \<open>\<open>MUL_SHIFT30\<close>: bits 30 to 61 of the product, as a signed number.\<close>

definition MUL_SHIFT30 :: "int \<Rightarrow> int \<Rightarrow> int" where
  "MUL_SHIFT30 a b = wrap32 ((wrap32 a * wrap32 b) div 2 ^ 30)"

text \<open>Reading and writing an array; \<open>None\<close> is an index outside it.\<close>

definition aget :: "'a list \<Rightarrow> int \<Rightarrow> 'a option" where
  "aget xs i = (if 0 \<le> i \<and> i < int (length xs) then Some (xs ! nat i) else None)"

definition aput :: "'a list \<Rightarrow> int \<Rightarrow> 'a \<Rightarrow> 'a list option" where
  "aput xs i v = (if 0 \<le> i \<and> i < int (length xs) then Some (xs[nat i := v]) else None)"

text \<open>A loop over the elements of a list whose body may fail.\<close>

fun loop_over :: "('b \<Rightarrow> 's \<Rightarrow> 's option) \<Rightarrow> 'b list \<Rightarrow> 's \<Rightarrow> 's option" where
  "loop_over f [] st = Some st"
| "loop_over f (x # xs) st = do { st \<leftarrow> f x st; loop_over f xs st }"

section \<open>The tables\<close>

definition bit_rev_0 :: "int list" where
  "bit_rev_0 =
    [32, 16, 64, 8, 80, 40, 96, 24, 104, 88, 112, 56]"

definition bit_rev_1 :: "int list" where
  "bit_rev_1 =
    [128, 4, 136, 68, 144, 36, 152, 100, 160, 20, 164, 148, 168, 84, 176, 52,
     184, 116, 192, 12, 196, 140, 200, 76, 208, 44, 212, 172, 216, 108, 224, 28,
     228, 156, 232, 92, 236, 220, 240, 60, 244, 188, 248, 124]"

definition bit_rev_2 :: "int list" where
  "bit_rev_2 =
    [256, 2, 260, 130, 264, 66, 268, 194, 272, 34, 276, 162, 280, 98, 284, 226,
     288, 18, 290, 274, 292, 146, 296, 82, 300, 210, 304, 50, 308, 178, 312, 114,
     316, 242, 320, 10, 322, 266, 324, 138, 328, 74, 332, 202, 336, 42, 338, 298,
     340, 170, 344, 106, 348, 234, 352, 26, 354, 282, 356, 154, 360, 90, 362, 346,
     364, 218, 368, 58, 370, 314, 372, 186, 376, 122, 380, 250]"

definition bit_rev_3 :: "int list" where
  "bit_rev_3 =
    [384, 6, 386, 262, 388, 134, 392, 70, 394, 326, 396, 198, 400, 38, 402, 294,
     404, 166, 408, 102, 410, 358, 412, 230, 416, 22, 418, 278, 420, 150, 422, 406,
     424, 86, 426, 342, 428, 214, 432, 54, 434, 310, 436, 182, 440, 118, 442, 374,
     444, 246, 448, 14, 450, 270, 452, 142, 454, 398, 456, 78, 458, 334, 460, 206,
     464, 46, 466, 302, 468, 174, 470, 430, 472, 110, 474, 366, 476, 238, 480, 30,
     482, 286, 484, 158, 486, 414, 488, 94, 490, 350, 492, 222, 494, 478, 496, 62,
     498, 318, 500, 190, 502, 446, 504, 126, 506, 382, 508, 254]"

definition bit_rev_4 :: "int list" where
  "bit_rev_4 =
    [512, 1, 514, 257, 516, 129, 518, 385, 520, 65, 522, 321, 524, 193, 526, 449,
     528, 33, 530, 289, 532, 161, 534, 417, 536, 97, 538, 353, 540, 225, 542, 481,
     544, 17, 545, 529, 546, 273, 548, 145, 550, 401, 552, 81, 554, 337, 556, 209,
     558, 465, 560, 49, 562, 305, 564, 177, 566, 433, 568, 113, 570, 369, 572, 241,
     574, 497, 576, 9, 577, 521, 578, 265, 580, 137, 582, 393, 584, 73, 586, 329,
     588, 201, 590, 457, 592, 41, 593, 553, 594, 297, 596, 169, 598, 425, 600, 105,
     602, 361, 604, 233, 606, 489, 608, 25, 609, 537, 610, 281, 612, 153, 614, 409,
     616, 89, 617, 601, 618, 345, 620, 217, 622, 473, 624, 57, 625, 569, 626, 313,
     628, 185, 630, 441, 632, 121, 634, 377, 636, 249, 638, 505]"

definition bit_rev_5 :: "int list" where
  "bit_rev_5 =
    [640, 5, 641, 517, 642, 261, 644, 133, 646, 389, 648, 69, 649, 581, 650, 325,
     652, 197, 654, 453, 656, 37, 657, 549, 658, 293, 660, 165, 662, 421, 664, 101,
     665, 613, 666, 357, 668, 229, 670, 485, 672, 21, 673, 533, 674, 277, 676, 149,
     677, 661, 678, 405, 680, 85, 681, 597, 682, 341, 684, 213, 686, 469, 688, 53,
     689, 565, 690, 309, 692, 181, 694, 437, 696, 117, 697, 629, 698, 373, 700, 245,
     702, 501, 704, 13, 705, 525, 706, 269, 708, 141, 709, 653, 710, 397, 712, 77,
     713, 589, 714, 333, 716, 205, 718, 461, 720, 45, 721, 557, 722, 301, 724, 173,
     725, 685, 726, 429, 728, 109, 729, 621, 730, 365, 732, 237, 734, 493, 736, 29,
     737, 541, 738, 285, 740, 157, 741, 669, 742, 413, 744, 93, 745, 605, 746, 349,
     748, 221, 749, 733, 750, 477, 752, 61, 753, 573, 754, 317, 756, 189, 757, 701,
     758, 445, 760, 125, 761, 637, 762, 381, 764, 253, 766, 509]"

definition bit_rev_6 :: "int list" where
  "bit_rev_6 =
    [768, 3, 769, 515, 770, 259, 772, 131, 773, 643, 774, 387, 776, 67, 777, 579,
     778, 323, 780, 195, 781, 707, 782, 451, 784, 35, 785, 547, 786, 291, 788, 163,
     789, 675, 790, 419, 792, 99, 793, 611, 794, 355, 796, 227, 797, 739, 798, 483,
     800, 19, 801, 531, 802, 275, 803, 787, 804, 147, 805, 659, 806, 403, 808, 83,
     809, 595, 810, 339, 812, 211, 813, 723, 814, 467, 816, 51, 817, 563, 818, 307,
     820, 179, 821, 691, 822, 435, 824, 115, 825, 627, 826, 371, 828, 243, 829, 755,
     830, 499, 832, 11, 833, 523, 834, 267, 835, 779, 836, 139, 837, 651, 838, 395,
     840, 75, 841, 587, 842, 331, 844, 203, 845, 715, 846, 459, 848, 43, 849, 555,
     850, 299, 851, 811, 852, 171, 853, 683, 854, 427, 856, 107, 857, 619, 858, 363,
     860, 235, 861, 747, 862, 491, 864, 27, 865, 539, 866, 283, 867, 795, 868, 155,
     869, 667, 870, 411, 872, 91, 873, 603, 874, 347, 875, 859, 876, 219, 877, 731,
     878, 475, 880, 59, 881, 571, 882, 315, 883, 827, 884, 187, 885, 699, 886, 443,
     888, 123, 889, 635, 890, 379, 892, 251, 893, 763, 894, 507]"

definition bit_rev_7 :: "int list" where
  "bit_rev_7 =
    [896, 7, 897, 519, 898, 263, 899, 775, 900, 135, 901, 647, 902, 391, 904, 71,
     905, 583, 906, 327, 907, 839, 908, 199, 909, 711, 910, 455, 912, 39, 913, 551,
     914, 295, 915, 807, 916, 167, 917, 679, 918, 423, 920, 103, 921, 615, 922, 359,
     923, 871, 924, 231, 925, 743, 926, 487, 928, 23, 929, 535, 930, 279, 931, 791,
     932, 151, 933, 663, 934, 407, 935, 919, 936, 87, 937, 599, 938, 343, 939, 855,
     940, 215, 941, 727, 942, 471, 944, 55, 945, 567, 946, 311, 947, 823, 948, 183,
     949, 695, 950, 439, 952, 119, 953, 631, 954, 375, 955, 887, 956, 247, 957, 759,
     958, 503, 960, 15, 961, 527, 962, 271, 963, 783, 964, 143, 965, 655, 966, 399,
     967, 911, 968, 79, 969, 591, 970, 335, 971, 847, 972, 207, 973, 719, 974, 463,
     976, 47, 977, 559, 978, 303, 979, 815, 980, 175, 981, 687, 982, 431, 983, 943,
     984, 111, 985, 623, 986, 367, 987, 879, 988, 239, 989, 751, 990, 495, 992, 31,
     993, 543, 994, 287, 995, 799, 996, 159, 997, 671, 998, 415, 999, 927, 1000, 95,
     1001, 607, 1002, 351, 1003, 863, 1004, 223, 1005, 735, 1006, 479, 1007, 991, 1008, 63,
     1009, 575, 1010, 319, 1011, 831, 1012, 191, 1013, 703, 1014, 447, 1015, 959, 1016, 127,
     1017, 639, 1018, 383, 1019, 895, 1020, 255, 1021, 767, 1022, 511]"

definition bit_rev_8 :: "int list" where
  "bit_rev_8 =
    [0, 0]"

definition bit_rev :: "int list" where
  "bit_rev = bit_rev_0 @ bit_rev_1 @ bit_rev_2 @ bit_rev_3 @ bit_rev_4 @ bit_rev_5 @ bit_rev_6 @ bit_rev_7 @ bit_rev_8"

definition fft_table_0 :: "cplx list" where
  "fft_table_0 =
    [(0x40000000, 0), (0x40000000, 0), (0x40000000, 0), (0x5A82799A, - 0x2D413CCD), (0x539EBA46, - 0x187DE2A7), (0x539EBA46, - 0x3B20D79F),
     (0x40000000, - 0x40000000), (0x5A82799A, - 0x2D413CCD), (0, - 0x2D413CCD), (0, - 0x2D413CCD), (0x539EBA46, - 0x3B20D79F), (- 0x539EBA46, 0x187DE2A7),
     (0x40000000, 0), (0x40000000, 0), (0x40000000, 0), (0x4B418BBF, - 0xC7C5C1F), (0x45F704F7, - 0x645E9B0), (0x4FD288DD, - 0x1294062F),
     (0x539EBA46, - 0x187DE2A7), (0x4B418BBF, - 0xC7C5C1F), (0x58C542C6, - 0x238E7674), (0x58C542C6, - 0x238E7674), (0x4FD288DD, - 0x1294062F), (0x5A12E721, - 0x317900D7),
     (0x5A82799A, - 0x2D413CCD), (0x539EBA46, - 0x187DE2A7), (0x539EBA46, - 0x3B20D79F), (0x58C542C6, - 0x3536CC53), (0x569CC31C, - 0x1E2B5D39), (0x45F704F7, - 0x3FB11B48),
     (0x539EBA46, - 0x3B20D79F), (0x58C542C6, - 0x238E7674), (0x3248D382, - 0x3EC52FA0), (0x4B418BBF, - 0x3EC52FA0), (0x5A12E721, - 0x2899E64B), (0x1A4608AB, - 0x387165E4),
     (0x40000000, - 0x40000000), (0x5A82799A, - 0x2D413CCD), (0, - 0x2D413CCD), (0x3248D382, - 0x3EC52FA0), (0x5A12E721, - 0x317900D7), (- 0x1A4608AB, - 0x1E2B5D39),
     (0x22A2F4F8, - 0x3B20D79F), (0x58C542C6, - 0x3536CC53), (- 0x3248D382, - 0xC7C5C1F), (0x11A855DF, - 0x3536CC53), (0x569CC31C, - 0x387165E4), (- 0x45F704F7, 0x645E9B0),
     (0, - 0x2D413CCD), (0x539EBA46, - 0x3B20D79F), (- 0x539EBA46, 0x187DE2A7), (- 0x11A855DF, - 0x238E7674), (0x4FD288DD, - 0x3D3E82AE), (- 0x5A12E721, 0x2899E64B),
     (- 0x22A2F4F8, - 0x187DE2A7), (0x4B418BBF, - 0x3EC52FA0), (- 0x58C542C6, 0x3536CC53), (- 0x3248D382, - 0xC7C5C1F), (0x45F704F7, - 0x3FB11B48), (- 0x4FD288DD, 0x3D3E82AE),
     (0x40000000, 0), (0x40000000, 0), (0x40000000, 0), (0x43103086, - 0x323ECBF), (0x418D2621, - 0x1921560), (0x4488E37F, - 0x4B54825),
     (0x45F704F7, - 0x645E9B0), (0x43103086, - 0x323ECBF), (0x48B2B336, - 0x9640838), (0x48B2B336, - 0x9640838), (0x4488E37F, - 0x4B54825), (0x4C77A88F, - 0xE05C136),
     (0x4B418BBF, - 0xC7C5C1F), (0x45F704F7, - 0x645E9B0), (0x4FD288DD, - 0x1294062F), (0x4DA1FAB5, - 0xF8CFCBE), (0x475A5C78, - 0x7D59396), (0x52BEAC9F, - 0x17088531),
     (0x4FD288DD, - 0x1294062F), (0x48B2B336, - 0x9640838), (0x553805F3, - 0x1B5D100A), (0x51D1DC80, - 0x158F9A76), (0x49FFD418, - 0xAF10A23), (0x573B2635, - 0x1F8BA4DC),
     (0x539EBA46, - 0x187DE2A7), (0x4B418BBF, - 0xC7C5C1F), (0x58C542C6, - 0x238E7674), (0x553805F3, - 0x1B5D100A), (0x4C77A88F, - 0xE05C136), (0x59D438E6, - 0x275FF453),
     (0x569CC31C, - 0x1E2B5D39), (0x4DA1FAB5, - 0xF8CFCBE), (0x5A6690AE, - 0x2AFAD26A), (0x57CC15BD, - 0x20E70F33), (0x4EC05432, - 0x1111D263), (0x5A7B7F1B, - 0x2E5A1070),
     (0x58C542C6, - 0x238E7674), (0x4FD288DD, - 0x1294062F), (0x5A12E721, - 0x317900D7), (0x5987B08A, - 0x261FEFFA), (0x50D86E6D, - 0x14135C95), (0x592D59DB, - 0x34534F41)]"

definition fft_table_1 :: "cplx list" where
  "fft_table_1 =
    [(0x5A12E721, - 0x2899E64B), (0x51D1DC80, - 0x158F9A76), (0x57CC15BD, - 0x36E5068B), (0x5A6690AE, - 0x2AFAD26A), (0x52BEAC9F, - 0x17088531), (0x55F104DC, - 0x392A9643),
     (0x5A82799A, - 0x2D413CCD), (0x539EBA46, - 0x187DE2A7), (0x539EBA46, - 0x3B20D79F), (0x5A6690AE, - 0x2F6BBE45), (0x5471E2E7, - 0x19EF7944), (0x50D86E6D, - 0x3CC511D9),
     (0x5A12E721, - 0x317900D7), (0x553805F3, - 0x1B5D100A), (0x4DA1FAB5, - 0x3E14FDF8), (0x5987B08A, - 0x3367C090), (0x55F104DC, - 0x1CC66E9A), (0x49FFD418, - 0x3F0EC9F5),
     (0x58C542C6, - 0x3536CC53), (0x569CC31C, - 0x1E2B5D39), (0x45F704F7, - 0x3FB11B48), (0x57CC15BD, - 0x36E5068B), (0x573B2635, - 0x1F8BA4DC), (0x418D2621, - 0x3FFB10C2),
     (0x569CC31C, - 0x387165E4), (0x57CC15BD, - 0x20E70F33), (0x3CC85709, - 0x3FEC43C7), (0x553805F3, - 0x39DAF5E9), (0x584F7B59, - 0x223D66A9), (0x37AF354D, - 0x3F84C8E2),
     (0x539EBA46, - 0x3B20D79F), (0x58C542C6, - 0x238E7674), (0x3248D382, - 0x3EC52FA0), (0x51D1DC80, - 0x3C42420A), (0x592D59DB, - 0x24DA0A9A), (0x2C9CAF6D, - 0x3DAE81CF),
     (0x4FD288DD, - 0x3D3E82AE), (0x5987B08A, - 0x261FEFFA), (0x26B2A795, - 0x3C42420A), (0x4DA1FAB5, - 0x3E14FDF8), (0x59D438E6, - 0x275FF453), (0x2092F05F, - 0x3A8269A3),
     (0x4B418BBF, - 0x3EC52FA0), (0x5A12E721, - 0x2899E64B), (0x1A4608AB, - 0x387165E4), (0x48B2B336, - 0x3F4EAAFF), (0x5A43B190, - 0x29CD9578), (0x13D4AE08, - 0x361214B1),
     (0x45F704F7, - 0x3FB11B48), (0x5A6690AE, - 0x2AFAD26A), (0xD47D097, - 0x3367C090), (0x43103086, - 0x3FEC43C7), (0x5A7B7F1B, - 0x2C216EAB), (0x6A886A1, - 0x30761C18),
     (0x40000000, - 0x40000000), (0x5A82799A, - 0x2D413CCD), (0, - 0x2D413CCD), (0x3CC85709, - 0x3FEC43C7), (0x5A7B7F1B, - 0x2E5A1070), (- 0x6A886A1, - 0x29CD9578),
     (0x396B3199, - 0x3FB11B48), (0x5A6690AE, - 0x2F6BBE45), (- 0xD47D097, - 0x261FEFFA), (0x35EAA2C7, - 0x3F4EAAFF), (0x5A43B190, - 0x30761C18), (- 0x13D4AE08, - 0x223D66A9),
     (0x3248D382, - 0x3EC52FA0), (0x5A12E721, - 0x317900D7), (- 0x1A4608AB, - 0x1E2B5D39), (0x2E88013A, - 0x3E14FDF8), (0x59D438E6, - 0x32744494), (- 0x2092F05F, - 0x19EF7944),
     (0x2AAA7C7F, - 0x3D3E82AE), (0x5987B08A, - 0x3367C090), (- 0x26B2A795, - 0x158F9A76), (0x26B2A795, - 0x3C42420A), (0x592D59DB, - 0x34534F41), (- 0x2C9CAF6D, - 0x1111D263),
     (0x22A2F4F8, - 0x3B20D79F), (0x58C542C6, - 0x3536CC53), (- 0x3248D382, - 0xC7C5C1F), (0x1E7DE5DF, - 0x39DAF5E9), (0x584F7B59, - 0x361214B1), (- 0x37AF354D, - 0x7D59396),
     (0x1A4608AB, - 0x387165E4), (0x57CC15BD, - 0x36E5068B), (- 0x3CC85709, - 0x323ECBF), (0x15FDF758, - 0x36E5068B), (0x573B2635, - 0x37AF8159), (- 0x418D2621, 0x1921560),
     (0x11A855DF, - 0x3536CC53), (0x569CC31C, - 0x387165E4), (- 0x45F704F7, 0x645E9B0), (0xD47D097, - 0x3367C090), (0x55F104DC, - 0x392A9643), (- 0x49FFD418, 0xAF10A23),
     (0x8DF1A8D, - 0x317900D7), (0x553805F3, - 0x39DAF5E9), (- 0x4DA1FAB5, 0xF8CFCBE), (0x470EBDC, - 0x2F6BBE45), (0x5471E2E7, - 0x3A8269A3), (- 0x50D86E6D, 0x14135C95)]"

definition fft_table_2 :: "cplx list" where
  "fft_table_2 =
    [(0, - 0x2D413CCD), (0x539EBA46, - 0x3B20D79F), (- 0x539EBA46, 0x187DE2A7), (- 0x470EBDC, - 0x2AFAD26A), (0x52BEAC9F, - 0x3BB6276E), (- 0x55F104DC, 0x1CC66E9A),
     (- 0x8DF1A8D, - 0x2899E64B), (0x51D1DC80, - 0x3C42420A), (- 0x57CC15BD, 0x20E70F33), (- 0xD47D097, - 0x261FEFFA), (0x50D86E6D, - 0x3CC511D9), (- 0x592D59DB, 0x24DA0A9A),
     (- 0x11A855DF, - 0x238E7674), (0x4FD288DD, - 0x3D3E82AE), (- 0x5A12E721, 0x2899E64B), (- 0x15FDF758, - 0x20E70F33), (0x4EC05432, - 0x3DAE81CF), (- 0x5A7B7F1B, 0x2C216EAB),
     (- 0x1A4608AB, - 0x1E2B5D39), (0x4DA1FAB5, - 0x3E14FDF8), (- 0x5A6690AE, 0x2F6BBE45), (- 0x1E7DE5DF, - 0x1B5D100A), (0x4C77A88F, - 0x3E71E759), (- 0x59D438E6, 0x32744494),
     (- 0x22A2F4F8, - 0x187DE2A7), (0x4B418BBF, - 0x3EC52FA0), (- 0x58C542C6, 0x3536CC53), (- 0x26B2A795, - 0x158F9A76), (0x49FFD418, - 0x3F0EC9F5), (- 0x573B2635, 0x37AF8159),
     (- 0x2AAA7C7F, - 0x1294062F), (0x48B2B336, - 0x3F4EAAFF), (- 0x553805F3, 0x39DAF5E9), (- 0x2E88013A, - 0xF8CFCBE), (0x475A5C78, - 0x3F84C8E2), (- 0x52BEAC9F, 0x3BB6276E),
     (- 0x3248D382, - 0xC7C5C1F), (0x45F704F7, - 0x3FB11B48), (- 0x4FD288DD, 0x3D3E82AE), (- 0x35EAA2C7, - 0x9640838), (0x4488E37F, - 0x3FD39B5B), (- 0x4C77A88F, 0x3E71E759),
     (- 0x396B3199, - 0x645E9B0), (0x43103086, - 0x3FEC43C7), (- 0x48B2B336, 0x3F4EAAFF), (- 0x3CC85709, - 0x323ECBF), (0x418D2621, - 0x3FFB10C2), (- 0x4488E37F, 0x3FD39B5B),
     (0x40000000, 0), (0x40000000, 0), (0x40000000, 0), (0x40C7D2BE, - 0xC90E90), (0x406438D0, - 0x6487C4), (0x412ACCD5, - 0x12D936C),
     (0x418D2621, - 0x1921560), (0x40C7D2BE, - 0xC90E90), (0x424FF28F, - 0x25B0CAF), (0x424FF28F, - 0x25B0CAF), (0x412ACCD5, - 0x12D936C), (0x436F57C2, - 0x38851A3),
     (0x43103086, - 0x323ECBF), (0x418D2621, - 0x1921560), (0x4488E37F, - 0x4B54825), (0x43CDD89B, - 0x3ECADD0), (0x41EEDDB0, - 0x1F69374), (0x459C7D5B, - 0x5E1D61B),
     (0x4488E37F, - 0x4B54825), (0x424FF28F, - 0x25B0CAF), (0x46AA0D6D, - 0x70DE172), (0x454149FD, - 0x57DB403), (0x42B063D1, - 0x2BF801B), (0x47B17C54, - 0x8395024),
     (0x45F704F7, - 0x645E9B0), (0x43103086, - 0x323ECBF), (0x48B2B336, - 0x9640838), (0x46AA0D6D, - 0x70DE172), (0x436F57C2, - 0x38851A3), (0x49AD9BC3, - 0xA8DEFC3),
     (0x475A5C78, - 0x7D59396), (0x43CDD89B, - 0x3ECADD0), (0x4AA22037, - 0xBB6ECF0), (0x4807EB4B, - 0x89CF868), (0x442BB227, - 0x451004E), (0x4B902B5D, - 0xCDEE5FA),
     (0x48B2B336, - 0x9640838), (0x4488E37F, - 0x4B54825), (0x4C77A88F, - 0xE05C136), (0x495AADA3, - 0xA2ABB59), (0x44E56BBD, - 0x519845F), (0x4D5883B7, - 0xF2B6510),
     (0x49FFD418, - 0xAF10A23), (0x454149FD, - 0x57DB403), (0x4E32A957, - 0x104FB80F), (0x4AA22037, - 0xBB6ECF0), (0x459C7D5B, - 0x5E1D61B), (0x4F06067F, - 0x1172A0D8),
     (0x4B418BBF, - 0xC7C5C1F), (0x45F704F7, - 0x645E9B0), (0x4FD288DD, - 0x1294062F), (0x4BDE1089, - 0xD415013), (0x4650DFF2, - 0x6A9EDCA), (0x50981EB1, - 0x13B3CEFB)]"

definition fft_table_3 :: "cplx list" where
  "fft_table_3 =
    [(0x4C77A88F, - 0xE05C136), (0x46AA0D6D, - 0x70DE172), (0x5156B6D9, - 0x14D1E243), (0x4D0E4DE2, - 0xEC9A7F3), (0x47028C8D, - 0x771C3B3), (0x520E40CC, - 0x15EE2738),
     (0x4DA1FAB5, - 0xF8CFCBE), (0x475A5C78, - 0x7D59396), (0x52BEAC9F, - 0x17088531), (0x4E32A957, - 0x104FB80F), (0x47B17C54, - 0x8395024), (0x5367EB04, - 0x1820E3B1),
     (0x4EC05432, - 0x1111D263), (0x4807EB4B, - 0x89CF868), (0x5409ED4C, - 0x19372A64), (0x4F4AF5D2, - 0x11D34440), (0x485DA888, - 0x9008B6B), (0x54A4A56A, - 0x1A4B4128),
     (0x4FD288DD, - 0x1294062F), (0x48B2B336, - 0x9640838), (0x553805F3, - 0x1B5D100A), (0x5057081A, - 0x135410C3), (0x49070A84, - 0x9C76DD9), (0x55C4021D, - 0x1C6C7F4A),
     (0x50D86E6D, - 0x14135C95), (0x495AADA3, - 0xA2ABB59), (0x56488DC5, - 0x1D79775C), (0x5156B6D9, - 0x14D1E243), (0x49AD9BC3, - 0xA8DEFC3), (0x56C59D6B, - 0x1E83E0EB),
     (0x51D1DC80, - 0x158F9A76), (0x49FFD418, - 0xAF10A23), (0x573B2635, - 0x1F8BA4DC), (0x5249DAA2, - 0x164C7DDE), (0x4A5155D7, - 0xB540983), (0x57A91DF3, - 0x2090AC4E),
     (0x52BEAC9F, - 0x17088531), (0x4AA22037, - 0xBB6ECF0), (0x580F7B19, - 0x2192E09B), (0x53304DF6, - 0x17C3A932), (0x4AF23271, - 0xC19B375), (0x586E34C7, - 0x22922B5F),
     (0x539EBA46, - 0x187DE2A7), (0x4B418BBF, - 0xC7C5C1F), (0x58C542C6, - 0x238E7674), (0x5409ED4C, - 0x19372A64), (0x4B902B5D, - 0xCDEE5FA), (0x59149D88, - 0x2487ABF8),
     (0x5471E2E7, - 0x19EF7944), (0x4BDE1089, - 0xD415013), (0x595C3E2B, - 0x257DB64C), (0x54D69714, - 0x1AA6C82C), (0x4C2B3A84, - 0xDA39978), (0x599C1E78, - 0x2670801B),
     (0x553805F3, - 0x1B5D100A), (0x4C77A88F, - 0xE05C136), (0x59D438E6, - 0x275FF453), (0x55962BC0, - 0x1C1249D9), (0x4CC359EC, - 0xE67C65A), (0x5A048896, - 0x284BFE30),
     (0x55F104DC, - 0x1CC66E9A), (0x4D0E4DE2, - 0xEC9A7F3), (0x5A2D0957, - 0x29348938), (0x56488DC5, - 0x1D79775C), (0x4D5883B7, - 0xF2B6510), (0x5A4DB7A7, - 0x2A19813F),
     (0x569CC31C, - 0x1E2B5D39), (0x4DA1FAB5, - 0xF8CFCBE), (0x5A6690AE, - 0x2AFAD26A), (0x56EDA1A0, - 0x1EDC1953), (0x4DEAB226, - 0xFEE6E0E), (0x5A779247, - 0x2BD8692C),
     (0x573B2635, - 0x1F8BA4DC), (0x4E32A957, - 0x104FB80F), (0x5A80BAF6, - 0x2CB2324C), (0x57854DDE, - 0x2039F90F), (0x4E79DF95, - 0x10B0D9D0), (0x5A8209F1, - 0x2D881AE8),
     (0x57CC15BD, - 0x20E70F33), (0x4EC05432, - 0x1111D263), (0x5A7B7F1B, - 0x2E5A1070), (0x580F7B19, - 0x2192E09B), (0x4F06067F, - 0x1172A0D8), (0x5A6D1B04, - 0x2F2800AF),
     (0x584F7B59, - 0x223D66A9), (0x4F4AF5D2, - 0x11D34440), (0x5A56DEEC, - 0x2FF1D9C7), (0x588C1405, - 0x22E69AC8), (0x4F8F217E, - 0x1233BBAC), (0x5A38CCC2, - 0x30B78A36),
     (0x58C542C6, - 0x238E7674), (0x4FD288DD, - 0x1294062F), (0x5A12E721, - 0x317900D7), (0x58FB0569, - 0x2434F333), (0x50152B48, - 0x12F422DB), (0x59E53152, - 0x32362CE0),
     (0x592D59DB, - 0x24DA0A9A), (0x5057081A, - 0x135410C3), (0x59AFAF4C, - 0x32EEFDEA), (0x595C3E2B, - 0x257DB64C), (0x50981EB1, - 0x13B3CEFB), (0x597265B4, - 0x33A363EC)]"

definition fft_table_4 :: "cplx list" where
  "fft_table_4 =
    [(0x5987B08A, - 0x261FEFFA), (0x50D86E6D, - 0x14135C95), (0x592D59DB, - 0x34534F41), (0x59AFAF4C, - 0x26C0B163), (0x5117F6AF, - 0x1472B8A6), (0x58E091BD, - 0x34FEB0A6),
     (0x59D438E6, - 0x275FF453), (0x5156B6D9, - 0x14D1E243), (0x588C1405, - 0x35A5793D), (0x59F54BEF, - 0x27FDB2A7), (0x5194AE52, - 0x1530D881), (0x582FE805, - 0x36479A8F),
     (0x5A12E721, - 0x2899E64B), (0x51D1DC80, - 0x158F9A76), (0x57CC15BD, - 0x36E5068B), (0x5A2D0957, - 0x29348938), (0x520E40CC, - 0x15EE2738), (0x5760A5D6, - 0x377DAF8A),
     (0x5A43B190, - 0x29CD9578), (0x5249DAA2, - 0x164C7DDE), (0x56EDA1A0, - 0x3811884D), (0x5A56DEEC, - 0x2A650526), (0x5284A96E, - 0x16AA9D7E), (0x56731317, - 0x38A08403),
     (0x5A6690AE, - 0x2AFAD26A), (0x52BEAC9F, - 0x17088531), (0x55F104DC, - 0x392A9643), (0x5A72C63B, - 0x2B8EF77D), (0x52F7E3A6, - 0x17663410), (0x55678237, - 0x39AFB314),
     (0x5A7B7F1B, - 0x2C216EAB), (0x53304DF6, - 0x17C3A932), (0x54D69714, - 0x3A2FCEE9), (0x5A80BAF6, - 0x2CB2324C), (0x5367EB04, - 0x1820E3B1), (0x543E5008, - 0x3AAADEA6),
     (0x5A82799A, - 0x2D413CCD), (0x539EBA46, - 0x187DE2A7), (0x539EBA46, - 0x3B20D79F), (0x5A80BAF6, - 0x2DCE88AA), (0x53D4BB35, - 0x18DAA52F), (0x52F7E3A6, - 0x3B91AF97),
     (0x5A7B7F1B, - 0x2E5A1070), (0x5409ED4C, - 0x19372A64), (0x5249DAA2, - 0x3BFD5CC5), (0x5A72C63B, - 0x2EE3CEBF), (0x543E5008, - 0x19937162), (0x5194AE52, - 0x3C63D5D1),
     (0x5A6690AE, - 0x2F6BBE45), (0x5471E2E7, - 0x19EF7944), (0x50D86E6D, - 0x3CC511D9), (0x5A56DEEC, - 0x2FF1D9C7), (0x54A4A56A, - 0x1A4B4128), (0x50152B48, - 0x3D21086D),
     (0x5A43B190, - 0x30761C18), (0x54D69714, - 0x1AA6C82C), (0x4F4AF5D2, - 0x3D77B192), (0x5A2D0957, - 0x30F88020), (0x5507B76A, - 0x1B020D6D), (0x4E79DF95, - 0x3DC905C5),
     (0x5A12E721, - 0x317900D7), (0x553805F3, - 0x1B5D100A), (0x4DA1FAB5, - 0x3E14FDF8), (0x59F54BEF, - 0x31F79948), (0x55678237, - 0x1BB7CF24), (0x4CC359EC, - 0x3E5B9393),
     (0x59D438E6, - 0x32744494), (0x55962BC0, - 0x1C1249D9), (0x4BDE1089, - 0x3E9CC077), (0x59AFAF4C, - 0x32EEFDEA), (0x55C4021D, - 0x1C6C7F4A), (0x4AF23271, - 0x3ED87EFC),
     (0x5987B08A, - 0x3367C090), (0x55F104DC, - 0x1CC66E9A), (0x49FFD418, - 0x3F0EC9F5), (0x595C3E2B, - 0x33DE87DF), (0x561D338E, - 0x1D2016E9), (0x49070A84, - 0x3F3F9CAC),
     (0x592D59DB, - 0x34534F41), (0x56488DC5, - 0x1D79775C), (0x4807EB4B, - 0x3F6AF2E4), (0x58FB0569, - 0x34C61237), (0x56731317, - 0x1DD28F15), (0x47028C8D, - 0x3F90C8DA),
     (0x58C542C6, - 0x3536CC53), (0x569CC31C, - 0x1E2B5D39), (0x45F704F7, - 0x3FB11B48), (0x588C1405, - 0x35A5793D), (0x56C59D6B, - 0x1E83E0EB), (0x44E56BBD, - 0x3FCBE75F),
     (0x584F7B59, - 0x361214B1), (0x56EDA1A0, - 0x1EDC1953), (0x43CDD89B, - 0x3FE12ACC), (0x580F7B19, - 0x367C9A7E), (0x5714CF59, - 0x1F340597), (0x42B063D1, - 0x3FF0E3B6),
     (0x57CC15BD, - 0x36E5068B), (0x573B2635, - 0x1F8BA4DC), (0x418D2621, - 0x3FFB10C2), (0x57854DDE, - 0x374B54CF), (0x5760A5D6, - 0x1FE2F64C), (0x406438D0, - 0x3FFFB10C)]"

definition fft_table_5 :: "cplx list" where
  "fft_table_5 =
    [(0x573B2635, - 0x37AF8159), (0x57854DDE, - 0x2039F90F), (0x3F35B59E, - 0x3FFEC42E), (0x56EDA1A0, - 0x3811884D), (0x57A91DF3, - 0x2090AC4E), (0x3E01B6C9, - 0x3FF84A3C),
     (0x569CC31C, - 0x387165E4), (0x57CC15BD, - 0x20E70F33), (0x3CC85709, - 0x3FEC43C7), (0x56488DC5, - 0x38CF166A), (0x57EE34E6, - 0x213D20E9), (0x3B89B18D, - 0x3FDAB1DA),
     (0x55F104DC, - 0x392A9643), (0x580F7B19, - 0x2192E09B), (0x3A45E1F7, - 0x3FC395FA), (0x55962BC0, - 0x3983E1E8), (0x582FE805, - 0x21E84D77), (0x38FD0460, - 0x3FA6F229),
     (0x553805F3, - 0x39DAF5E9), (0x584F7B59, - 0x223D66A9), (0x37AF354D, - 0x3F84C8E2), (0x54D69714, - 0x3A2FCEE9), (0x586E34C7, - 0x22922B5F), (0x365C91B3, - 0x3F5D1D1D),
     (0x5471E2E7, - 0x3A8269A3), (0x588C1405, - 0x22E69AC8), (0x350536F1, - 0x3F2FF24A), (0x5409ED4C, - 0x3AD2C2E8), (0x58A918C7, - 0x233AB414), (0x33A942D2, - 0x3EFD4C54),
     (0x539EBA46, - 0x3B20D79F), (0x58C542C6, - 0x238E7674), (0x3248D382, - 0x3EC52FA0), (0x53304DF6, - 0x3B6CA4C5), (0x58E091BD, - 0x23E1E118), (0x30E40795, - 0x3E87A10C),
     (0x52BEAC9F, - 0x3BB6276E), (0x58FB0569, - 0x2434F333), (0x2F7AFDFD, - 0x3E44A5EF), (0x5249DAA2, - 0x3BFD5CC5), (0x59149D88, - 0x2487ABF8), (0x2E0DD60B, - 0x3DFC4419),
     (0x51D1DC80, - 0x3C42420A), (0x592D59DB, - 0x24DA0A9A), (0x2C9CAF6D, - 0x3DAE81CF), (0x5156B6D9, - 0x3C84D497), (0x59453A25, - 0x252C0E4F), (0x2B27AA27, - 0x3D5B65D2),
     (0x50D86E6D, - 0x3CC511D9), (0x595C3E2B, - 0x257DB64C), (0x29AEE694, - 0x3D02F757), (0x5057081A, - 0x3D02F757), (0x597265B4, - 0x25CF01C8), (0x28328564, - 0x3CA53E09),
     (0x4FD288DD, - 0x3D3E82AE), (0x5987B08A, - 0x261FEFFA), (0x26B2A795, - 0x3C42420A), (0x4F4AF5D2, - 0x3D77B192), (0x599C1E78, - 0x2670801B), (0x252F6E72, - 0x3BDA0BF0),
     (0x4EC05432, - 0x3DAE81CF), (0x59AFAF4C, - 0x26C0B163), (0x23A8FB94, - 0x3B6CA4C5), (0x4E32A957, - 0x3DE2F148), (0x59C262D5, - 0x2710830C), (0x221F70D7, - 0x3AFA1606),
     (0x4DA1FAB5, - 0x3E14FDF8), (0x59D438E6, - 0x275FF453), (0x2092F05F, - 0x3A8269A3), (0x4D0E4DE2, - 0x3E44A5EF), (0x59E53152, - 0x27AF0472), (0x1F039C91, - 0x3A05A9FE),
     (0x4C77A88F, - 0x3E71E759), (0x59F54BEF, - 0x27FDB2A7), (0x1D719810, - 0x3983E1E8), (0x4BDE1089, - 0x3E9CC077), (0x5A048896, - 0x284BFE30), (0x1BDD05BC, - 0x38FD1CA5),
     (0x4B418BBF, - 0x3EC52FA0), (0x5A12E721, - 0x2899E64B), (0x1A4608AB, - 0x387165E4), (0x4AA22037, - 0x3EEB3348), (0x5A20676C, - 0x28E76A38), (0x18ACC42D, - 0x37E0C9C3),
     (0x49FFD418, - 0x3F0EC9F5), (0x5A2D0957, - 0x29348938), (0x17115BC0, - 0x374B54CF), (0x495AADA3, - 0x3F2FF24A), (0x5A38CCC2, - 0x2981428C), (0x1573F315, - 0x36B113FE),
     (0x48B2B336, - 0x3F4EAAFF), (0x5A43B190, - 0x29CD9578), (0x13D4AE08, - 0x361214B1), (0x4807EB4B, - 0x3F6AF2E4), (0x5A4DB7A7, - 0x2A19813F), (0x1233B09F, - 0x356E64B3),
     (0x475A5C78, - 0x3F84C8E2), (0x5A56DEEC, - 0x2A650526), (0x10911F04, - 0x34C61237), (0x46AA0D6D, - 0x3F9C2BFB), (0x5A5F274B, - 0x2AB02072), (0xEED1D87, - 0x34192BD6)]"

definition fft_table_6 :: "cplx list" where
  "fft_table_6 =
    [(0x45F704F7, - 0x3FB11B48), (0x5A6690AE, - 0x2AFAD26A), (0xD47D097, - 0x3367C090), (0x454149FD, - 0x3FC395FA), (0x5A6D1B04, - 0x2B451A55), (0xBA15CBE, - 0x32B1DFCA),
     (0x4488E37F, - 0x3FD39B5B), (0x5A72C63B, - 0x2B8EF77D), (0x9F9E6A2, - 0x31F79948), (0x43CDD89B, - 0x3FE12ACC), (0x5A779247, - 0x2BD8692C), (0x85192FE, - 0x3138FD35),
     (0x43103086, - 0x3FEC43C7), (0x5A7B7F1B, - 0x2C216EAB), (0x6A886A1, - 0x30761C18), (0x424FF28F, - 0x3FF4E5E0), (0x5A7E8CAD, - 0x2C6A0747), (0x4FEE669, - 0x2FAF06DA),
     (0x418D2621, - 0x3FFB10C2), (0x5A80BAF6, - 0x2CB2324C), (0x354D742, - 0x2EE3CEBF), (0x40C7D2BE, - 0x3FFEC42E), (0x5A8209F1, - 0x2CF9EF0A), (0x1AA7E20, - 0x2E148567),
     (0x40000000, - 0x40000000), (0x5A82799A, - 0x2D413CCD), (0, - 0x2D413CCD), (0x3F35B59E, - 0x3FFEC42E), (0x5A8209F1, - 0x2D881AE8), (- 0x1AA7E20, - 0x2C6A0747),
     (0x3E68FB62, - 0x3FFB10C2), (0x5A80BAF6, - 0x2DCE88AA), (- 0x354D742, - 0x2B8EF77D), (0x3D99D932, - 0x3FF4E5E0), (0x5A7E8CAD, - 0x2E148567), (- 0x4FEE669, - 0x2AB02072),
     (0x3CC85709, - 0x3FEC43C7), (0x5A7B7F1B, - 0x2E5A1070), (- 0x6A886A1, - 0x29CD9578), (0x3BF47CFC, - 0x3FE12ACC), (0x5A779247, - 0x2E9F291C), (- 0x85192FE, - 0x28E76A38),
     (0x3B1E5336, - 0x3FD39B5B), (0x5A72C63B, - 0x2EE3CEBF), (- 0x9F9E6A2, - 0x27FDB2A7), (0x3A45E1F7, - 0x3FC395FA), (0x5A6D1B04, - 0x2F2800AF), (- 0xBA15CBE, - 0x2710830C),
     (0x396B3199, - 0x3FB11B48), (0x5A6690AE, - 0x2F6BBE45), (- 0xD47D097, - 0x261FEFFA), (0x388E4A89, - 0x3F9C2BFB), (0x5A5F274B, - 0x2FAF06DA), (- 0xEED1D87, - 0x252C0E4F),
     (0x37AF354D, - 0x3F84C8E2), (0x5A56DEEC, - 0x2FF1D9C7), (- 0x10911F04, - 0x2434F333), (0x36CDFA7C, - 0x3F6AF2E4), (0x5A4DB7A7, - 0x30343668), (- 0x1233B09F, - 0x233AB414),
     (0x35EAA2C7, - 0x3F4EAAFF), (0x5A43B190, - 0x30761C18), (- 0x13D4AE08, - 0x223D66A9), (0x350536F1, - 0x3F2FF24A), (0x5A38CCC2, - 0x30B78A36), (- 0x1573F315, - 0x213D20E9),
     (0x341DBFD3, - 0x3F0EC9F5), (0x5A2D0957, - 0x30F88020), (- 0x17115BC0, - 0x2039F90F), (0x33344659, - 0x3EEB3348), (0x5A20676C, - 0x3138FD35), (- 0x18ACC42D, - 0x1F340597),
     (0x3248D382, - 0x3EC52FA0), (0x5A12E721, - 0x317900D7), (- 0x1A4608AB, - 0x1E2B5D39), (0x315B7064, - 0x3E9CC077), (0x5A048896, - 0x31B88A67), (- 0x1BDD05BC, - 0x1D2016E9),
     (0x306C2624, - 0x3E71E759), (0x59F54BEF, - 0x31F79948), (- 0x1D719810, - 0x1C1249D9), (0x2F7AFDFD, - 0x3E44A5EF), (0x59E53152, - 0x32362CE0), (- 0x1F039C91, - 0x1B020D6D),
     (0x2E88013A, - 0x3E14FDF8), (0x59D438E6, - 0x32744494), (- 0x2092F05F, - 0x19EF7944), (0x2D93393A, - 0x3DE2F148), (0x59C262D5, - 0x32B1DFCA), (- 0x221F70D7, - 0x18DAA52F),
     (0x2C9CAF6D, - 0x3DAE81CF), (0x59AFAF4C, - 0x32EEFDEA), (- 0x23A8FB94, - 0x17C3A932), (0x2BA46D53, - 0x3D77B192), (0x599C1E78, - 0x332B9E5E), (- 0x252F6E72, - 0x16AA9D7E),
     (0x2AAA7C7F, - 0x3D3E82AE), (0x5987B08A, - 0x3367C090), (- 0x26B2A795, - 0x158F9A76), (0x29AEE694, - 0x3D02F757), (0x597265B4, - 0x33A363EC), (- 0x28328564, - 0x1472B8A6)]"

definition fft_table_7 :: "cplx list" where
  "fft_table_7 =
    [(0x28B1B545, - 0x3CC511D9), (0x595C3E2B, - 0x33DE87DF), (- 0x29AEE694, - 0x135410C3), (0x27B2F254, - 0x3C84D497), (0x59453A25, - 0x34192BD6), (- 0x2B27AA27, - 0x1233BBAC),
     (0x26B2A795, - 0x3C42420A), (0x592D59DB, - 0x34534F41), (- 0x2C9CAF6D, - 0x1111D263), (0x25B0DEE8, - 0x3BFD5CC5), (0x59149D88, - 0x348CF191), (- 0x2E0DD60B, - 0xFEE6E0E),
     (0x24ADA23D, - 0x3BB6276E), (0x58FB0569, - 0x34C61237), (- 0x2F7AFDFD, - 0xEC9A7F3), (0x23A8FB94, - 0x3B6CA4C5), (0x58E091BD, - 0x34FEB0A6), (- 0x30E40795, - 0xDA39978),
     (0x22A2F4F8, - 0x3B20D79F), (0x58C542C6, - 0x3536CC53), (- 0x3248D382, - 0xC7C5C1F), (0x219B9884, - 0x3AD2C2E8), (0x58A918C7, - 0x356E64B3), (- 0x33A942D2, - 0xB540983),
     (0x2092F05F, - 0x3A8269A3), (0x588C1405, - 0x35A5793D), (- 0x350536F1, - 0xA2ABB59), (0x1F8906BE, - 0x3A2FCEE9), (0x586E34C7, - 0x35DC0969), (- 0x365C91B3, - 0x9008B6B),
     (0x1E7DE5DF, - 0x39DAF5E9), (0x584F7B59, - 0x361214B1), (- 0x37AF354D, - 0x7D59396), (0x1D719810, - 0x3983E1E8), (0x582FE805, - 0x36479A8F), (- 0x38FD0460, - 0x6A9EDCA),
     (0x1C6427AA, - 0x392A9643), (0x580F7B19, - 0x367C9A7E), (- 0x3A45E1F7, - 0x57DB403), (0x1B559F0E, - 0x38CF166A), (0x57EE34E6, - 0x36B113FE), (- 0x3B89B18D, - 0x451004E),
     (0x1A4608AB, - 0x387165E4), (0x57CC15BD, - 0x36E5068B), (- 0x3CC85709, - 0x323ECBF), (0x19356EFA, - 0x3811884D), (0x57A91DF3, - 0x371871A5), (- 0x3E01B6C9, - 0x1F69374),
     (0x1823DC7D, - 0x37AF8159), (0x57854DDE, - 0x374B54CF), (- 0x3F35B59E, - 0xC90E90), (0x17115BC0, - 0x374B54CF), (0x5760A5D6, - 0x377DAF8A), (- 0x406438D0, 0x6487C4),
     (0x15FDF758, - 0x36E5068B), (0x573B2635, - 0x37AF8159), (- 0x418D2621, 0x1921560), (0x14E9B9E4, - 0x367C9A7E), (0x5714CF59, - 0x37E0C9C3), (- 0x42B063D1, 0x2BF801B),
     (0x13D4AE08, - 0x361214B1), (0x56EDA1A0, - 0x3811884D), (- 0x43CDD89B, 0x3ECADD0), (0x12BEDE75, - 0x35A5793D), (0x56C59D6B, - 0x3841BC80), (- 0x44E56BBD, 0x519845F),
     (0x11A855DF, - 0x3536CC53), (0x569CC31C, - 0x387165E4), (- 0x45F704F7, 0x645E9B0), (0x10911F04, - 0x34C61237), (0x56731317, - 0x38A08403), (- 0x47028C8D, 0x771C3B3),
     (0xF7944A7, - 0x34534F41), (0x56488DC5, - 0x38CF166A), (- 0x4807EB4B, 0x89CF868), (0xE60D193, - 0x33DE87DF), (0x561D338E, - 0x38FD1CA5), (- 0x49070A84, 0x9C76DD9),
     (0xD47D097, - 0x3367C090), (0x55F104DC, - 0x392A9643), (- 0x49FFD418, 0xAF10A23), (0xC2E4C88, - 0x32EEFDEA), (0x55C4021D, - 0x395782D4), (- 0x4AF23271, 0xC19B375),
     (0xB145041, - 0x32744494), (0x55962BC0, - 0x3983E1E8), (- 0x4BDE1089, 0xD415013), (0x9F9E6A2, - 0x31F79948), (0x55678237, - 0x39AFB314), (- 0x4CC359EC, 0xE67C65A),
     (0x8DF1A8D, - 0x317900D7), (0x553805F3, - 0x39DAF5E9), (- 0x4DA1FAB5, 0xF8CFCBE), (0x7C3F6E9, - 0x30F88020), (0x5507B76A, - 0x3A05A9FE), (- 0x4E79DF95, 0x10B0D9D0),
     (0x6A886A1, - 0x30761C18), (0x54D69714, - 0x3A2FCEE9), (- 0x4F4AF5D2, 0x11D34440), (0x58CD4A2, - 0x2FF1D9C7), (0x54A4A56A, - 0x3A596442), (- 0x50152B48, 0x12F422DB)]"

definition fft_table_8 :: "cplx list" where
  "fft_table_8 =
    [(0x470EBDC, - 0x2F6BBE45), (0x5471E2E7, - 0x3A8269A3), (- 0x50D86E6D, 0x14135C95), (0x354D742, - 0x2EE3CEBF), (0x543E5008, - 0x3AAADEA6), (- 0x5194AE52, 0x1530D881),
     (0x238A1C6, - 0x2E5A1070), (0x5409ED4C, - 0x3AD2C2E8), (- 0x5249DAA2, 0x164C7DDE), (0x11C565E, - 0x2DCE88AA), (0x53D4BB35, - 0x3AFA1606), (- 0x52F7E3A6, 0x17663410),
     (0, - 0x2D413CCD), (0x539EBA46, - 0x3B20D79F), (- 0x539EBA46, 0x187DE2A7), (- 0x11C565E, - 0x2CB2324C), (0x5367EB04, - 0x3B470753), (- 0x543E5008, 0x19937162),
     (- 0x238A1C6, - 0x2C216EAB), (0x53304DF6, - 0x3B6CA4C5), (- 0x54D69714, 0x1AA6C82C), (- 0x354D742, - 0x2B8EF77D), (0x52F7E3A6, - 0x3B91AF97), (- 0x55678237, 0x1BB7CF24),
     (- 0x470EBDC, - 0x2AFAD26A), (0x52BEAC9F, - 0x3BB6276E), (- 0x55F104DC, 0x1CC66E9A), (- 0x58CD4A2, - 0x2A650526), (0x5284A96E, - 0x3BDA0BF0), (- 0x56731317, 0x1DD28F15),
     (- 0x6A886A1, - 0x29CD9578), (0x5249DAA2, - 0x3BFD5CC5), (- 0x56EDA1A0, 0x1EDC1953), (- 0x7C3F6E9, - 0x29348938), (0x520E40CC, - 0x3C201995), (- 0x5760A5D6, 0x1FE2F64C),
     (- 0x8DF1A8D, - 0x2899E64B), (0x51D1DC80, - 0x3C42420A), (- 0x57CC15BD, 0x20E70F33), (- 0x9F9E6A2, - 0x27FDB2A7), (0x5194AE52, - 0x3C63D5D1), (- 0x582FE805, 0x21E84D77),
     (- 0xB145041, - 0x275FF453), (0x5156B6D9, - 0x3C84D497), (- 0x588C1405, 0x22E69AC8), (- 0xC2E4C88, - 0x26C0B163), (0x5117F6AF, - 0x3CA53E09), (- 0x58E091BD, 0x23E1E118),
     (- 0xD47D097, - 0x261FEFFA), (0x50D86E6D, - 0x3CC511D9), (- 0x592D59DB, 0x24DA0A9A), (- 0xE60D193, - 0x257DB64C), (0x50981EB1, - 0x3CE44FB7), (- 0x597265B4, 0x25CF01C8),
     (- 0xF7944A7, - 0x24DA0A9A), (0x5057081A, - 0x3D02F757), (- 0x59AFAF4C, 0x26C0B163), (- 0x10911F04, - 0x2434F333), (0x50152B48, - 0x3D21086D), (- 0x59E53152, 0x27AF0472),
     (- 0x11A855DF, - 0x238E7674), (0x4FD288DD, - 0x3D3E82AE), (- 0x5A12E721, 0x2899E64B), (- 0x12BEDE75, - 0x22E69AC8), (0x4F8F217E, - 0x3D5B65D2), (- 0x5A38CCC2, 0x2981428C),
     (- 0x13D4AE08, - 0x223D66A9), (0x4F4AF5D2, - 0x3D77B192), (- 0x5A56DEEC, 0x2A650526), (- 0x14E9B9E4, - 0x2192E09B), (0x4F06067F, - 0x3D9365A8), (- 0x5A6D1B04, 0x2B451A55),
     (- 0x15FDF758, - 0x20E70F33), (0x4EC05432, - 0x3DAE81CF), (- 0x5A7B7F1B, 0x2C216EAB), (- 0x17115BC0, - 0x2039F90F), (0x4E79DF95, - 0x3DC905C5), (- 0x5A8209F1, 0x2CF9EF0A),
     (- 0x1823DC7D, - 0x1F8BA4DC), (0x4E32A957, - 0x3DE2F148), (- 0x5A80BAF6, 0x2DCE88AA), (- 0x19356EFA, - 0x1EDC1953), (0x4DEAB226, - 0x3DFC4419), (- 0x5A779247, 0x2E9F291C),
     (- 0x1A4608AB, - 0x1E2B5D39), (0x4DA1FAB5, - 0x3E14FDF8), (- 0x5A6690AE, 0x2F6BBE45), (- 0x1B559F0E, - 0x1D79775C), (0x4D5883B7, - 0x3E2D1EA8), (- 0x5A4DB7A7, 0x30343668),
     (- 0x1C6427AA, - 0x1CC66E9A), (0x4D0E4DE2, - 0x3E44A5EF), (- 0x5A2D0957, 0x30F88020), (- 0x1D719810, - 0x1C1249D9), (0x4CC359EC, - 0x3E5B9393), (- 0x5A048896, 0x31B88A67),
     (- 0x1E7DE5DF, - 0x1B5D100A), (0x4C77A88F, - 0x3E71E759), (- 0x59D438E6, 0x32744494), (- 0x1F8906BE, - 0x1AA6C82C), (0x4C2B3A84, - 0x3E87A10C), (- 0x599C1E78, 0x332B9E5E)]"

definition fft_table_9 :: "cplx list" where
  "fft_table_9 =
    [(- 0x2092F05F, - 0x19EF7944), (0x4BDE1089, - 0x3E9CC077), (- 0x595C3E2B, 0x33DE87DF), (- 0x219B9884, - 0x19372A64), (0x4B902B5D, - 0x3EB14563), (- 0x59149D88, 0x348CF191),
     (- 0x22A2F4F8, - 0x187DE2A7), (0x4B418BBF, - 0x3EC52FA0), (- 0x58C542C6, 0x3536CC53), (- 0x23A8FB94, - 0x17C3A932), (0x4AF23271, - 0x3ED87EFC), (- 0x586E34C7, 0x35DC0969),
     (- 0x24ADA23D, - 0x17088531), (0x4AA22037, - 0x3EEB3348), (- 0x580F7B19, 0x367C9A7E), (- 0x25B0DEE8, - 0x164C7DDE), (0x4A5155D7, - 0x3EFD4C54), (- 0x57A91DF3, 0x371871A5),
     (- 0x26B2A795, - 0x158F9A76), (0x49FFD418, - 0x3F0EC9F5), (- 0x573B2635, 0x37AF8159), (- 0x27B2F254, - 0x14D1E243), (0x49AD9BC3, - 0x3F1FAC00), (- 0x56C59D6B, 0x3841BC80),
     (- 0x28B1B545, - 0x14135C95), (0x495AADA3, - 0x3F2FF24A), (- 0x56488DC5, 0x38CF166A), (- 0x29AEE694, - 0x135410C3), (0x49070A84, - 0x3F3F9CAC), (- 0x55C4021D, 0x395782D4),
     (- 0x2AAA7C7F, - 0x1294062F), (0x48B2B336, - 0x3F4EAAFF), (- 0x553805F3, 0x39DAF5E9), (- 0x2BA46D53, - 0x11D34440), (0x485DA888, - 0x3F5D1D1D), (- 0x54A4A56A, 0x3A596442),
     (- 0x2C9CAF6D, - 0x1111D263), (0x4807EB4B, - 0x3F6AF2E4), (- 0x5409ED4C, 0x3AD2C2E8), (- 0x2D93393A, - 0x104FB80F), (0x47B17C54, - 0x3F782C30), (- 0x5367EB04, 0x3B470753),
     (- 0x2E88013A, - 0xF8CFCBE), (0x475A5C78, - 0x3F84C8E2), (- 0x52BEAC9F, 0x3BB6276E), (- 0x2F7AFDFD, - 0xEC9A7F3), (0x47028C8D, - 0x3F90C8DA), (- 0x520E40CC, 0x3C201995),
     (- 0x306C2624, - 0xE05C136), (0x46AA0D6D, - 0x3F9C2BFB), (- 0x5156B6D9, 0x3C84D497), (- 0x315B7064, - 0xD415013), (0x4650DFF2, - 0x3FA6F229), (- 0x50981EB1, 0x3CE44FB7),
     (- 0x3248D382, - 0xC7C5C1F), (0x45F704F7, - 0x3FB11B48), (- 0x4FD288DD, 0x3D3E82AE), (- 0x33344659, - 0xBB6ECF0), (0x459C7D5B, - 0x3FBAA740), (- 0x4F06067F, 0x3D9365A8),
     (- 0x341DBFD3, - 0xAF10A23), (0x454149FD, - 0x3FC395FA), (- 0x4E32A957, 0x3DE2F148), (- 0x350536F1, - 0xA2ABB59), (0x44E56BBD, - 0x3FCBE75F), (- 0x4D5883B7, 0x3E2D1EA8),
     (- 0x35EAA2C7, - 0x9640838), (0x4488E37F, - 0x3FD39B5B), (- 0x4C77A88F, 0x3E71E759), (- 0x36CDFA7C, - 0x89CF868), (0x442BB227, - 0x3FDAB1DA), (- 0x4B902B5D, 0x3EB14563),
     (- 0x37AF354D, - 0x7D59396), (0x43CDD89B, - 0x3FE12ACC), (- 0x4AA22037, 0x3EEB3348), (- 0x388E4A89, - 0x70DE172), (0x436F57C2, - 0x3FE70620), (- 0x49AD9BC3, 0x3F1FAC00),
     (- 0x396B3199, - 0x645E9B0), (0x43103086, - 0x3FEC43C7), (- 0x48B2B336, 0x3F4EAAFF), (- 0x3A45E1F7, - 0x57DB403), (0x42B063D1, - 0x3FF0E3B6), (- 0x47B17C54, 0x3F782C30),
     (- 0x3B1E5336, - 0x4B54825), (0x424FF28F, - 0x3FF4E5E0), (- 0x46AA0D6D, 0x3F9C2BFB), (- 0x3BF47CFC, - 0x3ECADD0), (0x41EEDDB0, - 0x3FF84A3C), (- 0x459C7D5B, 0x3FBAA740),
     (- 0x3CC85709, - 0x323ECBF), (0x418D2621, - 0x3FFB10C2), (- 0x4488E37F, 0x3FD39B5B), (- 0x3D99D932, - 0x25B0CAF), (0x412ACCD5, - 0x3FFD3969), (- 0x436F57C2, 0x3FE70620),
     (- 0x3E68FB62, - 0x1921560), (0x40C7D2BE, - 0x3FFEC42E), (- 0x424FF28F, 0x3FF4E5E0), (- 0x3F35B59E, - 0xC90E90), (0x406438D0, - 0x3FFFB10C), (- 0x412ACCD5, 0x3FFD3969)]"

definition fft_table :: "cplx list" where
  "fft_table = fft_table_0 @ fft_table_1 @ fft_table_2 @ fft_table_3 @ fft_table_4 @ fft_table_5 @ fft_table_6 @ fft_table_7 @ fft_table_8 @ fft_table_9"

section \<open>The transform\<close>

definition swap_points :: "int \<Rightarrow> int \<Rightarrow> cplx list \<Rightarrow> cplx list option" where
  "swap_points a b data = do {
     t \<leftarrow> aget data b;
     u \<leftarrow> aget data a;
     data \<leftarrow> aput data b u;
     aput data a t }"

text \<open>The loop over the table, which ends at a zero and takes two pairs per turn.\<close>

fun bit_reverse :: "int list \<Rightarrow> cplx list \<Rightarrow> cplx list option" where
  "bit_reverse (p0 # p1 # p2 # p3 # p) data =
     (if p0 = 0 then Some data
      else do { data \<leftarrow> swap_points p0 p1 data; data \<leftarrow> swap_points p2 p3 data; bit_reverse p data })"
| "bit_reverse (p0 # p) data = (if p0 = 0 then Some data else None)"
| "bit_reverse [] data = None"

definition radix4_group :: "cplx \<Rightarrow> cplx \<Rightarrow> cplx \<Rightarrow> cplx \<Rightarrow> cplx list" where
  "radix4_group d0 d1 d2 d3 =
     (let ar = wrap32 (fst d0 + fst d1); br = wrap32 (fst d0 - fst d1);
          ai = wrap32 (snd d0 + snd d1); bi = wrap32 (snd d0 - snd d1);
          cr = wrap32 (fst d2 + fst d3); dr = wrap32 (fst d2 - fst d3);
          ci = wrap32 (snd d2 + snd d3); di = wrap32 (snd d2 - snd d3)
      in [(wrap32 (ar + cr), wrap32 (ai + ci)), (wrap32 (br + di), wrap32 (bi - dr)),
          (wrap32 (ar - cr), wrap32 (ai - ci)), (wrap32 (br - di), wrap32 (bi + dr))])"

text \<open>The array is taken apart from its front; a rest of less than four points would be left behind by \<open>data != data_end\<close>.\<close>

fun i4b_echo_cancel_radix4_fp :: "cplx list \<Rightarrow> cplx list option" where
  "i4b_echo_cancel_radix4_fp [] = Some []"
| "i4b_echo_cancel_radix4_fp (d0 # d1 # d2 # d3 # data) =
     do { rest \<leftarrow> i4b_echo_cancel_radix4_fp data; Some (radix4_group d0 d1 d2 d3 @ rest) }"
| "i4b_echo_cancel_radix4_fp data = None"

text \<open>The product of a point and a factor of the table.\<close>

definition turn_point :: "cplx \<Rightarrow> cplx \<Rightarrow> cplx" where
  "turn_point w d =
     (let ws = fst w; wi = snd w; wd = wrap32 (ws + 2 * wi); tr = MUL_SHIFT30 wi (wrap32 (fst d + snd d))
      in (wrap32 (MUL_SHIFT30 wd (fst d) - tr), wrap32 (MUL_SHIFT30 ws (snd d) + tr)))"

definition radix4_points :: "cplx \<Rightarrow> cplx \<Rightarrow> cplx \<Rightarrow> cplx \<Rightarrow> cplx \<times> cplx \<times> cplx \<times> cplx" where
  "radix4_points a b c d =
     (let tr = fst a; ti = snd a; ar = wrap32 (tr - fst b); ai = wrap32 (ti - snd b); br = wrap32 (tr + fst b); bi = wrap32 (ti + snd b);
          tr = fst c; ti = snd c; cr = wrap32 (tr + fst d); ci = wrap32 (snd d - ti); dr = wrap32 (tr - fst d); di = wrap32 (snd d + ti)
      in ((wrap32 (br + cr), wrap32 (bi + di)), (wrap32 (ar - ci), wrap32 (ai - dr)),
          (wrap32 (br - cr), wrap32 (bi - di)), (wrap32 (ar + ci), wrap32 (ai + dr))))"

text \<open>
  The innermost loop works on four quarters of a block with three factors for each point; \<open>None\<close> is a factor beyond the
  end of the table or a quarter that is too short.
\<close>

fun radix4_block :: "cplx list \<Rightarrow> cplx list \<Rightarrow> cplx list \<Rightarrow> cplx list \<Rightarrow> cplx list \<Rightarrow> (cplx list \<times> cplx list \<times> cplx list \<times> cplx list) option" where
  "radix4_block table [] [] [] [] = Some ([], [], [], [])"
| "radix4_block (t0 # t1 # t2 # table) (a # as) (b # bs) (c # cs) (d # ds) =
     (case radix4_points a (turn_point t0 b) (turn_point t1 c) (turn_point t2 d) of (a, b, c, d) \<Rightarrow>
        do { (as, bs, cs, ds) \<leftarrow> radix4_block table as bs cs ds; Some (a # as, b # bs, c # cs, d # ds) })"
| "radix4_block table as bs cs ds = None"

text \<open>The loop over the blocks of a pass, each of four quarters of \<open>step\<close> points.\<close>

function radix4_pass :: "cplx list \<Rightarrow> nat \<Rightarrow> cplx list \<Rightarrow> cplx list option" where
  "radix4_pass table step data =
     (if data = [] then Some []
      else if step = 0 \<or> length data < 4 * step then None
      else do {
        (as, bs, cs, ds) \<leftarrow> radix4_block table (take step data) (take step (drop step data))
          (take step (drop (2 * step) data)) (take step (drop (3 * step) data));
        rest \<leftarrow> radix4_pass table step (drop (4 * step) data);
        Some (as @ bs @ cs @ ds @ rest) })"
  by pat_completeness auto
termination
  by (relation "measure (\<lambda>(table, step, data). length data)") auto

text \<open>The loop over the passes; \<open>None\<close> is a \<open>step\<close> of zero, for which it does not end.\<close>

function i4b_echo_cancel_radix4_cr :: "cplx list \<Rightarrow> cplx list \<Rightarrow> nat \<Rightarrow> nat \<Rightarrow> cplx list option" where
  "i4b_echo_cancel_radix4_cr data table step n =
     (if step < n
      then if step = 0 then None
           else do { data \<leftarrow> radix4_pass table step data; i4b_echo_cancel_radix4_cr data (drop (3 * step) table) (4 * step) n }
      else Some data)"
  by pat_completeness auto
termination
  by (relation "measure (\<lambda>(data, table, step, n). n - step)") auto

definition i4b_echo_cancel_fft :: "cplx list \<Rightarrow> nat \<Rightarrow> cplx list option" where
  "i4b_echo_cancel_fft data flags = do {
     data \<leftarrow> bit_reverse bit_rev data;
     data \<leftarrow> i4b_echo_cancel_radix4_fp data;
     data \<leftarrow> i4b_echo_cancel_radix4_cr data fft_table 4 1024;
     Some (if odd flags
           then if odd (flags div 2) then map (\<lambda>(x, y). (cdivide x 1024, y)) data else data
           else map (\<lambda>(x, y). (x, wrap32 (- y))) data) }"

declare radix4_pass.simps [simp del] i4b_echo_cancel_radix4_cr.simps [simp del]

section \<open>Every access is inside its array\<close>

lemma aget_inside [simp]: "0 \<le> i \<Longrightarrow> i < int (length xs) \<Longrightarrow> aget xs i = Some (xs ! nat i)"
  by (simp add: aget_def)

lemma aput_inside [simp]: "0 \<le> i \<Longrightarrow> i < int (length xs) \<Longrightarrow> aput xs i v = Some (xs[nat i := v])"
  by (simp add: aput_def)

lemma loop_over_inv:
  assumes "\<And>x st. x \<in> set xs \<Longrightarrow> P st \<Longrightarrow> \<exists>st'. f x st = Some st' \<and> P st'" "P st"
  shows "\<exists>st'. loop_over f xs st = Some st' \<and> P st'"
  using assms
proof (induction xs arbitrary: st)
  case (Cons x xs)
  then obtain st' where "f x st = Some st'" "P st'"
    by (meson list.set_intros(1))
  then show ?case
    using Cons by simp
qed simp

lemma loop_over_append: "loop_over f (xs @ ys) st = do { st \<leftarrow> loop_over f xs st; loop_over f ys st }"
  by (induction xs arbitrary: st) (auto split: Option.bind_splits)

lemma radix4_fp_total: "4 dvd length data \<Longrightarrow> \<exists>data'. i4b_echo_cancel_radix4_fp data = Some data' \<and> length data' = length data"
proof (induction data rule: i4b_echo_cancel_radix4_fp.induct)
  case (2 d0 d1 d2 d3 data)
  then have "4 dvd length data"
    by simp presburger
  then show ?case
    using 2 by (auto simp: radix4_group_def Let_def)
qed (auto dest: dvd_imp_le)

lemma radix4_block_total:
  "length as = n \<Longrightarrow> length bs = n \<Longrightarrow> length cs = n \<Longrightarrow> length ds = n \<Longrightarrow> 3 * n \<le> length table \<Longrightarrow>
   \<exists>as' bs' cs' ds'. radix4_block table as bs cs ds = Some (as', bs', cs', ds') \<and> length as' = n \<and> length bs' = n \<and> length cs' = n \<and> length ds' = n"
proof (induction n arbitrary: table as bs cs ds)
  case (Suc n)
  obtain t0 t1 t2 table' where t: "table = t0 # t1 # t2 # table'"
    using Suc.prems(5) by (cases table; cases "tl table"; cases "tl (tl table)") auto
  obtain a as' b bs' c cs' d ds' where l: "as = a # as'" "bs = b # bs'" "cs = c # cs'" "ds = d # ds'"
    using Suc.prems by (auto simp: length_Suc_conv)
  obtain as2 bs2 cs2 ds2 where "radix4_block table' as' bs' cs' ds' = Some (as2, bs2, cs2, ds2)"
    "length as2 = n" "length bs2 = n" "length cs2 = n" "length ds2 = n"
    using Suc.IH [of as' bs' cs' ds' table'] Suc.prems by (auto simp: l t)
  then show ?case
    by (auto simp: l t split: prod.splits)
qed simp

lemma radix4_pass_total:
  assumes "0 < step" "4 * step dvd length data" "3 * step \<le> length table"
  shows "\<exists>data'. radix4_pass table step data = Some data' \<and> length data' = length data"
  using assms
proof (induction table step data rule: radix4_pass.induct)
  case (1 table step data)
  show ?case
  proof (cases "data = []")
    case False
    then have len: "4 * step \<le> length data"
      using 1(3) by (simp add: dvd_imp_le)
    obtain as bs cs ds where b: "radix4_block table (take step data) (take step (drop step data)) (take step (drop (2 * step) data)) (take step (drop (3 * step) data)) =
        Some (as, bs, cs, ds)" "length as = step" "length bs = step" "length cs = step" "length ds = step"
      using radix4_block_total [of "take step data" step "take step (drop step data)" "take step (drop (2 * step) data)" "take step (drop (3 * step) data)" table] len 1(4)
      by auto
    have "4 * step dvd length (drop (4 * step) data)"
      using 1(3) len by (simp add: dvd_diff_nat)
    then obtain rest where "radix4_pass table step (drop (4 * step) data) = Some rest" "length rest = length data - 4 * step"
      using 1(1) [OF False _ b(1) refl refl refl] 1(2,4) len by auto
    then show ?thesis
      using b len 1(2) by (simp add: radix4_pass.simps [of table step data])
  qed (simp add: radix4_pass.simps)
qed

lemma radix4_cr_total:
  assumes "length data = 1024" "length table = 1020"
  shows "\<exists>data'. i4b_echo_cancel_radix4_cr data table 4 1024 = Some data' \<and> length data' = 1024"
proof -
  note pass = radix4_pass_total
  obtain d1 where 1: "radix4_pass table 4 data = Some d1" "length d1 = 1024"
    using pass [of 4 data table] assms by auto
  obtain d2 where 2: "radix4_pass (drop 12 table) 16 d1 = Some d2" "length d2 = 1024"
    using pass [of 16 d1 "drop 12 table"] assms 1 by auto
  obtain d3 where 3: "radix4_pass (drop 60 table) 64 d2 = Some d3" "length d3 = 1024"
    using pass [of 64 d2 "drop 60 table"] assms 2 by auto
  obtain d4 where 4: "radix4_pass (drop 252 table) 256 d3 = Some d4" "length d4 = 1024"
    using pass [of 256 d3 "drop 252 table"] assms 3 by auto
  show ?thesis
    by (simp add: i4b_echo_cancel_radix4_cr.simps [of data] i4b_echo_cancel_radix4_cr.simps [of d1]
        i4b_echo_cancel_radix4_cr.simps [of d2] i4b_echo_cancel_radix4_cr.simps [of d3] i4b_echo_cancel_radix4_cr.simps [of d4] 1 2 3 4)
qed

section \<open>Bit reversal\<close>

text \<open>The number of \<open>k\<close> binary digits whose digits are those of \<open>i\<close> in reverse order: its lowest digit is the highest one of \<open>i\<close>.\<close>

fun bit_reversal :: "nat \<Rightarrow> nat \<Rightarrow> nat" where
  "bit_reversal 0 i = 0"
| "bit_reversal (Suc k) i = (if i < 2 ^ k then 2 * bit_reversal k i else 2 * bit_reversal k (i - 2 ^ k) + 1)"

text \<open>The pairs of a number and its smaller reversal, for the numbers with the leading digits \<open>a\<close>, whose reversal is \<open>r\<close>; \<open>w\<close> is the weight of the next digit.\<close>

fun reversed_pairs :: "nat \<Rightarrow> int \<Rightarrow> int \<Rightarrow> int \<Rightarrow> int list" where
  "reversed_pairs 0 a r w = (if r < a then [a, r] else [])"
| "reversed_pairs (Suc k) a r w = reversed_pairs k (2 * a) r (2 * w) @ reversed_pairs k (2 * a + 1) (r + w) (2 * w)"

lemma bit_rev_parts:
  "bit_rev_0 = reversed_pairs 7 0 0 8" "bit_rev_1 = reversed_pairs 7 1 4 8" "bit_rev_2 = reversed_pairs 7 2 2 8" "bit_rev_3 = reversed_pairs 7 3 6 8"
  "bit_rev_4 = reversed_pairs 7 4 1 8" "bit_rev_5 = reversed_pairs 7 5 5 8" "bit_rev_6 = reversed_pairs 7 6 3 8" "bit_rev_7 = reversed_pairs 7 7 7 8"
  by code_simp+

lemma bit_rev_pairs: "bit_rev = reversed_pairs 10 0 0 1 @ [0, 0]"
  by (simp add: bit_rev_def bit_rev_parts bit_rev_8_def numeral_eq_Suc)

lemma bit_high:
  fixes i k m :: nat
  assumes "i < 2 ^ k"
  shows "bit (2 ^ k + i) k" "m < k \<Longrightarrow> bit (2 ^ k + i) m \<longleftrightarrow> bit i m" "\<not> bit i k"
proof -
  show "bit (2 ^ k + i) k" "\<not> bit i k"
    using assms by (simp_all add: bit_iff_odd div_add1_eq)
  assume "m < k"
  then have "(2 :: nat) ^ k = 2 ^ m * (2 * 2 ^ (k - Suc m))"
    by (simp flip: power_Suc power_add)
  then have "(2 ^ k + i) div 2 ^ m = 2 * 2 ^ (k - Suc m) + i div 2 ^ m"
    by simp
  then show "bit (2 ^ k + i) m \<longleftrightarrow> bit i m"
    by (simp add: bit_iff_odd)
qed

lemma upt_double: "[0..<2 ^ Suc k] = [0..<2 ^ k] @ map (\<lambda>i. i + 2 ^ k) [0..<2 ^ k]"
  using upt_add_eq_append [of 0 "2 ^ k" "2 ^ k"] by (simp only: map_add_upt power_Suc mult_2 le0 add_0)

lemma reversed_pairs_eq:
  "reversed_pairs k a r w = concat (map (\<lambda>i. if r + w * int (bit_reversal k i) < a * 2 ^ k + int i
     then [a * 2 ^ k + int i, r + w * int (bit_reversal k i)] else []) [0..<2 ^ k])"
proof (induction k arbitrary: a r w)
  case (Suc k)
  show ?case
    unfolding upt_double map_append concat_append reversed_pairs.simps Suc.IH map_map
    by (intro arg_cong2 [of _ _ _ _ "(@)"] arg_cong [of _ _ concat] map_cong refl) (simp_all add: algebra_simps)
qed simp

lemma concat_if: "concat (map (\<lambda>i. if P i then f i else []) xs) = concat (map f (filter P xs))"
  by (induction xs) simp_all

lemma bit_reversal_less: "bit_reversal k i < 2 ^ k"
proof (induction k arbitrary: i)
  case (Suc k)
  then show ?case
    using Suc.IH [of i] Suc.IH [of "i - 2 ^ k"] by (simp, linarith)
qed simp

lemma bit_bit_reversal: "i < 2 ^ k \<Longrightarrow> bit (bit_reversal k i) j \<longleftrightarrow> j < k \<and> bit i (k - 1 - j)"
proof (induction k arbitrary: i j)
  case (Suc k)
  show ?case
  proof (cases "i < 2 ^ k")
    case True
    then show ?thesis
      using Suc.IH [OF True, of "j - 1"] bit_high(3) [OF True] by (cases j) (auto simp: bit_double_iff)
  next
    case False
    then obtain i' where i': "i = 2 ^ k + i'" "i' < 2 ^ k"
      using Suc.prems by (metis add_diff_inverse_nat less_diff_conv2 linorder_not_less mult_2 power_Suc)
    have "bit (2 * x + 1) j \<longleftrightarrow> j = 0 \<or> bit x (j - 1)" for x :: nat
      by (cases j) (simp_all add: bit_0 bit_Suc)
    then show ?thesis
      using Suc.IH [OF i'(2), of "j - 1"] bit_high [OF i'(2)] by (cases j) (auto simp: i')
  qed
qed simp

lemma bit_reversal_involution: "i < 2 ^ k \<Longrightarrow> bit_reversal k (bit_reversal k i) = i"
proof (rule bit_eqI)
  fix j
  assume i: "i < 2 ^ k"
  have "\<not> bit i j" if "k \<le> j"
    using i that by (metis bit_take_bit_iff linorder_not_less take_bit_nat_eq_self)
  then show "bit (bit_reversal k (bit_reversal k i)) j \<longleftrightarrow> bit i j"
    using bit_bit_reversal [OF bit_reversal_less, of k i j] bit_bit_reversal [OF i, of "k - 1 - j"] by (cases "j < k") auto
qed

text \<open>The swaps that the loop over the table makes.\<close>

lemma bit_reverse_pairs:
  assumes "even (length ps)" "\<forall>(a, b)\<in>set ps. a \<noteq> 0"
  shows "bit_reverse (concat (map (\<lambda>(a, b). [a, b]) ps) @ [0, 0]) data = loop_over (\<lambda>(a, b). swap_points a b) ps data"
  using assms
proof (induction "length ps" arbitrary: ps data rule: less_induct)
  case less
  show ?case
  proof (cases ps)
    case (Cons p qs)
    then obtain q rs where qs: "qs = q # rs"
      using less.prems(1) by (cases qs) auto
    obtain a b c d where pq: "p = (a, b)" "q = (c, d)"
      by fastforce
    have "bit_reverse (concat (map (\<lambda>(a, b). [a, b]) rs) @ [0, 0]) st = loop_over (\<lambda>(a, b). swap_points a b) rs st" for st
      using less.prems by (intro less.hyps) (simp_all add: Cons qs)
    then show ?thesis
      using less.prems(2) by (auto simp: Cons qs pq split: Option.bind_splits)
  qed simp
qed

text \<open>
  Swaps of disjoint pairs \<open>(a, r a)\<close> put at every index that occurs in them the point of the index \<open>r\<close> gives.
\<close>

lemma swap_points_inside:
  assumes "a < length data" "b < length data"
  shows "swap_points (int a) (int b) data = Some (data[b := data ! a, a := data ! b])"
  using assms by (simp add: swap_points_def)

lemma swaps_permute:
  assumes "\<And>a. a < n \<Longrightarrow> r (r a) = a" "\<And>a. a < n \<Longrightarrow> r a < n" "length data = n"
    "distinct as" "\<forall>a\<in>set as. a < n \<and> r a < a"
  shows "\<exists>data'. loop_over (\<lambda>(a, b). swap_points a b) (map (\<lambda>a. (int a, int (r a))) as) data = Some data' \<and> length data' = n \<and>
    (\<forall>i<n. data' ! i = (if i \<in> set as \<or> r i \<in> set as then data ! r i else data ! i))"
  using assms(4,5)
proof (induction as rule: rev_induct)
  case Nil
  then show ?case
    using assms(3) by simp
next
  case (snoc a as)
  then obtain d where d: "loop_over (\<lambda>(a, b). swap_points a b) (map (\<lambda>a. (int a, int (r a))) as) data = Some d" "length d = n"
    "\<forall>i<n. d ! i = (if i \<in> set as \<or> r i \<in> set as then data ! r i else data ! i)"
    by auto
  have a: "a < n" "r a < a" "a \<notin> set as" "r a < n"
    using snoc.prems by auto
  have "r a \<notin> set as"
    using snoc.prems a(1,2) assms(1) [of a] by auto
  then have same: "d ! a = data ! a" "d ! r a = data ! r a"
    using d(3) a assms(1) [of a] by auto
  have swapped: "loop_over (\<lambda>(a, b). swap_points a b) (map (\<lambda>a. (int a, int (r a))) (as @ [a])) data = Some (d[r a := d ! a, a := d ! r a])"
    using a d(1,2) by (simp add: loop_over_append swap_points_inside)
  have "d[r a := d ! a, a := d ! r a] ! i = (if i \<in> set (as @ [a]) \<or> r i \<in> set (as @ [a]) then data ! r i else data ! i)" if "i < n" for i
  proof -
    have "r i = a \<longleftrightarrow> i = r a"
      using that a assms(1) [of i] assms(1) [of a] by auto
    then show ?thesis
      using that a d(2,3) same assms(1) [of a] by (auto simp: nth_list_update)
  qed
  then show ?case
    using swapped d(2) by auto
qed

abbreviation rev10 :: "nat \<Rightarrow> nat" where
  "rev10 \<equiv> bit_reversal 10"

lemma bit_rev_filter:
  "bit_rev = concat (map (\<lambda>(a, b). [a, b]) (map (\<lambda>i. (int i, int (rev10 i))) (filter (\<lambda>i. rev10 i < i) [0..<1024]))) @ [0, 0]"
proof -
  have "reversed_pairs 10 0 0 1 = concat (map (\<lambda>i. if rev10 i < i then [int i, int (rev10 i)] else []) [0..<1024])"
    using reversed_pairs_eq [of 10 0 0 1] by (simp cong: if_cong)
  also have "\<dots> = concat (map (\<lambda>i. [int i, int (rev10 i)]) (filter (\<lambda>i. rev10 i < i) [0..<1024]))"
    by (rule concat_if)
  finally show ?thesis
    unfolding bit_rev_pairs by (simp add: comp_def)
qed

lemma length_bit_rev: "length bit_rev = 994"
  by (simp add: bit_rev_def bit_rev_0_def bit_rev_1_def bit_rev_2_def bit_rev_3_def bit_rev_4_def bit_rev_5_def bit_rev_6_def bit_rev_7_def bit_rev_8_def)

lemma even_rev_pairs: "even (length (filter (\<lambda>i. rev10 i < i) [0..<1024]))"
proof -
  have pairs: "length (concat (map (\<lambda>(a, b). [a, b]) ps)) = 2 * length ps" for ps :: "(int \<times> int) list"
    by (induction ps) (auto split: prod.splits)
  have "2 * length (filter (\<lambda>i. rev10 i < i) [0..<1024]) + 2 = 994"
    using length_bit_rev unfolding bit_rev_filter length_append pairs length_map by simp
  then have "length (filter (\<lambda>i. rev10 i < i) [0..<1024]) = 2 * 248"
    by simp
  then show ?thesis
    by (simp only: dvd_triv_left)
qed

lemma bit_reverse_permutes:
  assumes "length data = 1024"
  shows "bit_reverse bit_rev data = Some (map (\<lambda>i. data ! rev10 i) [0..<1024])"
proof -
  let ?as = "filter (\<lambda>i. rev10 i < i) [0..<1024]"
  have inv: "rev10 (rev10 i) = i" "rev10 i < 1024" if "i < 1024" for i
    using bit_reversal_involution [of i 10] bit_reversal_less [of 10 i] that by simp_all
  have "bit_reverse bit_rev data = loop_over (\<lambda>(a, b). swap_points a b) (map (\<lambda>i. (int i, int (rev10 i))) ?as) data"
    unfolding bit_rev_filter using even_rev_pairs by (intro bit_reverse_pairs) auto
  moreover have "distinct ?as" "\<forall>a\<in>set ?as. a < 1024 \<and> rev10 a < a"
    by simp_all
  from swaps_permute [OF inv assms this] obtain data' where d: "loop_over (\<lambda>(a, b). swap_points a b) (map (\<lambda>i. (int i, int (rev10 i))) ?as) data = Some data'"
    "length data' = 1024" "\<forall>i<1024. data' ! i = (if i \<in> set ?as \<or> rev10 i \<in> set ?as then data ! rev10 i else data ! i)"
    by blast
  moreover have "data' = map (\<lambda>i. data ! rev10 i) [0..<1024]"
  proof (rule nth_equalityI)
    fix i
    assume "i < length data'"
    then have "i < 1024"
      using d(2) by simp
    moreover have "i \<in> set ?as \<or> rev10 i \<in> set ?as \<or> rev10 i = i"
      using inv [OF \<open>i < 1024\<close>] \<open>i < 1024\<close> by auto
    ultimately show "data' ! i = map (\<lambda>i. data ! rev10 i) [0..<1024] ! i"
      using d(3) by auto
  qed (simp add: d(2))
  ultimately show ?thesis
    by simp
qed

lemma length_fft_table: "length fft_table = 1020"
  by (simp add: fft_table_def fft_table_0_def fft_table_1_def fft_table_2_def fft_table_3_def fft_table_4_def fft_table_5_def fft_table_6_def
      fft_table_7_def fft_table_8_def fft_table_9_def)

lemma fft_total:
  assumes "length data = 1024"
  shows "\<exists>data'. i4b_echo_cancel_fft data flags = Some data' \<and> length data' = 1024"
proof -
  let ?d = "map (\<lambda>i. data ! rev10 i) [0..<1024]"
  obtain d1 where 1: "i4b_echo_cancel_radix4_fp ?d = Some d1" "length d1 = 1024"
    using radix4_fp_total [of ?d] by auto
  obtain d2 where "i4b_echo_cancel_radix4_cr d1 fft_table 4 1024 = Some d2" "length d2 = 1024"
    using radix4_cr_total [OF 1(2) length_fft_table] by auto
  then show ?thesis
    using 1 by (simp add: i4b_echo_cancel_fft_def bit_reverse_permutes [OF assms])
qed

text \<open>
  C31: The first step of the transform puts every point at the index whose ten binary digits are reversed, with swaps
  inside the array only; reversing twice gives the points back.
\<close>

theorem fft_bit_reversal:
  assumes "length data = 1024"
  shows "bit_reverse bit_rev data = Some (map (\<lambda>i. data ! bit_reversal 10 i) [0..<1024]) \<and>
    (\<forall>i<1024. bit_reversal 10 i < 1024 \<and> (\<forall>j<10. bit (bit_reversal 10 i) j = bit i (9 - j)))"
  using bit_reverse_permutes [OF assms] bit_reversal_less [of 10] bit_bit_reversal [of _ 10] by simp

theorem fft_bit_reversal_witness:
  "\<exists>data'. bit_reverse bit_rev (map (\<lambda>i. (int i, 0)) [0..<1024]) = Some data' \<and> data' ! 1 = (512, 0)"
proof -
  have "bit_reversal 10 1 = 512"
    by (simp add: numeral_eq_Suc)
  then show ?thesis
    using fft_bit_reversal [of "map (\<lambda>i. (int i, 0)) [0..<1024]"] by simp
qed

end
