(* ===== verification/Echo_Cancel.thy ===== *)
theory Echo_Cancel
  imports Echo_FFT
begin

unbundle bit_operations_syntax

text \<open>
  The echo canceller of \<^verbatim>\<open>layer1/i4b_echo_cancel.c\<close>: what is sent to the loudspeaker is fed into a buffer, what comes from
  the microphone is merged with an estimate of its echo; the estimate comes from a filter that is adapted and
  applied by Fourier transforms. An access outside an array makes the result \<open>None\<close>.
\<close>

section \<open>The state\<close>

abbreviation N_PRE :: int where "N_PRE \<equiv> 8"

abbreviation N_COMPLEX :: nat where "N_COMPLEX \<equiv> 1024"

abbreviation N_TAPS :: nat where "N_TAPS \<equiv> 512"

abbreviation SAMPLE_MAX :: int where "SAMPLE_MAX \<equiv> 0x7FC0"

abbreviation T_MAX :: nat where "T_MAX \<equiv> 2048"

abbreviation F_SIZE :: nat where "F_SIZE \<equiv> 3072"

abbreviation R_SIZE :: nat where "R_SIZE \<equiv> 5120"

abbreviation N_HR_DP :: int where "N_HR_DP \<equiv> 0x100000"

text \<open>The array \<open>buf_HR\<close> has one row (\<open>I4B_ECHO_CANCEL_W_SUB\<close>). Offsets are natural numbers, with the remainder written out where they may wrap.\<close>

record i4b_echo_cancel =
  buf_HC :: "cplx list"
  buf_HR :: "int list"
  buf_E0 :: "int list"
  buf_ET :: "int list"
  buf_state :: "u8 list"
  ec_adapt :: bool
  ec_active :: bool
  buf_EC :: "cplx list"
  buf_XC :: "cplx list"
  low_pass_1 :: int
  low_pass_2 :: int
  noise_rem :: u32
  mute_count :: nat
  offset_x :: nat
  offset_wr :: nat
  offset_rd :: nat
  pre_delay :: u16
  offset_e :: nat
  ec_rx_time :: u16
  ec_tx_time :: u16
  offset_adjust :: int
  buf_X0 :: "int list"
  is_ulaw :: bool
  last_byte :: u8

definition i4b_echo_cancel_init :: "u16 \<Rightarrow> bsubprot \<Rightarrow> i4b_echo_cancel" where
  "i4b_echo_cancel_init delay sub_bprot =
     \<lparr>buf_HC = replicate N_COMPLEX (0, 0), buf_HR = replicate N_TAPS 0, buf_E0 = replicate N_TAPS 0, buf_ET = replicate (4 * N_TAPS) 0,
      buf_state = replicate N_TAPS 0, ec_adapt = False, ec_active = False, buf_EC = replicate N_COMPLEX (0, 0),
      buf_XC = replicate N_COMPLEX (0, 0), low_pass_1 = 0, low_pass_2 = 0, noise_rem = 1, mute_count = 0, offset_x = N_TAPS,
      offset_wr = F_SIZE - 1, offset_rd = R_SIZE - 1, pre_delay = delay, offset_e = 4 * N_TAPS, ec_rx_time = 0, ec_tx_time = 0,
      offset_adjust = 0, buf_X0 = replicate (2 * F_SIZE) 0, is_ulaw = (sub_bprot \<noteq> BSUBPROT_G711_ALAW), last_byte = 0xFF\<rparr>"

text \<open>Signed results of 16 and 64 bits.\<close>

definition wrap16 :: "int \<Rightarrow> int" where
  "wrap16 x = (x + 0x8000) mod 0x10000 - 0x8000"

definition wrap64 :: "int \<Rightarrow> int" where
  "wrap64 x = (x + 2 ^ 63) mod 2 ^ 64 - 2 ^ 63"

text \<open>Differences of unsigned 16 bit numbers.\<close>

definition dec16 :: "nat \<Rightarrow> nat" where
  "dec16 n = (n + 0xFFFF) mod 0x10000"

definition sub16 :: "nat \<Rightarrow> nat \<Rightarrow> nat" where
  "sub16 a b = (a + 0x10000 - b) mod 0x10000"

text \<open>\<open>bcopy\<close> of the first \<open>n\<close> elements of an array to a place in the same array.\<close>

definition copy_within :: "'a list \<Rightarrow> nat \<Rightarrow> nat \<Rightarrow> 'a list option" where
  "copy_within xs dst n = (if dst + n \<le> length xs then Some (take dst xs @ take n xs @ drop (dst + n) xs) else None)"

text \<open>Reading an array at several places.\<close>

definition aget_all :: "'a list \<Rightarrow> int list \<Rightarrow> 'a list option" where
  "aget_all xs is = those (map (aget xs) is)"

section \<open>Samples\<close>

definition i4b_echo_cancel_noise :: "i4b_echo_cancel \<Rightarrow> i4b_echo_cancel \<times> int" where
  "i4b_echo_cancel_noise ec =
     (let rem = (if noise_rem ec AND 1 \<noteq> 0 then noise_rem ec + 0xFFFF1D else noise_rem ec) div 2;
          temp = rem XOR 0x800000;
          temp = (if temp AND 0x800000 \<noteq> 0 then temp OR (- 0x800000) else temp)
      in (ec\<lparr>noise_rem := rem\<rparr>, sint temp))"

definition i4b_subtract_safe :: "int \<Rightarrow> int \<Rightarrow> int" where
  "i4b_subtract_safe a b =
     (let temp = a - b in if temp < - SAMPLE_MAX then - SAMPLE_MAX else if temp > SAMPLE_MAX then SAMPLE_MAX else temp)"

definition low_pass :: "int \<Rightarrow> int \<Rightarrow> int" where
  "low_pass lp t = wrap32 (lp + wrap32 (t * 256 - cdivide lp 256))"

definition i4b_echo_cancel_hp_f1 :: "i4b_echo_cancel \<Rightarrow> int \<Rightarrow> i4b_echo_cancel \<times> int" where
  "i4b_echo_cancel_hp_f1 ec t =
     (let lp = low_pass (low_pass_1 ec) t in (ec\<lparr>low_pass_1 := lp\<rparr>, i4b_subtract_safe t (wrap16 (cdivide lp 65536))))"

definition i4b_echo_cancel_hp_f2 :: "i4b_echo_cancel \<Rightarrow> int \<Rightarrow> i4b_echo_cancel \<times> int" where
  "i4b_echo_cancel_hp_f2 ec t =
     (let lp = low_pass (low_pass_2 ec) t in (ec\<lparr>low_pass_2 := lp\<rparr>, i4b_subtract_safe t (wrap16 (cdivide lp 65536))))"

definition i4b_echo_cancel_abs :: "int \<Rightarrow> int" where
  "i4b_echo_cancel_abs t = (if t < 0 then if t = - 0x80000000 then 0x7FFFFFFF else - t else t)"

definition convert_fwd :: "i4b_echo_cancel \<Rightarrow> u8 \<Rightarrow> int" where
  "convert_fwd ec c = (if is_ulaw ec then sint (i4b_ulaw_to_signed ! unat c) else sint (i4b_alaw_to_signed ! unat c))"

definition convert_rev :: "i4b_echo_cancel \<Rightarrow> int \<Rightarrow> u8" where
  "convert_rev ec t = (if is_ulaw ec then i4b_signed_to_ulaw t else i4b_signed_to_alaw t)"

section \<open>The filter\<close>

text \<open>The largest coefficient, its place and the sum of all.\<close>

definition i4b_echo_cancel_stats :: "int list \<Rightarrow> (int \<times> nat \<times> int) option" where
  "i4b_echo_cancel_stats data =
     loop_over (\<lambda>n (max_y, max_x, sum_y). do {
       temp \<leftarrow> aget data (int n);
       let temp = i4b_echo_cancel_abs temp;
       Some (if temp > max_y then (temp, n, sum_y + temp) else (max_y, max_x, sum_y + temp)) }) [0..<N_TAPS] (0, 0, 0)"

definition i4b_echo_cancel_coeffs_reset :: "i4b_echo_cancel \<Rightarrow> i4b_echo_cancel" where
  "i4b_echo_cancel_coeffs_reset ec = ec
     \<lparr>buf_HC := replicate N_COMPLEX (0, 0), buf_HR := replicate N_TAPS 0, buf_E0 := replicate N_TAPS 0, buf_ET := replicate (4 * N_TAPS) 0,
      buf_state := replicate N_TAPS 0, ec_adapt := False, ec_active := False, offset_x := N_TAPS, offset_e := 4 * N_TAPS,
      mute_count := (if mute_count ec \<noteq> 0 then 0xFFFF else mute_count ec)\<rparr>"

text \<open>The two halves of a complex buffer are read backwards from \<open>pb\<close> and from \<open>pb + N_TAPS\<close>.\<close>

definition load_halves :: "int list \<Rightarrow> int \<Rightarrow> (int \<Rightarrow> int) \<Rightarrow> cplx list option" where
  "load_halves src pb f = do {
     lo \<leftarrow> aget_all src (map (\<lambda>k. pb - int k) [0..<N_TAPS]);
     hi \<leftarrow> aget_all src (map (\<lambda>k. pb - int k + int N_TAPS) [0..<N_TAPS]);
     Some (map (\<lambda>x. (f x, 0)) (lo @ hi)) }"

definition i4b_echo_cancel_load_complex_x :: "i4b_echo_cancel \<Rightarrow> nat \<Rightarrow> i4b_echo_cancel option" where
  "i4b_echo_cancel_load_complex_x ec max_samples = do {
     xc \<leftarrow> load_halves (buf_X0 ec) (int (offset_rd ec) + int N_TAPS - int max_samples) (\<lambda>x. wrap32 (x * N_PRE));
     xc \<leftarrow> i4b_echo_cancel_fft xc 0;
     Some (ec\<lparr>buf_XC := xc\<rparr>) }"

definition i4b_echo_cancel_load_complex_e :: "i4b_echo_cancel \<Rightarrow> i4b_echo_cancel option" where
  "i4b_echo_cancel_load_complex_e ec = do {
     xe \<leftarrow> load_halves (buf_ET ec) (int (offset_e ec) + int N_TAPS - 1) (\<lambda>x. x);
     xe \<leftarrow> i4b_echo_cancel_fft xe 0;
     Some (ec\<lparr>buf_EC := xe\<rparr>) }"

text \<open>The sums and differences of the components \<open>i\<close> and \<open>j\<close> of a buffer.\<close>

definition component :: "cplx list \<Rightarrow> nat \<Rightarrow> cplx option" where
  "component c i = do {
     a \<leftarrow> aget c (int i);
     b \<leftarrow> aget c (int N_COMPLEX - int i);
     Some (wrap32 (fst a + fst b), wrap32 (snd a - snd b)) }"

definition set_component :: "nat \<Rightarrow> cplx \<Rightarrow> cplx list \<Rightarrow> cplx list option" where
  "set_component i t c = do {
     c \<leftarrow> aput c (int i) t;
     aput c (int N_COMPLEX - int i) (fst t, wrap32 (- snd t)) }"

definition convolute_component :: "cplx list \<Rightarrow> nat \<Rightarrow> cplx list \<Rightarrow> cplx list option" where
  "convolute_component xc i c = do {
     (dx, dy) \<leftarrow> component xc i;
     (ex, ey) \<leftarrow> component c i;
     let t = cdivide (wrap64 (dx * ex - dy * ey)) (N_HR_DP * 4);
     let u = cdivide (wrap64 (dy * ex + dx * ey)) (N_HR_DP * 4);
     set_component i (wrap32 t, wrap32 u) c }"

definition convolute_real :: "cplx list \<Rightarrow> nat \<Rightarrow> cplx list \<Rightarrow> cplx list option" where
  "convolute_real xc i c = do {
     d \<leftarrow> aget xc (int i);
     e \<leftarrow> aget c (int i);
     aput c (int i) (wrap32 (cdivide (fst d * fst e) N_HR_DP), 0) }"

definition i4b_echo_cancel_convolute_fir :: "i4b_echo_cancel \<Rightarrow> cplx list \<Rightarrow> int list \<Rightarrow> (i4b_echo_cancel \<times> int list) option" where
  "i4b_echo_cancel_convolute_fir ec buf_complex buf_real = do {
     c \<leftarrow> loop_over (convolute_component (buf_XC ec)) [1..<N_TAPS] buf_complex;
     c \<leftarrow> convolute_real (buf_XC ec) 0 c;
     c \<leftarrow> convolute_real (buf_XC ec) N_TAPS c;
     c \<leftarrow> i4b_echo_cancel_fft c 3;
     if length c < N_TAPS \<or> length buf_real < N_TAPS then None
     else Some (ec\<lparr>buf_EC := c\<rparr>, rev (map fst (take N_TAPS c)) @ drop N_TAPS buf_real) }"

text \<open>One component of the adaption: \<open>na\<close> counts those that are not trained.\<close>

definition adapt_component :: "cplx list \<Rightarrow> nat \<Rightarrow> cplx list \<times> nat \<Rightarrow> (cplx list \<times> nat) option" where
  "adapt_component xc i = (\<lambda>(c, na). do {
     (dx, dy) \<leftarrow> component xc i;
     (ex, ey) \<leftarrow> component c i;
     let t = wrap64 (dx * ex + dy * ey);
     let u = wrap64 (dx * dx + dy * dy);
     let v = wrap64 (ex * ex + ey * ey);
     let skip = (v > u \<or> u < 8192 * 8192);
     c \<leftarrow> set_component i (if skip then 0 else if t > 0 then int N_TAPS else - int N_TAPS, 0) c;
     Some (c, if skip then na + 1 else na) })"

definition i4b_echo_cancel_complex_adapt :: "i4b_echo_cancel \<Rightarrow> i4b_echo_cancel option" where
  "i4b_echo_cancel_complex_adapt ec = do {
     (c, na) \<leftarrow> loop_over (adapt_component (buf_XC ec)) [1..<N_TAPS] (buf_EC ec, 0);
     c \<leftarrow> aput c 0 (0, 0);
     c \<leftarrow> aput c (int N_TAPS) (0, 0);
     Some (ec\<lparr>buf_EC := c, ec_adapt := (na < N_TAPS div 4)\<rparr>) }"

text \<open>The masks of \<open>buf_state\<close> are 0x80 and 0x40 for the sign, 0x20 for the direction and 0x1F for the shift.\<close>

definition i4b_echo_cancel_binary_adapt_sub :: "u8 \<Rightarrow> int \<Rightarrow> bool \<Rightarrow> u8 \<times> int" where
  "i4b_echo_cancel_binary_adapt_sub pstate ph too_little =
     (let sign = (if too_little then 0x80 else 0xC0);
          shift = pstate AND 0x1F;
          pstate = (if (pstate XOR sign) AND 0xC0 \<noteq> 0 then (pstate AND 0x1F) OR sign else pstate);
          up = (pstate AND 0x20 \<noteq> 0);
          pstate' = (if \<not> up \<and> shift = 0 then pstate OR 0x20 else pstate);
          shift = (if up then if shift \<noteq> 19 then shift + 1 else shift else if shift \<noteq> 0 then shift - 1 else shift);
          d = wrap32 (2 ^ unat shift)
      in ((pstate' AND 0xE0) OR shift, wrap32 (if sign AND 0x40 \<noteq> 0 then ph - d else ph + d)))"

definition adapt_tap :: "cplx list \<Rightarrow> nat \<Rightarrow> u8 list \<times> int list \<Rightarrow> (u8 list \<times> int list) option" where
  "adapt_tap c n = (\<lambda>(st, hr). do {
     x \<leftarrow> aget c (int n);
     p \<leftarrow> aget st (int n);
     h \<leftarrow> aget hr (int n);
     let (p, h) = i4b_echo_cancel_binary_adapt_sub p h (fst x \<ge> 0);
     st \<leftarrow> aput st (int n) p;
     hr \<leftarrow> aput hr (int n) h;
     Some (st, hr) })"

definition i4b_echo_cancel_binary_adapt :: "i4b_echo_cancel \<Rightarrow> i4b_echo_cancel option" where
  "i4b_echo_cancel_binary_adapt ec = do {
     c \<leftarrow> i4b_echo_cancel_fft (buf_EC ec) 1;
     (st, hr) \<leftarrow> loop_over (adapt_tap c) [0..<N_TAPS] (buf_state ec, buf_HR ec);
     Some (ec\<lparr>buf_EC := c, buf_state := st, buf_HR := hr\<rparr>) }"

text \<open>Moving the coefficients by one place, as far as the arrays are meant to reach.\<close>

definition shift_up :: "'a \<Rightarrow> 'a list \<Rightarrow> 'a list option" where
  "shift_up z xs = (if length xs < N_TAPS then None else Some (z # take (N_TAPS - 1) xs @ drop N_TAPS xs))"

definition shift_down :: "'a \<Rightarrow> 'a list \<Rightarrow> 'a list option" where
  "shift_down z xs = (if length xs < N_TAPS then None else Some (take (N_TAPS - 1) (drop 1 xs) @ z # drop N_TAPS xs))"

text \<open>\<open>offset_rd\<close> plus a signed number, in 16 bits.\<close>

definition add16 :: "nat \<Rightarrow> int \<Rightarrow> nat" where
  "add16 n d = nat ((int n + d) mod 0x10000)"

text \<open>The adjustment of the delay; the second result says that the adaption has to start again.\<close>

definition adjust_delay :: "i4b_echo_cancel \<Rightarrow> (i4b_echo_cancel \<times> bool) option" where
  "adjust_delay ec =
     (if offset_adjust ec < - 16 \<or> offset_adjust ec > 16
      then let rd = add16 (offset_rd ec) (offset_adjust ec)
           in if rd > R_SIZE - 1 \<or> rd < offset_wr ec
              then Some (ec\<lparr>offset_rd := add16 rd (- offset_adjust ec)\<rparr>, False)
              else Some (ec\<lparr>offset_rd := rd, offset_adjust := 0\<rparr>, True)
      else if offset_adjust ec < 0 \<and> offset_rd ec > offset_wr ec
      then do {
        hr \<leftarrow> shift_up 0 (buf_HR ec);
        st \<leftarrow> shift_up 0 (buf_state ec);
        Some (ec\<lparr>offset_rd := offset_rd ec - 1, offset_adjust := offset_adjust ec + 1, buf_HR := hr, buf_state := st\<rparr>, False) }
      else if offset_adjust ec > 0 \<and> offset_rd ec < R_SIZE - 1
      then do {
        hr \<leftarrow> shift_down 0 (buf_HR ec);
        st \<leftarrow> shift_down 0 (buf_state ec);
        Some (ec\<lparr>offset_rd := offset_rd ec + 1, offset_adjust := offset_adjust ec - 1, buf_HR := hr, buf_state := st\<rparr>, False) }
      else Some (ec, False))"

definition check_coeffs :: "i4b_echo_cancel \<Rightarrow> i4b_echo_cancel option" where
  "check_coeffs ec = do {
     (max_y, max_x, sum_y) \<leftarrow> i4b_echo_cancel_stats (buf_HR ec);
     Some (if sum_y \<ge> N_HR_DP * 2
           then ec\<lparr>buf_HR := replicate N_TAPS 0, buf_state := replicate N_TAPS 0, ec_active := False\<rparr>
           else let max_y = (if max_y < 0 then - max_y else max_y)
                in ec\<lparr>ec_active := (max_y \<ge> N_HR_DP div 1024)\<rparr>) }"

text \<open>The Fourier transform of the coefficients, and the echo buffer moved up.\<close>

definition load_filter :: "i4b_echo_cancel \<Rightarrow> i4b_echo_cancel option" where
  "load_filter ec = do {
     h \<leftarrow> aget_all (buf_HR ec) (map int [0..<N_TAPS]);
     hc \<leftarrow> i4b_echo_cancel_fft (map (\<lambda>x. (x, 0)) h @ replicate N_TAPS (0, 0)) 0;
     et \<leftarrow> copy_within (buf_ET ec) (2 * N_TAPS) (2 * N_TAPS);
     Some (ec\<lparr>buf_HC := hc, buf_ET := et, offset_e := (offset_e ec + 2 * N_TAPS) mod 0x10000\<rparr>) }"

definition i4b_echo_cancel_compute_sub :: "i4b_echo_cancel \<Rightarrow> (i4b_echo_cancel \<times> bool) option" where
  "i4b_echo_cancel_compute_sub ec = do {
     ec \<leftarrow> i4b_echo_cancel_load_complex_e ec;
     ec \<leftarrow> i4b_echo_cancel_complex_adapt ec;
     ec \<leftarrow> if ec_adapt ec then i4b_echo_cancel_binary_adapt ec else Some ec;
     (ec, again) \<leftarrow> adjust_delay ec;
     if again then Some (ec, True)
     else do {
       ec \<leftarrow> check_coeffs ec;
       ec \<leftarrow> load_filter ec;
       Some (ec, False) } }"

text \<open>The result \<open>True\<close> of the following function is the label \<open>no_data\<close>.\<close>

definition compute_echo :: "i4b_echo_cancel \<Rightarrow> (i4b_echo_cancel \<times> bool) option" where
  "compute_echo ec =
     (if offset_rd ec \<le> offset_wr ec then Some (ec, True)
      else let max_samples = (if offset_rd ec - offset_wr ec > N_TAPS then N_TAPS else offset_rd ec - offset_wr ec)
           in do {
             ec \<leftarrow> i4b_echo_cancel_load_complex_x (ec\<lparr>offset_x := max_samples\<rparr>) max_samples;
             (ec, e0) \<leftarrow> i4b_echo_cancel_convolute_fir ec (buf_HC ec) (buf_E0 ec);
             Some (ec\<lparr>buf_E0 := e0\<rparr>, False) })"

definition i4b_echo_cancel_compute :: "i4b_echo_cancel \<Rightarrow> (i4b_echo_cancel \<times> bool) option" where
  "i4b_echo_cancel_compute ec = do {
     (ec, again) \<leftarrow> if offset_e ec < N_TAPS then i4b_echo_cancel_compute_sub ec else Some (ec, False);
     if again then Some (ec, True) else compute_echo ec }"

definition i4b_echo_cancel_subtract :: "i4b_echo_cancel \<Rightarrow> int \<Rightarrow> (i4b_echo_cancel \<times> int) option" where
  "i4b_echo_cancel_subtract ec y0 =
     (let (ec, noise) = i4b_echo_cancel_noise ec; y0 = wrap32 (y0 * N_PRE); old_y0 = y0; x = dec16 (offset_x ec); e = dec16 (offset_e ec)
      in do {
        e0 \<leftarrow> aget (buf_E0 ec) (int x);
        let y0 = wrap32 (y0 - e0);
        let y0 = (if y0 > N_PRE * SAMPLE_MAX then N_PRE * SAMPLE_MAX else if y0 < - (N_PRE * SAMPLE_MAX) then - (N_PRE * SAMPLE_MAX) else y0);
        let y0 = wrap32 (y0 + cdivide noise (0x200000 div N_PRE));
        et \<leftarrow> aput (buf_ET ec) (int e) y0;
        let mute = (\<not> ec_active ec \<and> ec_adapt ec \<and> mute_count ec < N_COMPLEX * 32);
        let y0 = (if ec_active ec then y0 else if mute then cdivide old_y0 64 else old_y0);
        Some (ec\<lparr>offset_x := x, offset_e := e, buf_ET := et, mute_count := (if mute then mute_count ec + 1 else mute_count ec)\<rparr>,
              wrap16 (cdivide y0 N_PRE)) })"

section \<open>The entries\<close>

definition i4b_echo_cancel_update_feeder :: "i4b_echo_cancel \<Rightarrow> u16 \<Rightarrow> i4b_echo_cancel" where
  "i4b_echo_cancel_update_feeder ec tx_time = ec\<lparr>ec_tx_time := tx_time\<rparr>"

definition feed_sample :: "u8 \<Rightarrow> i4b_echo_cancel \<Rightarrow> i4b_echo_cancel option" where
  "feed_sample c ec =
     (let (ec, t) = i4b_echo_cancel_hp_f1 ec (convert_fwd ec c)
      in do {
        x0 \<leftarrow> aput (buf_X0 ec) (int (offset_wr ec)) t;
        if offset_wr ec = 0
        then do {
          x0 \<leftarrow> copy_within x0 F_SIZE F_SIZE;
          let rd = (offset_rd ec + F_SIZE) mod 0x10000;
          Some (ec\<lparr>buf_X0 := x0, offset_wr := F_SIZE - 1, offset_rd := (if rd > R_SIZE - 1 then R_SIZE - 1 else rd)\<rparr>) }
        else Some (ec\<lparr>buf_X0 := x0, offset_wr := offset_wr ec - 1\<rparr>) })"

definition clamp_wr :: "i4b_echo_cancel \<Rightarrow> i4b_echo_cancel" where
  "clamp_wr ec = (if offset_wr ec > F_SIZE - 1 then ec\<lparr>offset_wr := F_SIZE - 1\<rparr> else ec)"

definition i4b_echo_cancel_feed :: "i4b_echo_cancel \<Rightarrow> u8 list \<Rightarrow> i4b_echo_cancel option" where
  "i4b_echo_cancel_feed ec data =
     loop_over feed_sample data (clamp_wr (if data \<noteq> [] then ec\<lparr>last_byte := last data\<rparr> else ec))"

definition i4b_echo_cancel_update_merger :: "i4b_echo_cancel \<Rightarrow> u16 \<Rightarrow> i4b_echo_cancel" where
  "i4b_echo_cancel_update_merger ec rx_time =
     (let ec = ec\<lparr>ec_rx_time := rx_time\<rparr>;
          d_time = unat (ec_tx_time ec - ec_rx_time ec + pre_delay ec);
          d_time = (if d_time > T_MAX - 1 then T_MAX - 1 else d_time);
          ec = clamp_wr ec;
          ec = (if offset_rd ec > R_SIZE - 1 then ec\<lparr>offset_rd := R_SIZE - 1\<rparr> else ec);
          ec = (if offset_rd ec < offset_wr ec then ec\<lparr>offset_rd := offset_wr ec\<rparr> else ec);
          d_len = offset_rd ec - offset_wr ec
      in if (d_time > 4 \<and> d_len < d_time - 4) \<or> d_len > d_time + 4
         then ec\<lparr>offset_adjust := wrap16 (int d_time - int d_len)\<rparr> else ec)"

definition merge_sample :: "u8 \<Rightarrow> i4b_echo_cancel \<times> u8 list \<Rightarrow> (i4b_echo_cancel \<times> u8 list) option" where
  "merge_sample c = (\<lambda>(ec, out).
     let (ec, t) = i4b_echo_cancel_hp_f2 ec (convert_fwd ec c)
     in do { (ec, t) \<leftarrow> i4b_echo_cancel_subtract ec t; Some (ec, out @ [convert_rev ec t]) })"

text \<open>
  The loop of \<open>i4b_echo_cancel_merge\<close> on the octets still to read; the second result is the octets that have been replaced,
  followed by those left as they were.
\<close>

function merge_loop :: "i4b_echo_cancel \<Rightarrow> u8 list \<Rightarrow> (i4b_echo_cancel \<times> u8 list) option" where
  "merge_loop ec data =
     (if offset_rd ec \<le> offset_wr ec then Some (ec, data)
      else do {
        ec \<leftarrow> if offset_x ec = 0
             then do {
               (ec, no_data) \<leftarrow> i4b_echo_cancel_compute ec;
               Some (if no_data then i4b_echo_cancel_coeffs_reset ec else ec) }
             else Some ec;
        let n = min (min (sub16 (offset_rd ec) (offset_wr ec)) (length data)) (offset_x ec);
        if n = 0 then Some (ec, data)
        else do {
          (ec, out) \<leftarrow> loop_over merge_sample (take n data) (ec, []);
          (ec, rest) \<leftarrow> merge_loop (ec\<lparr>offset_rd := sub16 (offset_rd ec) n\<rparr>) (drop n data);
          Some (ec, out @ rest) } })"
  by pat_completeness auto
termination
  by (relation "measure (\<lambda>(ec, data). length data)") auto

definition i4b_echo_cancel_merge :: "i4b_echo_cancel \<Rightarrow> u8 list \<Rightarrow> (i4b_echo_cancel \<times> u8 list) option" where
  "i4b_echo_cancel_merge ec data = merge_loop ec data"

end
