(* ===== verification/Echo_Safe.thy ===== *)
theory Echo_Safe
  imports Echo_Cancel
begin

text \<open>
  The echo canceller stays inside its arrays: the invariant of its offsets, which every entry keeps, whatever octets
  and times it is given.
\<close>

section \<open>The invariant\<close>

definition ec_sizes :: "i4b_echo_cancel \<Rightarrow> bool" where
  "ec_sizes ec \<longleftrightarrow> length (buf_HC ec) = 1024 \<and> length (buf_HR ec) = 512 \<and> length (buf_E0 ec) = 512 \<and> length (buf_ET ec) = 2048 \<and>
     length (buf_state ec) = 512 \<and> length (buf_EC ec) = 1024 \<and> length (buf_XC ec) = 1024 \<and> length (buf_X0 ec) = 6144"

definition ec_ring :: "i4b_echo_cancel \<Rightarrow> bool" where
  "ec_ring ec \<longleftrightarrow> offset_wr ec < 3072 \<and> offset_wr ec \<le> offset_rd ec \<and> offset_rd ec < 5120"

definition ec_ok :: "i4b_echo_cancel \<Rightarrow> bool" where
  "ec_ok ec \<longleftrightarrow> ec_sizes ec \<and> ec_ring ec \<and> offset_x ec \<le> 512 \<and> offset_x ec \<le> offset_e ec \<and> offset_e ec \<le> 2048"

definition same_offsets :: "i4b_echo_cancel \<Rightarrow> i4b_echo_cancel \<Rightarrow> bool" where
  "same_offsets ec ec' \<longleftrightarrow> offset_x ec' = offset_x ec \<and> offset_wr ec' = offset_wr ec \<and> offset_rd ec' = offset_rd ec \<and> offset_e ec' = offset_e ec"

lemma init_ec_ok: "ec_ok (i4b_echo_cancel_init delay prot)"
  by (simp add: ec_ok_def ec_sizes_def ec_ring_def i4b_echo_cancel_init_def)

lemma aget_all_inside:
  "\<forall>i\<in>set is. 0 \<le> i \<and> i < int (length xs) \<Longrightarrow> \<exists>ys. aget_all xs is = Some ys \<and> length ys = length is"
  by (induction "is") (auto simp: aget_all_def)

lemma load_halves_total:
  assumes "511 \<le> pb" "pb + 512 < int (length src)"
  shows "\<exists>c. load_halves src pb f = Some c \<and> length c = 1024"
proof -
  obtain lo where lo: "aget_all src (map (\<lambda>k. pb - int k) [0..<512]) = Some lo" "length lo = 512"
    using aget_all_inside [of "map (\<lambda>k. pb - int k) [0..<512]" src] assms by auto
  obtain hi where "aget_all src (map (\<lambda>k. pb - int k + int 512) [0..<512]) = Some hi" "length hi = 512"
    using aget_all_inside [of "map (\<lambda>k. pb - int k + int 512) [0..<512]" src] assms by auto
  then show ?thesis
    using lo by (simp add: load_halves_def)
qed

lemma component_total: "length c = 1024 \<Longrightarrow> 1 \<le> i \<Longrightarrow> i < 512 \<Longrightarrow> \<exists>x y. component c i = Some (x, y)"
  by (simp add: component_def)

lemma set_component_total: "length c = 1024 \<Longrightarrow> 1 \<le> i \<Longrightarrow> i < 512 \<Longrightarrow> \<exists>c'. set_component i t c = Some c' \<and> length c' = 1024"
  by (simp add: set_component_def)

lemma convolute_component_total:
  assumes "length xc = 1024" "length c = 1024" "1 \<le> i" "i < 512"
  shows "\<exists>c'. convolute_component xc i c = Some c' \<and> length c' = 1024"
proof -
  obtain dx dy ex ey where "component xc i = Some (dx, dy)" "component c i = Some (ex, ey)"
    using component_total [OF assms(1,3,4)] component_total [OF assms(2-)] by blast
  then show ?thesis
    using set_component_total [OF assms(2-)] by (simp add: convolute_component_def Let_def)
qed

lemma convolute_real_total:
  "length xc = 1024 \<Longrightarrow> length c = 1024 \<Longrightarrow> i \<le> 512 \<Longrightarrow> \<exists>c'. convolute_real xc i c = Some c' \<and> length c' = 1024"
  by (simp add: convolute_real_def)

lemma convolute_fir_total:
  assumes "ec_sizes ec" "length c = 1024" "length e = 512"
  shows "\<exists>ec' e'. i4b_echo_cancel_convolute_fir ec c e = Some (ec', e') \<and> ec_sizes ec' \<and> same_offsets ec ec' \<and> length e' = 512"
proof -
  have xc: "length (buf_XC ec) = 1024"
    using assms(1) by (simp add: ec_sizes_def)
  obtain c1 where 1: "loop_over (convolute_component (buf_XC ec)) [1..<512] c = Some c1" "length c1 = 1024"
    using loop_over_inv [of "[1..<512]" "\<lambda>c. length c = 1024" "convolute_component (buf_XC ec)" c] convolute_component_total [OF xc] assms(2)
    by auto
  obtain c2 where 2: "convolute_real (buf_XC ec) 0 c1 = Some c2" "length c2 = 1024"
    using convolute_real_total [OF xc 1(2), of 0] by auto
  obtain c3 where 3: "convolute_real (buf_XC ec) 512 c2 = Some c3" "length c3 = 1024"
    using convolute_real_total [OF xc 2(2), of 512] by auto
  obtain c4 where 4: "i4b_echo_cancel_fft c3 3 = Some c4" "length c4 = 1024"
    using fft_total [OF 3(2)] by auto
  show ?thesis
    using assms(1,3) 4(2) by (simp add: i4b_echo_cancel_convolute_fir_def 1(1) [simplified] 2(1) 3(1) 4(1) ec_sizes_def same_offsets_def)
qed

lemma adapt_component_total:
  assumes "length xc = 1024" "length c = 1024" "1 \<le> i" "i < 512"
  shows "\<exists>c' na'. adapt_component xc i (c, na) = Some (c', na') \<and> length c' = 1024"
proof -
  obtain dx dy ex ey where "component xc i = Some (dx, dy)" "component c i = Some (ex, ey)"
    using component_total [OF assms(1,3,4)] component_total [OF assms(2-)] by blast
  moreover obtain f where "\<And>t. set_component i t c = Some (f t) \<and> length (f t) = 1024"
    using set_component_total [OF assms(2-)] by metis
  ultimately show ?thesis
    by (simp add: adapt_component_def Let_def)
qed

lemma complex_adapt_total:
  assumes "ec_sizes ec"
  shows "\<exists>ec'. i4b_echo_cancel_complex_adapt ec = Some ec' \<and> ec_sizes ec' \<and> same_offsets ec ec'"
proof -
  have len: "length (buf_XC ec) = 1024" "length (buf_EC ec) = 1024"
    using assms by (simp_all add: ec_sizes_def)
  have "\<exists>st. loop_over (adapt_component (buf_XC ec)) [1..<512] (buf_EC ec, 0) = Some st \<and> length (fst st) = 1024"
  proof (rule loop_over_inv)
    fix i and st :: "cplx list \<times> nat"
    assume "i \<in> set [1..<512]" "length (fst st) = 1024"
    then show "\<exists>st'. adapt_component (buf_XC ec) i st = Some st' \<and> length (fst st') = 1024"
      using adapt_component_total [OF len(1), of "fst st" i "snd st"] by auto
  qed (simp add: len)
  then show ?thesis
    using assms by (auto simp: i4b_echo_cancel_complex_adapt_def ec_sizes_def same_offsets_def)
qed

lemma adapt_tap_total:
  assumes "length c = 1024" "length (fst st) = 512" "length (snd st) = 512" "n < 512"
  shows "\<exists>st'. adapt_tap c n st = Some st' \<and> length (fst st') = 512 \<and> length (snd st') = 512"
  using assms by (cases st) (simp add: adapt_tap_def split_beta Let_def)

lemma binary_adapt_total:
  assumes "ec_sizes ec"
  shows "\<exists>ec'. i4b_echo_cancel_binary_adapt ec = Some ec' \<and> ec_sizes ec' \<and> same_offsets ec ec'"
proof -
  obtain c where c: "i4b_echo_cancel_fft (buf_EC ec) 1 = Some c" "length c = 1024"
    using fft_total assms by (auto simp: ec_sizes_def)
  have "\<exists>st. loop_over (adapt_tap c) [0..<512] (buf_state ec, buf_HR ec) = Some st \<and> length (fst st) = 512 \<and> length (snd st) = 512"
    using adapt_tap_total [OF c(2)] assms by (intro loop_over_inv) (auto simp: ec_sizes_def)
  then show ?thesis
    using c assms by (auto simp: i4b_echo_cancel_binary_adapt_def ec_sizes_def same_offsets_def)
qed

section \<open>The computation of the echo\<close>

lemma load_complex_e_total:
  assumes "ec_sizes ec" "offset_e ec < 512"
  shows "\<exists>ec'. i4b_echo_cancel_load_complex_e ec = Some ec' \<and> ec_sizes ec' \<and> same_offsets ec ec'"
proof -
  obtain c where c: "load_halves (buf_ET ec) (int (offset_e ec) + int 512 - 1) (\<lambda>x. x) = Some c" "length c = 1024"
    using load_halves_total [of "int (offset_e ec) + int 512 - 1" "buf_ET ec" "\<lambda>x. x"] assms by (auto simp: ec_sizes_def)
  obtain d where "i4b_echo_cancel_fft c 0 = Some d" "length d = 1024"
    using fft_total [OF c(2)] by auto
  then show ?thesis
    using c(1) assms(1) by (simp add: i4b_echo_cancel_load_complex_e_def ec_sizes_def same_offsets_def)
qed

lemma load_complex_x_total:
  assumes "ec_sizes ec" "ec_ring ec" "1 \<le> n" "n \<le> 512" "n \<le> offset_rd ec - offset_wr ec"
  shows "\<exists>ec'. i4b_echo_cancel_load_complex_x ec n = Some ec' \<and> ec_sizes ec' \<and> same_offsets ec ec'"
proof -
  obtain c where c: "load_halves (buf_X0 ec) (int (offset_rd ec) + int 512 - int n) (\<lambda>x. wrap32 (x * 8)) = Some c" "length c = 1024"
    using load_halves_total [of "int (offset_rd ec) + int 512 - int n" "buf_X0 ec" "\<lambda>x. wrap32 (x * 8)"] assms
    by (auto simp: ec_sizes_def ec_ring_def)
  obtain d where "i4b_echo_cancel_fft c 0 = Some d" "length d = 1024"
    using fft_total [OF c(2)] by auto
  then show ?thesis
    using c(1) assms(1) by (simp add: i4b_echo_cancel_load_complex_x_def ec_sizes_def same_offsets_def)
qed

lemma shift_total: "length xs = 512 \<Longrightarrow> \<exists>ys. shift_up z xs = Some ys \<and> length ys = 512" "length xs = 512 \<Longrightarrow> \<exists>ys. shift_down z xs = Some ys \<and> length ys = 512"
  by (simp_all add: shift_up_def shift_down_def)

lemma add16_back: "n < 0x10000 \<Longrightarrow> add16 (add16 n d) (- d) = n"
  by (simp add: add16_def mod_simps)

lemma adjust_delay_total:
  assumes "ec_sizes ec" "ec_ring ec"
  shows "\<exists>ec' again. adjust_delay ec = Some (ec', again) \<and> ec_sizes ec' \<and> ec_ring ec' \<and> offset_e ec' = offset_e ec \<and> offset_x ec' = offset_x ec"
proof -
  have len: "length (buf_HR ec) = 512" "length (buf_state ec) = 512"
    using assms(1) by (simp_all add: ec_sizes_def)
  have "add16 (add16 (offset_rd ec) (offset_adjust ec)) (- offset_adjust ec) = offset_rd ec"
    using assms(2) by (intro add16_back) (simp add: ec_ring_def)
  moreover obtain h s where "shift_up 0 (buf_HR ec) = Some h" "length h = 512" "shift_up 0 (buf_state ec) = Some s" "length s = 512"
    using shift_total(1) [OF len(1)] shift_total(1) [OF len(2)] by metis
  moreover obtain h' s' where "shift_down 0 (buf_HR ec) = Some h'" "length h' = 512" "shift_down 0 (buf_state ec) = Some s'" "length s' = 512"
    using shift_total(2) [OF len(1)] shift_total(2) [OF len(2)] by metis
  ultimately show ?thesis
    using assms by (auto simp: adjust_delay_def ec_sizes_def ec_ring_def Let_def)
qed

lemma stats_total: "length hr = 512 \<Longrightarrow> \<exists>y x z. i4b_echo_cancel_stats hr = Some (y, x, z)"
proof -
  assume "length hr = 512"
  then have "\<exists>st. i4b_echo_cancel_stats hr = Some st \<and> True"
    unfolding i4b_echo_cancel_stats_def by (intro loop_over_inv) (auto simp: Let_def)
  then show ?thesis
    by auto
qed

lemma check_coeffs_total:
  assumes "ec_sizes ec"
  shows "\<exists>ec'. check_coeffs ec = Some ec' \<and> ec_sizes ec' \<and> same_offsets ec ec'"
proof -
  have "length (buf_HR ec) = 512"
    using assms by (simp add: ec_sizes_def)
  then obtain y x z where "i4b_echo_cancel_stats (buf_HR ec) = Some (y, x, z)"
    using stats_total by blast
  then show ?thesis
    using assms by (simp add: check_coeffs_def ec_sizes_def same_offsets_def)
qed

lemma load_filter_total:
  assumes "ec_sizes ec" "offset_e ec < 512"
  shows "\<exists>ec'. load_filter ec = Some ec' \<and> ec_sizes ec' \<and> same_offsets (ec\<lparr>offset_e := offset_e ec + 1024\<rparr>) ec'"
proof -
  obtain h where h: "aget_all (buf_HR ec) (map int [0..<512]) = Some h" "length h = 512"
    using aget_all_inside [of "map int [0..<512]" "buf_HR ec"] assms by (auto simp: ec_sizes_def)
  obtain hc where hc: "i4b_echo_cancel_fft (map (\<lambda>x. (x, 0)) h @ replicate 512 (0, 0)) 0 = Some hc" "length hc = 1024"
    using fft_total [of "map (\<lambda>x. (x, 0)) h @ replicate 512 (0, 0)" 0] h(2) by auto
  have "\<exists>et. copy_within (buf_ET ec) 1024 1024 = Some et \<and> length et = 2048"
    using assms(1) by (simp add: copy_within_def ec_sizes_def)
  then show ?thesis
    using h(1) hc assms by (auto simp: load_filter_def ec_sizes_def same_offsets_def)
qed

lemma same_offsets_ring: "same_offsets ec ec' \<Longrightarrow> ec_ring ec' = ec_ring ec" "same_offsets ec ec' \<Longrightarrow> offset_e ec' = offset_e ec" "same_offsets ec ec' \<Longrightarrow> offset_x ec' = offset_x ec"
  by (simp_all add: same_offsets_def ec_ring_def)

lemma compute_sub_total:
  assumes "ec_sizes ec" "ec_ring ec" "offset_e ec < 512"
  shows "\<exists>ec' again. i4b_echo_cancel_compute_sub ec = Some (ec', again) \<and> ec_sizes ec' \<and> ec_ring ec' \<and> (\<not> again \<longrightarrow> offset_e ec' = offset_e ec + 1024)"
proof -
  obtain ec1 where 1: "i4b_echo_cancel_load_complex_e ec = Some ec1" "ec_sizes ec1" "same_offsets ec ec1"
    using load_complex_e_total [OF assms(1,3)] by blast
  obtain ec2 where 2: "i4b_echo_cancel_complex_adapt ec1 = Some ec2" "ec_sizes ec2" "same_offsets ec1 ec2"
    using complex_adapt_total [OF 1(2)] by blast
  obtain ec3 where 3: "(if ec_adapt ec2 then i4b_echo_cancel_binary_adapt ec2 else Some ec2) = Some ec3" "ec_sizes ec3" "same_offsets ec2 ec3"
    using binary_adapt_total [OF 2(2)] 2(2) by (cases "ec_adapt ec2") (auto simp: same_offsets_def)
  have r3: "ec_ring ec3" "offset_e ec3 = offset_e ec"
    using assms(2) same_offsets_ring 1(3) 2(3) 3(3) by simp_all
  obtain ec4 again where 4: "adjust_delay ec3 = Some (ec4, again)" "ec_sizes ec4" "ec_ring ec4" "offset_e ec4 = offset_e ec"
    using adjust_delay_total [OF 3(2) r3(1)] r3(2) by auto
  obtain ec5 where 5: "check_coeffs ec4 = Some ec5" "ec_sizes ec5" "same_offsets ec4 ec5"
    using check_coeffs_total [OF 4(2)] by blast
  obtain ec6 where 6: "load_filter ec5 = Some ec6" "ec_sizes ec6" "same_offsets (ec5\<lparr>offset_e := offset_e ec5 + 1024\<rparr>) ec6"
    using load_filter_total [OF 5(2)] same_offsets_ring(2) [OF 5(3)] 4(4) assms(3) by auto
  have "ec_ring ec6" "offset_e ec6 = offset_e ec + 1024"
    using 4(3,4) 5(3) 6(3) by (simp_all add: same_offsets_def ec_ring_def)
  then show ?thesis
    using 4 6(2) by (cases again) (auto simp: i4b_echo_cancel_compute_sub_def 1(1) 2(1) 3(1) 5(1) 6(1))
qed

lemma compute_echo_total:
  assumes "ec_sizes ec" "ec_ring ec"
  shows "\<exists>ec' no_data. compute_echo ec = Some (ec', no_data) \<and> ec_sizes ec' \<and> ec_ring ec' \<and> offset_e ec' = offset_e ec \<and> (\<not> no_data \<longrightarrow> offset_x ec' \<le> 512)"
proof (cases "offset_rd ec \<le> offset_wr ec")
  case True
  then show ?thesis
    using assms by (auto simp: compute_echo_def)
next
  case False
  define n where "n = (if offset_rd ec - offset_wr ec > 512 then 512 else offset_rd ec - offset_wr ec)"
  let ?ec = "ec\<lparr>offset_x := n\<rparr>"
  have n: "1 \<le> n" "n \<le> 512" "n \<le> offset_rd ?ec - offset_wr ?ec"
    using False by (auto simp: n_def)
  have ok: "ec_sizes ?ec" "ec_ring ?ec"
    using assms by (simp_all add: ec_sizes_def ec_ring_def)
  obtain ec1 where 1: "i4b_echo_cancel_load_complex_x ?ec n = Some ec1" "ec_sizes ec1" "same_offsets ?ec ec1"
    using load_complex_x_total [OF ok n] by blast
  have "length (buf_HC ec1) = 1024" "length (buf_E0 ec1) = 512"
    using 1(2) by (simp_all add: ec_sizes_def)
  from convolute_fir_total [OF 1(2) this] obtain ec2 e where
    2: "i4b_echo_cancel_convolute_fir ec1 (buf_HC ec1) (buf_E0 ec1) = Some (ec2, e)" "ec_sizes ec2" "same_offsets ec1 ec2" "length e = 512"
    by blast
  have "compute_echo ec = Some (ec2\<lparr>buf_E0 := e\<rparr>, False)"
    using False 1(1) 2(1) by (simp add: compute_echo_def Let_def flip: n_def)
  then show ?thesis
    using 1(3) 2(2-4) n(2) assms(2) by (auto simp: ec_sizes_def same_offsets_def ec_ring_def)
qed

lemma compute_total:
  assumes "ec_sizes ec" "ec_ring ec" "offset_e ec \<le> 2048"
  shows "\<exists>ec' no_data. i4b_echo_cancel_compute ec = Some (ec', no_data) \<and> ec_sizes ec' \<and> ec_ring ec' \<and>
    (\<not> no_data \<longrightarrow> offset_x ec' \<le> 512 \<and> 512 \<le> offset_e ec' \<and> offset_e ec' \<le> 2048)"
proof -
  obtain ec1 again where 1: "(if offset_e ec < 512 then i4b_echo_cancel_compute_sub ec else Some (ec, False)) = Some (ec1, again)"
    "ec_sizes ec1" "ec_ring ec1" "\<not> again \<longrightarrow> 512 \<le> offset_e ec1 \<and> offset_e ec1 \<le> 2048"
    using compute_sub_total [OF assms(1,2)] assms by (cases "offset_e ec < 512") auto
  then show ?thesis
    using compute_echo_total [OF 1(2,3)] by (cases again) (auto simp: i4b_echo_cancel_compute_def)
qed

lemma reset_ok: "ec_sizes ec \<Longrightarrow> ec_ring ec \<Longrightarrow> ec_ok (i4b_echo_cancel_coeffs_reset ec)"
  by (simp add: ec_ok_def ec_sizes_def ec_ring_def i4b_echo_cancel_coeffs_reset_def)

section \<open>The microphone\<close>

definition sample_ok :: "i4b_echo_cancel \<Rightarrow> i4b_echo_cancel \<Rightarrow> bool" where
  "sample_ok ec ec' \<longleftrightarrow> ec_sizes ec' \<and> offset_rd ec' = offset_rd ec \<and> offset_wr ec' = offset_wr ec \<and>
     Suc (offset_x ec') = offset_x ec \<and> Suc (offset_e ec') = offset_e ec"

lemma dec16_pos: "0 < n \<Longrightarrow> n < 0x10000 \<Longrightarrow> dec16 n = n - 1"
  by (cases n) (simp_all add: dec16_def)

lemma subtract_total:
  assumes "ec_sizes ec" "0 < offset_x ec" "offset_x ec \<le> 512" "offset_x ec \<le> offset_e ec" "offset_e ec \<le> 2048"
  shows "\<exists>ec' t'. i4b_echo_cancel_subtract ec t = Some (ec', t') \<and> sample_ok ec ec'"
proof -
  obtain ec1 n where 1: "i4b_echo_cancel_noise ec = (ec1, n)"
    by fastforce
  then obtain r where "ec1 = ec\<lparr>noise_rem := r\<rparr>"
    by (auto simp: i4b_echo_cancel_noise_def Let_def)
  then have same: "buf_E0 ec1 = buf_E0 ec" "buf_ET ec1 = buf_ET ec" "offset_x ec1 = offset_x ec" "offset_e ec1 = offset_e ec"
      "offset_rd ec1 = offset_rd ec" "offset_wr ec1 = offset_wr ec" "ec_sizes ec1"
    using assms(1) by (simp_all add: ec_sizes_def)
  have d: "dec16 (offset_x ec) = offset_x ec - 1" "dec16 (offset_e ec) = offset_e ec - 1"
    using assms by (simp_all add: dec16_pos)
  show ?thesis
    using assms same(7) by (simp add: i4b_echo_cancel_subtract_def 1 same d Let_def sample_ok_def ec_sizes_def)
qed

lemma merge_sample_total:
  assumes "ec_sizes ec" "0 < offset_x ec" "offset_x ec \<le> 512" "offset_x ec \<le> offset_e ec" "offset_e ec \<le> 2048"
  shows "\<exists>ec' c'. merge_sample c (ec, out) = Some (ec', out @ [c']) \<and> sample_ok ec ec'"
proof -
  obtain ec1 t where 1: "i4b_echo_cancel_hp_f2 ec (convert_fwd ec c) = (ec1, t)"
    by fastforce
  then obtain r where "ec1 = ec\<lparr>low_pass_2 := r\<rparr>"
    by (auto simp: i4b_echo_cancel_hp_f2_def Let_def)
  then have same: "ec_sizes ec1" "offset_x ec1 = offset_x ec" "offset_e ec1 = offset_e ec" "offset_rd ec1 = offset_rd ec" "offset_wr ec1 = offset_wr ec"
    using assms(1) by (simp_all add: ec_sizes_def)
  then show ?thesis
    using subtract_total [of ec1 t] assms 1 by (auto simp: merge_sample_def sample_ok_def)
qed

lemma merge_samples_total:
  assumes "ec_sizes ec" "length cs \<le> offset_x ec" "offset_x ec \<le> 512" "offset_x ec \<le> offset_e ec" "offset_e ec \<le> 2048"
  shows "\<exists>ec' out'. loop_over merge_sample cs (ec, out) = Some (ec', out') \<and> ec_sizes ec' \<and> length out' = length out + length cs \<and>
    offset_rd ec' = offset_rd ec \<and> offset_wr ec' = offset_wr ec \<and> offset_x ec' = offset_x ec - length cs \<and> offset_e ec' = offset_e ec - length cs"
  using assms
proof (induction cs arbitrary: ec out)
  case (Cons c cs)
  obtain ec1 c' where 1: "merge_sample c (ec, out) = Some (ec1, out @ [c'])" "sample_ok ec ec1"
    using merge_sample_total [of ec c out] Cons.prems by auto
  have "ec_sizes ec1" "offset_x ec1 = offset_x ec - 1" "offset_e ec1 = offset_e ec - 1" "offset_rd ec1 = offset_rd ec" "offset_wr ec1 = offset_wr ec"
    using 1(2) by (auto simp: sample_ok_def)
  then show ?case
    using Cons.IH [of ec1 "out @ [c']"] Cons.prems 1(1) by auto
qed simp

lemma sub16_le: "b \<le> a \<Longrightarrow> a < 0x10000 \<Longrightarrow> sub16 a b = a - b"
  by (simp add: sub16_def mod_if)

declare merge_loop.simps [simp del]

lemma merge_refill_total:
  assumes "ec_ok ec"
  shows "\<exists>ec'. (if offset_x ec = 0
      then do { (ec, no_data) \<leftarrow> i4b_echo_cancel_compute ec; Some (if no_data then i4b_echo_cancel_coeffs_reset ec else ec) }
      else Some ec) = Some ec' \<and> ec_ok ec'"
proof (cases "offset_x ec = 0")
  case True
  have "ec_sizes ec" "ec_ring ec" "offset_e ec \<le> 2048"
    using assms by (simp_all add: ec_ok_def)
  from compute_total [OF this] obtain ec1 nd where "i4b_echo_cancel_compute ec = Some (ec1, nd)" "ec_sizes ec1" "ec_ring ec1"
    "\<not> nd \<longrightarrow> offset_x ec1 \<le> 512 \<and> 512 \<le> offset_e ec1 \<and> offset_e ec1 \<le> 2048"
    by blast
  then show ?thesis
    using True reset_ok [of ec1] by (cases nd) (auto simp: ec_ok_def)
qed (use assms in simp)

lemma merge_loop_total:
  assumes "ec_ok ec"
  shows "\<exists>ec' out. merge_loop ec data = Some (ec', out) \<and> ec_ok ec' \<and> length out = length data"
  using assms
proof (induction "length data" arbitrary: ec data rule: less_induct)
  case less
  show ?case
  proof (cases "offset_rd ec \<le> offset_wr ec")
    case True
    then show ?thesis
      using less.prems by (simp add: merge_loop.simps)
  next
    case False
    let ?refill = "\<lambda>ec. if offset_x ec = 0
      then do { (ec, no_data) \<leftarrow> i4b_echo_cancel_compute ec; Some (if no_data then i4b_echo_cancel_coeffs_reset ec else ec) }
      else Some ec"
    obtain ec1 where 1: "?refill ec = Some ec1" "ec_ok ec1"
      using merge_refill_total [OF less.prems] by blast
    have ring: "offset_wr ec1 \<le> offset_rd ec1" "offset_rd ec1 < 5120"
      using 1(2) by (simp_all add: ec_ok_def ec_ring_def)
    define n where "n = min (min (sub16 (offset_rd ec1) (offset_wr ec1)) (length data)) (offset_x ec1)"
    have n: "n \<le> offset_rd ec1 - offset_wr ec1" "n \<le> length data" "n \<le> offset_x ec1"
      using ring by (auto simp: n_def sub16_le)
    show ?thesis
    proof (cases "n = 0")
      case True
      then show ?thesis
        using False 1 by (simp add: merge_loop.simps [of ec] flip: n_def)
    next
      case n0: False
      obtain ec2 out where 2: "loop_over merge_sample (take n data) (ec1, []) = Some (ec2, out)" "ec_sizes ec2" "length out = n"
        "offset_rd ec2 = offset_rd ec1" "offset_wr ec2 = offset_wr ec1" "offset_x ec2 = offset_x ec1 - n" "offset_e ec2 = offset_e ec1 - n"
        using merge_samples_total [of ec1 "take n data" "[]"] 1(2) n by (auto simp: ec_ok_def)
      have "sub16 (offset_rd ec2) n = offset_rd ec1 - n"
        using 2(4) ring n(1) by (simp add: sub16_le)
      then have "ec_ok (ec2\<lparr>offset_rd := sub16 (offset_rd ec2) n\<rparr>)"
        using 1(2) 2 n ring by (auto simp: ec_ok_def ec_ring_def ec_sizes_def)
      moreover have "length (drop n data) < length data"
        using n0 n(2) by simp
      ultimately obtain ec3 rest where
        3: "merge_loop (ec2\<lparr>offset_rd := sub16 (offset_rd ec2) n\<rparr>) (drop n data) = Some (ec3, rest)" "ec_ok ec3" "length rest = length data - n"
        using less.hyps by (metis length_drop)
      then show ?thesis
        using False 1(1) 2(1,3) n n0 by (simp add: merge_loop.simps [of ec] flip: n_def)
    qed
  qed
qed

section \<open>The loudspeaker\<close>

lemma clamp_wr_ok: "ec_ok ec \<Longrightarrow> clamp_wr ec = ec"
  by (simp add: clamp_wr_def ec_ok_def ec_ring_def)

lemma copy_within_inside: "length xs = 6144 \<Longrightarrow> \<exists>ys. copy_within xs 3072 3072 = Some ys \<and> length ys = 6144"
  by (simp add: copy_within_def)

lemma feed_sample_total:
  assumes "ec_ok ec"
  shows "\<exists>ec'. feed_sample c ec = Some ec' \<and> ec_ok ec'"
proof -
  obtain ec1 t where 1: "i4b_echo_cancel_hp_f1 ec (convert_fwd ec c) = (ec1, t)"
    by fastforce
  then obtain r where "ec1 = ec\<lparr>low_pass_1 := r\<rparr>"
    by (auto simp: i4b_echo_cancel_hp_f1_def Let_def)
  then have "ec_ok ec1"
    using assms by (simp add: ec_ok_def ec_sizes_def ec_ring_def)
  then show ?thesis
    using copy_within_inside [of "(buf_X0 ec1)[0 := t]"]
    by (auto simp: feed_sample_def 1 ec_ok_def ec_sizes_def ec_ring_def Let_def)
qed

lemma feed_total: "ec_ok ec \<Longrightarrow> \<exists>ec'. i4b_echo_cancel_feed ec data = Some ec' \<and> ec_ok ec'"
proof -
  assume "ec_ok ec"
  then have "ec_ok (if data \<noteq> [] then ec\<lparr>last_byte := last data\<rparr> else ec)"
    by (simp add: ec_ok_def ec_sizes_def ec_ring_def)
  then show ?thesis
    unfolding i4b_echo_cancel_feed_def using feed_sample_total by (intro loop_over_inv) (simp_all add: clamp_wr_ok)
qed

lemma update_merger_ok: "ec_ok ec \<Longrightarrow> ec_ok (i4b_echo_cancel_update_merger ec rx_time)"
  by (simp add: i4b_echo_cancel_update_merger_def Let_def clamp_wr_def ec_ok_def ec_sizes_def ec_ring_def)

section \<open>All entries\<close>

datatype ec_call = Ec_feed "u8 list" | Ec_merge "u8 list" | Ec_update_feeder u16 | Ec_update_merger u16

text \<open>Calls one after the other; the second result is the buffers that \<open>i4b_echo_cancel_merge\<close> was given, as it leaves them.\<close>

fun ec_calls :: "i4b_echo_cancel \<Rightarrow> ec_call list \<Rightarrow> (i4b_echo_cancel \<times> u8 list list) option" where
  "ec_calls ec [] = Some (ec, [])"
| "ec_calls ec (Ec_feed data # calls) = do { ec \<leftarrow> i4b_echo_cancel_feed ec data; ec_calls ec calls }"
| "ec_calls ec (Ec_merge data # calls) = do {
     (ec, out) \<leftarrow> i4b_echo_cancel_merge ec data;
     (ec, outs) \<leftarrow> ec_calls ec calls;
     Some (ec, out # outs) }"
| "ec_calls ec (Ec_update_feeder t # calls) = ec_calls (i4b_echo_cancel_update_feeder ec t) calls"
| "ec_calls ec (Ec_update_merger t # calls) = ec_calls (i4b_echo_cancel_update_merger ec t) calls"

fun merged :: "ec_call list \<Rightarrow> u8 list list" where
  "merged [] = []"
| "merged (Ec_merge data # calls) = data # merged calls"
| "merged (_ # calls) = merged calls"

lemma ec_calls_total: "ec_ok ec \<Longrightarrow> \<exists>ec' outs. ec_calls ec calls = Some (ec', outs) \<and> ec_ok ec' \<and> map length outs = map length (merged calls)"
proof (induction ec calls rule: ec_calls.induct)
  case (2 ec data calls)
  then show ?case
    using feed_total [OF 2(2), of data] by auto
next
  case (3 ec data calls)
  obtain ec1 out where 1: "i4b_echo_cancel_merge ec data = Some (ec1, out)" "ec_ok ec1" "length out = length data"
    using merge_loop_total [OF 3(2), of data] by (auto simp: i4b_echo_cancel_merge_def)
  then show ?case
    using 3(1) [OF 1(1) refl 1(2)] by auto
next
  case (4 ec t calls)
  then show ?case
    by (simp add: i4b_echo_cancel_update_feeder_def ec_ok_def ec_sizes_def ec_ring_def)
next
  case (5 ec t calls)
  then show ?case
    by (simp add: update_merger_ok)
qed simp

text \<open>
  C30: The echo canceller is safe. Whatever is sent and received, in buffers of any length, and whatever times are reported,
  every call returns, no access leaves an array, among them those of the Fourier transforms, and the
  offsets of the three buffers keep their invariant; a buffer keeps its length.
\<close>

theorem echo_cancel_safe:
  "\<exists>ec outs. ec_calls (i4b_echo_cancel_init delay prot) calls = Some (ec, outs) \<and>
     offset_wr ec \<le> offset_rd ec \<and> offset_wr ec < F_SIZE \<and> offset_rd ec < R_SIZE \<and> offset_x ec \<le> N_TAPS \<and> offset_x ec \<le> offset_e ec \<and>
     map length outs = map length (merged calls)"
  using ec_calls_total [OF init_ec_ok, of delay prot calls] by (auto simp: ec_ok_def ec_ring_def)

end
