(* ===== verification/Spec2Isabelle.thy ===== *)
theory Spec2Isabelle
  imports HDLC_Roundtrip If_Queue DSS1_Stack Isdnd_Inv Voice_Tx Voice_Filter Echo_Safe
begin

unbundle bit_operations_syntax

text \<open>
  Verification of the kernel part of ISDN4BSD, the directory \<^verbatim>\<open>src/src/sys/i4b\<close>, and of its connection
  daemon, \<^verbatim>\<open>src/src/usr.sbin/i4b/isdnd\<close>.

  \<^bold>\<open>The program.\<close> Layer 1 moves octets between a line and frames; where the chip has no HDLC
  controller the macros of \<^verbatim>\<open>layer1/i4b_hdlc.h\<close>, driven by the filters of \<^verbatim>\<open>layer1/ihfc3/i4b_filter.h\<close>,
  do so in software. Frames wait in the queues of \<^verbatim>\<open>include/i4b_queue.h\<close>. The D-channel protocol
  DSS1 (\<^verbatim>\<open>dss1/\<close>) has a data link layer with one link (pipe) per terminal, \<^verbatim>\<open>dss1_l2fsm.c\<close>, and a
  network layer with one state machine per call, \<^verbatim>\<open>dss1_l3fsm.h\<close>, which reads messages with
  \<^verbatim>\<open>dss1_l3decoder.h\<close> and writes them with \<^verbatim>\<open>dss1_l3encoder.h\<close>. The call descriptors, the B-channels
  and the cross connections of a controller are managed by \<^verbatim>\<open>layer4/i4b_l4mgmt.c\<close>; applications
  are told about calls by \<^verbatim>\<open>layer4/i4b_l4.c\<close> and make requests through \<^verbatim>\<open>layer4/i4b_i4bdrv.c\<close>. One such
  application is the daemon \<^verbatim>\<open>isdnd\<close>: it has a table of configuration entries, each with a state machine
  (\<^verbatim>\<open>fsm.c\<close>), and dials, answers and ends calls for the network and telephone drivers.

  \<^bold>\<open>The theories\<close>, each with the code it models:

  \<^item> \<open>I4B_Prelude\<close>: integer types, octets as bit lists, lemmas on lists and words.
  \<^item> \<open>HDLC_Tables\<close>: the tables of \<^verbatim>\<open>i4b_hdlc.c\<close>. The table of the check sequence is the bitwise
    CRC-16/CCITT, and the residue the receiver tests for is right.
  \<^item> \<open>HDLC_Encode\<close>, \<open>HDLC_Transmit\<close>: the macro \<open>HDLC_ENCODE\<close> (both variants) and the transmit filters.
    The octets written are the bits of flags, stuffed octets and check sequence, at any bit alignment.
  \<^item> \<open>HDLC_Decode\<close>: the macro \<open>HDLC_DECODE\<close> and the receive filter: memory safety for any input, and
    that what is delivered passed the check.
  \<^item> \<open>HDLC_Serial\<close>, \<open>HDLC_Receive\<close>: an HDLC receiver that works bit by bit, the specification, and that the
    table driven receive filter refines it. \<open>HDLC_Roundtrip\<close>: frames sent by the transmit filter are received.
  \<^item> \<open>If_Queue\<close>: the queue macros on linked storage refine lists; the locale \<open>packet_queue\<close> is their contract.
  \<^item> \<open>Line_Interconnect\<close>: PCM slots and \<open>i4b_slot_li_alloc\<close>, \<open>i4b_slot_li_free\<close>; no slot is used twice.
  \<^item> \<open>Call_Desc\<close>: descriptors, channels and the controller of \<^verbatim>\<open>i4b_l4mgmt.c\<close>; the locale \<open>id_allocator\<close>
    is the contract of a search for an unused number with a counter that wraps.
  \<^item> \<open>DSS1_Buffer\<close>: \<open>dss1_get_1\<close> and the reading of strings, bounded by the frame.
  \<^item> \<open>DSS1_State\<close>: \<open>DSS1_TCP_pipe_t\<close>, \<open>l2softc_t\<close>, mbufs and the events of the stack.
  \<^item> \<open>DSS1_Encoder\<close>: every message that is sent, with the bounds on its size.
  \<^item> \<open>L4_Indications\<close>: the indications of \<^verbatim>\<open>i4b_l4.c\<close> and the shorthold timer.
  \<^item> \<open>DSS1_Call\<close>, \<open>DSS1_Invariant\<close>: the state of a call (\<open>cd_set_state\<close>) and the invariant of the stack.
  \<^item> \<open>DSS1_Link\<close>: states, timers and control frames of a link.
  \<^item> \<open>DSS1_L3fsm\<close>: \<open>cd_update\<close> with every event and the requests of the layer above.
  \<^item> \<open>DSS1_Decoder\<close>: the loop over information elements, all elements, \<open>dss1_pipe_data_ind\<close>.
  \<^item> \<open>DSS1_TEI\<close>, \<open>DSS1_Receive\<close>, \<open>DSS1_Transmit\<close>: TEI management, \<open>dss1_l2_put_mbuf\<close>, \<open>dss1_l2_get_mbuf\<close>.
  \<^item> \<open>I4B_Ioctl\<close>: the call commands of \<open>i4b_ioctl\<close>.
  \<^item> \<open>DSS1_Stack\<close>: connecting and disconnecting the driver, and the stack as a state machine.
  \<^item> \<open>Isdnd_Entry\<close>: the entries of the daemon, the number to dial, valid times, rates and the match of a call.
  \<^item> \<open>Isdnd_Fsm\<close>: the events of \<^verbatim>\<open>fsm.c\<close>, the messages of \<^verbatim>\<open>msg_encoder.h\<close> and \<^verbatim>\<open>msg_decoder.h\<close>.
  \<^item> \<open>Isdnd_Steps\<close>, \<open>Isdnd_Calls\<close>, \<open>Isdnd_Inv\<close>: what an event does to the entries, the invariant with the
    locale \<open>safe_steps\<close> for the loops over the table, and the daemon as a state machine.
  \<^item> \<open>Voice_G711\<close>, \<open>Voice_Sine\<close>: the tables of \<^verbatim>\<open>layer1/i4b_convert_xlaw.c\<close>, entry by entry, and the conversion of a
    buffer. The tables are those of G.711; the locale \<open>run_quantiser\<close> is the contract of a law given by its runs.
  \<^item> \<open>Voice_Sqrt\<close>, \<open>Voice_Tx\<close>, \<open>Voice_Rx\<close>, \<open>Voice_Filter\<close>: \<^verbatim>\<open>layer1/i4b_dtmf.c\<close>, the square root, the transmitter of key
    tones as a queue of tones and its signal, the detector of key tones as a function of the blocks of the
    channel, and that its filters do not overflow.
  \<^item> \<open>Echo_FFT\<close>, \<open>Echo_Cancel\<close>, \<open>Echo_Safe\<close>: the integer Fourier transform of \<^verbatim>\<open>layer1/i4b_echo_cancel.c\<close> with its tables, the
    echo canceller, and that every sequence of calls stays inside its arrays.

  \<^bold>\<open>How the stack is modelled.\<close> The state is one record, \<open>l2softc\<close>, for a controller and its softc; an
  operation is a function on it. A pointer to a descriptor or a pipe is an index, a string is the list of
  its characters up to the terminator, a timer is its pending delay, the memory allocator and the clock
  are fields that the environment sets (\<open>env_mbuf\<close> holds the answers to the next allocations, \<open>env_second\<close>
  the time). Messages to applications are collected in \<open>sc_trace\<close>. A null pointer that is followed, an
  index outside an array, a panic or a loop that does not end sets \<open>sc_fault\<close>; that it is never set is a
  theorem. \<open>dss1_step\<close> relates the states before and after one entry into the stack: a received frame, a
  request for a frame, a timer, a command of an application. All entries hold the lock of the controller,
  so interleavings are sequences of steps. The invariant \<open>dss1_inv A B\<close> has two exceptions, a link whose
  reference count and a call whose state is just being changed; both are empty between steps.

  \<^bold>\<open>How the daemon is modelled.\<close> The state is the record \<open>isdnd\<close>, an entry is its index in the table. What
  the kernel answers to the next requests, the time, random numbers and process numbers are fields that the step
  \<open>environment\<close> sets; what the daemon sends is collected in \<open>d_events\<close>. The kernel is assumed to hand out
  descriptors that no entry in a call has and to announce a call under one that no entry dials or is connected
  with; in the kernel, \<open>get_cdid\<close> is shown to return a number that no descriptor of the controller has.
  Times are unbounded integers, except for the two unsigned differences at the head of \<open>handle_recovery\<close>. Logging,
  accounting, the display, and the counters kept for them leave no trace in the model.

  \<^bold>\<open>How the voice functions are modelled.\<close> The state is the record \<open>i4b_dtmf_info_tx\<close>, \<open>i4b_dtmf_info_rx\<close> or
  \<open>i4b_echo_cancel\<close>, a buffer is the list of its octets; \<open>None\<close> is an access outside an array, a loop that does not end or a division by zero. Signed 32
  bit results that overflow wrap (\<open>wrap32\<close>), which the detector is shown never to need for its filters. What a new
  buffer holds before it is written is an argument of \<open>i4b_dtmf_generate\<close>.

  \<^bold>\<open>Bounds and fuel.\<close> Integers that the code lets wrap are words of their width. The search for a TEI has
  65 rounds, one more than there are odd automatic values, and never runs out. The insertion of zero length
  frames has two rounds, which is proved to be enough. The square root has sixteen rounds, one for each binary
  digit of its result, and always returns. The loop over information elements has as much fuel
  as the frame has octets; it is enough for frames of up to 65000 octets, far more than a D-channel frame has.

  \<^bold>\<open>What a state machine step assumes.\<close> A command is one for which \<open>cmd_ok\<close> holds: a cause has one of the
  two known types, and a number dialled again is not shorter than what was sent of the previous one. The first
  is an assumption that the code should check and does not; the theorem \<open>bad_cause_panics\<close> shows what happens.

  \<^bold>\<open>Not modelled.\<close> The CAPI interface (\<^verbatim>\<open>layer4/i4b_capidrv.c\<close>), another user of the requests modelled here: the
  definitions of its messages, \<^verbatim>\<open>i4b/include/capi20.h\<close>, are not in the repository. The drivers above the B-channels.
  How well the echo canceller removes an echo, for which there is no specification, and its Fourier transforms of
  other sizes, which the preprocessor leaves out. The chip drivers: register
  access whose effect is that of hardware. Opening, closing, reading and polling of the device files, the
  commands that configure a controller, and \<^verbatim>\<open>dss1/dss1_lite.c\<close>, a second protocol for analogue adapters.
  \<^verbatim>\<open>dss1/dss1_aoc.c\<close>, which no build file names and which does not compile as it stands. Of the daemon, the
  configuration file, \<open>msg_dialoutnumber\<close> (it may stop in the middle of the number it overwrites, and the
  octets after the terminator are not part of a string here), the display and the monitor; the other tools of
  \<^verbatim>\<open>usr.sbin\<close>. The generated tables of USB devices.
\<close>

section \<open>A sample run\<close>

text \<open>A controller with two descriptors and three channels, and an application dialling a number on it.\<close>

definition sample_sc :: l2softc where
  "sample_sc = \<lparr>cn_unit = 3, N_cdid_count = 0, N_cdid_end = 0, N_call_desc = replicate 2 cd_zero,
     N_channel_utilization = replicate 3 False, L1_channel_end = 3, cn_li = li_sample,
     sc_tei_last = 0, sc_received_frame = False, L1_deactivate_count = 0, L1_activity = False, L1_auto_activate = 0,
     nt_mode = False, primary_rate = False, point_to_point = False, no_power_save = False, no_status_enquiry = False,
     no_layer1_dialtone = False, N_serial_number = 0x1234, sc_ifq = [], sc_ifq_maxlen = 0, ID_REQUEST_callout = None,
     L1_activity_callout = None, sc_pipe = [], sc_current_pipe = 0, sc_current_mbuf = None, sc_current_length = 0,
     sc_current_tx_nr = 0, sc_fifo = False, env_second = 0, env_mbuf = [], env_listeners = [], env_encode_channel = id,
     env_decode_channel = id, env_next_id = 0, sc_trace = [], sc_fault = False\<rparr>"

definition sample_req :: msg_connect_req where
  "sample_req = \<lparr>mcr_channel = 1, mcr_bprot = BPROT_NONE, mcr_driver = 0, mcr_driver_unit = 0,
     mcr_shorthold_data = \<lparr>shorthold_algorithm = 0, unitlen_time = 0, idle_time = 0, earlyhup_time = 0\<rparr>,
     mcr_unitlen_method = 0, mcr_sending_not_complete = False, mcr_dst_telno = [49, 50], mcr_dst_subaddr = [],
     mcr_src_telno = [51], mcr_src_subaddr = [], mcr_keypad = []\<rparr>"

definition sample_call :: l2softc where
  "sample_call = fst (i4b_ioctl 7 0 False I4B_CDID_REQ (dss1_connect False False False sample_sc))"

definition sample_dial :: l2softc where
  "sample_dial = fst (i4b_ioctl 7 (MAKE_CDID 3 1) False (I4B_CONNECT_REQ sample_req) sample_call)"

lemma sample_ready: "cntl_ready sample_sc"
  by (simp add: cntl_ready_def sample_sc_def)

lemma ioctl_reachable:
  assumes "dss1_reachable s" "\<And>i. active s i \<Longrightarrow> cmd_ok cmd (cd_at s i)"
  shows "dss1_reachable (fst (i4b_ioctl sc cdid failed cmd s))"
  using dss1_reachable.step [OF assms(1) dss1_step.ioctl [OF assms(2) prod.collapse [symmetric]]] .

lemma sample_call_reachable: "dss1_reachable sample_call"
  unfolding sample_call_def by (rule ioctl_reachable [OF dss1_reachable.start [OF sample_ready]]) simp

lemma sample_call_ptrs: "map cd_dst_telno_ptr (N_call_desc sample_call) = [0, 0]"
  by code_simp

lemma sample_dial_reachable: "dss1_reachable sample_dial"
  unfolding sample_dial_def
proof (rule ioctl_reachable [OF sample_call_reachable])
  fix i
  assume "active sample_call i"
  then have "cd_dst_telno_ptr (cd_at sample_call i) \<in> set (map cd_dst_telno_ptr (N_call_desc sample_call))"
    by (simp add: active_def cd_at_def)
  then have "cd_dst_telno_ptr (cd_at sample_call i) = 0"
    using sample_call_ptrs by (simp del: set_map)
  then show "cmd_ok (I4B_CONNECT_REQ sample_req) (cd_at sample_call i)"
    by simp
qed

section \<open>Properties of the stack\<close>







text \<open>
  C4: No B-channel belongs to two calls, and a channel other than the D-channel is marked in use
  exactly if a call owns it.
\<close>

theorem channels_are_exclusive:
  assumes "dss1_reachable s" "0 < c" "c < L1_channel_end s"
  shows "N_channel_utilization s ! c = (\<exists>!i. owns_channel s i c)"
  using chan_invD [OF dss1_invD(4) [OF reachable_inv [OF assms(1)]]] assms(2,3) by (metis less_numeral_extra(3))

theorem channels_are_exclusive_witness:
  "N_channel_utilization sample_dial ! 1 = (\<exists>!i. owns_channel sample_dial i 1)"
proof (rule channels_are_exclusive [OF sample_dial_reachable])
  show "1 < L1_channel_end sample_dial"
    by code_simp
qed simp

text \<open>
  C5: The queue of a link holds at most two frames more than its bound, the two that are inserted to
  find out the frame number of the other side, and the frames sent and not acknowledged are part of it.
\<close>

theorem queues_are_bounded:
  assumes "dss1_reachable s" "p < PIPE_MAX"
  shows "length (ifq (pipe_at s p)) \<le> ifq_maxlen (pipe_at s p) + 2 \<and>
    tx_window_length (pipe_at s p) \<le> tx_window_size (pipe_at s p) \<and>
    unat (tx_window_size (pipe_at s p)) \<le> length (ifq (pipe_at s p))"
proof -
  have "queue_ok (adapter s p) (pipe_at s p)"
    using dss1_invD(8) [OF reachable_inv [OF assms(1)] assms(2)] by (simp add: pipe_ok_def)
  then show ?thesis
    using zif_count_le [of is_zif "ifq (pipe_at s p)"] by (auto simp: queue_ok_def backlog_ok_def windows_ok_def)
qed

theorem queues_are_bounded_witness:
  "length (ifq (pipe_at sample_dial 0)) \<le> ifq_maxlen (pipe_at sample_dial 0) + 2"
  using queues_are_bounded [OF sample_dial_reachable, of 0] by simp


text \<open>
  C18: The search for a TEI always ends, with an odd value of the automatic range that no link uses.
\<close>

theorem TEI_is_fresh:
  assumes "dss1_reachable s"
  shows "\<exists>t. dss1_get_unused_TEI s = (s\<lparr>sc_tei_last := t\<rparr>, Some t) \<and> odd (unat t) \<and> 128 \<le> unat t \<and>
    t \<notin> tei ` set (sc_pipe s)"
  using get_unused_TEI_works [OF dss1_invD(1) [OF reachable_inv [OF assms]]] by (auto simp: automatic_TEIs_def)

theorem TEI_is_fresh_witness:
  "\<exists>t. dss1_get_unused_TEI sample_dial = (sample_dial\<lparr>sc_tei_last := t\<rparr>, Some t) \<and> odd (unat t) \<and> 128 \<le> unat t \<and>
    t \<notin> tei ` set (sc_pipe sample_dial)"
  by (rule TEI_is_fresh [OF sample_dial_reachable])


text \<open>A point-to-point link does not wait for a TEI.\<close>

definition sample_p2p :: l2softc where
  "sample_p2p = fst (i4b_ioctl 7 (MAKE_CDID 3 1) False (I4B_CONNECT_REQ sample_req)
     (fst (i4b_ioctl 7 0 False I4B_CDID_REQ (dss1_connect False True False sample_sc))))"

lemma sample_p2p_reachable: "dss1_reachable sample_p2p"
  unfolding sample_p2p_def
proof (rule ioctl_reachable)
  let ?s = "fst (i4b_ioctl 7 0 False I4B_CDID_REQ (dss1_connect False True False sample_sc))"
  show "dss1_reachable ?s"
    by (rule ioctl_reachable [OF dss1_reachable.start [OF sample_ready]]) simp
  fix i
  have "map cd_dst_telno_ptr (N_call_desc ?s) = [0, 0]"
    by code_simp
  moreover assume "active ?s i"
  then have "cd_dst_telno_ptr (cd_at ?s i) \<in> set (map cd_dst_telno_ptr (N_call_desc ?s))"
    by (simp add: active_def cd_at_def)
  ultimately have "cd_dst_telno_ptr (cd_at ?s i) = 0"
    by (simp del: set_map)
  then show "cmd_ok (I4B_CONNECT_REQ sample_req) (cd_at ?s i)"
    by simp
qed


text \<open>
  C19: Every message of the encoder fits the mbuf it is written into, for every call of a reachable
  state: 4 octets of header and a SETUP message fit 2048, every other message fits 264.
\<close>

theorem messages_fit:
  assumes "dss1_reachable s" "active s i"
  shows "I_HEADER_LEN + length (setup_message s (cd_at s i)) \<le> SETUP_MAX_DATALEN \<and>
    I_HEADER_LEN + length (l3_message s (cd_at s i) mt flag q850) \<le> DCH_MAX_DATALEN"
proof -
  have "strings_ok (cd_at s i)"
    using active_ready(1) [OF reachable_inv [OF assms(1)] assms(2)] by (simp add: ready_def)
  then show ?thesis
    using length_setup_message [of "cd_at s i" s] length_l3_message [of "cd_at s i" s mt flag q850]
    by (simp add: I_HEADER_LEN_def SETUP_MAX_DATALEN_def DCH_MAX_DATALEN_def)
qed

theorem messages_fit_witness:
  "I_HEADER_LEN + length (setup_message sample_dial (cd_at sample_dial 0)) \<le> SETUP_MAX_DATALEN"
proof -
  have "active sample_dial 0"
    by code_simp
  then show ?thesis
    using messages_fit [OF sample_dial_reachable, of 0] by blast
qed

section \<open>Errors\<close>

text \<open>
  C20: A request for a call of another application changes nothing at all.
\<close>

theorem foreign_calls_are_protected:
  assumes "dss1_reachable s" "active s i" "\<not> owns sc (cd_at s i)"
  shows "fst (i4b_ioctl sc (cd_cdid (cd_at s i)) failed cmd s) = s"
proof -
  have i: "i < length (N_call_desc s)" "cd_cdid (cd_at s i) \<noteq> CDID_UNUSED"
    using assms(2) by (simp_all add: active_def)
  obtain k where k: "find_index (\<lambda>cd. cd_cdid cd = cd_cdid (cd_at s i)) (N_call_desc s) = Some k"
    using find_index_first [OF i(1), of "\<lambda>cd. cd_cdid cd = cd_cdid (cd_at s i)"] by (auto simp: cd_at_def)
  have "k < length (N_call_desc s)" "cd_cdid (cd_at s k) = cd_cdid (cd_at s i)"
    using find_index_Some [OF k] by (simp_all add: cd_at_def)
  then have "k = i"
    using dss1_invD(5) [OF reachable_inv [OF assms(1)]] i unfolding unique_cdids_def by simp
  then have "cd_by_cdid s (cd_cdid (cd_at s i)) = Some i"
    using k i by (simp add: cd_by_cdid_def)
  then show ?thesis
    using assms(3) by (simp add: i4b_ioctl_def)
qed

theorem foreign_calls_are_protected_witness:
  "fst (i4b_ioctl 8 (cd_cdid (cd_at sample_dial 0)) False (I4B_DISCONNECT_REQ 0x100) sample_dial) = sample_dial"
proof (rule foreign_calls_are_protected [OF sample_dial_reachable])
  show "active sample_dial 0"
    by code_simp
  show "\<not> owns 8 (cd_at sample_dial 0)"
    by code_simp
qed

lemma word_two_le: "(2 \<le> x) = (x \<noteq> 0 \<and> x \<noteq> 1)" for x :: u32
proof -
  have "(x \<noteq> 0 \<and> x \<noteq> 1) = (unat x \<noteq> 0 \<and> unat x \<noteq> 1)"
    by (metis unat_0 unat_1 unsigned_word_eqI)
  then show ?thesis
    by (auto simp: word_le_nat_alt)
qed

lemma and_7F_less: "x AND 0x7F < (0x80 :: u8)"
  using word_and_le1 [of x "0x7F"] by (rule order.strict_trans1) simp

lemma q850_conv_range: "\<forall>v\<in>set I4B_CAUSES_Q850_CONV. v < 0x80" "length I4B_CAUSES_Q850_CONV = 10"
  by (simp_all add: I4B_CAUSES_Q850_CONV_def)

text \<open>
  A cause of the protocol or of the driver is translated to seven bits; for every other type of
  cause the translation fails, which is a panic in the code.
\<close>

theorem q850_cause_total:
  "(i4b_make_q850_cause cause = None \<longleftrightarrow> 2 \<le> drop_bit 8 cause AND 0xFF) \<and>
   (case i4b_make_q850_cause cause of None \<Rightarrow> True | Some v \<Rightarrow> v < 0x80)"
proof -
  have "I4B_CAUSES_Q850_CONV ! (if 10 \<le> r then 0 else unat r) < 0x80" for r :: u8
  proof -
    have "\<not> 10 \<le> r \<Longrightarrow> unat r < 10"
      by (simp add: word_le_nat_alt)
    then have "(if 10 \<le> r then 0 else unat r) < length I4B_CAUSES_Q850_CONV"
      by (simp add: q850_conv_range)
    then show ?thesis
      using q850_conv_range(1) nth_mem by blast
  qed
  then show ?thesis
    by (simp add: i4b_make_q850_cause_def Let_def and_7F_less word_two_le)
qed
text \<open>
  C21: That panic can be provoked: an application that hangs up with a cause of an unknown type brings
  the stack down, in a state every application can bring about.
\<close>

theorem bad_cause_panics:
  "dss1_reachable sample_dial \<and>
   sc_fault (fst (i4b_ioctl 7 (MAKE_CDID 3 1) False (I4B_DISCONNECT_REQ 0x200) sample_dial))"
proof
  show "sc_fault (fst (i4b_ioctl 7 (MAKE_CDID 3 1) False (I4B_DISCONNECT_REQ 0x200) sample_dial))"
    by code_simp
qed (rule sample_dial_reachable)


text \<open>
  C23: The text of a display element is lost: whatever the element holds, the descriptor ends up with an
  empty text, since the size passed for it is that of one character.
\<close>

theorem display_text_lost:
  assumes "dss1_get_1 buf 0 = 0x28"
  shows "cd_display (ie_cd s buf cd) = []"
  using multi_string_bounds(1) [of 1 "cd_display cd" buf 2 True] assms by (simp add: ie_cd_def Let_def)

theorem display_text_lost_witness:
  "cd_display (ie_cd sample_sc (as_buffer [0x28, 3, 0x48, 0x69, 0x21]) cd_zero) = []"
proof (rule display_text_lost)
  show "dss1_get_1 (as_buffer [0x28, 3, 0x48, 0x69, 0x21]) 0 = 0x28"
    by code_simp
qed

end
